(* ===== verification/Prelude.thy ===== *)
theory Prelude
  imports Main "HOL-Library.Word"
begin

text \<open>
  What the components share: the names of the machine integers, the result type of
  fallible Go functions, the big-endian integers of package \<open>encoding/binary\<close> as a
  fixed-width codec, and the generic lemmas on lists, options and association lists that
  carry the component proofs.
\<close>

unbundle bit_operations_syntax

named_theorems go_eval \<open>rules by which simp evaluates the model on concrete inputs\<close>

section \<open>Machine integers and results\<close>

type_synonym byte = "8 word"
type_synonym u16 = "16 word"
type_synonym u32 = "32 word"
type_synonym u64 = "64 word"

text \<open>
  A Go function that returns \<open>(T, error)\<close> is a function into \<open>'e + 'a\<close>: \<open>Inl\<close>
  is a non-nil error, \<open>Inr\<close> the value with a nil error. \<open>and_then\<close> is the early
  return: the rest of the body runs only when the call did not fail.
\<close>

definition and_then :: "'e + 'a \<Rightarrow> ('a \<Rightarrow> 'e + 'b) \<Rightarrow> 'e + 'b" where
  "and_then r f = (case r of Inl e \<Rightarrow> Inl e | Inr a \<Rightarrow> f a)"

lemma and_then_simps [simp]:
  "and_then (Inl e) f = Inl e"
  "and_then (Inr a) f = f a"
  by (simp_all add: and_then_def)

lemma and_then_eq_Inr [simp]: "and_then r f = Inr b \<longleftrightarrow> (\<exists>a. r = Inr a \<and> f a = Inr b)"
  by (cases r) simp_all

lemma and_then_eq_Inl: "and_then r f = Inl e \<longleftrightarrow> r = Inl e \<or> (\<exists>a. r = Inr a \<and> f a = Inl e)"
  by (cases r) simp_all

definition ok :: "'e + 'a \<Rightarrow> bool" where
  "ok r = (case r of Inl _ \<Rightarrow> False | Inr _ \<Rightarrow> True)"

lemma ok_simps [simp]: "ok (Inl e) = False" "ok (Inr a) = True"
  by (simp_all add: ok_def)

lemma ok_iff: "ok r \<longleftrightarrow> (\<exists>a. r = Inr a)"
  by (cases r) simp_all

section \<open>Lists\<close>

text \<open>\<open>buf[i:j]\<close> on a slice that is long enough.\<close>

definition slice :: "nat \<Rightarrow> nat \<Rightarrow> 'a list \<Rightarrow> 'a list" where
  "slice i j xs = take (j - i) (drop i xs)"

lemma length_slice [simp]: "j \<le> length xs \<Longrightarrow> length (slice i j xs) = j - i"
  by (simp add: slice_def)

lemma slice_append_left [simp]: "j \<le> length xs \<Longrightarrow> slice i j (xs @ ys) = slice i j xs"
  by (simp add: slice_def)

lemma slice_append_right [simp]:
  "length xs \<le> i \<Longrightarrow> slice i j (xs @ ys) = slice (i - length xs) (j - length xs) ys"
  by (simp add: slice_def)

lemma slice_all [simp]: "length xs = j \<Longrightarrow> slice 0 j xs = xs"
  by (simp add: slice_def)

text \<open>
  A Go map filled by \<open>for _, x := range xs { m[key(x)] = x }\<close>: the last entry with a key
  wins, so the lookup runs over the reversed list.
\<close>

definition index_by :: "('a \<Rightarrow> 'k) \<Rightarrow> 'a list \<Rightarrow> 'k \<Rightarrow> 'a option" where
  "index_by key xs k = find (\<lambda>x. key x = k) (rev xs)"

text \<open>The keys of that map as a list without repetition, in first-insertion order.\<close>

fun keys_once :: "'k list \<Rightarrow> 'k list" where
  "keys_once [] = []"
| "keys_once (k # ks) = k # keys_once (filter (\<lambda>k'. k' \<noteq> k) ks)"

lemma find_key_Some: "find (\<lambda>x. key x = k) xs = Some y \<Longrightarrow> y \<in> set xs \<and> key y = k"
  by (auto simp: find_Some_iff)

lemma index_by_Some: "index_by key xs k = Some y \<Longrightarrow> y \<in> set xs \<and> key y = k"
  by (auto simp: index_by_def dest: find_key_Some)

lemma index_by_None: "index_by key xs k = None \<longleftrightarrow> k \<notin> key ` set xs"
  by (auto simp: index_by_def find_None_iff)

lemma index_by_empty [simp]: "index_by key [] k = None"
  by (simp add: index_by_def)

lemma find_Some_in: "find P xs = Some x \<Longrightarrow> x \<in> set xs \<and> P x"
  by (induction xs) (auto split: if_splits)

lemma sum_list_less:
  fixes f :: "'a \<Rightarrow> nat"
  assumes "\<forall>x \<in> set xs. f x \<le> g x" and "y \<in> set xs" and "f y < g y"
  shows "sum_list (map f xs) < sum_list (map g xs)"
  using assms
proof (induction xs)
  case (Cons x xs)
  have "sum_list (map f xs) \<le> sum_list (map g xs)" using Cons.prems(1) by (intro sum_list_mono) simp
  moreover have "y = x \<or> y \<in> set xs" using Cons.prems(2) by simp
  ultimately show ?case using Cons by fastforce
qed simp

lemma length_filter_sum: "length (filter P xs) = sum_list (map (\<lambda>x. if P x then 1 else 0 :: nat) xs)"
  by (induction xs) auto

lemma find_append:
  "find P (xs @ ys) = (case find P xs of Some y \<Rightarrow> Some y | None \<Rightarrow> find P ys)"
  by (induction xs) auto

lemma index_by_Cons:
  "index_by key (x # xs) k = (case index_by key xs k of Some y \<Rightarrow> Some y
     | None \<Rightarrow> if key x = k then Some x else None)"
  by (simp add: index_by_def find_append split: option.splits)

lemma index_by_distinct:
  assumes "distinct (map key xs)" and "y \<in> set xs"
  shows "index_by key xs (key y) = Some y"
proof -
  obtain z where z: "index_by key xs (key y) = Some z"
    using assms(2) by (cases "index_by key xs (key y)") (auto simp: index_by_None)
  then have "z \<in> set xs" "key z = key y" by (auto dest: index_by_Some)
  then have "z = y" using assms by (auto simp: distinct_map inj_on_def)
  with z show ?thesis by simp
qed

lemma index_by_iff:
  "distinct (map key xs) \<Longrightarrow> index_by key xs k = Some y \<longleftrightarrow> y \<in> set xs \<and> key y = k"
  using index_by_distinct [of key xs y] index_by_Some [of key xs k y] by auto

lemma set_keys_once [simp]: "set (keys_once ks) = set ks"
  by (induction ks rule: keys_once.induct) auto

lemma distinct_keys_once [simp]: "distinct (keys_once ks)"
  by (induction ks rule: keys_once.induct) auto

lemma keys_once_distinct [simp]: "distinct ks \<Longrightarrow> keys_once ks = ks"
proof (induction ks rule: keys_once.induct)
  case 1
  then show ?case by simp
next
  case (2 k ks)
  then have "filter (\<lambda>k'. k' \<noteq> k) ks = ks" by (auto simp: filter_id_conv)
  with 2 show ?case by simp
qed

lemma distinct_map_filterI: "distinct (map f xs) \<Longrightarrow> distinct (map f (filter P xs))"
  by (induction xs) auto

lemma map_filter_Nil: "List.map_filter f xs = [] \<longleftrightarrow> (\<forall>x \<in> set xs. f x = None)"
  by (induction xs) (auto simp: List.map_filter_simps split: option.splits)

lemma set_map_filter: "set (List.map_filter f xs) = {y. \<exists>x \<in> set xs. f x = Some y}"
  by (induction xs) (auto simp: List.map_filter_simps split: option.splits)

section \<open>Big-endian integers\<close>

text \<open>
  \<open>binary.BigEndian.UintN\<close> shifts the bytes in from the most significant one;
  \<open>PutUintN\<close> writes them out in the same order.
\<close>

definition be_get :: "byte list \<Rightarrow> 'a::len word" where
  "be_get bs = foldl (\<lambda>acc b. push_bit 8 acc OR ucast b) 0 bs"

definition be_put :: "nat \<Rightarrow> 'a::len word \<Rightarrow> byte list" where
  "be_put n v = map (\<lambda>i. ucast (drop_bit (8 * i) v)) (rev [0..<n])"

lemma length_be_put [simp]: "length (be_put n v) = n"
  by (simp add: be_put_def)

lemma be_put_Suc: "be_put (Suc n) v = ucast (drop_bit (8 * n) v) # be_put n v"
  by (simp add: be_put_def)

lemma be_get_snoc: "be_get (bs @ [b]) = push_bit 8 (be_get bs) OR ucast b"
  by (simp add: be_get_def)

lemma bit_byte_bound: "bit (b :: byte) k \<Longrightarrow> k < 8"
  using bit_imp_le_length [of b k] by simp

text \<open>Bit \<open>k\<close> of the value is bit \<open>k mod 8\<close> of the byte that holds it.\<close>

lemma bit_be_get:
  "bit (be_get bs :: 'a::len word) k \<longleftrightarrow>
     k < LENGTH('a) \<and> k < 8 * length bs \<and> bit (rev bs ! (k div 8)) (k mod 8)"
proof (induction bs arbitrary: k rule: rev_induct)
  case Nil
  then show ?case by (simp add: be_get_def)
next
  case (snoc b bs)
  show ?case
  proof (cases "k < 8")
    case True
    then show ?thesis
      by (auto simp: be_get_snoc bit_or_iff bit_push_bit_iff bit_ucast_iff)
  next
    case False
    have "\<not> bit b k" using False bit_byte_bound [of b k] by auto
    moreover obtain j where j: "k = 8 + j" using False by (metis le_add_diff_inverse not_less)
    moreover have "(8 + j) div 8 = Suc (j div 8)" by simp
    ultimately show ?thesis
      by (auto simp: be_get_snoc bit_or_iff bit_push_bit_iff bit_ucast_iff snoc.IH)
  qed
qed

lemma rev_be_put_nth: "i < n \<Longrightarrow> rev (be_put n v) ! i = ucast (drop_bit (8 * i) v)"
  by (simp add: be_put_def rev_map)

lemma be_get_put:
  assumes "LENGTH('a::len) = 8 * n"
  shows "be_get (be_put n (v :: 'a word)) = v"
proof (rule bit_eqI)
  fix k
  have "bit (ucast (drop_bit (8 * (k div 8)) v) :: byte) (k mod 8) = bit v k"
    by (simp add: bit_ucast_iff bit_drop_bit_eq)
  moreover have "k < 8 * n \<Longrightarrow> k div 8 < n" by auto
  ultimately show "bit (be_get (be_put n v) :: 'a word) k = bit v k"
    using assms bit_imp_le_length [of v k] by (auto simp: bit_be_get rev_be_put_nth)
qed

lemma be_put_get:
  assumes "LENGTH('a::len) = 8 * length bs"
  shows "be_put (length bs) (be_get bs :: 'a word) = bs"
proof -
  have "rev (be_put (length bs) (be_get bs :: 'a word)) = rev bs"
  proof (rule nth_equalityI)
    show "length (rev (be_put (length bs) (be_get bs :: 'a word))) = length (rev bs)" by simp
    fix i
    assume "i < length (rev (be_put (length bs) (be_get bs :: 'a word)))"
    then have i: "i < length bs" by simp
    have "(ucast (drop_bit (8 * i) (be_get bs :: 'a word)) :: byte) = rev bs ! i"
    proof (rule bit_eqI)
      fix k
      show "bit (ucast (drop_bit (8 * i) (be_get bs :: 'a word)) :: byte) k = bit (rev bs ! i) k"
      proof (cases "k < 8")
        case True
        then have "(8 * i + k) div 8 = i" "(8 * i + k) mod 8 = k" "8 * i + k < 8 * length bs"
          using i by auto
        with True assms show ?thesis
          by (simp add: bit_ucast_iff bit_drop_bit_eq bit_be_get)
      next
        case False
        then show ?thesis
          using bit_byte_bound [of "rev bs ! i" k] by (auto simp: bit_ucast_iff)
      qed
    qed
    then show "rev (be_put (length bs) (be_get bs :: 'a word)) ! i = rev bs ! i"
      using i by (simp add: rev_be_put_nth)
  qed
  then show ?thesis by simp
qed

section \<open>Fixed-width codecs\<close>

text \<open>
  The contract of an encoding that maps a value to \<open>w\<close> bytes and back. Whatever decodes a
  run of equally wide fields, such as the key list of READ KEYS, relies on these two laws.
\<close>

fun chunks :: "nat \<Rightarrow> nat \<Rightarrow> 'b list \<Rightarrow> 'b list list" where
  "chunks w 0 bs = []"
| "chunks w (Suc n) bs = take w bs # chunks w n (drop w bs)"

lemma length_chunks [simp]: "length (chunks w n bs) = n"
  by (induction n arbitrary: bs) simp_all

locale fixed_codec =
  fixes enc :: "'a \<Rightarrow> 'b list" and dec :: "'b list \<Rightarrow> 'a" and w :: nat
  assumes enc_length: "length (enc x) = w"
    and dec_enc: "dec (enc x) = x"
    and enc_dec: "length bs = w \<Longrightarrow> enc (dec bs) = bs"
begin

lemma length_enc_all: "length (concat (map enc xs)) = w * length xs"
  by (induction xs) (simp_all add: enc_length)

lemma dec_all_enc_all: "map dec (chunks w (length xs) (concat (map enc xs) @ rest)) = xs"
  by (induction xs) (simp_all add: enc_length dec_enc)

lemma enc_all_dec_all:
  "length bs = w * n \<Longrightarrow> concat (map enc (map dec (chunks w n bs))) = bs"
proof (induction n arbitrary: bs)
  case 0
  then show ?case by simp
next
  case (Suc n)
  then have "length (take w bs) = w" and "length (drop w bs) = w * n" by auto
  then have "enc (dec (take w bs)) = take w bs"
    and "concat (map enc (map dec (chunks w n (drop w bs)))) = drop w bs"
    using enc_dec Suc.IH by blast+
  then show ?case by (simp del: map_map)
qed

lemma enc_inj: "enc x = enc y \<Longrightarrow> x = y"
  by (metis dec_enc)

end

interpretation be16: fixed_codec "be_put 2 :: u16 \<Rightarrow> byte list" be_get 2
proof unfold_locales
  show "length bs = 2 \<Longrightarrow> be_put 2 (be_get bs :: u16) = bs" for bs
    using be_put_get [of bs, where 'a = 16] by simp
qed (simp_all add: be_get_put)

interpretation be32: fixed_codec "be_put 4 :: u32 \<Rightarrow> byte list" be_get 4
proof unfold_locales
  show "length bs = 4 \<Longrightarrow> be_put 4 (be_get bs :: u32) = bs" for bs
    using be_put_get [of bs, where 'a = 32] by simp
qed (simp_all add: be_get_put)

interpretation be64: fixed_codec "be_put 8 :: u64 \<Rightarrow> byte list" be_get 8
proof unfold_locales
  show "length bs = 8 \<Longrightarrow> be_put 8 (be_get bs :: u64) = bs" for bs
    using be_put_get [of bs, where 'a = 64] by simp
qed (simp_all add: be_get_put)

end
