(* ===== verification/Go_Text.thy ===== *)
theory Go_Text
  imports Prelude
begin

text \<open>
  The text functions of Go's \<open>strings\<close> and \<open>strconv\<close> packages, as far as the
  program uses them. A Go string is a byte sequence; it is a HOL \<^typ>\<open>string\<close>, whose
  characters are the 256 byte values. Searching, cutting and splitting are exact on every byte
  sequence. \<open>TrimSpace\<close> works on the UTF-8 encodings of the white-space code points;
  \<open>ToLower\<close> is modelled on the ASCII letters, the only ones the attribute files of the
  kernel contain.
\<close>

section \<open>Prefixes, suffixes and substrings\<close>

fun cutPrefix :: "string \<Rightarrow> string \<Rightarrow> string option" where
  "cutPrefix [] s = Some s"
| "cutPrefix (p # ps) [] = None"
| "cutPrefix (p # ps) (c # s) = (if p = c then cutPrefix ps s else None)"

definition hasPrefix :: "string \<Rightarrow> string \<Rightarrow> bool" where
  "hasPrefix p s = (cutPrefix p s \<noteq> None)"

definition trimPrefix :: "string \<Rightarrow> string \<Rightarrow> string" where
  "trimPrefix p s = (case cutPrefix p s of None \<Rightarrow> s | Some r \<Rightarrow> r)"

definition hasSuffix :: "string \<Rightarrow> string \<Rightarrow> bool" where
  "hasSuffix p s = hasPrefix (rev p) (rev s)"

definition trimSuffix :: "string \<Rightarrow> string \<Rightarrow> string" where
  "trimSuffix p s = (case cutPrefix (rev p) (rev s) of None \<Rightarrow> s | Some r \<Rightarrow> rev r)"

text \<open>\<open>strings.Cut\<close>: the text around the first occurrence of the separator.\<close>

fun cut :: "string \<Rightarrow> string \<Rightarrow> (string \<times> string) option" where
  "cut sep [] = (if sep = [] then Some ([], []) else None)"
| "cut sep (c # s) = (case cutPrefix sep (c # s) of
     Some r \<Rightarrow> Some ([], r)
   | None \<Rightarrow> (case cut sep s of None \<Rightarrow> None | Some (a, b) \<Rightarrow> Some (c # a, b)))"

definition contains_str :: "string \<Rightarrow> string \<Rightarrow> bool" where
  "contains_str sep s = (cut sep s \<noteq> None)"

text \<open>The text before the first separator, the whole text when there is none.\<close>

definition cut_before :: "string \<Rightarrow> string \<Rightarrow> string" where
  "cut_before sep s = (case cut sep s of None \<Rightarrow> s | Some (a, _) \<Rightarrow> a)"

fun splitChar :: "char \<Rightarrow> string \<Rightarrow> string list" where
  "splitChar c [] = [[]]"
| "splitChar c (x # s) = (if x = c then [] # splitChar c s
     else (case splitChar c s of [] \<Rightarrow> [[x]] | p # ps \<Rightarrow> (x # p) # ps))"

fun joinStr :: "string \<Rightarrow> string list \<Rightarrow> string" where
  "joinStr sep [] = []"
| "joinStr sep [s] = s"
| "joinStr sep (s # t # r) = s @ sep @ joinStr sep (t # r)"

text \<open>\<open>strings.LastIndexByte\<close> used as a cut at the last occurrence.\<close>

fun cutLast :: "char \<Rightarrow> string \<Rightarrow> (string \<times> string) option" where
  "cutLast c [] = None"
| "cutLast c (x # s) = (case cutLast c s of
     Some (a, b) \<Rightarrow> Some (x # a, b)
   | None \<Rightarrow> if x = c then Some ([], s) else None)"

definition removeChar :: "char \<Rightarrow> string \<Rightarrow> string" where
  "removeChar c s = filter (\<lambda>x. x \<noteq> c) s"

abbreviation nul :: char where "nul \<equiv> CHR 0x00"
abbreviation newline :: char where "newline \<equiv> CHR 0x0A"

lemma cutPrefix_Some: "cutPrefix p s = Some r \<longleftrightarrow> s = p @ r"
  by (induction p s rule: cutPrefix.induct) auto

lemma hasPrefix_iff: "hasPrefix p s \<longleftrightarrow> (\<exists>r. s = p @ r)"
  by (auto simp: hasPrefix_def cutPrefix_Some)

lemma cutPrefix_append [simp]: "cutPrefix p (p @ r) = Some r"
  by (simp add: cutPrefix_Some)

lemma hasPrefix_append [simp]: "hasPrefix p (p @ r)"
  by (simp add: hasPrefix_def)

lemma trimPrefix_append [simp]: "trimPrefix p (p @ r) = r"
  by (simp add: trimPrefix_def)

lemma cut_Some: "cut sep s = Some (a, b) \<Longrightarrow> s = a @ sep @ b"
  by (induction sep s arbitrary: a b rule: cut.induct)
     (auto simp: cutPrefix_Some split: option.splits if_splits)

lemma cutLast_Some: "cutLast c s = Some (a, b) \<Longrightarrow> s = a @ c # b \<and> c \<notin> set b"
proof (induction c s arbitrary: a b rule: cutLast.induct)
  case (2 c x s)
  have "cutLast c s = None \<Longrightarrow> c \<notin> set s" for s by (induction s) (auto split: option.splits if_splits)
  with 2 show ?case by (auto split: option.splits if_splits)
qed simp

lemma cutLast_append [simp]: "c \<notin> set b \<Longrightarrow> cutLast c (a @ c # b) = Some (a, b)"
proof -
  have none: "c \<notin> set b \<Longrightarrow> cutLast c b = None" for b by (induction b) auto
  show "c \<notin> set b \<Longrightarrow> cutLast c (a @ c # b) = Some (a, b)"
    by (induction a) (auto simp: none)
qed

lemma splitChar_nonempty [simp]: "splitChar c s \<noteq> []"
  by (induction s) (auto split: list.splits)

lemma splitChar_plain: "c \<notin> set s \<Longrightarrow> splitChar c s = [s]"
  by (induction s) auto

lemma splitChar_append: "c \<notin> set s \<Longrightarrow> splitChar c (s @ c # t) = s # splitChar c t"
  by (induction s) (auto split: list.splits)

text \<open>Splitting at a character is the inverse of joining pieces that do not contain it.\<close>

lemma splitChar_joinStr:
  "xs \<noteq> [] \<Longrightarrow> \<forall>x \<in> set xs. c \<notin> set x \<Longrightarrow> splitChar c (joinStr [c] xs) = xs"
  by (induction "[c]" xs rule: joinStr.induct) (auto simp: splitChar_plain splitChar_append)

lemma joinStr_splitChar: "joinStr [c] (splitChar c s) = s"
proof (induction s)
  case (Cons x s)
  obtain p ps where "splitChar c s = p # ps" by (cases "splitChar c s") auto
  with Cons show ?case by (cases ps) auto
qed simp

lemma splitChar_pieces: "p \<in> set (splitChar c s) \<Longrightarrow> c \<notin> set p \<and> set p \<subseteq> set s"
  by (induction s arbitrary: p) (fastforce split: list.splits if_splits)+

section \<open>White space\<close>

text \<open>
  The UTF-8 encodings of the code points for which \<open>unicode.IsSpace\<close> holds. The first byte
  of each is a start byte and the others are continuation bytes, so that a match at either end of
  a byte sequence is what decoding the rune there finds.
\<close>

definition space_encodings :: "string list" where
  "space_encodings =
     [[CHR 0x09], [CHR 0x0A], [CHR 0x0B], [CHR 0x0C], [CHR 0x0D], [CHR 0x20],
      [CHR 0xC2, CHR 0x85], [CHR 0xC2, CHR 0xA0], [CHR 0xE1, CHR 0x9A, CHR 0x80],
      [CHR 0xE2, CHR 0x80, CHR 0x80], [CHR 0xE2, CHR 0x80, CHR 0x81],
      [CHR 0xE2, CHR 0x80, CHR 0x82], [CHR 0xE2, CHR 0x80, CHR 0x83],
      [CHR 0xE2, CHR 0x80, CHR 0x84], [CHR 0xE2, CHR 0x80, CHR 0x85],
      [CHR 0xE2, CHR 0x80, CHR 0x86], [CHR 0xE2, CHR 0x80, CHR 0x87],
      [CHR 0xE2, CHR 0x80, CHR 0x88], [CHR 0xE2, CHR 0x80, CHR 0x89],
      [CHR 0xE2, CHR 0x80, CHR 0x8A], [CHR 0xE2, CHR 0x80, CHR 0xA8],
      [CHR 0xE2, CHR 0x80, CHR 0xA9], [CHR 0xE2, CHR 0x80, CHR 0xAF],
      [CHR 0xE2, CHR 0x81, CHR 0x9F], [CHR 0xE3, CHR 0x80, CHR 0x80]]"

text \<open>Drops one space of \<open>ps\<close> from the front, when there is one.\<close>

fun drop_one :: "string list \<Rightarrow> string \<Rightarrow> string option" where
  "drop_one [] s = None"
| "drop_one (p # ps) s = (if p = [] then drop_one ps s else
     (case cutPrefix p s of Some r \<Rightarrow> Some r | None \<Rightarrow> drop_one ps s))"

lemma drop_one_shorter: "drop_one ps s = Some r \<Longrightarrow> length r < length s"
  by (induction ps s rule: drop_one.induct) (auto simp: cutPrefix_Some split: if_splits option.splits)

function drop_spaces :: "string list \<Rightarrow> string \<Rightarrow> string" where
  "drop_spaces ps s = (case drop_one ps s of None \<Rightarrow> s | Some r \<Rightarrow> drop_spaces ps r)"
  by auto
termination by (relation "measure (\<lambda>(ps, s). length s)") (auto dest: drop_one_shorter)

declare drop_spaces.simps [simp del]

definition trimSpace :: "string \<Rightarrow> string" where
  "trimSpace s = rev (drop_spaces (map rev space_encodings) (rev (drop_spaces space_encodings s)))"

lemma drop_spaces_drop_one [simp]: "drop_one ps (drop_spaces ps s) = None"
  by (induction ps s rule: drop_spaces.induct) (subst drop_spaces.simps, simp split: option.splits)

lemma drop_spaces_none: "drop_one ps s = None \<Longrightarrow> drop_spaces ps s = s"
  by (subst drop_spaces.simps) simp

text \<open>\<open>strings.Fields\<close>: the runs of text between white space.\<close>

function fields_from :: "string \<Rightarrow> string \<Rightarrow> string list" where
  "fields_from acc s = (case drop_one space_encodings s of
     Some r \<Rightarrow> (if acc = [] then fields_from [] r else rev acc # fields_from [] r)
   | None \<Rightarrow> (case s of [] \<Rightarrow> (if acc = [] then [] else [rev acc]) | c # t \<Rightarrow> fields_from (c # acc) t))"
  by auto
termination by (relation "measure (\<lambda>(acc, s). length s)") (auto dest: drop_one_shorter)

declare fields_from.simps [simp del]

definition fieldsStr :: "string \<Rightarrow> string list" where
  "fieldsStr s = fields_from [] s"

text \<open>\<open>strings.ToLower\<close> on ASCII letters.\<close>

definition lower_char :: "char \<Rightarrow> char" where
  "lower_char c = (let n = of_char c :: nat in if 65 \<le> n \<and> n \<le> 90 then char_of (n + 32) else c)"

definition toLower :: "string \<Rightarrow> string" where
  "toLower = map lower_char"

section \<open>Numbers in text\<close>

definition digit_char :: "nat \<Rightarrow> char" where
  "digit_char d = (if d < 10 then char_of (48 + d) else char_of (87 + d))"

definition digit_val :: "char \<Rightarrow> nat option" where
  "digit_val c = (let n = of_char c :: nat in
     if 48 \<le> n \<and> n \<le> 57 then Some (n - 48)
     else if 97 \<le> n \<and> n \<le> 122 then Some (n - 87)
     else if 65 \<le> n \<and> n \<le> 90 then Some (n - 55)
     else None)"

function utoa :: "nat \<Rightarrow> string" where
  "utoa n = (if n < 10 then [digit_char n] else utoa (n div 10) @ [digit_char (n mod 10)])"
  by auto
termination by (relation "measure id") auto

declare utoa.simps [simp del]

definition itoa :: "int \<Rightarrow> string" where
  "itoa i = (if i < 0 then CHR ''-'' # utoa (nat (- i)) else utoa (nat i))"

text \<open>\<open>fmt\<close>'s \<open>%02x\<close> of a byte.\<close>

definition hex2 :: "byte \<Rightarrow> string" where
  "hex2 b = [digit_char (unat b div 16), digit_char (unat b mod 16)]"

fun digits_value :: "nat \<Rightarrow> nat \<Rightarrow> string \<Rightarrow> nat option" where
  "digits_value base acc [] = Some acc"
| "digits_value base acc (c # s) = (case digit_val c of
     None \<Rightarrow> None
   | Some d \<Rightarrow> if d < base then digits_value base (acc * base + d) s else None)"

text \<open>
  \<open>strconv.ParseUint\<close> with an explicit base: no sign, no prefix, no underscore, and the value
  must fit the width. \<open>ParseInt\<close> and \<open>Atoi\<close> accept one sign; both bound the value to
  \<open>int64\<close>.
\<close>

definition parseUint :: "nat \<Rightarrow> nat \<Rightarrow> string \<Rightarrow> nat option" where
  "parseUint base bits s = (if s = [] then None else
     (case digits_value base 0 s of None \<Rightarrow> None | Some n \<Rightarrow> if n < 2 ^ bits then Some n else None))"

definition parseInt10 :: "string \<Rightarrow> int option" where
  "parseInt10 s = (case s of
     [] \<Rightarrow> None
   | c # t \<Rightarrow>
       (let neg = (c = CHR ''-''); body = (if c = CHR ''-'' \<or> c = CHR ''+'' then t else s) in
        case parseUint 10 64 body of
          None \<Rightarrow> None
        | Some n \<Rightarrow> if neg then (if n \<le> 2 ^ 63 then Some (- int n) else None)
                    else (if n < 2 ^ 63 then Some (int n) else None)))"

abbreviation atoi_go :: "string \<Rightarrow> int option" where "atoi_go \<equiv> parseInt10"

lemma digit_val_char [simp]: "d < 16 \<Longrightarrow> digit_val (digit_char d) = Some d"
  by (simp add: digit_val_def digit_char_def Let_def)

lemma digits_value_append:
  "digits_value base acc (s @ t) = (case digits_value base acc s of None \<Rightarrow> None
     | Some a \<Rightarrow> digits_value base a t)"
  by (induction s arbitrary: acc) (auto split: option.splits)

lemma digits_value_utoa: "digits_value 10 0 (utoa n) = Some n"
  by (induction n rule: utoa.induct) (subst utoa.simps, auto simp: digits_value_append)

lemma utoa_nonempty [simp]: "utoa n \<noteq> []"
  by (subst utoa.simps) simp

text \<open>Printed decimals consist of digits, so no separator of a path or record occurs in them.\<close>

lemma digit_val_utoa: "c \<in> set (utoa n) \<Longrightarrow> \<exists>d < 10. c = digit_char d"
proof (induction n rule: utoa.induct)
  case (1 n)
  have "\<exists>d < 10. digit_char (n mod 10) = digit_char d"
    by (rule exI [of _ "n mod 10"]) simp
  with 1 show ?case by (subst (asm) utoa.simps) (auto split: if_splits)
qed

lemma digit_char_neq:
  assumes "digit_val c = None" and "d < 10"
  shows "digit_char d \<noteq> c"
  using assms digit_val_char [of d] by auto

lemma notin_utoa: "digit_val c = None \<Longrightarrow> c \<notin> set (utoa n)"
  using digit_val_utoa [of c n] digit_char_neq [of c] by auto

lemma notin_itoa: "digit_val c = None \<Longrightarrow> c \<noteq> CHR ''-'' \<Longrightarrow> c \<notin> set (itoa i)"
  by (auto simp: itoa_def notin_utoa)

lemma parseUint_utoa: "n < 2 ^ bits \<Longrightarrow> parseUint 10 bits (utoa n) = Some n"
  by (simp add: parseUint_def digits_value_utoa)

lemma parseInt10_itoa:
  assumes "- (2 ^ 63) \<le> i" and "i < 2 ^ 63"
  shows "parseInt10 (itoa i) = Some i"
proof (cases "i < 0")
  case True
  have "nat (- i) \<le> 2 ^ 63" using assms True by simp
  moreover from this have "parseUint 10 64 (utoa (nat (- i))) = Some (nat (- i))"
    by (intro parseUint_utoa) simp
  ultimately show ?thesis using True by (simp add: parseInt10_def itoa_def Let_def)
next
  case False
  have p: "parseUint 10 64 (utoa (nat i)) = Some (nat i)" using assms by (intro parseUint_utoa) simp
  obtain c t where ct: "utoa (nat i) = c # t" by (cases "utoa (nat i)") auto
  have "digit_val CHR ''-'' = None" "digit_val CHR ''+'' = None" by (simp_all add: digit_val_def)
  then have "CHR ''-'' \<notin> set (utoa (nat i))" "CHR ''+'' \<notin> set (utoa (nat i))"
    by (simp_all add: notin_utoa)
  then have "c \<noteq> CHR ''-''" "c \<noteq> CHR ''+''" using ct by auto
  with p ct False assms show ?thesis by (auto simp: parseInt10_def itoa_def Let_def)
qed

lemma utoa_inj: "utoa a = utoa b \<Longrightarrow> a = b"
  by (metis digits_value_utoa option.inject)

lemma itoa_inj:
  assumes "itoa i = itoa j"
  shows "i = j"
proof -
  have "CHR ''-'' \<notin> set (utoa n)" for n by (simp add: notin_utoa digit_val_def)
  then have "CHR ''-'' # t \<noteq> utoa n" "utoa n \<noteq> CHR ''-'' # t" for t n
    by (metis list.set_intros(1))+
  then have "(i < 0) = (j < 0)" and "nat (abs i) = nat (abs j)"
    using assms by (auto simp: itoa_def split: if_splits dest: utoa_inj)
  then show ?thesis by (auto split: if_splits)
qed

section \<open>Printable text\<close>

definition graphic :: "char \<Rightarrow> bool" where
  "graphic c = (let n = of_char c :: nat in 33 \<le> n \<and> n \<le> 126)"

lemma graphic_neq:
  assumes "graphic c"
  shows "c \<noteq> CHR 0x00" "c \<noteq> CHR 0x0A" "c \<noteq> CHR '' ''"
  using assms by (auto simp: graphic_def Let_def)

lemma drop_one_Some: "drop_one ps s = Some r \<Longrightarrow> \<exists>p \<in> set ps. p \<noteq> [] \<and> s = p @ r"
  by (induction ps s rule: drop_one.induct) (auto simp: cutPrefix_Some split: if_splits option.splits)

lemma spaces_not_graphic: "\<forall>p \<in> set space_encodings. \<not> graphic (hd p) \<and> \<not> graphic (last p)"
  by (simp add: space_encodings_def graphic_def Let_def)

lemma drop_one_graphic:
  assumes "graphic c" and "\<forall>p \<in> set ps. \<not> graphic (hd p)"
  shows "drop_one ps (c # s) = None"
proof (cases "drop_one ps (c # s)")
  case (Some r)
  then obtain p where "p \<in> set ps" "p \<noteq> []" "c # s = p @ r" using drop_one_Some by blast
  moreover from this(2,3) have "hd p = c" by (metis hd_append2 list.sel(1))
  ultimately show ?thesis using assms by blast
qed

lemma graphic_not_space:
  assumes "graphic c"
  shows "drop_one space_encodings (c # s) = None" "drop_one (map rev space_encodings) (c # s) = None"
proof -
  show "drop_one space_encodings (c # s) = None"
    using spaces_not_graphic by (intro drop_one_graphic [OF assms]) blast
  show "drop_one (map rev space_encodings) (c # s) = None"
  proof (rule drop_one_graphic [OF assms], rule ballI)
    fix q assume "q \<in> set (map rev space_encodings)"
    then obtain p where p: "p \<in> set space_encodings" "q = rev p" by auto
    then have "hd q = last p" by (simp only: hd_rev)
    then show "\<not> graphic (hd q)" using spaces_not_graphic p(1) by simp
  qed
qed

lemma trimSpace_Nil [simp]: "trimSpace [] = []"
  by (simp add: trimSpace_def space_encodings_def drop_spaces.simps)

text \<open>Text that begins and ends with a printable character is left as it is.\<close>

lemma trimSpace_graphic:
  assumes "s \<noteq> []" and "graphic (hd s)" and "graphic (last s)"
  shows "trimSpace s = s"
proof -
  have "drop_spaces space_encodings s = s"
    using assms graphic_not_space(1) by (cases s) (auto intro: drop_spaces_none)
  moreover have "drop_spaces (map rev space_encodings) (rev s) = rev s"
    using assms graphic_not_space(2) by (cases s rule: rev_cases) (auto intro: drop_spaces_none)
  ultimately show ?thesis by (simp add: trimSpace_def)
qed

lemma trimSpace_word: "list_all graphic s \<Longrightarrow> trimSpace s = s"
  by (cases "s = []") (auto simp: list_all_iff intro!: trimSpace_graphic)

lemma cut_absent: "x \<notin> set s \<Longrightarrow> cut (x # xs) s = None"
  by (induction s) auto

lemma cut_first: "x \<notin> set a \<Longrightarrow> cut (x # xs) (a @ x # xs @ b) = Some (a, b)"
  by (induction a) auto

lemma hasSuffix_last: "hasSuffix p s \<Longrightarrow> p \<noteq> [] \<Longrightarrow> s \<noteq> [] \<and> last s = last p"
  by (auto simp: hasSuffix_def hasPrefix_iff rev_eq_append_conv)

lemma removeChar_id: "c \<notin> set s \<Longrightarrow> removeChar c s = s"
  by (induction s) (auto simp: removeChar_def)

text \<open>\<open>fmt\<close>'s \<open>%0nx\<close>.\<close>

fun hexDigits :: "nat \<Rightarrow> nat \<Rightarrow> string" where
  "hexDigits 0 v = []"
| "hexDigits (Suc n) v = hexDigits n (v div 16) @ [digit_char (v mod 16)]"

lemma length_hexDigits [simp]: "length (hexDigits n v) = n"
  by (induction n arbitrary: v) auto

lemma digits_value_hexDigits: "digits_value 16 0 (hexDigits n v) = Some (v mod 16 ^ n)"
proof (induction n arbitrary: v)
  case (Suc n)
  have "(v div 16) mod 16 ^ n * 16 + v mod 16 = v mod 16 ^ Suc n"
    using mod_mult2_eq [of v 16 "16 ^ n"] by simp
  with Suc show ?case by (simp add: digits_value_append)
qed simp

lemma parseUint_hexDigits: "0 < n \<Longrightarrow> v < 16 ^ n \<Longrightarrow> v < 2 ^ bits \<Longrightarrow> parseUint 16 bits (hexDigits n v) = Some v"
  using length_hexDigits [of n v] by (auto simp: parseUint_def digits_value_hexDigits simp del: length_hexDigits)

lemma digit_char_graphic: "d < 16 \<Longrightarrow> graphic (digit_char d)"
  by (simp add: graphic_def digit_char_def Let_def)

lemma hexDigits_chars: "c \<in> set (hexDigits n v) \<Longrightarrow> \<exists>d < 16. c = digit_char d"
  by (induction n arbitrary: v) (auto, metis mod_less_divisor zero_less_numeral)

lemma hexDigits_graphic: "list_all graphic (hexDigits n v)"
  by (auto simp: list_all_iff dest: hexDigits_chars digit_char_graphic)

lemma last_graphic: "list_all graphic s \<Longrightarrow> s \<noteq> [] \<Longrightarrow> graphic (last (p @ s))"
  by (simp add: list_all_iff last_appendR)

lemma graphic_nul: "list_all graphic s \<Longrightarrow> nul \<notin> set s"
  using graphic_neq(1) by (auto simp: list_all_iff)

section \<open>Text of white space\<close>

definition blank :: "string \<Rightarrow> bool" where
  "blank s \<longleftrightarrow> (\<exists>ws. set ws \<subseteq> set space_encodings \<and> s = concat ws)"

lemma drop_spaces_empty: "drop_spaces ps s = [] \<Longrightarrow> \<exists>ws. set ws \<subseteq> set ps \<and> s = concat ws"
proof (induction ps s rule: drop_spaces.induct)
  case (1 ps s)
  show ?case
  proof (cases "drop_one ps s")
    case None
    then have "s = []" using "1.prems" by (simp add: drop_spaces.simps)
    then show ?thesis by (intro exI [of _ "[]"]) simp
  next
    case (Some r)
    obtain p where p: "p \<in> set ps" "s = p @ r" using drop_one_Some [OF Some] by blast
    have "drop_spaces ps r = []" using "1.prems" Some by (subst (asm) drop_spaces.simps) simp
    then obtain ws where "set ws \<subseteq> set ps" "r = concat ws" using "1.IH" [OF Some] by blast
    then show ?thesis using p by (intro exI [of _ "p # ws"]) simp
  qed
qed

lemma drop_one_space: "w \<in> set space_encodings \<Longrightarrow> drop_one space_encodings (w @ r) = Some r"
  by (simp add: space_encodings_def) (elim disjE; simp)

lemma drop_spaces_concat: "set ws \<subseteq> set space_encodings \<Longrightarrow> drop_spaces space_encodings (concat ws @ r) = drop_spaces space_encodings r"
  by (induction ws) (simp, subst drop_spaces.simps, simp add: drop_one_space)

lemma trimSpace_empty_iff: "trimSpace s = [] \<longleftrightarrow> blank s"
proof
  assume "blank s"
  then obtain ws where "set ws \<subseteq> set space_encodings" "s = concat ws" unfolding blank_def by blast
  then have "drop_spaces space_encodings s = drop_spaces space_encodings []" using drop_spaces_concat [of ws "[]"] by simp
  also have "\<dots> = []" by (simp add: drop_spaces.simps space_encodings_def)
  finally show "trimSpace s = []" by (simp add: trimSpace_def drop_spaces.simps space_encodings_def)
next
  let ?m = "drop_spaces space_encodings s"
  assume "trimSpace s = []"
  then have "drop_spaces (map rev space_encodings) (rev ?m) = []" by (simp add: trimSpace_def)
  then obtain ws where ws: "set ws \<subseteq> rev ` set space_encodings" "rev ?m = concat ws" using drop_spaces_empty by fastforce
  have m: "?m = concat (rev (map rev ws))" using ws(2) by (metis rev_concat rev_rev_ident rev_map)
  have in_enc: "set (rev (map rev ws)) \<subseteq> set space_encodings" using ws(1) by auto
  have "?m = []"
  proof (cases "rev (map rev ws)")
    case (Cons w vs)
    then have "drop_one space_encodings ?m = Some (concat vs)" using m in_enc drop_one_space by simp
    then show ?thesis by simp
  qed (use m in simp)
  then show "blank s" unfolding blank_def using drop_spaces_empty by blast
qed

text \<open>Lines of white space make a text of white space.\<close>

lemma blank_append: "blank a \<Longrightarrow> blank b \<Longrightarrow> blank (a @ b)"
  unfolding blank_def by (elim exE conjE) (rule_tac x = "ws @ wsa" in exI, simp)

lemma blank_newline: "blank [newline]"
  unfolding blank_def by (rule exI [of _ "[[newline]]"]) (simp add: space_encodings_def)

lemma blank_join: "\<forall>l \<in> set ls. blank l \<Longrightarrow> blank (joinStr [newline] ls)"
proof (induction "[newline]" ls rule: joinStr.induct)
  case 1 show ?case unfolding blank_def by (rule exI [of _ "[]"]) simp
next
  case (3 s t r)
  then show ?case using blank_append [OF _ blank_append [OF blank_newline]] by simp
qed simp

lemma blank_nul: "blank s \<Longrightarrow> nul \<notin> set s"
proof -
  have "\<forall>p \<in> set space_encodings. nul \<notin> set p" by (simp add: space_encodings_def)
  then show "blank s \<Longrightarrow> nul \<notin> set s" by (force simp: blank_def)
qed

lemma drop_spaces_suffix: "\<exists>a. s = a @ drop_spaces ps s"
proof (induction ps s rule: drop_spaces.induct)
  case (1 ps s)
  show ?case
  proof (cases "drop_one ps s")
    case None then show ?thesis by (simp add: drop_spaces_none)
  next
    case (Some r)
    obtain p where "s = p @ r" using drop_one_Some [OF Some] by blast
    moreover obtain a where "r = a @ drop_spaces ps r" using "1.IH" [OF Some] by blast
    moreover have "drop_spaces ps s = drop_spaces ps r" using Some by (subst drop_spaces.simps) simp
    ultimately show ?thesis by (metis append_assoc)
  qed
qed


text \<open>Trimming a line that begins with a printable character keeps a prefix of it.\<close>

lemma trimSpace_prefix:
  assumes "s = [] \<or> graphic (hd s)"
  shows "\<exists>b. s = trimSpace s @ b"
proof (cases s)
  case (Cons c t)
  then have "drop_spaces space_encodings s = s" using assms graphic_not_space(1) by (auto intro: drop_spaces_none)
  then have t: "trimSpace s = rev (drop_spaces (map rev space_encodings) (rev s))" by (simp add: trimSpace_def)
  obtain x where "rev s = x @ drop_spaces (map rev space_encodings) (rev s)"
    using drop_spaces_suffix by blast
  then have "s = rev (drop_spaces (map rev space_encodings) (rev s)) @ rev x" by (metis rev_append rev_rev_ident)
  then show ?thesis using t by metis
qed simp

section \<open>Evaluation on concrete text\<close>

lemma char_of_nat_bits [go_eval]:
  "(char_of :: nat \<Rightarrow> char) n = Char (odd n) (bit n 1) (bit n 2) (bit n 3) (bit n 4) (bit n 5) (bit n 6) (bit n 7)"
  by (simp add: char_of_def bit_0)

lemmas text_eval [go_eval] = bit_0 utoa.simps itoa_def digit_char_def digit_val_def parseInt10_def
  parseUint_def drop_spaces.simps fields_from.simps fieldsStr_def trimSpace_def space_encodings_def
  hasPrefix_def hasSuffix_def trimPrefix_def trimSuffix_def contains_str_def cut_before_def
  removeChar_def lower_char_def toLower_def

end
