(* ===== verification/Scsi.thy ===== *)
theory Scsi
  imports Go_Text
begin

text \<open>
  Package \<open>scsi\<close>: PERSISTENT RESERVE and READ CAPACITY(16) over the SG_IO ioctl. The ioctl
  and the device behind it are not part of the program: they are the parameter \<open>sgio\<close>, a
  function from a request and a device state to an errno or the header fields the kernel filled
  in, and a new device state. Every command of the package is a function of that parameter.
  A returned error is modelled by the constructor that stands for its message; the partly filled
  value some functions return beside an error is not kept.
\<close>

section \<open>Status and sense (sense.go)\<close>

definition StatusGood :: byte where "StatusGood = 0x00"
definition StatusCheckCondition :: byte where "StatusCheckCondition = 0x02"
definition StatusReservationConflict :: byte where "StatusReservationConflict = 0x18"
definition SenseUnitAttention :: byte where "SenseUnitAttention = 0x6"

lemmas status_defs = StatusGood_def StatusCheckCondition_def StatusReservationConflict_def
  SenseUnitAttention_def

definition StatusName :: "byte \<Rightarrow> string" where
  "StatusName s =
    (if s = StatusGood then ''GOOD''
     else if s = StatusCheckCondition then ''CHECK CONDITION''
     else if s = 0x04 then ''CONDITION MET''
     else if s = 0x08 then ''BUSY''
     else if s = StatusReservationConflict then ''RESERVATION CONFLICT''
     else if s = 0x28 then ''TASK SET FULL''
     else if s = 0x30 then ''ACA ACTIVE''
     else if s = 0x40 then ''TASK ABORTED''
     else ''UNKNOWN(0x'' @ hex2 s @ '')'')"

record Sense =
  sense_Key :: byte
  sense_ASC :: byte
  sense_ASCQ :: byte
  sense_Raw :: "byte list"
  sense_Valid :: bool

definition UnitAttention :: "Sense \<Rightarrow> bool" where
  "UnitAttention s \<longleftrightarrow> sense_Valid s \<and> sense_Key s = SenseUnitAttention"

definition parseSense :: "byte list \<Rightarrow> Sense option" where
  "parseSense b = (if length b = 0 then None else
    (let s = \<lparr>sense_Key = 0, sense_ASC = 0, sense_ASCQ = 0, sense_Raw = b, sense_Valid = False\<rparr>;
         rc = b ! 0 AND 0x7f in
     if rc = 0x70 \<or> rc = 0x71 then
       (if length b \<le> 13 then Some s
        else Some (s\<lparr>sense_Key := b ! 2 AND 0x0f, sense_ASC := b ! 12, sense_ASCQ := b ! 13,
                     sense_Valid := True\<rparr>))
     else if rc = 0x72 \<or> rc = 0x73 then
       (if length b \<le> 3 then Some s
        else Some (s\<lparr>sense_Key := b ! 1 AND 0x0f, sense_ASC := b ! 2, sense_ASCQ := b ! 3,
                     sense_Valid := True\<rparr>))
     else Some s))"

section \<open>Results and the ioctl (sgio.go, error.go)\<close>

record Result =
  res_Status :: byte
  res_StatusName :: string
  res_Sense :: "Sense option"
  res_Data :: "byte list"
  res_HostStatus :: u16
  res_DriverStatus :: u16

definition OK :: "Result \<Rightarrow> bool" where
  "OK r \<longleftrightarrow> res_Status r = StatusGood \<and> res_HostStatus r = 0 \<and> res_DriverStatus r AND 0x0f = 0"

definition Conflict :: "Result \<Rightarrow> bool" where
  "Conflict r \<longleftrightarrow> res_Status r = StatusReservationConflict \<and> res_HostStatus r = 0
     \<and> res_DriverStatus r AND 0x0f = 0"

type_synonym ReservationType = byte

datatype scsi_error =
    BothDirections
  | SgioErrno nat
  | SliceOutOfRange
  | StatusError string Result
  | BadResType string ReservationType
  | ShortPayload string nat
  | KeysNotMultiple nat
  | KeysTruncated nat nat
  | ReservationLength nat nat
  | ZeroBlockLength
  | PhysicalBlockTooBig u32 byte

definition StatusError_UnitAttention :: "Result \<Rightarrow> bool" where
  "StatusError_UnitAttention r = (case res_Sense r of None \<Rightarrow> False | Some s \<Rightarrow> UnitAttention s)"

record sg_request =
  dxferDirection :: int
  cmdLen :: byte
  mxSbLen :: byte
  dxferLen :: u32
  sg_timeout :: u32
  sg_cmd :: "byte list"
  sg_out :: "byte list"

record sg_answer =
  sg_status :: byte
  sbLenWr :: byte
  hostStatus :: u16
  driverStatus :: u16
  sg_resid :: int
  sg_sense :: "byte list"
  sg_in :: "byte list"

type_synonym 'd sgio = "sg_request \<Rightarrow> 'd \<Rightarrow> (nat + sg_answer) \<times> 'd"

text \<open>A buffer of \<open>n\<close> bytes, zeroed before the call, that the kernel writes into.\<close>

definition into_buffer :: "nat \<Rightarrow> byte list \<Rightarrow> byte list" where
  "into_buffer n bs = take n (bs @ replicate n 0)"

lemma length_into_buffer [simp]: "length (into_buffer n bs) = n"
  by (simp add: into_buffer_def)

lemma into_buffer_exact [simp]: "length bs = n \<Longrightarrow> into_buffer n bs = bs"
  by (simp add: into_buffer_def)

definition DefaultTimeout :: int where "DefaultTimeout = 20 * 10 ^ 9"

definition timeoutMS :: "int \<Rightarrow> u32" where
  "timeoutMS timeout = (let t = (if timeout \<le> 0 then DefaultTimeout else timeout) in
     word_of_int (t div 10 ^ 6))"

text \<open>
  \<open>sense[:h.sbLenWr]\<close> is a slice of a 32-byte buffer, so that a longer length is a panic.
\<close>

definition send :: "'d sgio \<Rightarrow> int \<Rightarrow> byte list \<Rightarrow> nat \<Rightarrow> byte list \<Rightarrow> 'd
    \<Rightarrow> (scsi_error + Result) \<times> 'd" where
  "send sgio timeout cdb dataIn dataOut d =
    (if dataIn > 0 \<and> length dataOut > 0 then (Inl BothDirections, d)
     else if cdb = [] then (Inl SliceOutOfRange, d)
     else
      (let h = \<lparr>dxferDirection = (if dataIn > 0 then - 3 else if length dataOut > 0 then - 2 else - 1),
                cmdLen = of_nat (length cdb), mxSbLen = 32,
                dxferLen = (if dataIn > 0 then of_nat dataIn else of_nat (length dataOut)),
                sg_timeout = timeoutMS timeout, sg_cmd = cdb, sg_out = dataOut\<rparr>
       in case sgio h d of
            (Inl errno, d') \<Rightarrow> (Inl (SgioErrno errno), d')
          | (Inr a, d') \<Rightarrow>
             (if unat (sbLenWr a) > 32 then (Inl SliceOutOfRange, d')
              else
               (let n = min (max (int dataIn - sg_resid a) 0) (int dataIn) in
                (Inr \<lparr>res_Status = sg_status a, res_StatusName = StatusName (sg_status a),
                      res_Sense = (if sbLenWr a > 0
                        then parseSense (take (unat (sbLenWr a)) (into_buffer 32 (sg_sense a)))
                        else None),
                      res_Data = (if dataIn > 0 then take (nat n) (into_buffer dataIn (sg_in a)) else []),
                      res_HostStatus = hostStatus a, res_DriverStatus = driverStatus a\<rparr>, d')))))"

section \<open>PERSISTENT RESERVE (pr.go)\<close>

definition proRegister :: byte where "proRegister = 0x00"
definition proReserve :: byte where "proReserve = 0x01"
definition proRelease :: byte where "proRelease = 0x02"
definition proClear :: byte where "proClear = 0x03"
definition proPreempt :: byte where "proPreempt = 0x04"
definition proPreemptAndAbort :: byte where "proPreemptAndAbort = 0x05"
definition proRegisterIgnoreExistingKey :: byte where "proRegisterIgnoreExistingKey = 0x06"

lemmas pro_defs = proRegister_def proReserve_def proRelease_def proClear_def proPreempt_def
  proPreemptAndAbort_def proRegisterIgnoreExistingKey_def

definition ResType_Valid :: "ReservationType \<Rightarrow> bool" where
  "ResType_Valid t \<longleftrightarrow> t \<in> set [0x1, 0x3, 0x5, 0x6, 0x7, 0x8]"

definition ResType_String :: "ReservationType \<Rightarrow> string" where
  "ResType_String t =
    (if t = 0x1 then ''Write Exclusive''
     else if t = 0x3 then ''Exclusive Access''
     else if t = 0x5 then ''Write Exclusive, Registrants Only''
     else if t = 0x6 then ''Exclusive Access, Registrants Only''
     else if t = 0x7 then ''Write Exclusive, All Registrants''
     else if t = 0x8 then ''Exclusive Access, All Registrants''
     else ''reservation type 0x'' @ hex2 t)"

definition prOutParamLen :: nat where "prOutParamLen = 24"

definition prOutBytes :: "byte \<Rightarrow> byte \<Rightarrow> ReservationType \<Rightarrow> u64 \<Rightarrow> u64 \<Rightarrow> bool
    \<Rightarrow> byte list \<times> byte list" where
  "prOutBytes sa scope resType key saKey aptpl =
    ([0x5f, sa AND 0x1f, push_bit 4 scope OR (resType AND 0x0f), 0, 0,
      0, 0, 0, of_nat prOutParamLen, 0],
     be_put 8 key @ be_put 8 saKey @ [0, 0, 0, 0] @ [if aptpl then 0x01 else 0] @ [0, 0, 0])"

definition prInCDB :: "byte \<Rightarrow> nat \<Rightarrow> byte list" where
  "prInCDB sa alloc = [0x5e, sa AND 0x1f, 0, 0, 0, 0, 0] @ be_put 2 (of_nat alloc :: u16) @ [0]"

definition prOut :: "'d sgio \<Rightarrow> int \<Rightarrow> byte \<Rightarrow> byte \<Rightarrow> ReservationType \<Rightarrow> u64 \<Rightarrow> u64 \<Rightarrow> bool \<Rightarrow> 'd
    \<Rightarrow> (scsi_error + Result) \<times> 'd" where
  "prOut sgio timeout sa scope resType key saKey aptpl =
    (case prOutBytes sa scope resType key saKey aptpl of (cdb, p) \<Rightarrow> send sgio timeout cdb 0 p)"

definition Register :: "'d sgio \<Rightarrow> int \<Rightarrow> u64 \<Rightarrow> u64 \<Rightarrow> bool \<Rightarrow> bool \<Rightarrow> 'd
    \<Rightarrow> (scsi_error + Result) \<times> 'd" where
  "Register sgio timeout oldKey key aptpl ignoreExisting =
    prOut sgio timeout (if ignoreExisting then proRegisterIgnoreExistingKey else proRegister)
      0 0 oldKey key aptpl"

definition Reserve :: "'d sgio \<Rightarrow> int \<Rightarrow> u64 \<Rightarrow> ReservationType \<Rightarrow> 'd \<Rightarrow> (scsi_error + Result) \<times> 'd" where
  "Reserve sgio timeout key resType d =
    (if \<not> ResType_Valid resType then (Inl (BadResType ''reserve'' resType), d)
     else prOut sgio timeout proReserve 0 resType key 0 False d)"

definition Release :: "'d sgio \<Rightarrow> int \<Rightarrow> u64 \<Rightarrow> ReservationType \<Rightarrow> 'd \<Rightarrow> (scsi_error + Result) \<times> 'd" where
  "Release sgio timeout key resType d =
    (if \<not> ResType_Valid resType then (Inl (BadResType ''release'' resType), d)
     else prOut sgio timeout proRelease 0 resType key 0 False d)"

definition Clear :: "'d sgio \<Rightarrow> int \<Rightarrow> u64 \<Rightarrow> 'd \<Rightarrow> (scsi_error + Result) \<times> 'd" where
  "Clear sgio timeout key = prOut sgio timeout proClear 0 0 key 0 False"

definition Preempt :: "'d sgio \<Rightarrow> int \<Rightarrow> u64 \<Rightarrow> u64 \<Rightarrow> ReservationType \<Rightarrow> 'd
    \<Rightarrow> (scsi_error + Result) \<times> 'd" where
  "Preempt sgio timeout key victim resType d =
    (if \<not> ResType_Valid resType then (Inl (BadResType ''preempt'' resType), d)
     else prOut sgio timeout proPreempt 0 resType key victim False d)"

definition PreemptAndAbort :: "'d sgio \<Rightarrow> int \<Rightarrow> u64 \<Rightarrow> u64 \<Rightarrow> ReservationType \<Rightarrow> 'd
    \<Rightarrow> (scsi_error + Result) \<times> 'd" where
  "PreemptAndAbort sgio timeout key victim resType d =
    (if \<not> ResType_Valid resType then (Inl (BadResType ''preemptandabort'' resType), d)
     else prOut sgio timeout proPreemptAndAbort 0 resType key victim False d)"

definition Unregister :: "'d sgio \<Rightarrow> int \<Rightarrow> u64 \<Rightarrow> 'd \<Rightarrow> (scsi_error + Result) \<times> 'd" where
  "Unregister sgio timeout key = prOut sgio timeout proRegister 0 0 key 0 False"

record Keys =
  keys_Generation :: u32
  keys_Keys :: "u64 list"
  keys_Result :: Result

record Reservation =
  rsv_Generation :: u32
  rsv_Held :: bool
  rsv_Key :: u64
  rsv_Scope :: byte
  rsv_Type :: ReservationType
  rsv_Result :: Result

text \<open>The loop \<open>for off := 8; off < 8+addLen; off += 8\<close>.\<close>

function keys_from :: "byte list \<Rightarrow> nat \<Rightarrow> nat \<Rightarrow> u64 list" where
  "keys_from data off end = (if off < end
     then be_get (slice off (off + 8) data) # keys_from data (off + 8) end else [])"
  by auto
termination by (relation "measure (\<lambda>(data, off, end). end - off)") auto

declare keys_from.simps [simp del]

definition parseReadKeys :: "byte list \<Rightarrow> scsi_error + u32 \<times> u64 list" where
  "parseReadKeys data =
    (if length data < 8 then Inl (ShortPayload ''READ KEYS'' (length data))
     else
      (let generation = be_get (slice 0 4 data);
           addLen = unat (be_get (slice 4 8 data) :: u32)
       in if addLen mod 8 \<noteq> 0 then Inl (KeysNotMultiple addLen)
          else if 8 + addLen > length data then Inl (KeysTruncated addLen (length data - 8))
          else Inr (generation, keys_from data 8 (8 + addLen))))"

definition ReadKeys :: "'d sgio \<Rightarrow> int \<Rightarrow> 'd \<Rightarrow> (scsi_error + Keys) \<times> 'd" where
  "ReadKeys sgio timeout d =
    (case send sgio timeout (prInCDB 0x00 8192) 8192 [] d of
       (Inl e, d') \<Rightarrow> (Inl e, d')
     | (Inr r, d') \<Rightarrow>
        (if \<not> OK r then Inl (StatusError ''READ KEYS'' r)
         else and_then (parseReadKeys (res_Data r)) (\<lambda>(gen, keys).
           Inr \<lparr>keys_Generation = gen, keys_Keys = keys, keys_Result = r\<rparr>), d'))"

definition parseReadReservation :: "byte list \<Rightarrow> scsi_error + bool \<times> u64 \<times> byte \<times> ReservationType" where
  "parseReadReservation data =
    (if length data < 8 then Inl (ShortPayload ''READ RESERVATION'' (length data))
     else
      (let addLen = unat (be_get (slice 4 8 data) :: u32) in
       if addLen = 0 then Inr (False, 0, 0, 0)
       else if addLen < 16 \<or> length data < 24 then Inl (ReservationLength addLen (length data))
       else Inr (True, be_get (slice 8 16 data), drop_bit 4 (data ! 21), data ! 21 AND 0x0f)))"

definition ReadReservation :: "'d sgio \<Rightarrow> int \<Rightarrow> 'd \<Rightarrow> (scsi_error + Reservation) \<times> 'd" where
  "ReadReservation sgio timeout d =
    (case send sgio timeout (prInCDB 0x01 256) 256 [] d of
       (Inl e, d') \<Rightarrow> (Inl e, d')
     | (Inr r, d') \<Rightarrow>
        (if \<not> OK r then Inl (StatusError ''READ RESERVATION'' r)
         else and_then (parseReadReservation (res_Data r)) (\<lambda>(held, key, scope, typ).
           Inr \<lparr>rsv_Generation = (if length (res_Data r) \<ge> 4 then be_get (slice 0 4 (res_Data r)) else 0),
                rsv_Held = held, rsv_Key = key, rsv_Scope = scope, rsv_Type = typ,
                rsv_Result = r\<rparr>), d'))"

section \<open>READ CAPACITY(16) (capacity.go)\<close>

record Capacity =
  cap_LastLBA :: u64
  cap_BlockLength :: u32
  cap_LBPPBExp :: byte
  cap_LowestAlignedLBA :: u16
  cap_Result :: Result

definition Bytes :: "Capacity \<Rightarrow> u64" where
  "Bytes c = (let blocks = cap_LastLBA c + 1; bl = ucast (cap_BlockLength c) :: u64 in
     if blocks = 0 then NOT 0
     else if bl \<noteq> 0 \<and> blocks > (NOT 0) div bl then NOT 0
     else blocks * bl)"

definition PhysicalBlockLength :: "Capacity \<Rightarrow> u32" where
  "PhysicalBlockLength c =
    (if cap_LBPPBExp c > 15 then cap_BlockLength c
     else (let p = push_bit (unat (cap_LBPPBExp c)) (ucast (cap_BlockLength c) :: u64) in
       if p > ucast (NOT 0 :: u32) then cap_BlockLength c else ucast p))"

definition parseCapacity16 :: "Result \<Rightarrow> byte list \<Rightarrow> scsi_error + Capacity" where
  "parseCapacity16 r data =
    (if length data < 16 then Inl (ShortPayload ''READ CAPACITY(16)'' (length data))
     else
      (let lastLBA = be_get (slice 0 8 data); blockLength = be_get (slice 8 12 data) :: u32;
           lbppbExp = data ! 13 AND 0x0f in
       if blockLength = 0 then Inl ZeroBlockLength
       else if push_bit (unat lbppbExp) (ucast blockLength :: u64) > ucast (NOT 0 :: u32)
         then Inl (PhysicalBlockTooBig blockLength lbppbExp)
       else Inr \<lparr>cap_LastLBA = lastLBA, cap_BlockLength = blockLength, cap_LBPPBExp = lbppbExp,
                 cap_LowestAlignedLBA = be_get (slice 14 16 data) AND 0x3fff, cap_Result = r\<rparr>))"

definition ReadCapacity16 :: "'d sgio \<Rightarrow> int \<Rightarrow> 'd \<Rightarrow> (scsi_error + Capacity) \<times> 'd" where
  "ReadCapacity16 sgio timeout d =
    (case send sgio timeout ([0x9e, 0x10, 0, 0, 0, 0, 0, 0, 0, 0] @ be_put 4 (32 :: u32) @ [0, 0])
        32 [] d of
       (Inl e, d') \<Rightarrow> (Inl e, d')
     | (Inr r, d') \<Rightarrow> (if \<not> OK r then Inl (StatusError ''READ CAPACITY(16)'' r)
         else parseCapacity16 r (res_Data r), d'))"

section \<open>Correctness of the decoders\<close>

lemma keys_from_chunks:
  "keys_from data off (off + 8 * n) = map be_get (chunks 8 n (drop off data))"
proof (induction n arbitrary: off)
  case 0
  then show ?case by (subst keys_from.simps) simp
next
  case (Suc n)
  have "keys_from data (off + 8) (off + 8 + 8 * n) = map be_get (chunks 8 n (drop 8 (drop off data)))"
    by (simp add: Suc.IH add.commute)
  then show ?case
    by (subst keys_from.simps) (simp add: slice_def algebra_simps)
qed

lemma chunks_append: "length bs = w * n \<Longrightarrow> chunks w n (bs @ rest) = chunks w n bs"
  by (induction n arbitrary: bs) auto

definition keys_payload :: "u32 \<Rightarrow> u64 list \<Rightarrow> byte list" where
  "keys_payload gen ks = be_put 4 gen @ be_put 4 (of_nat (8 * length ks) :: u32) @ concat (map (be_put 8) ks)"

lemma length_keys_payload: "length (keys_payload gen ks) = 8 + 8 * length ks"
  by (simp add: keys_payload_def be64.length_enc_all)

lemma unat_be32_len: "8 * n < 2 ^ 32 \<Longrightarrow> unat (of_nat (8 * n) :: u32) = 8 * n"
  by (simp add: unat_of_nat take_bit_eq_mod del: of_nat_mult)

lemma unat_less_32: "unat (w :: u32) < 2 ^ 32"
  by (rule order_less_le_trans [OF unsigned_less]) simp

lemma unat_u32_u64 [simp]: "unat (ucast (w :: u32) :: u64) = unat w"
proof -
  have "unat w < 2 ^ 64" using unat_less_32 [of w] by simp
  then show ?thesis by (simp add: unsigned_ucast_eq take_bit_nat_eq_self)
qed

lemma max_u32_u64 [simp]: "(ucast (- 1 :: u32) :: u64) = 0xffffffff"
  by (simp add: unsigned_minus_1_eq_mask mask_eq_exp_minus_1)

lemma parseReadKeys_payload:
  assumes "8 * length ks < 2 ^ 32"
  shows "parseReadKeys (keys_payload gen ks @ rest) = Inr (gen, ks)"
proof -
  let ?d = "keys_payload gen ks @ rest"
  have len: "unat (be_get (slice 4 8 ?d) :: u32) = 8 * length ks"
    using assms by (simp add: keys_payload_def be32.dec_enc unat_be32_len del: of_nat_mult)
  have gen: "be_get (slice 0 4 ?d) = gen"
    by (simp add: keys_payload_def be32.dec_enc)
  have "drop 8 ?d = concat (map (be_put 8) ks) @ rest" by (simp add: keys_payload_def)
  then have "keys_from ?d 8 (8 + 8 * length ks) = ks"
    by (simp add: keys_from_chunks be64.dec_all_enc_all)
  then show ?thesis
    unfolding parseReadKeys_def Let_def len gen by (simp add: length_keys_payload)
qed

lemma payload_of_parse:
  assumes "parseReadKeys data = Inr (gen, ks)"
  shows "8 * length ks < 2 ^ 32 \<and> take (8 + 8 * length ks) data = keys_payload gen ks
    \<and> 8 + 8 * length ks \<le> length data"
proof -
  define w where "w = (be_get (slice 4 8 data) :: u32)"
  have long: "8 \<le> length data" and m: "unat w mod 8 = 0" and fits: "8 + unat w \<le> length data"
    and g: "gen = be_get (slice 0 4 data)" and ks: "ks = keys_from data 8 (8 + unat w)"
    using assms by (auto simp: parseReadKeys_def w_def Let_def split: if_splits)
  define n where "n = unat w div 8"
  have w8: "unat w = 8 * n" using m by (auto simp: n_def)
  then have ks': "ks = map be_get (chunks 8 n (drop 8 data))" using ks by (simp add: keys_from_chunks)
  then have n: "length ks = n" by simp
  have bound: "8 * n < 2 ^ 32" 
    using w8 unat_less_32 [of w] by simp
  have "be_put 4 gen = slice 0 4 data" using g long by (simp add: be32.enc_dec)
  moreover have "(of_nat (8 * length ks) :: u32) = w" by (simp only: n flip: w8) simp
  then have "be_put 4 (of_nat (8 * length ks) :: u32) = slice 4 8 data"
    using long by (simp add: w_def be32.enc_dec)
  moreover have "concat (map (be_put 8) ks) = take (8 * n) (drop 8 data)"
  proof -
    let ?b = "take (8 * n) (drop 8 data)"
    have l: "length ?b = 8 * n" using fits w8 by simp
    then have "chunks 8 n (drop 8 data) = chunks 8 n ?b"
      using chunks_append [of ?b 8 n "drop (8 * n) (drop 8 data)"] by (simp del: drop_drop)
    then show ?thesis using be64.enc_all_dec_all [OF l] ks' by simp
  qed
  ultimately have "keys_payload gen ks = take 4 data @ take 4 (drop 4 data) @ take (8 * n) (drop 8 data)"
    by (simp add: keys_payload_def slice_def)
  also have "\<dots> = take (8 + 8 * n) data"
    using take_add [of 4 4 data] take_add [of 8 "8 * n" data] by simp
  finally show ?thesis using bound n fits w8 by simp
qed

text \<open>\<open>parseReadKeys\<close> succeeds on exactly the payloads of READ KEYS that carry their whole
  key list: the PRGENERATION, an ADDITIONAL LENGTH of eight bytes per key, every key in order, and
  possibly trailing bytes. A truncated list is never a shorter answer.\<close>

lemma parseReadKeys_exact:
  "parseReadKeys data = Inr (gen, ks) \<longleftrightarrow>
     8 * length ks < 2 ^ 32 \<and> (\<exists>rest. data = keys_payload gen ks @ rest)"
proof
  assume *: "parseReadKeys data = Inr (gen, ks)"
  note p = payload_of_parse [OF this]
  moreover from p have "data = keys_payload gen ks @ drop (8 + 8 * length ks) data"
    by (metis append_take_drop_id)
  ultimately show "8 * length ks < 2 ^ 32 \<and> (\<exists>rest. data = keys_payload gen ks @ rest)" by blast
qed (auto simp: parseReadKeys_payload)

lemma send_data_bound: "send sgio timeout cdb n out d = (Inr r, d') \<Longrightarrow> length (res_Data r) \<le> n"
  by (auto simp: send_def Let_def split: if_splits prod.splits sum.splits)

text \<open>C39. \<open>ReadKeys\<close> reports a key list, an empty one included, only when the ioctl succeeded, the
  device, host and driver verdicts were all clean, and the payload transferred within the
  8192-byte allocation carried all the keys.\<close>

theorem ReadKeys_sound:
  assumes "ReadKeys sgio timeout d = (Inr k, d')"
  shows "\<exists>r. send sgio timeout (prInCDB 0 8192) 8192 [] d = (Inr r, d') \<and> OK r \<and> \<not> Conflict r
    \<and> (\<exists>rest. res_Data r = keys_payload (keys_Generation k) (keys_Keys k) @ rest)
    \<and> length (keys_Keys k) \<le> 1023"
proof -
  obtain r where s: "send sgio timeout (prInCDB 0 8192) 8192 [] d = (Inr r, d')" and ok: "OK r"
    and p: "parseReadKeys (res_Data r) = Inr (keys_Generation k, keys_Keys k)"
    using assms by (auto simp: ReadKeys_def and_then_def split: prod.splits sum.splits if_splits)
  have "\<not> Conflict r" using ok by (simp add: OK_def Conflict_def status_defs)
  moreover have "8 + 8 * length (keys_Keys k) \<le> 8192"
    using payload_of_parse [OF p] send_data_bound [OF s] by linarith
  moreover from payload_of_parse [OF p]
  have "res_Data r = keys_payload (keys_Generation k) (keys_Keys k) @ drop (8 + 8 * length (keys_Keys k)) (res_Data r)"
    by (metis append_take_drop_id)
  ultimately show ?thesis using s ok by auto
qed


text \<open>A device that holds the registration \<open>key\<close> and answers every READ KEYS with it.\<close>

definition one_key_device :: "u64 \<Rightarrow> unit sgio" where
  "one_key_device key h d = (Inr \<lparr>sg_status = StatusGood, sbLenWr = 0, hostStatus = 0,
     driverStatus = 0, sg_resid = int (unat (dxferLen h)) - 16, sg_sense = [],
     sg_in = be_put 4 (7 :: u32) @ be_put 4 (8 :: u32) @ be_put 8 key\<rparr>, d)"

lemma ReadKeys_sound_witness:
  "\<exists>k. ReadKeys (one_key_device 0xabcd) 0 () = (Inr k, ()) \<and> keys_Keys k = [0xabcd]
     \<and> (\<exists>r. send (one_key_device 0xabcd) 0 (prInCDB 0 8192) 8192 [] () = (Inr r, ()) \<and> OK r)"
proof -
  let ?r = "\<lparr>res_Status = StatusGood, res_StatusName = StatusName StatusGood, res_Sense = None,
    res_Data = keys_payload 7 [0xabcd], res_HostStatus = 0, res_DriverStatus = 0\<rparr>"
  have s: "send (one_key_device 0xabcd) 0 (prInCDB 0 8192) 8192 [] () = (Inr ?r, ())"
    by (simp add: send_def one_key_device_def prInCDB_def Let_def into_buffer_def keys_payload_def)
  have "parseReadKeys (keys_payload 7 [0xabcd]) = Inr (7, [0xabcd])"
    using parseReadKeys_payload [of "[0xabcd]" 7 "[]"] by simp
  then have "ReadKeys (one_key_device 0xabcd) 0 () =
      (Inr \<lparr>keys_Generation = 7, keys_Keys = [0xabcd], keys_Result = ?r\<rparr>, ())"
    by (simp add: ReadKeys_def s OK_def)
  then show ?thesis using ReadKeys_sound by fastforce
qed

section \<open>Encoding of the commands\<close>

text \<open>What a target reads out of a PERSISTENT RESERVE OUT command (SPC-6 6.17).\<close>

record pr_out =
  po_sa :: byte
  po_scope :: byte
  po_type :: ReservationType
  po_key :: u64
  po_saKey :: u64
  po_aptpl :: bool

definition decode_prOut :: "byte list \<times> byte list \<Rightarrow> pr_out option" where
  "decode_prOut x = (case x of (cdb, p) \<Rightarrow>
     if length cdb = 10 \<and> cdb ! 0 = 0x5f \<and> length p = unat (be_get (slice 5 9 cdb) :: u32) \<and> length p = 24
     then Some \<lparr>po_sa = cdb ! 1 AND 0x1f, po_scope = drop_bit 4 (cdb ! 2), po_type = cdb ! 2 AND 0x0f,
       po_key = be_get (slice 0 8 p), po_saKey = be_get (slice 8 16 p), po_aptpl = bit (p ! 20) 0\<rparr>
     else None)"

lemma nth_append_be_put: "i \<ge> n \<Longrightarrow> (be_put n v @ xs) ! i = xs ! (i - n)"
  by (simp add: nth_append)

lemma decode_prOutBytes:
  "decode_prOut (prOutBytes sa 0 t key saKey aptpl) =
     Some \<lparr>po_sa = sa AND 0x1f, po_scope = 0, po_type = t AND 0x0f, po_key = key, po_saKey = saKey,
           po_aptpl = aptpl\<rparr>"
proof -
  have "drop_bit 4 (t AND 15) = 0"
    by (rule bit_eqI) (auto simp: bit_drop_bit_eq bit_and_iff bit_numeral_iff)
  moreover have "be_get [0, 0, 0, 24] = (24 :: u32)" by (simp add: be_get_def)
  ultimately show ?thesis
    by (auto simp: decode_prOut_def prOutBytes_def prOutParamLen_def slice_def be_get_put
        nth_append_be_put and.assoc)
qed

lemma valid_type_nibble: "ResType_Valid t \<Longrightarrow> t AND 0x0f = t"
  by (auto simp: ResType_Valid_def)

text \<open>The byte layout of PERSISTENT RESERVE OUT is the standard's: a target that decodes what
  \<open>prOutBytes\<close> built reads back the service action, the type, both keys and the APTPL bit, for
  every service action of the package and every type that \<open>Valid\<close> accepts.\<close>

lemma prOutBytes_roundtrip:
  assumes "sa \<le> 6" and "ResType_Valid t"
  shows "decode_prOut (prOutBytes sa 0 t key saKey aptpl) =
     Some \<lparr>po_sa = sa, po_scope = 0, po_type = t, po_key = key, po_saKey = saKey, po_aptpl = aptpl\<rparr>"
proof -
  have "unat sa \<le> 6" using assms(1) by (simp add: word_le_nat_alt)
  then have "unat (take_bit 5 sa) = unat sa"
    by (simp add: unsigned_take_bit_eq take_bit_nat_eq_self)
  then have "take_bit 5 sa = sa" by (simp only: unsigned_word_eqI)
  moreover have "(0x1f :: byte) = mask 5" by (simp add: mask_eq_exp_minus_1)
  ultimately have "sa AND 0x1f = sa" by (simp only: take_bit_eq_mask)
  then show ?thesis using assms by (simp add: decode_prOutBytes valid_type_nibble)
qed

text \<open>A reservation type that SPC-6 does not define is refused locally: none of the four
  reserving commands issues an ioctl, so the device state is the one before, for every device.\<close>

lemma bad_type_never_sent:
  assumes "\<not> ResType_Valid t"
  shows "Reserve sgio timeout key t d = (Inl (BadResType ''reserve'' t), d)
    \<and> Release sgio timeout key t d = (Inl (BadResType ''release'' t), d)
    \<and> Preempt sgio timeout key victim t d = (Inl (BadResType ''preempt'' t), d)
    \<and> PreemptAndAbort sgio timeout key victim t d = (Inl (BadResType ''preemptandabort'' t), d)"
  using assms by (simp add: Reserve_def Release_def Preempt_def PreemptAndAbort_def)

text \<open>The type \<open>0x15\<close>, whose low nibble is the valid type \<open>0x5\<close>.\<close>

section \<open>Geometry\<close>

lemma unat_max64 [simp]: "unat (- 1 :: u64) = 2 ^ 64 - 1"
  by (simp add: unsigned_minus_1_eq_mask mask_eq_exp_minus_1)

lemma unat_bytes:
  fixes blocks bl :: u64
  assumes "blocks \<noteq> 0"
  shows "unat (if bl \<noteq> 0 \<and> blocks > (NOT 0) div bl then NOT 0 else blocks * bl)
    = min (2 ^ 64 - 1) (unat blocks * unat bl)"
proof (cases "bl = 0")
  case False
  then have pos: "unat bl > 0" by (simp add: unat_gt_0)
  have div: "blocks > (NOT 0) div bl \<longleftrightarrow> unat blocks > (2 ^ 64 - 1) div unat bl"
    by (simp add: word_less_nat_alt unat_div del: mult_eq_0_iff)
  show ?thesis
  proof (cases "unat blocks > (2 ^ 64 - 1) div unat bl")
    case True
    then have "unat blocks * unat bl > 2 ^ 64 - 1" using pos by (simp add: div_less_iff_less_mult)
    then show ?thesis using True False div by simp
  next
    case le: False
    then have "unat blocks * unat bl \<le> 2 ^ 64 - 1" using pos by (simp add: not_less less_eq_div_iff_mult_less_eq)
    moreover from this have "unat (blocks * bl) = unat blocks * unat bl"
      by (simp add: unat_word_ariths)
    ultimately show ?thesis using le False div by simp
  qed
qed simp

text \<open>\<open>Bytes\<close> never wraps: the capacity is \<open>(LastLBA + 1) * BlockLength\<close>, saturated at the largest
  64-bit value (a device whose last block address is the largest one saturates whatever its
  block length).\<close>

lemma Bytes_saturates:
  "unat (Bytes c) = (if cap_LastLBA c = NOT 0 then 2 ^ 64 - 1
     else min (2 ^ 64 - 1) ((unat (cap_LastLBA c) + 1) * unat (cap_BlockLength c)))"
proof (cases "cap_LastLBA c + 1 = 0")
  case True
  then have "cap_LastLBA c = NOT 0" by (simp add: eq_neg_iff_add_eq_0)
  then show ?thesis using True by (simp add: Bytes_def)
next
  case False
  then have "cap_LastLBA c \<noteq> NOT 0" by auto
  moreover have "unat (cap_LastLBA c + 1) = unat (cap_LastLBA c) + 1"
    using False by (metis Suc_eq_plus1 unatSuc add.commute)
  ultimately show ?thesis
    using unat_bytes [OF False, of "ucast (cap_BlockLength c)"] False
    by (simp add: Bytes_def Let_def)
qed

lemma parseCapacity16_Inr:
  assumes "parseCapacity16 r data = Inr c"
  shows "cap_BlockLength c \<noteq> 0 \<and> cap_LBPPBExp c = data ! 13 AND 0x0f
    \<and> push_bit (unat (cap_LBPPBExp c)) (ucast (cap_BlockLength c) :: u64) \<le> ucast (NOT 0 :: u32)"
  using assms by (auto simp: parseCapacity16_def Let_def split: if_splits)

lemma unat_low_nibble: "unat ((b :: byte) AND 0x0f) < 16"
proof -
  have "b AND 0x0f = take_bit 4 b" by (simp add: take_bit_eq_mask mask_eq_exp_minus_1)
  moreover have "unat (take_bit 4 b) < 16"
    using take_bit_nat_less_exp [of 4 "unat b"] by (simp add: unsigned_take_bit_eq)
  ultimately show ?thesis by (simp only:)
qed

lemma unat_push_bit_32:
  assumes "n < 16"
  shows "unat (push_bit n (ucast (b :: u32) :: u64)) = unat b * 2 ^ n"
proof -
  have "unat b * 2 ^ n < 2 ^ 32 * 2 ^ 16"
    using unat_less_32 [of b] assms by (intro mult_strict_mono power_strict_increasing) auto
  then have "unat b * 2 ^ n < 2 ^ 64" by simp
  then have "take_bit 64 (push_bit n (unat b)) = unat b * 2 ^ n"
    by (simp add: take_bit_nat_eq_self push_bit_eq_mult)
  moreover have "unat (push_bit n (ucast b :: u64)) = take_bit 64 (push_bit n (unat b))"
    by (simp add: unsigned_push_bit_eq del: push_bit_take_bit)
  ultimately show ?thesis by simp
qed

text \<open>Whatever READ CAPACITY(16) response \<open>parseCapacity16\<close> accepts, the block length is not zero and
  the physical block size is exactly the logical one shifted by the exponent in the low nibble of byte
  13: the shift did not wrap, and a physical block is never smaller than a logical one.\<close>

lemma physical_block_exact:
  assumes "parseCapacity16 r data = Inr c"
  shows "unat (PhysicalBlockLength c) = unat (cap_BlockLength c) * 2 ^ unat (data ! 13 AND 0x0f)
    \<and> 0 < unat (cap_BlockLength c) \<and> cap_BlockLength c \<le> PhysicalBlockLength c"
proof -
  note p = parseCapacity16_Inr [OF assms]
  let ?n = "unat (data ! 13 AND 0x0f)" and ?b = "cap_BlockLength c"
  have n: "?n < 16" by (rule unat_low_nibble)
  have m: "unat (ucast (NOT 0 :: u32) :: u64) = 2 ^ 32 - 1" by simp
  have le: "unat ?b * 2 ^ ?n \<le> 2 ^ 32 - 1"
    using p m unat_push_bit_32 [OF n, of ?b] by (simp add: word_le_nat_alt del: unat_u32_u64) metis
  then have "unat (ucast (push_bit ?n (ucast ?b :: u64)) :: u32) = unat ?b * 2 ^ ?n"
    by (simp add: unsigned_ucast_eq unat_push_bit_32 [OF n] take_bit_eq_mod)
  moreover have "\<not> cap_LBPPBExp c > 15" using p n by (simp add: word_less_nat_alt)
  ultimately have phys: "unat (PhysicalBlockLength c) = unat ?b * 2 ^ ?n"
    using p by (auto simp: PhysicalBlockLength_def Let_def)
  moreover have "0 < unat ?b" using p by (simp add: unat_gt_0)
  ultimately show ?thesis by (simp add: word_le_nat_alt)
qed

end
