(* ===== verification/Lio_Model.thy ===== *)
theory Lio_Model
  imports Go_Text
begin

text \<open>
  The object model of package \<open>lio\<close> (model.go, paths.go, errors.go) and its text helpers
  (util.go, the path parsers of config.go). A configuration is a tree of records that mirrors the
  configfs hierarchy of the kernel target. A Go \<open>map[string]string\<close> is an association list
  read through \<open>map_of\<close>; a portal address is the value type \<open>netip.Addr\<close>.
\<close>

section \<open>Data (model.go)\<close>

type_synonym string_map = "(string \<times> string) list"

type_synonym BackstoreType = string

abbreviation FileIO :: BackstoreType where "FileIO \<equiv> ''fileio''"
abbreviation IBlock :: BackstoreType where "IBlock \<equiv> ''iblock''"

record Backstore =
  bs_Type :: BackstoreType
  bs_HBA :: int
  bs_Name :: string
  bs_Dev :: string
  bs_BufferedIO :: bool
  bs_Size :: int
  bs_WWN :: string
  bs_VendorID :: string
  bs_ProductID :: string
  bs_Revision :: string
  bs_Attributes :: string_map

text \<open>
  \<open>netip.Addr\<close>: the invalid zero value, an IPv4 address, or an IPv6 address with its zone. An
  IPv4-mapped IPv6 address is an IPv6 address until \<open>Unmap\<close> turns it into an IPv4 one.
\<close>

datatype Addr = NoAddr | V4 u32 | V6 "128 word" string

record Portal =
  po_IP :: Addr
  po_Port :: u16

record LUN =
  lun_Index :: int
  lun_Backstore :: string

record MappedLUN =
  ml_Index :: int
  ml_TPGLUN :: int
  ml_WriteProtect :: bool

record ACL =
  acl_InitiatorIQN :: string
  acl_MappedLUNs :: "MappedLUN list"

record TPG =
  tpg_Tag :: int
  tpg_Enable :: bool
  tpg_Portals :: "Portal list"
  tpg_LUNs :: "LUN list"
  tpg_ACLs :: "ACL list"
  tpg_Attributes :: string_map

record Target =
  tgt_IQN :: string
  tgt_TPGs :: "TPG list"

record Config =
  cfg_Backstores :: "Backstore list"
  cfg_Targets :: "Target list"

definition DefaultPortalPort :: u16 where "DefaultPortalPort = 3260"

definition portal_port :: "Portal \<Rightarrow> u16" where
  "portal_port p = (if po_Port p = 0 then DefaultPortalPort else po_Port p)"

definition dirName :: "Backstore \<Rightarrow> string" where
  "dirName b = bs_Type b @ ''_'' @ itoa (bs_HBA b)"

section \<open>Errors (errors.go)\<close>

datatype Kind = KindUnknown | KindNotFound | KindInvalidSpec | KindKernelRejected
  | KindDependency | KindBusy | KindIncompatible | KindConfigfs

text \<open>The errnos the code distinguishes, and the rest.\<close>

datatype errno = EINVAL | EOPNOTSUPP | ENOENT | EEXIST | ENOTDIR | EACCES | EPERM | EROFS | ENOSPC
  | ENOMEM | EBUSY | ENOTEMPTY | OtherErrno nat

text \<open>
  The wrapped cause of an \<open>*Error\<close>: an errno of a configfs operation, one of the two sentinel
  values, or a formatted message, kept as its format and its arguments.
\<close>

datatype cause = Errno errno | NoLIOTree | HolderUnreadable | Msg string "string list" | NoCause

record Error =
  err_Kind :: Kind
  err_Op :: string
  err_Obj :: string
  err_Err :: cause

definition errf :: "Kind \<Rightarrow> string \<Rightarrow> string \<Rightarrow> cause \<Rightarrow> Error" where
  "errf kind op obj err = \<lparr>err_Kind = kind, err_Op = op, err_Obj = obj, err_Err = err\<rparr>"

lemma errf_sel [simp]: "err_Kind (errf k op obj e) = k" "err_Err (errf k op obj e) = e"
  by (simp_all add: errf_def)

fun classifyCreate :: "errno \<Rightarrow> Kind \<Rightarrow> Kind" where
  "classifyCreate EINVAL fallback = KindKernelRejected"
| "classifyCreate EOPNOTSUPP fallback = KindKernelRejected"
| "classifyCreate ENOENT fallback = KindDependency"
| "classifyCreate EEXIST fallback = KindConfigfs"
| "classifyCreate ENOTDIR fallback = KindConfigfs"
| "classifyCreate EACCES fallback = KindConfigfs"
| "classifyCreate EPERM fallback = KindConfigfs"
| "classifyCreate EROFS fallback = KindConfigfs"
| "classifyCreate ENOSPC fallback = KindConfigfs"
| "classifyCreate ENOMEM fallback = KindConfigfs"
| "classifyCreate _ fallback = fallback"

fun classifyRemove :: "errno \<Rightarrow> Kind \<Rightarrow> Kind" where
  "classifyRemove EBUSY fallback = KindBusy"
| "classifyRemove ENOTEMPTY fallback = KindDependency"
| "classifyRemove EACCES fallback = KindConfigfs"
| "classifyRemove EPERM fallback = KindConfigfs"
| "classifyRemove EROFS fallback = KindConfigfs"
| "classifyRemove _ fallback = fallback"

section \<open>Text helpers (util.go, config.go)\<close>

definition splitLast :: "string \<Rightarrow> char \<Rightarrow> (string \<times> string) option" where
  "splitLast s sep = cutLast sep s"

definition lastField :: "string \<Rightarrow> char \<Rightarrow> string" where
  "lastField s sep = (case cutLast sep s of None \<Rightarrow> trimSpace s | Some (_, t) \<Rightarrow> trimSpace t)"

definition parseInfoMode :: "string \<Rightarrow> string" where
  "parseInfoMode info = (case cut ''Mode: '' info of
     None \<Rightarrow> ''''
   | Some (_, after) \<Rightarrow>
       (let rest = takeWhile (\<lambda>c. c \<notin> set [CHR '' '', CHR 0x09, newline]) after in
        if rest = ''O_DSYNC'' \<or> rest = ''Buffered-WCE'' then rest else ''''))"

definition isLetterByte :: "char \<Rightarrow> bool" where
  "isLetterByte c = (let n = of_char c :: nat in (97 \<le> n \<and> n \<le> 122) \<or> (65 \<le> n \<and> n \<le> 90))"

definition isDigitByte :: "char \<Rightarrow> bool" where
  "isDigitByte c = (let n = of_char c :: nat in 48 \<le> n \<and> n \<le> 57)"

lemma cut_shorter: "cut sep s = Some (a, b) \<Longrightarrow> sep \<noteq> [] \<Longrightarrow> length b < length s"
  by (auto dest: cut_Some)

text \<open>
  The scan of \<open>parseInfoSize\<close>: \<open>prev\<close> is the byte before the rest of the line, when there is
  one; it is the last byte of the key after an unusable match.
\<close>

function infoSize_from :: "char option \<Rightarrow> string \<Rightarrow> int" where
  "infoSize_from prev s = (case cut ''Size: '' s of
     None \<Rightarrow> - 1
   | Some (front, rest) \<Rightarrow>
      (let p = (if front = [] then prev else Some (last front));
           digits = takeWhile isDigitByte rest;
           n = (if (case p of None \<Rightarrow> True | Some c \<Rightarrow> \<not> isLetterByte c) \<and> digits \<noteq> []
                then parseInt10 digits else None) in
       case n of Some v \<Rightarrow> v | None \<Rightarrow> infoSize_from (Some CHR '' '') rest))"
  by auto
termination by (relation "measure (\<lambda>(p, s). length s)") (auto dest: cut_shorter)

declare infoSize_from.simps [simp del]

definition parseInfoSize :: "string \<Rightarrow> int" where
  "parseInfoSize info = infoSize_from None info"

definition isHexDigit :: "char \<Rightarrow> bool" where
  "isHexDigit c = (let n = of_char c :: nat in (48 \<le> n \<and> n \<le> 57) \<or> (97 \<le> n \<and> n \<le> 102))"

definition isHex16 :: "string \<Rightarrow> bool" where
  "isHex16 s \<longleftrightarrow> length s = 16 \<and> list_all isHexDigit s"

definition parseIndexed :: "string \<Rightarrow> string \<Rightarrow> int option" where
  "parseIndexed prefix name = (if \<not> hasPrefix prefix name then None
     else (case atoi_go (trimPrefix prefix name) of
             None \<Rightarrow> None
           | Some n \<Rightarrow> if n \<ge> 0 then Some n else None))"

definition parseTPGT :: "string \<Rightarrow> int option" where
  "parseTPGT name = parseIndexed ''tpgt_'' name"

definition parseLUN :: "string \<Rightarrow> int option" where
  "parseLUN name = parseIndexed ''lun_'' name"

definition lastPathSegment :: "string \<Rightarrow> string" where
  "lastPathSegment p = (let q = rev (dropWhile (\<lambda>c. c = CHR ''/'') (rev p)) in
     case cutLast CHR ''/'' q of None \<Rightarrow> q | Some (_, t) \<Rightarrow> t)"

definition lunIndexFromPath :: "string \<Rightarrow> int" where
  "lunIndexFromPath p = (case parseLUN (lastPathSegment p) of Some i \<Rightarrow> i | None \<Rightarrow> 0)"

section \<open>Portal names (paths.go)\<close>

definition v4_octets :: "u32 \<Rightarrow> string" where
  "v4_octets a = joinStr ''.'' (map (\<lambda>b. utoa (unat b)) (be_put 4 a))"

function hexa :: "nat \<Rightarrow> string" where
  "hexa n = (if n < 16 then [digit_char n] else hexa (n div 16) @ [digit_char (n mod 16)])"
  by auto
termination by (relation "measure id") auto

declare hexa.simps [simp del]

text \<open>The eight 16-bit groups of an IPv6 address, most significant first.\<close>

definition v6_groups :: "128 word \<Rightarrow> nat list" where
  "v6_groups a = map (\<lambda>i. unat (ucast (drop_bit (16 * i) a) :: u16)) (rev [0..<8])"

definition zero_run :: "nat list \<Rightarrow> nat \<Rightarrow> nat" where
  "zero_run gs i = length (takeWhile (\<lambda>g. g = 0) (drop i gs))"

text \<open>The first longest run of at least two zero groups, as its start and end.\<close>

definition v6_elide :: "nat list \<Rightarrow> (nat \<times> nat) option" where
  "v6_elide gs = foldl (\<lambda>best i. let l = zero_run gs i in
       if l \<ge> 2 \<and> (case best of None \<Rightarrow> True | Some (s, e) \<Rightarrow> l > e - s) then Some (i, i + l) else best)
     None [0..<length gs]"

definition v6_text :: "128 word \<Rightarrow> string" where
  "v6_text a = (let gs = v6_groups a; hexes = joinStr '':'' o map hexa in
     if take 6 gs = [0, 0, 0, 0, 0, 0xffff]
     then ''::ffff:'' @ v4_octets (ucast a)
     else (case v6_elide gs of
             None \<Rightarrow> hexes gs
           | Some (s, e) \<Rightarrow> hexes (take s gs) @ ''::'' @ hexes (drop e gs)))"

fun addr_text :: "Addr \<Rightarrow> string" where
  "addr_text NoAddr = ''invalid IP''"
| "addr_text (V4 a) = v4_octets a"
| "addr_text (V6 a zone) = v6_text a @ (if zone = [] then [] else CHR ''%'' # zone)"

text \<open>\<open>netip.AddrPort\<close>, a comparable pair, and its rendering.\<close>

type_synonym AddrPort = "Addr \<times> u16"

fun addrPort_text :: "AddrPort \<Rightarrow> string" where
  "addrPort_text (NoAddr, port) = ''invalid AddrPort''"
| "addrPort_text (V4 a, port) = v4_octets a @ '':'' @ utoa (unat port)"
| "addrPort_text (V6 a z, port) = ''['' @ addr_text (V6 a z) @ '']:'' @ utoa (unat port)"

definition portal_key :: "Portal \<Rightarrow> AddrPort" where
  "portal_key p = (po_IP p, portal_port p)"

definition portal_String :: "Portal \<Rightarrow> string" where
  "portal_String p = addrPort_text (po_IP p, portal_port p)"

section \<open>Configfs paths (paths.go)\<close>

type_synonym path = "string list"

definition hbaPath :: "Backstore \<Rightarrow> path" where
  "hbaPath b = [''core'', dirName b]"

definition objPath :: "Backstore \<Rightarrow> path" where
  "objPath b = [''core'', dirName b, bs_Name b]"

definition targetPath :: "string \<Rightarrow> path" where
  "targetPath iqn = [''iscsi'', iqn]"

definition tpgPath :: "string \<Rightarrow> int \<Rightarrow> path" where
  "tpgPath iqn tag = [''iscsi'', iqn, ''tpgt_'' @ itoa tag]"

definition portalPath :: "string \<Rightarrow> int \<Rightarrow> Portal \<Rightarrow> path" where
  "portalPath iqn tag p = tpgPath iqn tag @ [''np'', portal_String p]"

definition lunPath :: "string \<Rightarrow> int \<Rightarrow> int \<Rightarrow> path" where
  "lunPath iqn tag index = tpgPath iqn tag @ [''lun'', ''lun_'' @ itoa index]"

definition aclPath :: "string \<Rightarrow> int \<Rightarrow> string \<Rightarrow> path" where
  "aclPath iqn tag initiator = tpgPath iqn tag @ [''acls'', initiator]"

definition mappedLunPath :: "string \<Rightarrow> int \<Rightarrow> string \<Rightarrow> int \<Rightarrow> path" where
  "mappedLunPath iqn tag initiator index = aclPath iqn tag initiator @ [''lun_'' @ itoa index]"

lemmas path_defs = hbaPath_def objPath_def targetPath_def tpgPath_def portalPath_def lunPath_def
  aclPath_def mappedLunPath_def

section \<open>Names that are read back\<close>

lemma parseIndexed_itoa:
  "0 \<le> n \<Longrightarrow> n < 2 ^ 63 \<Longrightarrow> parseIndexed p (p @ itoa n) = Some n"
  by (simp add: parseIndexed_def parseInt10_itoa)

lemma parseIndexed_bounds:
  assumes "parseIndexed p s = Some n"
  shows "0 \<le> n \<and> n < 2 ^ 63"
proof -
  have "parseInt10 t = Some n \<Longrightarrow> n < 2 ^ 63" for t
    by (auto simp: parseInt10_def Let_def split: list.splits if_splits option.splits)
  then show ?thesis using assms by (auto simp: parseIndexed_def split: if_splits option.splits)
qed

lemma slash_notin_utoa [simp]: "CHR ''/'' \<notin> set (utoa n)"
  by (simp add: notin_utoa digit_val_def)

lemma slash_notin_itoa [simp]: "CHR ''/'' \<notin> set (itoa n)"
  by (simp add: notin_itoa digit_val_def)

lemma lastPathSegment_append:
  assumes "CHR ''/'' \<notin> set s" and "s \<noteq> []"
  shows "lastPathSegment (p @ CHR ''/'' # s) = s"
proof -
  have "dropWhile (\<lambda>c. c = CHR ''/'') (rev s @ CHR ''/'' # rev p) = rev s @ CHR ''/'' # rev p"
  proof (cases "rev s")
    case (Cons a l)
    then have "a \<in> set s" by (metis list.set_intros(1) set_rev)
    with assms(1) Cons show ?thesis by auto
  qed (use assms in simp)
  then show ?thesis using assms by (simp add: lastPathSegment_def)
qed

text \<open>What the engine names a LUN directory, discovery reads back: the index of
  \<open>lun_<index>\<close> at the end of a resolved link, and the tag of a \<open>tpgt_<tag>\<close> directory; and
  whatever directory name discovery accepts, the index is in the range that \<open>Validate\<close> accepts
  for LUNs.\<close>

lemma lun_name_roundtrip:
  "(0 \<le> i \<and> i < 2 ^ 63 \<longrightarrow>
      lunIndexFromPath (prefix @ ''/lun_'' @ itoa i) = i \<and> parseTPGT (''tpgt_'' @ itoa i) = Some i)
   \<and> (parseLUN name = Some n \<longrightarrow> 0 \<le> n \<and> n < 2 ^ 63)"
proof (intro conjI impI)
  assume i: "0 \<le> i \<and> i < 2 ^ 63"
  have "lastPathSegment (prefix @ CHR ''/'' # (''lun_'' @ itoa i)) = ''lun_'' @ itoa i"
    by (rule lastPathSegment_append) auto
  then show "lunIndexFromPath (prefix @ ''/lun_'' @ itoa i) = i"
    using i parseIndexed_itoa [of i "''lun_''"] by (simp add: lunIndexFromPath_def parseLUN_def)
  show "parseTPGT (''tpgt_'' @ itoa i) = Some i"
    using i parseIndexed_itoa [of i "''tpgt_''"] by (simp add: parseTPGT_def)
next
  assume "parseLUN name = Some n"
  then show "0 \<le> n" "n < 2 ^ 63" by (auto simp: parseLUN_def dest: parseIndexed_bounds)
qed

end
