(* ===== verification/Lio_Validate.thy ===== *)
theory Lio_Validate
  imports Lio_Model
begin

text \<open>
  The static check of a desired configuration (validate.go). \<open>Validate\<close> is modelled as the
  code runs it, loop by loop with the sets of names seen so far; the theorems give the
  declarative meaning of its verdict.
\<close>

section \<open>Names\<close>

definition maxIQNLen :: nat where "maxIQNLen = 223"

definition bad_iqn_char :: "char \<Rightarrow> bool" where
  "bad_iqn_char c = (let r = of_char c :: nat in
     c = CHR ''/'' \<or> c = CHR '' '' \<or> r < 0x20 \<or> r = 0x7f \<or> c = CHR '','')"

definition validIQNSeg :: "string \<Rightarrow> bool" where
  "validIQNSeg iqn = (if iqn = '''' \<or> iqn = ''.'' \<or> iqn = ''..'' \<or> length iqn > maxIQNLen then False
     else \<not> list_ex bad_iqn_char iqn)"

definition ValidInitiatorIQN :: "string \<Rightarrow> bool" where
  "ValidInitiatorIQN s \<longleftrightarrow> hasPrefix ''iqn.'' s \<and> validIQNSeg s"

definition ValidTargetIQN :: "string \<Rightarrow> bool" where
  "ValidTargetIQN s \<longleftrightarrow> (hasPrefix ''iqn.'' s \<or> hasPrefix ''naa.'' s) \<and> validIQNSeg s"

definition validBlockSize :: "string \<Rightarrow> bool" where
  "validBlockSize v \<longleftrightarrow> v \<in> set [''512'', ''1024'', ''2048'', ''4096'']"

section \<open>The checks as the code runs them\<close>

definition backstore_validate :: "Backstore \<Rightarrow> cause option" where
  "backstore_validate b =
    (if bs_Type b \<noteq> FileIO \<and> bs_Type b \<noteq> IBlock then Some (Msg ''unsupported backstore type %q'' [bs_Type b])
     else if bs_Name b = '''' then Some (Msg ''backstore name is required'' [])
     else if list_ex (\<lambda>c. c \<in> set [CHR ''/'', CHR '' '', CHR 0x09, newline]) (bs_Name b)
       then Some (Msg ''backstore name %q contains invalid characters'' [bs_Name b])
     else if bs_Name b = ''.'' \<or> bs_Name b = ''..''
       then Some (Msg ''backstore name %q is not a name configfs accepts'' [bs_Name b])
     else if bs_HBA b < 0 then Some (Msg ''backstore HBA index must be >= 0'' [])
     else if bs_Dev b = '''' then Some (Msg ''backstore backing device/file path is required'' [])
     else if bs_WWN b \<noteq> '''' \<and> \<not> isHex16 (bs_WWN b)
       then Some (Msg ''wwn %q must be 16 lowercase hex digits'' [bs_WWN b])
     else (case map_of (bs_Attributes b) ''block_size'' of
             Some v \<Rightarrow> if validBlockSize v then None
               else Some (Msg ''block_size %q must be one of 512, 1024, 2048, 4096'' [v])
           | None \<Rightarrow> None))"

text \<open>
  The loops. Each takes the keys seen so far (the Go map of booleans) and returns the error that
  ends the function, or the keys seen at the end.
\<close>

fun check_luns :: "string \<Rightarrow> string list \<Rightarrow> int list \<Rightarrow> LUN list \<Rightarrow> Error + int list" where
  "check_luns obj backstores lunIdx [] = Inr lunIdx"
| "check_luns obj backstores lunIdx (l # ls) =
    (if lun_Index l < 0 then Inl (errf KindInvalidSpec ''validate'' obj (Msg ''LUN index must be >= 0'' []))
     else if lun_Index l \<in> set lunIdx
       then Inl (errf KindInvalidSpec ''validate'' obj (Msg ''duplicate LUN index %d'' [itoa (lun_Index l)]))
     else if lun_Backstore l \<notin> set backstores
       then Inl (errf KindDependency ''validate'' obj
         (Msg ''LUN %d references unknown backstore %q'' [itoa (lun_Index l), lun_Backstore l]))
     else check_luns obj backstores (lun_Index l # lunIdx) ls)"

fun check_portals :: "string \<Rightarrow> AddrPort list \<Rightarrow> Portal list \<Rightarrow> Error + AddrPort list" where
  "check_portals obj seen [] = Inr seen"
| "check_portals obj seen (p # ps) =
    (if po_IP p = NoAddr then Inl (errf KindInvalidSpec ''validate'' obj (Msg ''portal IP is required'' []))
     else if (po_IP p, portal_port p) \<in> set seen
       then Inl (errf KindInvalidSpec ''validate'' obj
         (Msg ''duplicate portal %s'' [addrPort_text (po_IP p, portal_port p)]))
     else check_portals obj ((po_IP p, portal_port p) # seen) ps)"

fun check_mapped :: "string \<Rightarrow> string \<Rightarrow> int list \<Rightarrow> int list \<Rightarrow> MappedLUN list \<Rightarrow> Error + int list" where
  "check_mapped obj iqn lunIdx mlIdx [] = Inr mlIdx"
| "check_mapped obj iqn lunIdx mlIdx (m # ms) =
    (if ml_Index m < 0 then Inl (errf KindInvalidSpec ''validate'' obj
       (Msg ''mapped LUN index must be >= 0 (initiator %q)'' [iqn]))
     else if ml_Index m \<in> set mlIdx then Inl (errf KindInvalidSpec ''validate'' obj
       (Msg ''duplicate mapped LUN index %d (initiator %q)'' [itoa (ml_Index m), iqn]))
     else if ml_TPGLUN m \<notin> set lunIdx then Inl (errf KindDependency ''validate'' obj
       (Msg ''mapped LUN %d references unknown TPG LUN %d'' [itoa (ml_Index m), itoa (ml_TPGLUN m)]))
     else check_mapped obj iqn lunIdx (ml_Index m # mlIdx) ms)"

fun check_acls :: "string \<Rightarrow> int list \<Rightarrow> string list \<Rightarrow> ACL list \<Rightarrow> Error + string list" where
  "check_acls obj lunIdx aclIQNs [] = Inr aclIQNs"
| "check_acls obj lunIdx aclIQNs (a # as) =
    (if \<not> hasPrefix ''iqn.'' (acl_InitiatorIQN a) then Inl (errf KindInvalidSpec ''validate'' obj
       (Msg ''initiator IQN %q must start with iqn.'' [acl_InitiatorIQN a]))
     else if \<not> validIQNSeg (acl_InitiatorIQN a) then Inl (errf KindInvalidSpec ''validate'' obj
       (Msg ''initiator IQN %q contains characters invalid for a configfs name'' [acl_InitiatorIQN a]))
     else if acl_InitiatorIQN a \<in> set aclIQNs then Inl (errf KindInvalidSpec ''validate'' obj
       (Msg ''duplicate ACL initiator IQN %q'' [acl_InitiatorIQN a]))
     else and_then (check_mapped obj (acl_InitiatorIQN a) lunIdx [] (acl_MappedLUNs a))
       (\<lambda>_. check_acls obj lunIdx (acl_InitiatorIQN a # aclIQNs) as))"

fun check_tpgs :: "string \<Rightarrow> string list \<Rightarrow> int list \<Rightarrow> TPG list \<Rightarrow> Error + int list" where
  "check_tpgs obj backstores tpgTags [] = Inr tpgTags"
| "check_tpgs obj backstores tpgTags (g # gs) =
    (if tpg_Tag g < 1 then Inl (errf KindInvalidSpec ''validate'' obj
       (Msg ''TPG tag must be >= 1, got %d'' [itoa (tpg_Tag g)]))
     else if tpg_Tag g \<in> set tpgTags then Inl (errf KindInvalidSpec ''validate'' obj
       (Msg ''duplicate TPG tag %d'' [itoa (tpg_Tag g)]))
     else and_then (check_luns obj backstores [] (tpg_LUNs g)) (\<lambda>lunIdx.
       and_then (check_portals obj [] (tpg_Portals g)) (\<lambda>_.
       and_then (check_acls obj lunIdx [] (tpg_ACLs g)) (\<lambda>_.
         check_tpgs obj backstores (tpg_Tag g # tpgTags) gs))))"

definition target_validate :: "string list \<Rightarrow> Target \<Rightarrow> Error + int list" where
  "target_validate backstores t = (let obj = ''target/'' @ tgt_IQN t in
    if \<not> hasPrefix ''iqn.'' (tgt_IQN t) \<and> \<not> hasPrefix ''naa.'' (tgt_IQN t)
      then Inl (errf KindInvalidSpec ''validate'' obj (Msg ''target IQN %q must start with iqn. or naa.'' [tgt_IQN t]))
    else if \<not> validIQNSeg (tgt_IQN t)
      then Inl (errf KindInvalidSpec ''validate'' obj
        (Msg ''target IQN %q contains characters invalid for a configfs name'' [tgt_IQN t]))
    else check_tpgs obj backstores [] (tgt_TPGs t))"

fun check_backstores :: "string list \<Rightarrow> Backstore list \<Rightarrow> Error + string list" where
  "check_backstores names [] = Inr names"
| "check_backstores names (b # bs) =
    (case backstore_validate b of
       Some e \<Rightarrow> Inl (errf KindInvalidSpec ''validate'' (''backstore/'' @ bs_Name b) e)
     | None \<Rightarrow>
        if bs_Name b \<in> set names then Inl (errf KindInvalidSpec ''validate'' (''backstore/'' @ bs_Name b)
          (Msg ''duplicate backstore name'' []))
        else check_backstores (bs_Name b # names) bs)"

fun check_targets :: "string list \<Rightarrow> string list \<Rightarrow> Target list \<Rightarrow> Error + string list" where
  "check_targets names tgtIQNs [] = Inr tgtIQNs"
| "check_targets names tgtIQNs (t # ts) =
    (if tgt_IQN t \<in> set tgtIQNs then Inl (errf KindInvalidSpec ''validate'' (''target/'' @ tgt_IQN t)
       (Msg ''duplicate target IQN'' []))
     else and_then (target_validate names t) (\<lambda>_. check_targets names (tgt_IQN t # tgtIQNs) ts))"

definition Validate :: "Config \<Rightarrow> Error option" where
  "Validate c =
    (case and_then (check_backstores [] (cfg_Backstores c)) (\<lambda>names. check_targets names [] (cfg_Targets c)) of
       Inl e \<Rightarrow> Some e
     | Inr _ \<Rightarrow> None)"

section \<open>What the verdict means\<close>

definition valid_luns :: "string set \<Rightarrow> LUN list \<Rightarrow> bool" where
  "valid_luns names ls \<longleftrightarrow> distinct (map lun_Index ls)
     \<and> (\<forall>l \<in> set ls. 0 \<le> lun_Index l \<and> lun_Backstore l \<in> names)"

definition valid_mapped :: "int set \<Rightarrow> MappedLUN list \<Rightarrow> bool" where
  "valid_mapped lunIdx ms \<longleftrightarrow> distinct (map ml_Index ms)
     \<and> (\<forall>m \<in> set ms. 0 \<le> ml_Index m \<and> ml_TPGLUN m \<in> lunIdx)"

definition valid_acls :: "int set \<Rightarrow> ACL list \<Rightarrow> bool" where
  "valid_acls lunIdx as \<longleftrightarrow> distinct (map acl_InitiatorIQN as)
     \<and> (\<forall>a \<in> set as. ValidInitiatorIQN (acl_InitiatorIQN a) \<and> valid_mapped lunIdx (acl_MappedLUNs a))"

definition valid_portals :: "Portal list \<Rightarrow> bool" where
  "valid_portals ps \<longleftrightarrow> distinct (map portal_key ps) \<and> (\<forall>p \<in> set ps. po_IP p \<noteq> NoAddr)"

definition valid_tpg :: "string set \<Rightarrow> TPG \<Rightarrow> bool" where
  "valid_tpg names g \<longleftrightarrow> 1 \<le> tpg_Tag g \<and> valid_luns names (tpg_LUNs g) \<and> valid_portals (tpg_Portals g)
     \<and> valid_acls (lun_Index ` set (tpg_LUNs g)) (tpg_ACLs g)"

definition valid_target :: "string set \<Rightarrow> Target \<Rightarrow> bool" where
  "valid_target names t \<longleftrightarrow> ValidTargetIQN (tgt_IQN t) \<and> distinct (map tpg_Tag (tgt_TPGs t))
     \<and> (\<forall>g \<in> set (tgt_TPGs t). valid_tpg names g)"

definition valid_config :: "Config \<Rightarrow> bool" where
  "valid_config c \<longleftrightarrow> distinct (map bs_Name (cfg_Backstores c))
     \<and> (\<forall>b \<in> set (cfg_Backstores c). backstore_validate b = None)
     \<and> distinct (map tgt_IQN (cfg_Targets c))
     \<and> (\<forall>t \<in> set (cfg_Targets c). valid_target (bs_Name ` set (cfg_Backstores c)) t)"

lemma backstore_name_chars:
  assumes "backstore_validate b = None"
  shows "\<not> list_ex (\<lambda>c. c \<in> set [CHR ''/'', CHR '' '', CHR 0x09, newline]) (bs_Name b)"
  using assms unfolding backstore_validate_def by (simp only: split: if_splits) blast+

lemma backstore_name_no_slash: "backstore_validate b = None \<Longrightarrow> CHR ''/'' \<notin> set (bs_Name b)"
  using backstore_name_chars [of b] unfolding list_ex_iff by (meson list.set_intros(1))

text \<open>
  Every loop of the checker has the same shape: it rejects an element whose key has been seen or that
  is bad by itself. Its verdict is that the keys are distinct, new, and no element is bad.
\<close>

lemma ok_check_luns:
  "check_luns obj names seen ls = Inr r \<longleftrightarrow>
     r = rev (map lun_Index ls) @ seen \<and> valid_luns (set names) ls \<and> set (map lun_Index ls) \<inter> set seen = {}"
  by (induction ls arbitrary: seen) (auto simp: valid_luns_def)

lemma ok_check_portals:
  "ok (check_portals obj seen ps) \<longleftrightarrow> valid_portals ps \<and> set (map portal_key ps) \<inter> set seen = {}"
  by (induction ps arbitrary: seen) (auto simp: valid_portals_def portal_key_def)

lemma ok_check_mapped:
  "ok (check_mapped obj iqn lunIdx seen ms) \<longleftrightarrow>
     valid_mapped (set lunIdx) ms \<and> set (map ml_Index ms) \<inter> set seen = {}"
  by (induction ms arbitrary: seen) (auto simp: valid_mapped_def)

lemma ok_and_then: "ok (and_then r f) \<longleftrightarrow> (\<exists>a. r = Inr a \<and> ok (f a))"
  by (cases r) simp_all

lemma ok_check_acls:
  "ok (check_acls obj lunIdx seen as) \<longleftrightarrow>
     valid_acls (set lunIdx) as \<and> set (map acl_InitiatorIQN as) \<inter> set seen = {}"
proof (induction as arbitrary: seen)
  case (Cons a as)
  have "ok (check_mapped obj (acl_InitiatorIQN a) lunIdx [] (acl_MappedLUNs a))
      = valid_mapped (set lunIdx) (acl_MappedLUNs a)" by (simp add: ok_check_mapped)
  with Cons show ?case
    by (auto simp: valid_acls_def ValidInitiatorIQN_def ok_and_then ok_iff)
qed (simp add: valid_acls_def)

lemma ok_check_tpgs:
  "ok (check_tpgs obj names seen gs) \<longleftrightarrow>
     distinct (map tpg_Tag gs) \<and> (\<forall>g \<in> set gs. valid_tpg (set names) g) \<and> set (map tpg_Tag gs) \<inter> set seen = {}"
proof (induction gs arbitrary: seen)
  case (Cons g gs)
  have p: "(\<exists>a. check_portals obj [] (tpg_Portals g) = Inr a) = valid_portals (tpg_Portals g)"
    using ok_check_portals [of obj "[]" "tpg_Portals g"] by (simp add: ok_iff)
  have a: "(\<exists>a. check_acls obj lunIdx [] (tpg_ACLs g) = Inr a) = valid_acls (set lunIdx) (tpg_ACLs g)" for lunIdx
    using ok_check_acls [of obj lunIdx "[]" "tpg_ACLs g"] by (simp add: ok_iff)
  show ?case
    using Cons p a by (auto simp: valid_tpg_def ok_and_then ok_check_luns)
qed simp

lemma ok_target_validate: "ok (target_validate names t) = valid_target (set names) t"
  by (auto simp: target_validate_def valid_target_def ValidTargetIQN_def ok_check_tpgs Let_def)

lemma ok_check_backstores:
  "check_backstores seen bs = Inr r \<longleftrightarrow>
     r = rev (map bs_Name bs) @ seen \<and> distinct (map bs_Name bs)
     \<and> (\<forall>b \<in> set bs. backstore_validate b = None) \<and> set (map bs_Name bs) \<inter> set seen = {}"
  by (induction bs arbitrary: seen) (auto split: option.splits)

lemma ok_check_targets:
  "ok (check_targets names seen ts) \<longleftrightarrow>
     distinct (map tgt_IQN ts) \<and> (\<forall>t \<in> set ts. valid_target (set names) t) \<and> set (map tgt_IQN ts) \<inter> set seen = {}"
proof (induction ts arbitrary: seen)
  case (Cons t ts)
  have "(\<exists>a. target_validate names t = Inr a) = valid_target (set names) t"
    using ok_target_validate [of names t] by (simp add: ok_iff)
  with Cons show ?case by (auto simp: ok_and_then)
qed simp

lemma Validate_ok_iff: "Validate c = None \<longleftrightarrow> valid_config c"
proof -
  have "Validate c = None \<longleftrightarrow>
      ok (and_then (check_backstores [] (cfg_Backstores c)) (\<lambda>names. check_targets names [] (cfg_Targets c)))"
    by (auto simp: Validate_def ok_def split: sum.splits)
  then show ?thesis by (auto simp: ok_and_then ok_check_backstores ok_check_targets valid_config_def)
qed

text \<open>A small configuration, used to show that hypotheses can be met.\<close>

definition example_config :: "int \<Rightarrow> MappedLUN list \<Rightarrow> Config" where
  "example_config sz mls =
    \<lparr>cfg_Backstores = [\<lparr>bs_Type = FileIO, bs_HBA = 0, bs_Name = ''v'', bs_Dev = ''/d/v'', bs_BufferedIO = False,
       bs_Size = sz, bs_WWN = [], bs_VendorID = [], bs_ProductID = [], bs_Revision = [], bs_Attributes = []\<rparr>],
     cfg_Targets = [\<lparr>tgt_IQN = ''iqn.t'', tgt_TPGs = [\<lparr>tpg_Tag = 1, tpg_Enable = True, tpg_Portals = [],
       tpg_LUNs = [\<lparr>lun_Index = 0, lun_Backstore = ''v''\<rparr>],
       tpg_ACLs = [\<lparr>acl_InitiatorIQN = ''iqn.h'', acl_MappedLUNs = mls\<rparr>], tpg_Attributes = []\<rparr>]\<rparr>]\<rparr>"

lemma example_valid:
  "Validate (example_config s []) = None"
  "Validate (example_config s [\<lparr>ml_Index = 5, ml_TPGLUN = 0, ml_WriteProtect = False\<rparr>]) = None"
  by (simp_all add: Validate_def example_config_def backstore_validate_def target_validate_def validIQNSeg_def
      bad_iqn_char_def maxIQNLen_def hasPrefix_def Let_def)

text \<open>C29. \<open>Validate\<close> accepts a configuration exactly when it is well formed: every backstore is
  individually valid and their names are distinct; target names, TPG tags, LUN indices, portal endpoints
  (default port applied), initiator names and mapped LUN indices are distinct and in range within their
  parent; every LUN names a backstore of the configuration and every mapped LUN a LUN of its TPG.\<close>

theorem Validate_iff_valid: "Validate c = None \<longleftrightarrow> valid_config c"
  by (rule Validate_ok_iff)

end
