(* ===== verification/Portals.thy ===== *)
theory Portals
  imports Lio_Validate
begin

text \<open>
  Network portals: which ones contend for a port, the order in which they are applied, which live
  ones are removed before an apply (lio/sync.go, lio/iscsi.go), and the static check of the
  appliance's own portal list (appliance.go, \<open>Config.Validate\<close>). The theorem at the end is about
  the three together.
\<close>

section \<open>Addresses\<close>

fun IsValid :: "Addr \<Rightarrow> bool" where
  "IsValid NoAddr = False"
| "IsValid _ = True"

fun IsUnspecified :: "Addr \<Rightarrow> bool" where
  "IsUnspecified NoAddr = False"
| "IsUnspecified (V4 a) = (a = 0)"
| "IsUnspecified (V6 a z) = (a = 0 \<and> z = [])"

fun Is4 :: "Addr \<Rightarrow> bool" where
  "Is4 (V4 a) = True"
| "Is4 _ = False"

section \<open>Contention (lio/sync.go)\<close>

definition wildcardPrecludes :: "Addr \<Rightarrow> Addr \<Rightarrow> bool" where
  "wildcardPrecludes w other = (if \<not> IsValid w \<or> \<not> IsValid other \<or> \<not> IsUnspecified w then False else True)"

definition blockedWildcardOnPort :: "Portal \<Rightarrow> Portal list \<Rightarrow> Portal list \<Rightarrow> bool" where
  "blockedWildcardOnPort live desired alive =
    (if IsUnspecified (po_IP live) then False
     else list_ex (\<lambda>d. \<not> (portal_port d \<noteq> portal_port live \<or> \<not> IsUnspecified (po_IP d))
            \<and> \<not> list_ex (\<lambda>a. portal_key a = portal_key d) alive) desired)"

definition portalConflictsWithAny :: "Portal \<Rightarrow> Portal list \<Rightarrow> Portal list \<Rightarrow> bool" where
  "portalConflictsWithAny live desired alive =
    (if list_ex (\<lambda>d. portal_key live = portal_key d) desired
     then blockedWildcardOnPort live desired alive
     else list_ex (\<lambda>d. portal_port live = portal_port d
            \<and> (wildcardPrecludes (po_IP live) (po_IP d) \<or> wildcardPrecludes (po_IP d) (po_IP live))) desired)"

text \<open>
  \<open>portalApplyOrder\<close> sorts stably by one bit, the wildcards first.
\<close>

definition portalApplyOrder :: "Portal list \<Rightarrow> Portal list" where
  "portalApplyOrder portals = (if length portals < 2 then portals
     else sort_key (\<lambda>p. if IsUnspecified (po_IP p) then 0 else 1 :: nat) portals)"

lemma insort_bit_filter:
  "insort_key (\<lambda>x. if P x then 0 else 1 :: nat) x (filter P xs @ filter (\<lambda>x. \<not> P x) xs)
    = filter P (x # xs) @ filter (\<lambda>x. \<not> P x) (x # xs)"
proof (cases "P x")
  case True
  have "insort_key (\<lambda>x. if P x then 0 else 1 :: nat) x ys = x # ys" for ys
    using True by (cases ys) auto
  with True show ?thesis by simp
next
  case False
  have "\<forall>y \<in> set ys. P y \<Longrightarrow>
      insort_key (\<lambda>x. if P x then 0 else 1 :: nat) x (ys @ zs) 
        = ys @ insort_key (\<lambda>x. if P x then 0 else 1 :: nat) x zs" for ys zs
    using False by (induction ys) auto
  moreover have "\<forall>y \<in> set zs. \<not> P y \<Longrightarrow> insort_key (\<lambda>x. if P x then 0 else 1 :: nat) x zs = x # zs" for zs
    using False by (cases zs) auto
  ultimately show ?thesis using False by simp
qed

lemma sort_bit_filter:
  "sort_key (\<lambda>x. if P x then 0 else 1 :: nat) xs = filter P xs @ filter (\<lambda>x. \<not> P x) xs"
  by (induction xs) (simp, simp only: sort_key_simps insort_bit_filter)

lemma portalApplyOrder_split:
  "portalApplyOrder ps = filter (\<lambda>p. IsUnspecified (po_IP p)) ps @ filter (\<lambda>p. \<not> IsUnspecified (po_IP p)) ps"
proof (cases "length ps < 2")
  case True
  then show ?thesis
    by (cases ps) (auto simp: portalApplyOrder_def numeral_2_eq_2)
qed (simp add: portalApplyOrder_def sort_bit_filter)

section \<open>The appliance's portal list (appliance.go)\<close>

record ApplianceConfig =
  ac_TargetIQN :: string
  ac_Portals :: "Portal list"
  ac_DBRoot :: string
  ac_MachineIDPath :: string
  ac_WriteBack :: bool
  ac_NoUnmap :: bool

datatype config_error = BadTargetIQN string | NoPortals | PortalWithoutAddress
  | PortalWithoutPort Addr | PortalTwice AddrPort | PortalOverlap Addr Addr u16 | RelativeDBRoot string

definition wildcardCovers :: "Addr \<Rightarrow> Addr \<Rightarrow> bool" where
  "wildcardCovers w other = (if \<not> IsValid w \<or> \<not> IsValid other \<or> \<not> IsUnspecified w then False
     else if Is4 w then Is4 other else True)"

text \<open>
  The groups of one port are visited in no particular order, so that only whether an error is
  returned is determined; the model visits the ports as they first occur.
\<close>

definition overlap_in :: "u16 \<Rightarrow> Portal list \<Rightarrow> config_error option" where
  "overlap_in port grp =
    (case [(po_IP w, po_IP o'). w \<leftarrow> grp, IsUnspecified (po_IP w), o' \<leftarrow> grp,
             po_IP o' \<noteq> po_IP w, wildcardCovers (po_IP w) (po_IP o')] of
       [] \<Rightarrow> None
     | (w, o') # _ \<Rightarrow> Some (PortalOverlap w o' port))"

definition checkPortalOverlap :: "Portal list \<Rightarrow> config_error option" where
  "checkPortalOverlap portals =
    (case List.map_filter (\<lambda>port. overlap_in port (filter (\<lambda>p. po_Port p = port) portals))
            (keys_once (map po_Port portals)) of
       [] \<Rightarrow> None
     | e # _ \<Rightarrow> Some e)"

fun check_portal_list :: "AddrPort list \<Rightarrow> Portal list \<Rightarrow> config_error option" where
  "check_portal_list seen [] = None"
| "check_portal_list seen (p # ps) =
    (if \<not> IsValid (po_IP p) then Some PortalWithoutAddress
     else if po_Port p = 0 then Some (PortalWithoutPort (po_IP p))
     else if (po_IP p, po_Port p) \<in> set seen then Some (PortalTwice (po_IP p, po_Port p))
     else check_portal_list ((po_IP p, po_Port p) # seen) ps)"

definition ApplianceConfig_Validate :: "ApplianceConfig \<Rightarrow> config_error option" where
  "ApplianceConfig_Validate c =
    (if ac_TargetIQN c \<noteq> '''' \<and> \<not> ValidTargetIQN (ac_TargetIQN c) then Some (BadTargetIQN (ac_TargetIQN c))
     else if ac_Portals c = [] then Some NoPortals
     else (case check_portal_list [] (ac_Portals c) of
       Some e \<Rightarrow> Some e
     | None \<Rightarrow> (case checkPortalOverlap (ac_Portals c) of
         Some e \<Rightarrow> Some e
       | None \<Rightarrow> if ac_DBRoot c \<noteq> '''' \<and> \<not> hasPrefix ''/'' (ac_DBRoot c)
                 then Some (RelativeDBRoot (ac_DBRoot c)) else None)))"

lemma check_portal_list_None:
  "check_portal_list seen ps = None \<longleftrightarrow>
     (\<forall>p \<in> set ps. IsValid (po_IP p) \<and> po_Port p \<noteq> 0) \<and> distinct (map (\<lambda>p. (po_IP p, po_Port p)) ps)
     \<and> (\<lambda>p. (po_IP p, po_Port p)) ` set ps \<inter> set seen = {}"
  by (induction ps arbitrary: seen) auto

lemma covers_unspecified: "wildcardCovers w a \<Longrightarrow> IsUnspecified w"
  by (simp add: wildcardCovers_def split: if_splits)

lemma case_first_None:
  "(case xs of [] \<Rightarrow> None | (a, b) # ys \<Rightarrow> Some (f a b)) = None \<longleftrightarrow> xs = []"
  by (cases xs) auto

lemma overlap_in_None:
  "overlap_in port grp = None \<longleftrightarrow>
     (\<forall>w \<in> set grp. \<forall>o' \<in> set grp. wildcardCovers (po_IP w) (po_IP o') \<longrightarrow> po_IP o' = po_IP w)"
proof -
  let ?xs = "[(po_IP w, po_IP o'). w \<leftarrow> grp, IsUnspecified (po_IP w), o' \<leftarrow> grp,
             po_IP o' \<noteq> po_IP w, wildcardCovers (po_IP w) (po_IP o')]"
  have "overlap_in port grp = None \<longleftrightarrow> ?xs = []"
    unfolding overlap_in_def by (rule case_first_None)
  also have "\<dots> \<longleftrightarrow> set ?xs = {}" by (rule set_empty [symmetric])
  also have "set ?xs = {(po_IP w, po_IP o') |w o'. w \<in> set grp \<and> o' \<in> set grp \<and> IsUnspecified (po_IP w)
      \<and> po_IP o' \<noteq> po_IP w \<and> wildcardCovers (po_IP w) (po_IP o')}"
    by (auto split: if_splits)
  finally show ?thesis using covers_unspecified by blast
qed

lemma checkPortalOverlap_None:
  "checkPortalOverlap ps = None \<longleftrightarrow>
     (\<forall>w \<in> set ps. \<forall>o' \<in> set ps. po_Port w = po_Port o' \<and> wildcardCovers (po_IP w) (po_IP o')
        \<longrightarrow> po_IP o' = po_IP w)"
proof -
  have "checkPortalOverlap ps = None \<longleftrightarrow>
     List.map_filter (\<lambda>port. overlap_in port (filter (\<lambda>p. po_Port p = port) ps)) (keys_once (map po_Port ps)) = []"
    by (simp add: checkPortalOverlap_def split: list.splits)
  then show ?thesis by (auto simp: map_filter_Nil overlap_in_None)
qed

section \<open>A portal change never wedges\<close>

text \<open>
  The portals of one TPG as the kernel holds them, a set of endpoints, and the apply loop of
  \<open>ensureTPG\<close> over it: an endpoint that exists is left alone, otherwise the kernel is asked to add
  it. Whether the kernel refuses is the parameter \<open>refuses\<close>.
\<close>

fun add_portals :: "(AddrPort set \<Rightarrow> AddrPort \<Rightarrow> bool) \<Rightarrow> AddrPort set \<Rightarrow> Portal list \<Rightarrow> AddrPort set option" where
  "add_portals refuses live [] = Some live"
| "add_portals refuses live (p # ps) =
    (if portal_key p \<in> live then add_portals refuses live ps
     else if refuses live (portal_key p) then None
     else add_portals refuses (insert (portal_key p) live) ps)"

text \<open>
  What the source documents of the kernel (the measurements above \<open>wildcardPrecludes\<close> and
  \<open>checkPortalOverlap\<close>): a refusal has a cause among the live endpoints of the same port, either
  because the new endpoint is a wildcard, or because a live wildcard covers it.
\<close>

definition measured_kernel :: "(AddrPort set \<Rightarrow> AddrPort \<Rightarrow> bool) \<Rightarrow> bool" where
  "measured_kernel refuses \<longleftrightarrow>
     (\<forall>live ip port. refuses live (ip, port) \<longrightarrow>
        (\<exists>q. (q, port) \<in> live \<and> q \<noteq> ip \<and> (IsUnspecified ip \<or> wildcardCovers q ip)))"

definition kept_portals :: "Portal list \<Rightarrow> Portal list \<Rightarrow> Portal list" where
  "kept_portals desired alive = filter (\<lambda>p. \<not> portalConflictsWithAny p desired alive) alive"

definition bindable :: "AddrPort set \<Rightarrow> AddrPort \<Rightarrow> bool" where
  "bindable live k \<longleftrightarrow> k \<in> live \<or>
     \<not> (\<exists>q. (q, snd k) \<in> live \<and> q \<noteq> fst k \<and> (IsUnspecified (fst k) \<or> wildcardCovers q (fst k)))"

lemma add_portals_bindable:
  assumes "measured_kernel refuses"
    and "\<And>pre p post. ps = pre @ p # post \<Longrightarrow> bindable (live \<union> portal_key ` set pre) (portal_key p)"
  shows "add_portals refuses live ps = Some (live \<union> portal_key ` set ps)"
  using assms(2)
proof (induction ps arbitrary: live)
  case (Cons p ps)
  have "bindable live (portal_key p)" using Cons.prems [of "[]" p ps] by simp
  then have acc: "portal_key p \<notin> live \<Longrightarrow> \<not> refuses live (portal_key p)"
    using assms(1) unfolding measured_kernel_def bindable_def by (metis prod.collapse)
  have IH: "add_portals refuses (insert (portal_key p) live) ps
      = Some (insert (portal_key p) live \<union> portal_key ` set ps)"
    by (rule Cons.IH) (use Cons.prems [of "p # pre" for pre] in auto)
  show ?case
  proof (cases "portal_key p \<in> live")
    case True
    then have "insert (portal_key p) live = live" by auto
    with IH True show ?thesis by auto
  qed (use IH acc in auto)
qed simp

definition no_overlap :: "Portal list \<Rightarrow> bool" where
  "no_overlap ps \<longleftrightarrow> (\<forall>w \<in> set ps. \<forall>q \<in> set ps. portal_port w = portal_port q
     \<and> wildcardCovers (po_IP w) (po_IP q) \<longrightarrow> po_IP q = po_IP w)"

lemma two_wildcards:
  assumes "no_overlap ps" "w \<in> set ps" "q \<in> set ps" "portal_port w = portal_port q"
    "IsUnspecified (po_IP w)" "IsUnspecified (po_IP q)"
  shows "po_IP q = po_IP w"
proof -
  have "wildcardCovers (po_IP w) (po_IP q) \<or> wildcardCovers (po_IP q) (po_IP w)"
    using assms(5,6) by (cases "po_IP w"; cases "po_IP q") (auto simp: wildcardCovers_def)
  then show ?thesis using assms unfolding no_overlap_def by metis
qed

text \<open>What survives the removal of conflicting portals is out of the way of every missing one.\<close>

lemma kept_out_of_the_way:
  assumes "no_overlap desired" "d \<in> set desired" "IsValid (po_IP d)"
    and "\<forall>q \<in> set alive. IsValid (po_IP q)"
    and q: "q \<in> set (kept_portals desired alive)" "portal_port q = portal_port d" "po_IP q \<noteq> po_IP d"
    and bad: "IsUnspecified (po_IP d) \<and> portal_key d \<notin> portal_key ` set alive
      \<or> wildcardCovers (po_IP q) (po_IP d)"
  shows False
proof (cases "\<exists>d' \<in> set desired. portal_key q = portal_key d'")
  case True
  then obtain d' where d': "d' \<in> set desired" "portal_key q = portal_key d'" by auto
  then have ip: "po_IP q = po_IP d'" "portal_port q = portal_port d'" by (auto simp: portal_key_def)
  have nb: "\<not> blockedWildcardOnPort q desired alive"
    using q(1) d' by (auto simp: kept_portals_def portalConflictsWithAny_def list_ex_iff split: if_splits)
  from bad show False
  proof
    assume w: "IsUnspecified (po_IP d) \<and> portal_key d \<notin> portal_key ` set alive"
    then have "IsUnspecified (po_IP q)"
      using nb assms(2) q(2) by (auto simp: blockedWildcardOnPort_def list_ex_iff split: if_splits) (metis imageI)
    then show False using two_wildcards [OF assms(1,2) d'(1)] w ip q(2,3) by simp
  next
    assume "wildcardCovers (po_IP q) (po_IP d)"
    then show False using assms(1,2) d'(1) ip q(2,3) unfolding no_overlap_def by metis
  qed
next
  case False
  then have "\<not> (wildcardPrecludes (po_IP q) (po_IP d) \<or> wildcardPrecludes (po_IP d) (po_IP q))"
    using q(1,2) assms(2)
    by (auto simp: kept_portals_def portalConflictsWithAny_def list_ex_iff split: if_splits)
  moreover have "IsValid (po_IP q)" using q(1) assms(4) by (auto simp: kept_portals_def)
  ultimately show False
    using bad assms(3) by (auto simp: wildcardPrecludes_def wildcardCovers_def split: if_splits)
qed

lemma alive_wildcard_kept:
  assumes "d \<in> set desired" "IsUnspecified (po_IP d)" "portal_key d \<in> portal_key ` set alive"
  shows "portal_key d \<in> portal_key ` set (kept_portals desired alive)"
proof -
  obtain a where a: "a \<in> set alive" "portal_key a = portal_key d" using assms(3) by auto
  then have "IsUnspecified (po_IP a)" using assms(2) by (auto simp: portal_key_def)
  then have "\<not> portalConflictsWithAny a desired alive"
    using a assms(1) by (auto simp: portalConflictsWithAny_def blockedWildcardOnPort_def list_ex_iff)
  then show ?thesis using a by (auto simp: kept_portals_def intro!: rev_image_eqI [of a])
qed

lemma apply_order_bindable:
  assumes ov: "no_overlap desired" and val: "\<forall>p \<in> set desired. IsValid (po_IP p)"
    and alive: "\<forall>q \<in> set alive. IsValid (po_IP q)"
    and split: "portalApplyOrder desired = pre @ p # post"
  shows "bindable (portal_key ` set (kept_portals desired alive) \<union> portal_key ` set pre) (portal_key p)"
proof (rule ccontr)
  let ?K = "portal_key ` set (kept_portals desired alive)"
  have sub: "set (portalApplyOrder desired) = set desired" by (auto simp: portalApplyOrder_split)
  then have p: "p \<in> set desired" and pre: "set pre \<subseteq> set desired" using split by auto
  assume "\<not> ?thesis"
  then obtain q where fresh: "portal_key p \<notin> ?K \<union> portal_key ` set pre"
    and q: "(q, portal_port p) \<in> ?K \<union> portal_key ` set pre" "q \<noteq> po_IP p"
    and why: "IsUnspecified (po_IP p) \<or> wildcardCovers q (po_IP p)"
    by (auto simp: bindable_def portal_key_def)
  show False
  proof (cases "(q, portal_port p) \<in> ?K")
    case True
    then obtain x where x: "x \<in> set (kept_portals desired alive)" "po_IP x = q" "portal_port x = portal_port p"
      by (auto simp: portal_key_def)
    have "IsUnspecified (po_IP p) \<Longrightarrow> portal_key p \<notin> portal_key ` set alive"
      using alive_wildcard_kept [OF p] fresh by auto
    then show False using kept_out_of_the_way [OF ov p _ alive x(1,3)] val p x why q(2) by auto
  next
    case False
    then obtain x where x: "x \<in> set pre" "po_IP x = q" "portal_port x = portal_port p"
      using q(1) by (auto simp: portal_key_def)
    have xd: "x \<in> set desired" using x pre by auto
    from why show False
    proof
      assume w: "IsUnspecified (po_IP p)"
      have "IsUnspecified (po_IP x)"
      proof (rule ccontr)
        assume "\<not> IsUnspecified (po_IP x)"
        moreover have "filter (\<lambda>p. IsUnspecified (po_IP p)) desired @ filter (\<lambda>p. \<not> IsUnspecified (po_IP p)) desired
            = pre @ p # post" using split by (simp add: portalApplyOrder_split)
        ultimately show False using w x(1) by (auto simp: append_eq_append_conv2 filter_eq_Cons_iff Cons_eq_append_conv dest!: arg_cong [of _ _ set])
      qed
      then show False using two_wildcards [OF ov p xd] w x q(2) by auto
    next
      assume "wildcardCovers q (po_IP p)"
      then show False using ov p xd x q(2) unfolding no_overlap_def by metis
    qed
  qed
qed

lemma validated_no_overlap:
  assumes "ApplianceConfig_Validate c = None"
  shows "no_overlap (ac_Portals c) \<and> (\<forall>p \<in> set (ac_Portals c). IsValid (po_IP p) \<and> portal_port p = po_Port p)
    \<and> distinct (map portal_key (ac_Portals c))"
proof -
  have l: "check_portal_list [] (ac_Portals c) = None" and o': "checkPortalOverlap (ac_Portals c) = None"
    using assms by (auto simp: ApplianceConfig_Validate_def split: if_splits option.splits)
  have ports: "\<forall>p \<in> set (ac_Portals c). IsValid (po_IP p) \<and> portal_port p = po_Port p"
    using l by (auto simp: check_portal_list_None portal_port_def)
  moreover have "map portal_key (ac_Portals c) = map (\<lambda>p. (po_IP p, po_Port p)) (ac_Portals c)"
    using ports by (auto simp: portal_key_def)
  then have "distinct (map portal_key (ac_Portals c))" using l by (simp only: check_portal_list_None)
  moreover have "no_overlap (ac_Portals c)"
    using o' ports unfolding checkPortalOverlap_None no_overlap_def by auto
  ultimately show ?thesis by blast
qed

text \<open>C22. A change of portals never wedges. For every portal list that the appliance's configuration
  check accepts and every set of live portals, once the conflicting live portals are removed, adding
  the desired ones in \<open>portalApplyOrder\<close> is never refused by a kernel that refuses only for the
  documented causes, and all desired endpoints are live at the end, beside the live ones that did
  not conflict.\<close>

theorem portal_change_never_wedges:
  assumes "ApplianceConfig_Validate c = None" and "measured_kernel refuses"
    and "\<forall>q \<in> set alive. IsValid (po_IP q)"
  shows "add_portals refuses (portal_key ` set (kept_portals (ac_Portals c) alive)) (portalApplyOrder (ac_Portals c))
    = Some (portal_key ` set (kept_portals (ac_Portals c) alive) \<union> portal_key ` set (ac_Portals c))"
proof -
  have "set (portalApplyOrder (ac_Portals c)) = set (ac_Portals c)"
    by (auto simp: portalApplyOrder_split)
  moreover have "no_overlap (ac_Portals c)" and "\<forall>p \<in> set (ac_Portals c). IsValid (po_IP p)"
    using validated_no_overlap [OF assms(1)] by auto
  ultimately show ?thesis
    using add_portals_bindable [OF assms(2)] apply_order_bindable [OF _ _ assms(3)] by metis
qed

text \<open>The transition that once crash-looped: a live \<open>[fd00:10:10::1]:3260\<close>, and a desired list that
  adds \<open>0.0.0.0:3260\<close> behind it.\<close>

definition v6_portal :: Portal where
  "v6_portal = \<lparr>po_IP = V6 0xfd000010001000000000000000000001 [], po_Port = 3260\<rparr>"

definition v4_wildcard :: Portal where
  "v4_wildcard = \<lparr>po_IP = V4 0, po_Port = 3260\<rparr>"

definition eager_kernel :: "AddrPort set \<Rightarrow> AddrPort \<Rightarrow> bool" where
  "eager_kernel live k \<longleftrightarrow>
     (\<exists>q. (q, snd k) \<in> live \<and> q \<noteq> fst k \<and> (IsUnspecified (fst k) \<or> wildcardCovers q (fst k)))"

lemma portal_change_never_wedges_witness:
  "eager_kernel {portal_key v6_portal} (portal_key v4_wildcard)
   \<and> add_portals eager_kernel (portal_key ` set (kept_portals [v6_portal, v4_wildcard] [v6_portal]))
       (portalApplyOrder [v6_portal, v4_wildcard]) = Some {portal_key v4_wildcard, portal_key v6_portal}"
proof -
  let ?c = "\<lparr>ac_TargetIQN = [], ac_Portals = [v6_portal, v4_wildcard], ac_DBRoot = [],
    ac_MachineIDPath = [], ac_WriteBack = False, ac_NoUnmap = False\<rparr>"
  have "checkPortalOverlap [v6_portal, v4_wildcard] = None"
    by (simp add: v6_portal_def v4_wildcard_def checkPortalOverlap_None wildcardCovers_def)
  then have "ApplianceConfig_Validate ?c = None"
    by (simp add: ApplianceConfig_Validate_def) (simp add: v6_portal_def v4_wildcard_def)
  moreover have "measured_kernel eager_kernel" by (auto simp: measured_kernel_def eager_kernel_def)
  moreover have "kept_portals [v6_portal, v4_wildcard] [v6_portal] = []"
    by (simp add: kept_portals_def portalConflictsWithAny_def blockedWildcardOnPort_def portal_key_def
        portal_port_def v6_portal_def v4_wildcard_def)
  moreover have "eager_kernel {portal_key v6_portal} (portal_key v4_wildcard)"
    by (auto simp: eager_kernel_def portal_key_def portal_port_def v6_portal_def v4_wildcard_def)
  ultimately show ?thesis
    using portal_change_never_wedges [of ?c eager_kernel "[v6_portal]"]
    by (auto simp: v6_portal_def v4_wildcard_def portal_key_def)
qed

text \<open>A steady state does not flap: when the live endpoints are exactly the desired ones, no live
  portal counts as conflicting, whatever wildcards and ports the list holds.\<close>

lemma portal_steady_state:
  assumes "portal_key ` set alive = portal_key ` set desired"
  shows "kept_portals desired alive = alive"
proof -
  have "\<not> portalConflictsWithAny p desired alive" if "p \<in> set alive" for p
  proof -
    have "portal_key p \<in> portal_key ` set desired" using that assms by auto
    moreover have "\<forall>d \<in> set desired. \<exists>a \<in> set alive. portal_key a = portal_key d"
      using assms by (metis imageE imageI)
    ultimately show ?thesis
      by (auto simp: portalConflictsWithAny_def blockedWildcardOnPort_def list_ex_iff)
  qed
  then show ?thesis by (simp add: kept_portals_def filter_id_conv)
qed

end
