(* ===== verification/Appliance_Model.thy ===== *)
theory Appliance_Model
  imports Portals
begin

text \<open>
  The appliance's durable state and the rules it obeys (appliance/model.go, name.go, errcode.go, the
  loading checks and the helpers of appliance.go, translate.go's names). A record list of the Go code
  holds pointers; the model holds the records, with the null entries that a foreign file could
  contain left out (\<open>validateLoaded\<close> refuses them before anything else). The export map is an
  association list without repeated keys.
\<close>

section \<open>Records (model.go)\<close>

abbreviation KindVolume :: string where "KindVolume \<equiv> ''volume''"
abbreviation KindSnapshot :: string where "KindSnapshot \<equiv> ''snapshot''"
abbreviation stateReady :: string where "stateReady \<equiv> ''ready''"
abbreviation stateMissing :: string where "stateMissing \<equiv> ''missing''"

record Object =
  ob_UUID :: string
  ob_Name :: string
  ob_Kind :: string
  ob_WWN :: string
  ob_Capacity :: int
  ob_BlockSize :: int
  ob_Created :: int
  ob_State :: string
  ob_Source :: string

record Host =
  h_UUID :: string
  h_Name :: string
  h_IQNs :: "string list"

record Connection =
  cn_ObjectUUID :: string
  cn_HostUUID :: string
  cn_LUN :: int

record db =
  db_Version :: int
  db_Objects :: "Object list"
  db_Hosts :: "Host list"
  db_Connections :: "Connection list"
  db_Exports :: "(string \<times> int) list"
  db_Portals :: "Portal list"
  db_TargetIQN :: string
  db_MachineID :: string

definition dbVersion :: int where "dbVersion = 1"
definition maxLUN :: int where "maxLUN = 16383"
definition maxNameLen :: nat where "maxNameLen = 128"

definition object :: "db \<Rightarrow> string \<Rightarrow> Object option" where
  "object st uuid = find (\<lambda>x. ob_UUID x = uuid) (db_Objects st)"

definition objectByName :: "db \<Rightarrow> string \<Rightarrow> string \<Rightarrow> Object option" where
  "objectByName st kind name = find (\<lambda>x. ob_Kind x = kind \<and> ob_Name x = name) (db_Objects st)"

definition resolveObject :: "db \<Rightarrow> string \<Rightarrow> string \<Rightarrow> Object option" where
  "resolveObject st kind ref = (case objectByName st kind ref of
     Some x \<Rightarrow> Some x
   | None \<Rightarrow> (case object st ref of
       Some x \<Rightarrow> if ob_Kind x = kind then Some x else None
     | None \<Rightarrow> None))"

definition host :: "db \<Rightarrow> string \<Rightarrow> Host option" where
  "host st uuid = find (\<lambda>h. h_UUID h = uuid) (db_Hosts st)"

definition hostByName :: "db \<Rightarrow> string \<Rightarrow> Host option" where
  "hostByName st name = find (\<lambda>h. h_Name h = name) (db_Hosts st)"

definition resolveHost :: "db \<Rightarrow> string \<Rightarrow> Host option" where
  "resolveHost st ref = (case hostByName st ref of Some h \<Rightarrow> Some h | None \<Rightarrow> host st ref)"

definition connectionsOf :: "db \<Rightarrow> string \<Rightarrow> Connection list" where
  "connectionsOf st objectUUID = filter (\<lambda>c. cn_ObjectUUID c = objectUUID) (db_Connections st)"

definition connectionsOfHost :: "db \<Rightarrow> string \<Rightarrow> Connection list" where
  "connectionsOfHost st hostUUID = filter (\<lambda>c. cn_HostUUID c = hostUUID) (db_Connections st)"

definition iqnOwner :: "db \<Rightarrow> string \<Rightarrow> string \<Rightarrow> string" where
  "iqnOwner st iqn exceptHost =
    (case find (\<lambda>h. h_UUID h \<noteq> exceptHost \<and> iqn \<in> set (h_IQNs h)) (db_Hosts st) of
       Some h \<Rightarrow> h_UUID h | None \<Rightarrow> '''')"

section \<open>Names and identities (name.go, appliance.go)\<close>

datatype name_error = NameRequired | NameTooLong nat | NameSurroundingSpace | NameReserved | NameBadCharacter

text \<open>
  The character loop works on runes. A path separator or a control character is an ASCII byte, and a
  white-space rune outside ASCII occurs exactly where its encoding does.
\<close>

definition bad_name_char :: "char \<Rightarrow> bool" where
  "bad_name_char c = (let r = of_char c :: nat in c = CHR ''/'' \<or> r < 0x20 \<or> r = 0x7f)"

definition validName :: "string \<Rightarrow> name_error option" where
  "validName name =
    (if name = '''' then Some NameRequired
     else if length name > maxNameLen then Some (NameTooLong (length name))
     else if trimSpace name \<noteq> name then Some NameSurroundingSpace
     else if name = ''.'' \<or> name = ''..'' then Some NameReserved
     else if list_ex bad_name_char name
        \<or> list_ex (\<lambda>e. length e > 1 \<and> contains_str e name) space_encodings then Some NameBadCharacter
     else None)"

definition validUUID :: "string \<Rightarrow> bool" where
  "validUUID s \<longleftrightarrow> length s = 36
     \<and> list_all (\<lambda>i. if i \<in> set [8, 13, 18, 23] then s ! i = CHR ''-'' else isHexDigit (s ! i)) [0..<36]"

definition hex_bytes :: "byte list \<Rightarrow> string" where
  "hex_bytes bs = concat (map hex2 bs)"

text \<open>The version and variant bits of an RFC 4122 version 4 identifier.\<close>

definition stamp_v4 :: "byte list \<Rightarrow> byte list" where
  "stamp_v4 b = b[6 := (b ! 6 AND 0x0f) OR 0x40, 8 := (b ! 8 AND 0x3f) OR 0x80]"

definition newIdentity :: "byte list \<Rightarrow> string \<times> string" where
  "newIdentity rand = (let b = stamp_v4 rand in
     (hex_bytes (slice 0 4 b) @ ''-'' @ hex_bytes (slice 4 6 b) @ ''-'' @ hex_bytes (slice 6 8 b) @ ''-''
        @ hex_bytes (slice 8 10 b) @ ''-'' @ hex_bytes (slice 10 16 b),
      hex_bytes (slice 0 8 b)))"

definition newHostUUID :: "byte list \<Rightarrow> string" where
  "newHostUUID rand = (let h = hex_bytes (stamp_v4 rand) in
     slice 0 8 h @ ''-'' @ slice 8 12 h @ ''-'' @ slice 12 16 h @ ''-'' @ slice 16 20 h @ ''-'' @ slice 20 32 h)"

definition backstoreName :: "string \<Rightarrow> string" where
  "backstoreName volumeUUID = ''vol_'' @ removeChar CHR ''-'' volumeUUID"

definition Wwid :: "string \<Rightarrow> string" where
  "Wwid wwn = (if length wwn \<noteq> 16 then ''''
     else if \<not> list_all isHexDigit wwn then ''''
     else ''0x6001405'' @ wwn @ ''000000000'')"

section \<open>Export indices (appliance.go)\<close>

text \<open>The loop \<open>for used[idx] { idx++ }\<close> ends after at most as many steps as there are indices in use.\<close>

function lowest_free :: "int list \<Rightarrow> int \<Rightarrow> int" where
  "lowest_free used idx = (if idx \<in> set used then lowest_free used (idx + 1) else idx)"
  by auto
termination
proof (relation "measure (\<lambda>(used, idx). card {i \<in> set used. idx \<le> i})")
  fix used :: "int list" and idx :: int
  assume u: "idx \<in> set used"
  then have "idx \<in> {i \<in> set used. idx \<le> i} - {i \<in> set used. idx + 1 \<le> i}" by simp
  then have "{i \<in> set used. idx + 1 \<le> i} \<subset> {i \<in> set used. idx \<le> i}" by fastforce
  then show "((used, idx + 1), (used, idx)) \<in> measure (\<lambda>(used, idx). card {i \<in> set used. idx \<le> i})"
    by (simp add: psubset_card_mono)
qed simp

declare lowest_free.simps [simp del]

definition exportIndex :: "db \<Rightarrow> string \<Rightarrow> int \<times> db" where
  "exportIndex st objectUUID = (case map_of (db_Exports st) objectUUID of
     Some idx \<Rightarrow> (idx, st)
   | None \<Rightarrow> (let idx = lowest_free (map snd (db_Exports st)) 0 in
       (idx, st\<lparr>db_Exports := db_Exports st @ [(objectUUID, idx)]\<rparr>)))"

definition pruneExports :: "db \<Rightarrow> db" where
  "pruneExports st = st\<lparr>db_Exports := filter (\<lambda>(obj, idx). connectionsOf st obj \<noteq> []) (db_Exports st)\<rparr>"

definition snapshotState :: "db \<Rightarrow> db" where
  "snapshotState st = \<lparr>db_Version = db_Version st, db_Objects = db_Objects st, db_Hosts = db_Hosts st,
     db_Connections = db_Connections st, db_Exports = db_Exports st, db_Portals = db_Portals st,
     db_TargetIQN = '''', db_MachineID = ''''\<rparr>"

section \<open>Loading (appliance.go)\<close>

datatype load_error = WrongVersion int | IllFormedUUID string | DuplicateUUID string | UnknownKind string
  | BadName name_error | DuplicateName string | InvalidIQN string | IQNClaimedTwice string
  | LUNOutOfRange int | UnknownObject string | UnknownHost string | DuplicateConnection string string
  | LUNTwice int string | IndexOutOfRange int | IndexTwice int

definition checkVersion :: "db \<Rightarrow> load_error option" where
  "checkVersion st = (if db_Version st = dbVersion then None else Some (WrongVersion (db_Version st)))"

definition known_kind :: "string \<Rightarrow> bool" where
  "known_kind k \<longleftrightarrow> \<not> (k \<noteq> KindVolume \<and> k \<noteq> KindSnapshot)"

definition name_key :: "string \<Rightarrow> string \<Rightarrow> string" where
  "name_key kind name = kind @ ''/'' @ name"

definition pair_key :: "string \<Rightarrow> string \<Rightarrow> string" where
  "pair_key a b = a @ ''/'' @ b"

fun load_objects :: "string list \<Rightarrow> string list \<Rightarrow> Object list \<Rightarrow> load_error + string list" where
  "load_objects seenObj seenName [] = Inr seenObj"
| "load_objects seenObj seenName (x # xs) =
    (if \<not> validUUID (ob_UUID x) then Inl (IllFormedUUID (ob_UUID x))
     else if ob_UUID x \<in> set seenObj then Inl (DuplicateUUID (ob_UUID x))
     else if \<not> known_kind (ob_Kind x) then Inl (UnknownKind (ob_Kind x))
     else (case validName (ob_Name x) of
       Some e \<Rightarrow> Inl (BadName e)
     | None \<Rightarrow> (let key = name_key (ob_Kind x) (ob_Name x) in
         if key \<in> set seenName then Inl (DuplicateName (ob_Name x))
         else load_objects (ob_UUID x # seenObj) (key # seenName) xs)))"

fun load_iqns :: "string list \<Rightarrow> string list \<Rightarrow> load_error + string list" where
  "load_iqns owned [] = Inr owned"
| "load_iqns owned (q # qs) =
    (if \<not> ValidInitiatorIQN q then Inl (InvalidIQN q)
     else if q \<in> set owned then Inl (IQNClaimedTwice q)
     else load_iqns (q # owned) qs)"

fun load_hosts :: "string list \<Rightarrow> string list \<Rightarrow> string list \<Rightarrow> Host list \<Rightarrow> load_error + string list" where
  "load_hosts hosts hostNames owned [] = Inr hosts"
| "load_hosts hosts hostNames owned (h # hs) =
    (if \<not> validUUID (h_UUID h) then Inl (IllFormedUUID (h_UUID h))
     else if h_UUID h \<in> set hosts then Inl (DuplicateUUID (h_UUID h))
     else (case validName (h_Name h) of
       Some e \<Rightarrow> Inl (BadName e)
     | None \<Rightarrow> if h_Name h \<in> set hostNames then Inl (DuplicateName (h_Name h))
         else and_then (load_iqns owned (h_IQNs h)) (\<lambda>owned'.
           load_hosts (h_UUID h # hosts) (h_Name h # hostNames) owned' hs)))"

fun load_connections :: "string list \<Rightarrow> string list \<Rightarrow> string list \<Rightarrow> string list \<Rightarrow> Connection list
    \<Rightarrow> load_error option" where
  "load_connections objs hosts seenPair seenHostLUN [] = None"
| "load_connections objs hosts seenPair seenHostLUN (c # cs) =
    (if cn_LUN c < 0 \<or> cn_LUN c > maxLUN then Some (LUNOutOfRange (cn_LUN c))
     else if cn_ObjectUUID c \<notin> set objs then Some (UnknownObject (cn_ObjectUUID c))
     else if cn_HostUUID c \<notin> set hosts then Some (UnknownHost (cn_HostUUID c))
     else (let pair = pair_key (cn_HostUUID c) (cn_ObjectUUID c); hl = pair_key (cn_HostUUID c) (itoa (cn_LUN c)) in
       if pair \<in> set seenPair then Some (DuplicateConnection (cn_HostUUID c) (cn_ObjectUUID c))
       else if hl \<in> set seenHostLUN then Some (LUNTwice (cn_LUN c) (cn_HostUUID c))
       else load_connections objs hosts (pair # seenPair) (hl # seenHostLUN) cs))"

fun load_exports :: "int list \<Rightarrow> (string \<times> int) list \<Rightarrow> load_error option" where
  "load_exports used [] = None"
| "load_exports used ((obj, idx) # es) =
    (if \<not> validUUID obj then Some (IllFormedUUID obj)
     else if idx < 0 \<or> idx > maxLUN then Some (IndexOutOfRange idx)
     else if idx \<in> set used then Some (IndexTwice idx)
     else load_exports (idx # used) es)"

definition validateLoaded :: "db \<Rightarrow> load_error option" where
  "validateLoaded st =
    (case load_objects [] [] (db_Objects st) of
       Inl e \<Rightarrow> Some e
     | Inr objs \<Rightarrow> (case load_hosts [] [] [] (db_Hosts st) of
         Inl e \<Rightarrow> Some e
       | Inr hosts \<Rightarrow> (case load_connections objs hosts [] [] (db_Connections st) of
           Some e \<Rightarrow> Some e
         | None \<Rightarrow> load_exports [] (db_Exports st))))"

section \<open>What a loadable database is\<close>

definition valid_objects :: "Object list \<Rightarrow> bool" where
  "valid_objects xs \<longleftrightarrow> distinct (map ob_UUID xs) \<and> distinct (map (\<lambda>x. (ob_Kind x, ob_Name x)) xs)
     \<and> (\<forall>x \<in> set xs. validUUID (ob_UUID x) \<and> known_kind (ob_Kind x) \<and> validName (ob_Name x) = None)"

definition valid_hosts :: "Host list \<Rightarrow> bool" where
  "valid_hosts hs \<longleftrightarrow> distinct (map h_UUID hs) \<and> distinct (map h_Name hs) \<and> distinct (concat (map h_IQNs hs))
     \<and> (\<forall>h \<in> set hs. validUUID (h_UUID h) \<and> validName (h_Name h) = None \<and> (\<forall>q \<in> set (h_IQNs h). ValidInitiatorIQN q))"

definition valid_connections :: "string set \<Rightarrow> string set \<Rightarrow> Connection list \<Rightarrow> bool" where
  "valid_connections objs hosts cs \<longleftrightarrow> distinct (map (\<lambda>c. (cn_HostUUID c, cn_ObjectUUID c)) cs)
     \<and> distinct (map (\<lambda>c. (cn_HostUUID c, cn_LUN c)) cs)
     \<and> (\<forall>c \<in> set cs. 0 \<le> cn_LUN c \<and> cn_LUN c \<le> maxLUN \<and> cn_ObjectUUID c \<in> objs \<and> cn_HostUUID c \<in> hosts)"

definition valid_exports :: "(string \<times> int) list \<Rightarrow> bool" where
  "valid_exports es \<longleftrightarrow> distinct (map snd es) \<and> (\<forall>(obj, idx) \<in> set es. validUUID obj \<and> 0 \<le> idx \<and> idx \<le> maxLUN)"

definition valid_db :: "db \<Rightarrow> bool" where
  "valid_db st \<longleftrightarrow> valid_objects (db_Objects st) \<and> valid_hosts (db_Hosts st)
     \<and> valid_connections (ob_UUID ` set (db_Objects st)) (h_UUID ` set (db_Hosts st)) (db_Connections st)
     \<and> valid_exports (db_Exports st)"

lemma validUUID_length: "validUUID s \<Longrightarrow> length s = 36"
  by (simp add: validUUID_def)

lemma name_key_inj:
  "known_kind k \<Longrightarrow> known_kind k' \<Longrightarrow> name_key k n = name_key k' n' \<longleftrightarrow> k = k' \<and> n = n'"
  by (auto simp: known_kind_def name_key_def)

lemma pair_key_inj: "length a = 36 \<Longrightarrow> length a' = 36 \<Longrightarrow> pair_key a b = pair_key a' b' \<longleftrightarrow> a = a' \<and> b = b'"
  by (simp add: pair_key_def)

lemma load_objects_iff:
  assumes "\<forall>(k, n) \<in> set seenName. known_kind k"
  shows "load_objects seenObj (map (case_prod name_key) seenName) xs = Inr r \<longleftrightarrow>
     r = rev (map ob_UUID xs) @ seenObj \<and> valid_objects xs \<and> ob_UUID ` set xs \<inter> set seenObj = {}
     \<and> (\<lambda>x. (ob_Kind x, ob_Name x)) ` set xs \<inter> set seenName = {}"
  using assms
proof (induction xs arbitrary: seenObj seenName)
  case (Cons x xs)
  show ?case
  proof (cases "known_kind (ob_Kind x)")
    case False
    then show ?thesis by (auto simp: valid_objects_def)
  next
    case True
    have key: "name_key (ob_Kind x) (ob_Name x) \<in> case_prod name_key ` set seenName
        \<longleftrightarrow> (ob_Kind x, ob_Name x) \<in> set seenName"
      using Cons.prems True name_key_inj by (fastforce simp: image_iff)
    have IH: "load_objects (ob_UUID x # seenObj) (name_key (ob_Kind x) (ob_Name x) # map (case_prod name_key) seenName) xs = Inr r
      \<longleftrightarrow> r = rev (map ob_UUID xs) @ ob_UUID x # seenObj \<and> valid_objects xs
        \<and> ob_UUID ` set xs \<inter> set (ob_UUID x # seenObj) = {}
        \<and> (\<lambda>x. (ob_Kind x, ob_Name x)) ` set xs \<inter> set ((ob_Kind x, ob_Name x) # seenName) = {}"
      using Cons.IH [of "(ob_Kind x, ob_Name x) # seenName" "ob_UUID x # seenObj"] Cons.prems True by simp
    show ?thesis
      using True by (auto simp: Let_def key IH valid_objects_def split: option.splits)
  qed
qed (auto simp: valid_objects_def)

lemma load_iqns_iff:
  "load_iqns owned qs = Inr r \<longleftrightarrow> r = rev qs @ owned \<and> distinct qs \<and> (\<forall>q \<in> set qs. ValidInitiatorIQN q)
     \<and> set qs \<inter> set owned = {}"
  by (induction qs arbitrary: owned) auto

lemma load_hosts_iff:
  "load_hosts hosts names owned hs = Inr r \<longleftrightarrow> r = rev (map h_UUID hs) @ hosts \<and> valid_hosts hs
     \<and> h_UUID ` set hs \<inter> set hosts = {} \<and> h_Name ` set hs \<inter> set names = {}
     \<and> set (concat (map h_IQNs hs)) \<inter> set owned = {}"
proof (induction hs arbitrary: hosts names owned)
  case (Cons h hs)
  show ?case
    by (auto simp: valid_hosts_def Cons.IH load_iqns_iff split: option.splits)
qed (auto simp: valid_hosts_def)

lemma load_connections_iff:
  assumes "\<forall>u \<in> set hosts. length u = 36"
    and "\<forall>(h, x) \<in> set pairs. length h = 36" and "\<forall>(h, l) \<in> set luns. length h = 36"
  shows "load_connections objs hosts (map (\<lambda>(h, x). pair_key h x) pairs) (map (\<lambda>(h, l). pair_key h (itoa l)) luns) cs = None
    \<longleftrightarrow> valid_connections (set objs) (set hosts) cs
      \<and> (\<lambda>c. (cn_HostUUID c, cn_ObjectUUID c)) ` set cs \<inter> set pairs = {}
      \<and> (\<lambda>c. (cn_HostUUID c, cn_LUN c)) ` set cs \<inter> set luns = {}"
  using assms(2,3)
proof (induction cs arbitrary: pairs luns)
  case (Cons c cs)
  show ?case
  proof (cases "cn_HostUUID c \<in> set hosts")
    case False
    then show ?thesis by (auto simp: valid_connections_def)
  next
    case True
    then have l: "length (cn_HostUUID c) = 36" using assms(1) by simp
    have p: "pair_key (cn_HostUUID c) (cn_ObjectUUID c) \<in> (\<lambda>(h, x). pair_key h x) ` set pairs
        \<longleftrightarrow> (cn_HostUUID c, cn_ObjectUUID c) \<in> set pairs"
      using Cons.prems(1) l pair_key_inj by (fastforce simp: image_iff)
    have q: "pair_key (cn_HostUUID c) (itoa (cn_LUN c)) \<in> (\<lambda>(h, x). pair_key h (itoa x)) ` set luns
        \<longleftrightarrow> (cn_HostUUID c, cn_LUN c) \<in> set luns"
      using Cons.prems(2) l pair_key_inj itoa_inj by (fastforce simp: image_iff)
    have IH: "load_connections objs hosts (pair_key (cn_HostUUID c) (cn_ObjectUUID c) # map (\<lambda>(h, x). pair_key h x) pairs)
         (pair_key (cn_HostUUID c) (itoa (cn_LUN c)) # map (\<lambda>(h, l). pair_key h (itoa l)) luns) cs = None
       \<longleftrightarrow> valid_connections (set objs) (set hosts) cs
      \<and> (\<lambda>c. (cn_HostUUID c, cn_ObjectUUID c)) ` set cs \<inter> set ((cn_HostUUID c, cn_ObjectUUID c) # pairs) = {}
      \<and> (\<lambda>c. (cn_HostUUID c, cn_LUN c)) ` set cs \<inter> set ((cn_HostUUID c, cn_LUN c) # luns) = {}"
      using Cons.IH [of "(cn_HostUUID c, cn_ObjectUUID c) # pairs" "(cn_HostUUID c, cn_LUN c) # luns"] Cons.prems l
      by simp
    show ?thesis
      using True by (auto simp: Let_def p q IH valid_connections_def)
  qed
qed (auto simp: valid_connections_def)

lemma load_exports_iff:
  "load_exports used es = None \<longleftrightarrow> valid_exports es \<and> snd ` set es \<inter> set used = {}"
  by (induction used es rule: load_exports.induct) (auto simp: valid_exports_def)

lemma validateLoaded_ok: "validateLoaded st = None \<longleftrightarrow> valid_db st"
proof -
  have ob: "load_objects [] [] (db_Objects st) = Inr r \<longleftrightarrow> r = rev (map ob_UUID (db_Objects st)) \<and> valid_objects (db_Objects st)" for r
    using load_objects_iff [of "[]" "[]" "db_Objects st" r] by simp
  have ho: "load_hosts [] [] [] (db_Hosts st) = Inr r \<longleftrightarrow> r = rev (map h_UUID (db_Hosts st)) \<and> valid_hosts (db_Hosts st)" for r
    using load_hosts_iff [of "[]" "[]" "[]" "db_Hosts st" r] by simp
  have co: "load_connections (rev (map ob_UUID (db_Objects st))) (rev (map h_UUID (db_Hosts st))) [] [] (db_Connections st) = None
      \<longleftrightarrow> valid_connections (ob_UUID ` set (db_Objects st)) (h_UUID ` set (db_Hosts st)) (db_Connections st)"
    if "valid_hosts (db_Hosts st)"
    using load_connections_iff [of "rev (map h_UUID (db_Hosts st))" "[]" "[]" "rev (map ob_UUID (db_Objects st))"] that
    by (simp add: valid_hosts_def validUUID_length)
  show ?thesis
  proof (cases "valid_objects (db_Objects st) \<and> valid_hosts (db_Hosts st)")
    case True
    then have "load_objects [] [] (db_Objects st) = Inr (rev (map ob_UUID (db_Objects st)))"
      and "load_hosts [] [] [] (db_Hosts st) = Inr (rev (map h_UUID (db_Hosts st)))" using ob ho by simp_all
    then show ?thesis
      using True co load_exports_iff [of "[]" "db_Exports st"]
      by (auto simp: validateLoaded_def valid_db_def split: option.splits)
  next
    case False
    then show ?thesis
      using ob ho by (auto simp: validateLoaded_def valid_db_def split: sum.splits)
  qed
qed

text \<open>C30. Loading fails closed and no more: \<open>validateLoaded\<close> accepts a database exactly when object and host
  identifiers are well formed and unique, names are valid and unique within their kind, every initiator
  name is valid and bound to one host, every connection joins an existing object and host at a LUN in
  range with neither the pair nor the host's LUN repeated, and export indices are in range and unique.\<close>

theorem validateLoaded_iff: "validateLoaded st = None \<longleftrightarrow> valid_db st"
  by (rule validateLoaded_ok)

end
