(* ===== verification/Storage.thy ===== *)
theory Storage
  imports Lio_Model "HOL-Library.Multiset" "HOL-Library.List_Lexorder" "HOL-Library.Char_ord"
begin

text \<open>
  Package \<open>storage\<close> (store.go, reflink.go, geometry.go, io.go): the directory of backing files. What
  lies under \<open>objects/\<close> is an association list from directory names to the size of the file
  \<open>disk\<close> in it, \<open>None\<close> when there is no such file. Every system call may fail: its outcome is
  taken from a list of faults, so that a theorem that holds for all lists holds for every pattern of
  failures. The bytes of a file are not modelled, its size is.
\<close>

section \<open>The operating system\<close>

record os =
  os_faults :: "errno option list"
  os_rand :: "byte list option list"
  os_now :: int
  os_stamp :: string

text \<open>The outcome of the next system call; none left means that the calls succeed.\<close>

definition syscall :: "os \<Rightarrow> errno option \<times> os" where
  "syscall w = (case os_faults w of [] \<Rightarrow> (None, w) | f # fs \<Rightarrow> (f, w\<lparr>os_faults := fs\<rparr>))"

text \<open>A sequence of \<open>n\<close> calls, ended by the first failure.\<close>

fun syscalls :: "nat \<Rightarrow> os \<Rightarrow> errno option \<times> os" where
  "syscalls 0 w = (None, w)"
| "syscalls (Suc n) w = (case syscall w of (Some e, w') \<Rightarrow> (Some e, w') | (None, w') \<Rightarrow> syscalls n w')"

text \<open>\<open>syncDir\<close>: open the directory, then fsync it.\<close>

definition syncDir :: "os \<Rightarrow> errno option \<times> os" where
  "syncDir w = syscalls 2 w"

section \<open>Geometry (geometry.go)\<close>

definition SizeGranularity :: int where "SizeGranularity = 4096"

datatype granularity_error = GranularityNotPositive int | NotAMultiple int int

definition go_rem :: "int \<Rightarrow> int \<Rightarrow> int" where
  "go_rem a b = (if a \<ge> 0 then a mod \<bar>b\<bar> else - ((- a) mod \<bar>b\<bar>))"

definition CheckGranularity :: "int \<Rightarrow> int \<Rightarrow> granularity_error option" where
  "CheckGranularity sz granularity =
    (if granularity \<le> 0 then Some (GranularityNotPositive granularity)
     else if go_rem sz granularity \<noteq> 0 then Some (NotAMultiple sz granularity) else None)"

lemma CheckGranularity_None: "CheckGranularity sz g = None \<longleftrightarrow> 0 < g \<and> g dvd sz"
proof (cases "0 < g")
  case True
  then have "g \<noteq> sz mod g" using pos_mod_bound [of g sz] by (metis less_irrefl)
  with True show ?thesis
    by (auto simp: CheckGranularity_def go_rem_def dvd_eq_mod_eq_0 zmod_zminus1_eq_if)
qed (simp add: CheckGranularity_def)

lemma go_rem_dvd: "b dvd a - go_rem a b"
proof (cases "0 \<le> a")
  case True
  have "\<bar>b\<bar> dvd a - a mod \<bar>b\<bar>" by (rule dvd_minus_mod)
  with True show ?thesis by (simp only: go_rem_def if_True abs_dvd_iff)
next
  case False
  have "a - go_rem a b = - (- a - (- a) mod \<bar>b\<bar>)" using False by (simp add: go_rem_def)
  then show ?thesis using dvd_minus_mod [of "\<bar>b\<bar>" "- a"] by (metis abs_dvd_iff dvd_minus_iff)
qed

section \<open>The store (store.go)\<close>

record Store =
  s_root :: string
  s_dirs :: "(string \<times> int option) list"
  s_quarantined :: "string list"

datatype store_error = SizeNotPositive | BadDirName string | ObjectExists string | StoreOS errno
  | SourceMissing string errno | FicloneFailed errno | ShrinkUnsupported int int | CannotQuarantine string errno

definition quarantinePrefix :: string where "quarantinePrefix = ''.orphan-''"
definition stagingPrefix :: string where "stagingPrefix = ''.staging-''"

definition put_dir :: "string \<Rightarrow> int option \<Rightarrow> (string \<times> int option) list \<Rightarrow> (string \<times> int option) list" where
  "put_dir n v ds = (n, v) # filter (\<lambda>d. fst d \<noteq> n) ds"

definition drop_dir :: "string \<Rightarrow> (string \<times> int option) list \<Rightarrow> (string \<times> int option) list" where
  "drop_dir n ds = filter (\<lambda>d. fst d \<noteq> n) ds"

definition disk_size :: "Store \<Rightarrow> string \<Rightarrow> int option" where
  "disk_size s uuid = (case map_of (s_dirs s) uuid of Some (Some n) \<Rightarrow> Some n | _ \<Rightarrow> None)"

text \<open>
  \<open>os.Stat\<close> of an object directory and of its backing file. A failure never claims that something
  present is absent.
\<close>

definition stat_dir :: "Store \<Rightarrow> string \<Rightarrow> os \<Rightarrow> errno option \<times> os" where
  "stat_dir s n w = (case syscall w of
     (f, w') \<Rightarrow> (if map_of (s_dirs s) n = None then Some (case f of Some e \<Rightarrow> e | None \<Rightarrow> ENOENT)
                else if f = Some ENOENT then None else f, w'))"

definition stat_disk :: "Store \<Rightarrow> string \<Rightarrow> os \<Rightarrow> errno option \<times> os" where
  "stat_disk s n w = (case syscall w of
     (f, w') \<Rightarrow> (if disk_size s n = None then Some (case f of Some e \<Rightarrow> e | None \<Rightarrow> ENOENT)
                else if f = Some ENOENT then None else f, w'))"

text \<open>\<open>os.RemoveAll\<close> on an object directory: the file, then the directory. A missing one is no error.\<close>

definition remove_all :: "string \<Rightarrow> Store \<Rightarrow> os \<Rightarrow> errno option \<times> Store \<times> os" where
  "remove_all n s w =
    (if map_of (s_dirs s) n = None then (None, s, w)
     else (case syscall w of
       (Some e, w1) \<Rightarrow> (Some e, s, w1)
     | (None, w1) \<Rightarrow> (case syscall w1 of
         (Some e, w2) \<Rightarrow> (Some e, s\<lparr>s_dirs := put_dir n None (s_dirs s)\<rparr>, w2)
       | (None, w2) \<Rightarrow> (None, s\<lparr>s_dirs := drop_dir n (s_dirs s)\<rparr>, w2))))"

fun open_entries :: "string list \<Rightarrow> Store \<Rightarrow> os \<Rightarrow> Store \<times> os" where
  "open_entries [] s w = (s, w)"
| "open_entries (n # ns) s w =
    (if hasPrefix stagingPrefix n then (case remove_all n s w of (_, s', w') \<Rightarrow> open_entries ns s' w')
     else if hasPrefix quarantinePrefix n then open_entries ns (s\<lparr>s_quarantined := s_quarantined s @ [n]\<rparr>) w
     else open_entries ns s w)"

definition store_Open :: "string \<Rightarrow> (string \<times> int option) list \<Rightarrow> os \<Rightarrow> (store_error + Store) \<times> os" where
  "store_Open root ondisk w =
    (case syscalls 2 w of
       (Some e, w1) \<Rightarrow> (Inl (StoreOS e), w1)
     | (None, w1) \<Rightarrow>
        (case open_entries (sort (map fst ondisk)) \<lparr>s_root = root, s_dirs = ondisk, s_quarantined = []\<rparr> w1 of
           (s, w2) \<Rightarrow> (Inr (s\<lparr>s_quarantined := sort (s_quarantined s)\<rparr>), w2)))"

definition DiskPath :: "Store \<Rightarrow> string \<Rightarrow> string" where
  "DiskPath s uuid = s_root s @ ''/objects/'' @ uuid @ ''/disk''"

definition Exists :: "Store \<Rightarrow> string \<Rightarrow> os \<Rightarrow> bool \<times> os" where
  "Exists s uuid w = (case stat_disk s uuid w of (e, w') \<Rightarrow> (e = None, w'))"

definition ObjectDirs :: "Store \<Rightarrow> os \<Rightarrow> (store_error + string list) \<times> os" where
  "ObjectDirs s w = (case syscall w of
     (Some e, w') \<Rightarrow> (Inl (StoreOS e), w')
   | (None, w') \<Rightarrow> (Inr (sort (filter (\<lambda>n. \<not> (hasPrefix stagingPrefix n \<or> hasPrefix quarantinePrefix n))
        (map fst (s_dirs s)))), w'))"

definition Quarantine :: "string \<Rightarrow> Store \<Rightarrow> os \<Rightarrow> (store_error + string) \<times> Store \<times> os" where
  "Quarantine uuid s w =
    (let q = quarantinePrefix @ os_stamp w @ ''-'' @ uuid in
     case syscall w of
       (Some e, w') \<Rightarrow> (Inl (CannotQuarantine uuid e), s, w')
     | (None, w') \<Rightarrow> (case map_of (s_dirs s) uuid of
         None \<Rightarrow> (Inl (CannotQuarantine uuid ENOENT), s, w')
       | Some v \<Rightarrow> if map_of (s_dirs s) q \<noteq> None then (Inl (CannotQuarantine uuid ENOTEMPTY), s, w')
           else (Inr q, s\<lparr>s_dirs := put_dir q v (drop_dir uuid (s_dirs s)),
                          s_quarantined := sort (s_quarantined s @ [q])\<rparr>, w')))"

text \<open>
  \<open>stage\<close>: the backing file is made by \<open>fill\<close> in a directory with a staging name, and the rename
  into place is the commit. The deferred removal of the staging directory runs on every path.
\<close>

definition unstage :: "string \<Rightarrow> store_error option \<Rightarrow> Store \<Rightarrow> os \<Rightarrow> store_error option \<times> Store \<times> os" where
  "unstage staging r s w = (case remove_all staging s w of (_, s', w') \<Rightarrow> (r, s', w'))"

definition stage :: "string \<Rightarrow> (os \<Rightarrow> (store_error + int) \<times> os) \<Rightarrow> Store \<Rightarrow> os \<Rightarrow> store_error option \<times> Store \<times> os" where
  "stage uuid fill s w =
    (if uuid = '''' \<or> CHR ''/'' \<in> set uuid \<or> uuid = ''.'' \<or> uuid = ''..'' then (Some (BadDirName uuid), s, w)
     else (case stat_dir s uuid w of
       (None, w1) \<Rightarrow> (Some (ObjectExists uuid), s, w1)
     | (Some e, w1) \<Rightarrow> if e \<noteq> ENOENT then (Some (StoreOS e), s, w1)
       else (let staging = stagingPrefix @ uuid in
         (case syscall w1 of
           (Some e, w2) \<Rightarrow> (Some (StoreOS e), s, w2)
         | (None, w2) \<Rightarrow>
            (let s1 = s\<lparr>s_dirs := put_dir staging None (s_dirs s)\<rparr> in
             case fill w2 of
               (Inl e, w3) \<Rightarrow> unstage staging (Some e) s1 w3
             | (Inr sz, w3) \<Rightarrow>
                (let s2 = s1\<lparr>s_dirs := put_dir staging (Some sz) (s_dirs s1)\<rparr> in
                 case syncDir w3 of
                   (Some e, w4) \<Rightarrow> unstage staging (Some (StoreOS e)) s2 w4
                 | (None, w4) \<Rightarrow> (case syscall w4 of
                     (Some e, w5) \<Rightarrow> unstage staging (Some (StoreOS e)) s2 w5
                   | (None, w5) \<Rightarrow>
                      (let s3 = s2\<lparr>s_dirs := put_dir uuid (Some sz) (drop_dir staging (s_dirs s2))\<rparr> in
                       case syncDir w5 of
                         (Some e, w6) \<Rightarrow> unstage staging (Some (StoreOS e)) s3 w6
                       | (None, w6) \<Rightarrow> unstage staging None s3 w6))))))))"

definition store_Create :: "string \<Rightarrow> int \<Rightarrow> Store \<Rightarrow> os \<Rightarrow> store_error option \<times> Store \<times> os" where
  "store_Create uuid sz s w =
    (if sz \<le> 0 then (Some SizeNotPositive, s, w)
     else stage uuid (\<lambda>w. case syscalls 3 w of
       (Some e, w') \<Rightarrow> (Inl (StoreOS e), w') | (None, w') \<Rightarrow> (Inr sz, w')) s w)"

text \<open>\<open>reflink\<close>: open the source, open the copy, the \<open>FICLONE\<close> ioctl, fsync.\<close>

definition reflink :: "int \<Rightarrow> os \<Rightarrow> (store_error + int) \<times> os" where
  "reflink srcSize w = (case syscalls 2 w of
     (Some e, w1) \<Rightarrow> (Inl (StoreOS e), w1)
   | (None, w1) \<Rightarrow> (case syscall w1 of
       (Some e, w2) \<Rightarrow> (Inl (FicloneFailed e), w2)
     | (None, w2) \<Rightarrow> (case syscall w2 of
         (Some e, w3) \<Rightarrow> (Inl (StoreOS e), w3)
       | (None, w3) \<Rightarrow> (Inr srcSize, w3))))"

definition Clone :: "string \<Rightarrow> string \<Rightarrow> Store \<Rightarrow> os \<Rightarrow> store_error option \<times> Store \<times> os" where
  "Clone srcUUID dstUUID s w = (case stat_disk s srcUUID w of
     (Some e, w') \<Rightarrow> (Some (SourceMissing srcUUID e), s, w')
   | (None, w') \<Rightarrow> stage dstUUID (reflink (the (disk_size s srcUUID))) s w')"

definition store_Resize :: "string \<Rightarrow> int \<Rightarrow> Store \<Rightarrow> os \<Rightarrow> store_error option \<times> Store \<times> os" where
  "store_Resize uuid newSize s w = (case stat_disk s uuid w of
     (Some e, w1) \<Rightarrow> (Some (StoreOS e), s, w1)
   | (None, w1) \<Rightarrow> (case syscall w1 of
       (Some e, w2) \<Rightarrow> (Some (StoreOS e), s, w2)
     | (None, w2) \<Rightarrow> (let sz = the (disk_size s uuid) in
         if newSize < sz then (Some (ShrinkUnsupported newSize sz), s, w2)
         else if newSize = sz then (None, s, w2)
         else (case syscall w2 of
           (Some e, w3) \<Rightarrow> (Some (StoreOS e), s, w3)
         | (None, w3) \<Rightarrow> (let s' = s\<lparr>s_dirs := put_dir uuid (Some newSize) (s_dirs s)\<rparr> in
             case syscall w3 of
               (Some e, w4) \<Rightarrow> (Some (StoreOS e), s', w4)
             | (None, w4) \<Rightarrow> (None, s', w4))))))"

definition store_Size :: "Store \<Rightarrow> string \<Rightarrow> os \<Rightarrow> (store_error + int) \<times> os" where
  "store_Size s uuid w = (case stat_disk s uuid w of
     (Some e, w') \<Rightarrow> (Inl (StoreOS e), w') | (None, w') \<Rightarrow> (Inr (the (disk_size s uuid)), w'))"

definition store_Delete :: "string \<Rightarrow> Store \<Rightarrow> os \<Rightarrow> store_error option \<times> Store \<times> os" where
  "store_Delete uuid s w = (case remove_all uuid s w of
     (Some e, s', w') \<Rightarrow> (Some (StoreOS e), s', w')
   | (None, s', w') \<Rightarrow> (case syncDir w' of (e, w'') \<Rightarrow> (map_option StoreOS e, s', w'')))"

section \<open>Theorems\<close>

lemma map_of_drop_dir [simp]: "map_of (drop_dir n ds) k = (if k = n then None else map_of ds k)"
  by (induction ds) (auto simp: drop_dir_def)

lemma map_of_put_dir [simp]: "map_of (put_dir n v ds) k = (if k = n then Some v else map_of ds k)"
  using map_of_drop_dir [of n ds k] by (auto simp: put_dir_def drop_dir_def)

lemma disk_size_iff: "disk_size s n = Some x \<longleftrightarrow> map_of (s_dirs s) n = Some (Some x)"
  by (auto simp: disk_size_def split: option.splits)

lemma stagingPrefix_neq [simp]: "stagingPrefix \<noteq> []"
  by (simp add: stagingPrefix_def)

lemma quarantine_neq [simp]: "quarantinePrefix @ x @ ''-'' @ uuid \<noteq> uuid"
proof
  assume "quarantinePrefix @ x @ ''-'' @ uuid = uuid"
  then have "length (quarantinePrefix @ x @ ''-'' @ uuid) = length uuid" by simp
  then show False by (simp add: quarantinePrefix_def)
qed

lemma remove_all_cases:
  assumes "remove_all n s w = (r, s', w')"
  shows "s_quarantined s' = s_quarantined s \<and> s_root s' = s_root s
    \<and> (\<forall>k. k \<noteq> n \<longrightarrow> map_of (s_dirs s') k = map_of (s_dirs s) k)
    \<and> (r = None \<longrightarrow> map_of (s_dirs s') n = None)"
  using assms by (auto simp: remove_all_def split: if_splits prod.splits option.splits)

lemma unstage_cases:
  assumes "unstage n r0 s w = (r, s', w')"
  shows "r = r0 \<and> (\<forall>k. k \<noteq> n \<longrightarrow> map_of (s_dirs s') k = map_of (s_dirs s) k)
     \<and> (map_of (s_dirs s) n = None \<longrightarrow> s' = s)"
proof -
  obtain x where x: "remove_all n s w = (x, s', w')" and r: "r = r0"
    using assms by (auto simp: unstage_def split: prod.splits)
  have "map_of (s_dirs s) n = None \<Longrightarrow> s' = s" using x by (simp add: remove_all_def)
  with remove_all_cases [OF x] r show ?thesis by blast
qed

text \<open>
  What a call of \<open>stage\<close> can leave behind, whatever fails: either nothing but a staging directory, or
  the complete object.
\<close>

definition staged :: "string \<Rightarrow> int \<Rightarrow> Store \<Rightarrow> store_error option \<Rightarrow> Store \<Rightarrow> bool" where
  "staged uuid sz s r s' \<longleftrightarrow>
     (\<forall>n. n \<noteq> uuid \<and> n \<noteq> stagingPrefix @ uuid \<longrightarrow> map_of (s_dirs s') n = map_of (s_dirs s) n)
     \<and> (map_of (s_dirs s') uuid = map_of (s_dirs s) uuid
        \<or> map_of (s_dirs s) uuid = None \<and> map_of (s_dirs s') uuid = Some (Some sz))
     \<and> (r = None \<longrightarrow> map_of (s_dirs s) uuid = None \<and> map_of (s_dirs s') uuid = Some (Some sz)
          \<and> map_of (s_dirs s') (stagingPrefix @ uuid) = None)"

lemma staged_unstage:
  assumes "unstage (stagingPrefix @ uuid) r0 s1 w = (r, s', w')" and "staged uuid sz s r0 s1"
  shows "staged uuid sz s r s'"
proof -
  have u: "r = r0" "\<And>k. k \<noteq> stagingPrefix @ uuid \<Longrightarrow> map_of (s_dirs s') k = map_of (s_dirs s1) k"
    and n: "map_of (s_dirs s1) (stagingPrefix @ uuid) = None \<Longrightarrow> s' = s1"
    using unstage_cases [OF assms(1)] by auto
  have u': "map_of (s_dirs s') uuid = map_of (s_dirs s1) uuid" using u(2) by simp
  have n': "map_of (s_dirs s1) (stagingPrefix @ uuid) = None \<Longrightarrow> map_of (s_dirs s') (stagingPrefix @ uuid) = None"
    using n by simp
  show ?thesis
    using assms(2) u(2) n' unfolding staged_def u(1) u' by simp
qed

lemma stage_staged:
  assumes run: "stage uuid fill s w = (r, s', w')"
    and fill: "\<And>w n w'. fill w = (Inr n, w') \<Longrightarrow> n = sz"
  shows "staged uuid sz s r s'"
proof (cases "uuid = '''' \<or> CHR ''/'' \<in> set uuid \<or> uuid = ''.'' \<or> uuid = ''..'' \<or>
    map_of (s_dirs s) uuid \<noteq> None \<or> (\<exists>e. fst (stat_dir s uuid w) = Some e \<and> e \<noteq> ENOENT)")
  case True
  obtain f w1 where f: "stat_dir s uuid w = (f, w1)" by fastforce
  have "f \<noteq> Some ENOENT" if "map_of (s_dirs s) uuid \<noteq> None"
    using f that by (auto simp: stat_dir_def split: prod.splits if_splits)
  then have "\<exists>e. r = Some e \<and> s' = s"
    using True run f by (cases f) (auto simp: stage_def split: if_splits)
  then show ?thesis by (auto simp: staged_def)
next
  case False
  let ?g = "stagingPrefix @ uuid"
  define s1 where "s1 = s\<lparr>s_dirs := put_dir ?g None (s_dirs s)\<rparr>"
  define s2 where "s2 = s1\<lparr>s_dirs := put_dir ?g (Some sz) (s_dirs s1)\<rparr>"
  define s3 where "s3 = s2\<lparr>s_dirs := put_dir uuid (Some sz) (drop_dir ?g (s_dirs s2))\<rparr>"
  have none: "map_of (s_dirs s) uuid = None" using False by simp
  obtain w1 where w1: "stat_dir s uuid w = (Some ENOENT, w1)"
    using False none by (cases "stat_dir s uuid w") (auto simp: stat_dir_def split: prod.splits)
  have st: "staged uuid sz s (Some e) s" "staged uuid sz s (Some e) s1" "staged uuid sz s (Some e) s2"
    "staged uuid sz s e' s3" for e e'
    using none by (auto simp: staged_def s1_def s2_def s3_def)
  obtain f1 w2 where w2: "syscall w1 = (f1, w2)" by fastforce
  obtain f2 w3 where w3: "fill w2 = (f2, w3)" by fastforce
  obtain f3 w4 where w4: "syncDir w3 = (f3, w4)" by fastforce
  obtain f4 w5 where w5: "syscall w4 = (f4, w5)" by fastforce
  obtain f5 w6 where w6: "syncDir w5 = (f5, w6)" by fastforce
  have f2: "f2 = Inr n \<Longrightarrow> n = sz" for n using fill w3 by blast
  have "stage uuid fill s w = (case f1 of Some e \<Rightarrow> (Some (StoreOS e), s, w2) | None \<Rightarrow>
      (case f2 of Inl e \<Rightarrow> unstage ?g (Some e) s1 w3 | Inr n \<Rightarrow>
      (case f3 of Some e \<Rightarrow> unstage ?g (Some (StoreOS e)) s2 w4 | None \<Rightarrow>
      (case f4 of Some e \<Rightarrow> unstage ?g (Some (StoreOS e)) s2 w5 | None \<Rightarrow>
      unstage ?g (map_option StoreOS f5) s3 w6))))"
    using False f2 by (simp add: stage_def w1 w2 w3 w4 w5 w6 Let_def s1_def s2_def s3_def split: option.split sum.split)
  then consider e where "(r, s', w') = (Some (StoreOS e), s, w2)"
    | e v where "unstage ?g (Some e) s1 v = (r, s', w')"
    | e v where "unstage ?g (Some e) s2 v = (r, s', w')"
    | "unstage ?g (map_option StoreOS f5) s3 w6 = (r, s', w')"
    using run by (cases f1; cases f2; cases f3; cases f4) auto
  then show ?thesis
    by cases (use st staged_unstage [of uuid] in auto)
qed

lemma store_Create_staged: "store_Create uuid sz s w = (r, s', w') \<Longrightarrow> staged uuid sz s r s'"
  by (auto simp: store_Create_def staged_def [of _ _ _ "Some SizeNotPositive"] split: if_splits prod.splits option.splits
      dest!: stage_staged [where sz = sz])

text \<open>Making a backing file is all or nothing under every pattern of failing system calls: no other
  object directory changes; the new one is either untouched or complete with the requested size; and
  success means it was absent before, is complete now, and no staging directory is left.\<close>

lemma Create_all_or_nothing:
  assumes "store_Create uuid sz s w = (r, s', w')"
  shows "(\<forall>n. n \<noteq> uuid \<and> n \<noteq> stagingPrefix @ uuid \<longrightarrow> map_of (s_dirs s') n = map_of (s_dirs s) n)
    \<and> (map_of (s_dirs s') uuid = map_of (s_dirs s) uuid
       \<or> map_of (s_dirs s) uuid = None \<and> map_of (s_dirs s') uuid = Some (Some sz))
    \<and> (r = None \<longrightarrow> map_of (s_dirs s) uuid = None \<and> map_of (s_dirs s') uuid = Some (Some sz)
         \<and> map_of (s_dirs s') (stagingPrefix @ uuid) = None)"
  using store_Create_staged [OF assms] by (simp add: staged_def)

definition empty_store :: Store where
  "empty_store = \<lparr>s_root = ''/srv'', s_dirs = [(''a'', Some 8192)], s_quarantined = []\<rparr>"

definition quiet_os :: os where
  "quiet_os = \<lparr>os_faults = [], os_rand = [], os_now = 0, os_stamp = ''20260101T000000Z''\<rparr>"

lemma mset_drop_dir:
  assumes "distinct (map fst ds)" and "map_of ds n = Some v"
  shows "mset (map snd (drop_dir n ds)) + {#v#} = mset (map snd ds)"
  using assms
proof (induction ds)
  case (Cons d ds)
  show ?case
  proof (cases "fst d = n")
    case True
    then have "n \<notin> fst ` set ds" using Cons.prems(1) by simp
    then have "filter (\<lambda>d. fst d \<noteq> n) ds = ds" by (intro filter_True ballI) (metis image_eqI)
    with True Cons.prems(2) show ?thesis by (auto simp: drop_dir_def)
  next
    case False
    with Cons show ?thesis by (cases d) (auto simp: drop_dir_def)
  qed
qed simp

lemma ObjectDirs_committed:
  "fst (ObjectDirs s w) = Inr ds \<Longrightarrow> n \<in> set ds \<Longrightarrow> \<not> hasPrefix stagingPrefix n \<and> \<not> hasPrefix quarantinePrefix n"
  by (cases "syscall w"; cases "fst (syscall w)") (auto simp: ObjectDirs_def)

lemma Quarantine_cases:
  assumes "distinct (map fst (s_dirs s))" and "Quarantine uuid s w = (r, s', w')"
  shows "mset (map snd (s_dirs s')) = mset (map snd (s_dirs s))
    \<and> (\<forall>n v. n \<noteq> uuid \<and> map_of (s_dirs s) n = Some v \<longrightarrow> map_of (s_dirs s') n = Some v)
    \<and> distinct (map fst (s_dirs s'))
    \<and> (\<forall>q. r = Inr q \<longrightarrow> map_of (s_dirs s') q = map_of (s_dirs s) uuid \<and> map_of (s_dirs s') uuid = None
          \<and> q \<in> set (s_quarantined s') \<and> (\<forall>ds w2. fst (ObjectDirs s' w2) = Inr ds \<longrightarrow> q \<notin> set ds))"
proof (cases r)
  case (Inl e)
  then have "s' = s" using assms(2) by (auto simp: Quarantine_def Let_def split: prod.splits option.splits if_splits)
  then show ?thesis using Inl assms(1) by simp
next
  case (Inr q)
  then obtain v where q: "q = quarantinePrefix @ os_stamp w @ ''-'' @ uuid" and v: "map_of (s_dirs s) uuid = Some v"
    and free: "map_of (s_dirs s) q = None"
    and s': "s' = s\<lparr>s_dirs := put_dir q v (drop_dir uuid (s_dirs s)), s_quarantined := sort (s_quarantined s @ [q])\<rparr>"
    using assms(2) by (auto simp: Quarantine_def Let_def split: prod.splits option.splits if_splits)
  have neq: "q \<noteq> uuid" unfolding q by (rule quarantine_neq)
  have "q \<notin> fst ` set (s_dirs s)" using free by (simp add: map_of_eq_None_iff)
  then have "filter (\<lambda>d. fst d \<noteq> q) (drop_dir uuid (s_dirs s)) = drop_dir uuid (s_dirs s)"
    by (auto simp: drop_dir_def intro!: filter_cong)
  then have "mset (map snd (s_dirs s')) = mset (map snd (s_dirs s))"
    using mset_drop_dir [OF assms(1) v] by (simp add: s' put_dir_def)
  moreover have "distinct (map fst (s_dirs s'))"
    using assms(1) by (auto simp: s' put_dir_def drop_dir_def distinct_map_filterI)
  moreover have "hasPrefix quarantinePrefix q" by (simp add: q)
  ultimately show ?thesis
    using Inr v neq free ObjectDirs_committed by (auto simp: s')
qed

text \<open>Setting a directory aside never loses data: whatever happens, the backing files of the store are
  the same multiset as before and every other directory keeps its file; on success the file is found
  under the new name, which the store never again lists as an object.\<close>

lemma quarantine_keeps_data:
  assumes "distinct (map fst (s_dirs s))" and "Quarantine uuid s w = (r, s', w')"
  shows "mset (map snd (s_dirs s')) = mset (map snd (s_dirs s))
    \<and> (\<forall>n v. n \<noteq> uuid \<and> map_of (s_dirs s) n = Some v \<longrightarrow> map_of (s_dirs s') n = Some v)
    \<and> (\<forall>q. r = Inr q \<longrightarrow> map_of (s_dirs s') q = map_of (s_dirs s) uuid \<and> map_of (s_dirs s') uuid = None
          \<and> q \<in> set (s_quarantined s') \<and> (\<forall>ds w2. fst (ObjectDirs s' w2) = Inr ds \<longrightarrow> q \<notin> set ds))"
  using Quarantine_cases [OF assms] by blast

lemma stat_disk_ok: "stat_disk s n w = (None, w') \<Longrightarrow> \<exists>x. disk_size s n = Some x"
  by (auto simp: stat_disk_def split: prod.splits if_splits)

lemma store_Resize_cases:
  assumes "store_Resize uuid newSize s w = (r, s', w')"
  shows "s' = s \<and> r \<noteq> None \<or> s' = s \<and> disk_size s uuid = Some newSize
    \<or> (\<exists>x. disk_size s uuid = Some x \<and> x < newSize \<and> s' = s\<lparr>s_dirs := put_dir uuid (Some newSize) (s_dirs s)\<rparr>)"
proof -
  obtain f1 w1 where f1: "stat_disk s uuid w = (f1, w1)" by fastforce
  obtain f2 w2 where f2: "syscall w1 = (f2, w2)" by fastforce
  obtain f3 w3 where f3: "syscall w2 = (f3, w3)" by fastforce
  obtain f4 w4 where f4: "syscall w3 = (f4, w4)" by fastforce
  show ?thesis
  proof (cases "f1 = None \<and> f2 = None")
    case True
    then obtain x where x: "disk_size s uuid = Some x" using stat_disk_ok f1 by blast
    have "(r, s') = (if newSize < x then (Some (ShrinkUnsupported newSize x), s) else if newSize = x then (None, s)
      else case f3 of Some e \<Rightarrow> (Some (StoreOS e), s)
        | None \<Rightarrow> (map_option StoreOS f4, s\<lparr>s_dirs := put_dir uuid (Some newSize) (s_dirs s)\<rparr>))"
      using assms True by (simp add: store_Resize_def f1 f2 f3 f4 Let_def x split: if_splits option.splits)
    then show ?thesis using x by (cases f3) (simp_all split: if_splits)
  next
    case False
    then show ?thesis
      using assms by (cases f1; cases f2) (auto simp: store_Resize_def f1 f2)
  qed
qed

text \<open>C36. Growing a backing file never makes one smaller: whatever system call fails, every file of the
  store is afterwards at least as large as before; success means that the file has the requested size.\<close>

theorem resize_never_shrinks:
  assumes "store_Resize uuid newSize s w = (r, s', w')"
  shows "(\<forall>n x. disk_size s n = Some x \<longrightarrow> (\<exists>y. disk_size s' n = Some y \<and> x \<le> y))
    \<and> (r = None \<longrightarrow> disk_size s' uuid = Some newSize)"
  using store_Resize_cases [OF assms] by (auto simp: disk_size_iff)

lemma resize_never_shrinks_witness:
  "disk_size (fst (snd (store_Resize ''a'' 12288 empty_store quiet_os))) ''a'' = Some 12288"
proof -
  obtain r s' w' where run: "store_Resize ''a'' 12288 empty_store quiet_os = (r, s', w')" by (metis prod_cases3)
  have "r = None"
    using run by (auto simp: store_Resize_def stat_disk_def empty_store_def quiet_os_def syscall_def disk_size_def)
  then show ?thesis using resize_never_shrinks [OF run] run by simp
qed

end
