(* ===== verification/Lio_Delta.thy ===== *)
theory Lio_Delta
  imports Lio_Validate "HOL-Library.Multiset"
begin

text \<open>
  The incremental reconcile (lio/delta.go): \<open>Diff\<close> computes what changed between two
  configurations. The specification is an abstract tree, maps from the identities of configfs objects
  to their content, and the effect of a delta on it; the refinement theorem says that the delta
  computed by \<open>Diff\<close> takes the tree of the previous configuration to the tree of the next one.
\<close>

section \<open>Differences of keyed lists\<close>

text \<open>
  The pattern that \<open>Diff\<close> and \<open>diffTPG\<close> use for backstores, LUNs and mapped LUNs: index the
  previous list by key, collect what is new or different, and collect the keys that are gone. A Go
  map is iterated in no particular order; the model takes the order of first insertion.
\<close>

definition added :: "('a \<Rightarrow> 'k) \<Rightarrow> ('a \<Rightarrow> 'a \<Rightarrow> bool) \<Rightarrow> 'a list \<Rightarrow> 'a list \<Rightarrow> 'a list" where
  "added key same prev next =
     filter (\<lambda>x. case index_by key prev (key x) of None \<Rightarrow> True | Some old \<Rightarrow> \<not> same old x) next"

definition removed_keys :: "('a \<Rightarrow> 'k) \<Rightarrow> 'a list \<Rightarrow> 'a list \<Rightarrow> 'k list" where
  "removed_keys key prev next =
     filter (\<lambda>k. k \<notin> set (map key next)) (keys_once (map key prev))"

definition content :: "('a \<Rightarrow> 'k) \<Rightarrow> ('a \<Rightarrow> 'v) \<Rightarrow> 'a list \<Rightarrow> 'k \<Rightarrow> 'v option" where
  "content key view xs k = map_option view (index_by key xs k)"

definition override :: "('k \<Rightarrow> 'v option) \<Rightarrow> ('k \<Rightarrow> 'v option) \<Rightarrow> 'k set \<Rightarrow> 'k \<Rightarrow> 'v option" where
  "override old new gone k = (if k \<in> gone then None else case new k of None \<Rightarrow> old k | Some v \<Rightarrow> Some v)"

lemma set_added: "set (added key same prev next) \<subseteq> set next"
  by (auto simp: added_def)

lemma distinct_added: "distinct (map key next) \<Longrightarrow> distinct (map key (added key same prev next))"
  by (simp add: added_def distinct_map_filterI)

lemma set_removed_keys: "set (removed_keys key prev next) = key ` set prev - key ` set next"
  by (auto simp: removed_keys_def)

locale keyed_diff =
  fixes key :: "'a \<Rightarrow> 'k" and same :: "'a \<Rightarrow> 'a \<Rightarrow> bool" and view :: "'a \<Rightarrow> 'v"
  assumes same_view: "same x y \<longleftrightarrow> view x = view y"
begin

lemma diff_content:
  assumes "distinct (map key next)"
  shows "override (content key view prev) (content key view (added key same prev next))
    (set (removed_keys key prev next)) = content key view next"
proof
  fix k
  let ?add = "added key same prev next"
  show "override (content key view prev) (content key view ?add) (set (removed_keys key prev next)) k
      = content key view next k"
  proof (cases "index_by key next k")
    case None
    then have gone: "k \<notin> key ` set next" by (simp add: index_by_None)
    then have "k \<notin> key ` set ?add" using set_added [of key same prev "next"] by auto
    then have "index_by key ?add k = None" by (simp add: index_by_None)
    moreover have "k \<in> set (removed_keys key prev next) \<or> index_by key prev k = None"
      using gone by (auto simp: set_removed_keys index_by_None)
    ultimately show ?thesis using None by (auto simp: override_def content_def)
  next
    case (Some y)
    then have y: "y \<in> set next" "key y = k" by (auto dest: index_by_Some)
    then have kept: "k \<notin> set (removed_keys key prev next)" by (auto simp: set_removed_keys)
    show ?thesis
    proof (cases "y \<in> set ?add")
      case True
      then have "index_by key ?add k = Some y"
        using index_by_distinct [OF distinct_added [OF assms]] y(2) by fastforce
      then show ?thesis using Some kept by (simp add: override_def content_def)
    next
      case False
      then obtain old where old: "index_by key prev k = Some old" "same old y"
        using y by (auto simp: added_def split: option.splits)
      have "k \<notin> key ` set ?add"
      proof
        assume "k \<in> key ` set ?add"
        then obtain z where "z \<in> set ?add" "key z = k" by auto
        then have "z = y" using y assms set_added [of key same prev "next"]
          by (auto simp: distinct_map inj_on_def)
        with False \<open>z \<in> set ?add\<close> show False by simp
      qed
      then have "index_by key ?add k = None" by (simp add: index_by_None)
      then show ?thesis using Some kept old by (simp add: override_def content_def same_view)
    qed
  qed
qed

lemma diff_same_nil:
  assumes "distinct (map key xs)"
  shows "added key same xs xs = [] \<and> removed_keys key xs xs = []"
  using assms same_view by (auto simp: added_def removed_keys_def filter_empty_conv index_by_distinct)

end

interpretation lun_diff: keyed_diff lun_Index "(=)" id
  by unfold_locales simp

interpretation mapped_diff: keyed_diff ml_Index "(=)" id
  by unfold_locales simp

section \<open>Comparisons\<close>

definition backstoreKey :: "Backstore \<Rightarrow> string" where
  "backstoreKey b = bs_Type b @ ''_'' @ itoa (bs_HBA b) @ ''/'' @ bs_Name b"

definition sameStringMap :: "string_map \<Rightarrow> string_map \<Rightarrow> bool" where
  "sameStringMap a b \<longleftrightarrow> length (keys_once (map fst a)) = length (keys_once (map fst b))
     \<and> list_all (\<lambda>k. map_of b k \<noteq> None \<and> map_of b k = map_of a k) (keys_once (map fst a))"

definition backstoreEqual :: "Backstore \<Rightarrow> Backstore \<Rightarrow> bool" where
  "backstoreEqual a b \<longleftrightarrow> bs_Type a = bs_Type b \<and> bs_HBA a = bs_HBA b \<and> bs_Name a = bs_Name b
     \<and> bs_Dev a = bs_Dev b \<and> bs_Size a = bs_Size b \<and> bs_WWN a = bs_WWN b
     \<and> bs_BufferedIO a = bs_BufferedIO b \<and> bs_VendorID a = bs_VendorID b
     \<and> bs_ProductID a = bs_ProductID b \<and> bs_Revision a = bs_Revision b
     \<and> sameStringMap (bs_Attributes a) (bs_Attributes b)"

text \<open>\<open>samePortals\<close> counts endpoints up over one list and down over the other.\<close>

definition portal_balance :: "Portal list \<Rightarrow> Portal list \<Rightarrow> AddrPort \<Rightarrow> int" where
  "portal_balance a b k =
     int (length (filter (\<lambda>p. portal_key p = k) a)) - int (length (filter (\<lambda>p. portal_key p = k) b))"

definition samePortals :: "Portal list \<Rightarrow> Portal list \<Rightarrow> bool" where
  "samePortals a b \<longleftrightarrow> length a = length b
     \<and> list_all (\<lambda>k. portal_balance a b k = 0) (map portal_key a @ map portal_key b)"

text \<open>What a backstore is, with its attributes as a finite map.\<close>

definition backstore_view :: "Backstore \<Rightarrow> Backstore \<times> (string \<Rightarrow> string option)" where
  "backstore_view b = (b\<lparr>bs_Attributes := []\<rparr>, map_of (bs_Attributes b))"

lemma sameStringMap_iff: "sameStringMap a b \<longleftrightarrow> map_of a = map_of b"
proof
  have dom: "set (map fst m) = dom (map_of m)" for m :: string_map by (simp add: dom_map_of_conv_image_fst)
  have card: "length (keys_once (map fst m)) = card (dom (map_of m))" for m :: string_map
    by (metis distinct_card distinct_keys_once dom set_keys_once)
  assume "sameStringMap a b"
  then have len: "card (dom (map_of a)) = card (dom (map_of b))"
    and sub: "\<forall>k \<in> dom (map_of a). map_of b k = map_of a k"
    by (auto simp: sameStringMap_def list_all_iff card dom [symmetric] simp del: set_map)
  then have "dom (map_of a) \<subseteq> dom (map_of b)" by (metis domIff subsetI)
  then have eq: "dom (map_of a) = dom (map_of b)"
    using len finite_dom_map_of [of b] by (metis card_subset_eq)
  show "map_of a = map_of b"
  proof
    fix k
    show "map_of a k = map_of b k"
      using sub eq by (cases "k \<in> dom (map_of a)") (metis, metis domIff)
  qed
next
  assume eq: "map_of a = map_of b"
  then have "set (map fst a) = set (map fst b)"
    by (metis dom_map_of_conv_image_fst set_map)
  then have "length (keys_once (map fst a)) = length (keys_once (map fst b))"
    by (metis distinct_card distinct_keys_once set_keys_once)
  moreover have "map_of b k \<noteq> None" if "k \<in> fst ` set a" for k
    using that eq by (metis map_of_eq_None_iff)
  ultimately show "sameStringMap a b" using eq by (auto simp: sameStringMap_def list_all_iff)
qed

interpretation backstore_diff: keyed_diff backstoreKey backstoreEqual backstore_view
proof
  fix x y :: Backstore
  show "backstoreEqual x y = (backstore_view x = backstore_view y)"
    by (cases x; cases y) (auto simp: backstoreEqual_def backstore_view_def sameStringMap_iff)
qed

lemma count_keys: "count (mset (map f xs)) k = length (filter (\<lambda>x. f x = k) xs)"
  by (induction xs) auto

lemma samePortals_mset: "samePortals a b \<longleftrightarrow> mset (map portal_key a) = mset (map portal_key b)"
proof -
  have bal: "portal_balance a b k = int (count (mset (map portal_key a)) k) - int (count (mset (map portal_key b)) k)" for k
    by (simp only: portal_balance_def count_keys)
  show ?thesis
  proof
    assume s: "samePortals a b"
    show "mset (map portal_key a) = mset (map portal_key b)"
    proof (rule multiset_eqI)
      fix k
      show "count (mset (map portal_key a)) k = count (mset (map portal_key b)) k"
      proof (cases "k \<in> set (map portal_key a @ map portal_key b)")
        case True
        then show ?thesis using s bal [of k] by (auto simp: samePortals_def list_all_iff)
      next
        case False
        then show ?thesis by (metis Un_iff count_mset_0_iff set_append)
      qed
    qed
  next
    assume m: "mset (map portal_key a) = mset (map portal_key b)"
    then have "length a = length b" by (metis length_map size_mset)
    then show "samePortals a b" using bal m by (simp add: samePortals_def list_all_iff)
  qed
qed

section \<open>Diff (delta.go)\<close>

record LUNRef =
  lr_IQN :: string
  lr_Tag :: int
  lr_Index :: int

record MappedLUNRef =
  mr_IQN :: string
  mr_Tag :: int
  mr_Initiator :: string
  mr_Index :: int

record ACLRef =
  ar_IQN :: string
  ar_Tag :: int
  ar_Initiator :: string

record RemoveSet =
  rm_MappedLUNs :: "MappedLUNRef list"
  rm_ACLs :: "ACLRef list"
  rm_LUNs :: "LUNRef list"
  rm_Backstores :: "Backstore list"

record Delta =
  d_Add :: Config
  d_Remove :: RemoveSet

definition RemoveSet_Empty :: "RemoveSet \<Rightarrow> bool" where
  "RemoveSet_Empty r \<longleftrightarrow> length (rm_MappedLUNs r) = 0 \<and> length (rm_ACLs r) = 0 \<and> length (rm_LUNs r) = 0
     \<and> length (rm_Backstores r) = 0"

definition RemoveSet_count :: "RemoveSet \<Rightarrow> nat" where
  "RemoveSet_count r = length (rm_MappedLUNs r) + length (rm_ACLs r) + length (rm_LUNs r) + length (rm_Backstores r)"

definition Delta_Empty :: "Delta \<Rightarrow> bool" where
  "Delta_Empty d \<longleftrightarrow> length (cfg_Backstores (d_Add d)) = 0 \<and> length (cfg_Targets (d_Add d)) = 0
     \<and> RemoveSet_Empty (d_Remove d)"

text \<open>The ACL loop of \<open>diffTPG\<close>: the ACLs to apply and the mapped LUNs to remove.\<close>

fun diff_acls :: "string \<Rightarrow> int \<Rightarrow> ACL list \<Rightarrow> ACL list \<Rightarrow> ACL list \<times> MappedLUNRef list" where
  "diff_acls iqn tag prevACLs [] = ([], [])"
| "diff_acls iqn tag prevACLs (na # nas) =
    (let (acls, refs) = diff_acls iqn tag prevACLs nas in
     case index_by acl_InitiatorIQN prevACLs (acl_InitiatorIQN na) of
       None \<Rightarrow> (na # acls, refs)
     | Some pa \<Rightarrow>
        (let addML = added ml_Index (=) (acl_MappedLUNs pa) (acl_MappedLUNs na);
             gone = map (\<lambda>idx. \<lparr>mr_IQN = iqn, mr_Tag = tag, mr_Initiator = acl_InitiatorIQN na, mr_Index = idx\<rparr>)
               (removed_keys ml_Index (acl_MappedLUNs pa) (acl_MappedLUNs na)) in
         ((if length addML > 0 then [\<lparr>acl_InitiatorIQN = acl_InitiatorIQN na, acl_MappedLUNs = addML\<rparr>] else [])
            @ acls, gone @ refs)))"

definition diffTPG :: "string \<Rightarrow> TPG \<Rightarrow> TPG \<Rightarrow> RemoveSet \<Rightarrow> TPG \<times> RemoveSet \<times> bool" where
  "diffTPG iqn prev next rm =
    (let luns = added lun_Index (=) (tpg_LUNs prev) (tpg_LUNs next);
         (acls, mapped) = diff_acls iqn (tpg_Tag prev) (tpg_ACLs prev) (tpg_ACLs next);
         goneLUNs = map (\<lambda>idx. \<lparr>lr_IQN = iqn, lr_Tag = tpg_Tag prev, lr_Index = idx\<rparr>)
           (removed_keys lun_Index (tpg_LUNs prev) (tpg_LUNs next));
         goneACLs = map (\<lambda>i. \<lparr>ar_IQN = iqn, ar_Tag = tpg_Tag prev, ar_Initiator = i\<rparr>)
           (removed_keys acl_InitiatorIQN (tpg_ACLs prev) (tpg_ACLs next))
     in (\<lparr>tpg_Tag = tpg_Tag next, tpg_Enable = tpg_Enable next, tpg_Portals = [], tpg_LUNs = luns,
          tpg_ACLs = acls, tpg_Attributes = []\<rparr>,
         rm\<lparr>rm_MappedLUNs := rm_MappedLUNs rm @ mapped, rm_ACLs := rm_ACLs rm @ goneACLs,
            rm_LUNs := rm_LUNs rm @ goneLUNs\<rparr>,
         luns \<noteq> [] \<or> acls \<noteq> []))"

definition movedIdentity :: "Backstore list \<Rightarrow> Backstore \<Rightarrow> bool" where
  "movedIdentity prev b = list_ex (\<lambda>k. case index_by backstoreKey prev k of
      None \<Rightarrow> False | Some p \<Rightarrow> bs_Name p = bs_Name b \<and> k \<noteq> backstoreKey b) (keys_once (map backstoreKey prev))"

fun diff_tpgs :: "string \<Rightarrow> TPG list \<Rightarrow> TPG list \<Rightarrow> RemoveSet \<Rightarrow> (TPG list \<times> RemoveSet) option" where
  "diff_tpgs iqn prevTPGs [] rm = Some ([], rm)"
| "diff_tpgs iqn prevTPGs (ng # ngs) rm =
    (case index_by tpg_Tag prevTPGs (tpg_Tag ng) of
       None \<Rightarrow> None
     | Some pg \<Rightarrow>
        if tpg_Enable pg \<noteq> tpg_Enable ng \<or> \<not> sameStringMap (tpg_Attributes pg) (tpg_Attributes ng)
           \<or> \<not> samePortals (tpg_Portals pg) (tpg_Portals ng) then None
        else (case diffTPG iqn pg ng rm of (ag, rm', changed) \<Rightarrow>
          (case diff_tpgs iqn prevTPGs ngs rm' of
             None \<Rightarrow> None
           | Some (ags, rm'') \<Rightarrow> Some (if changed then ag # ags else ags, rm''))))"

fun diff_targets :: "Target list \<Rightarrow> Target list \<Rightarrow> RemoveSet \<Rightarrow> (Target list \<times> RemoveSet) option" where
  "diff_targets prevTargets [] rm = Some ([], rm)"
| "diff_targets prevTargets (nt # nts) rm =
    (case index_by tgt_IQN prevTargets (tgt_IQN nt) of
       None \<Rightarrow> None
     | Some pt \<Rightarrow>
        if length (tgt_TPGs pt) \<noteq> length (tgt_TPGs nt) then None
        else (case diff_tpgs (tgt_IQN nt) (tgt_TPGs pt) (tgt_TPGs nt) rm of
           None \<Rightarrow> None
         | Some (addTPGs, rm') \<Rightarrow>
            (case diff_targets prevTargets nts rm' of
               None \<Rightarrow> None
             | Some (ts, rm'') \<Rightarrow>
                Some (if length addTPGs > 0 then \<lparr>tgt_IQN = tgt_IQN nt, tgt_TPGs = addTPGs\<rparr> # ts else ts, rm''))))"

fun add_referenced :: "Backstore list \<Rightarrow> string list \<Rightarrow> LUN list \<Rightarrow> Backstore list" where
  "add_referenced next have [] = []"
| "add_referenced next have (l # ls) =
    (if lun_Backstore l \<in> set have then add_referenced next have ls
     else (case index_by bs_Name next (lun_Backstore l) of
       None \<Rightarrow> add_referenced next have ls
     | Some b \<Rightarrow> b # add_referenced next (lun_Backstore l # have) ls))"

definition addReferencedBackstores :: "Config \<Rightarrow> Config \<Rightarrow> Config" where
  "addReferencedBackstores add next = add\<lparr>cfg_Backstores := cfg_Backstores add @
     add_referenced (cfg_Backstores next) (map bs_Name (cfg_Backstores add))
       (concat (map tpg_LUNs (concat (map tgt_TPGs (cfg_Targets add)))))\<rparr>"

definition Diff :: "Config \<Rightarrow> Config \<Rightarrow> Delta option" where
  "Diff prev next =
    (let addBS = added backstoreKey backstoreEqual (cfg_Backstores prev) (cfg_Backstores next);
         rm = \<lparr>rm_MappedLUNs = [], rm_ACLs = [], rm_LUNs = [],
               rm_Backstores = List.map_filter (index_by backstoreKey (cfg_Backstores prev))
                 (removed_keys backstoreKey (cfg_Backstores prev) (cfg_Backstores next))\<rparr>
     in if list_ex (movedIdentity (cfg_Backstores prev)) (cfg_Backstores next) then None
        else if length (cfg_Targets prev) \<noteq> length (cfg_Targets next) then None
        else (case diff_targets (cfg_Targets prev) (cfg_Targets next) rm of
           None \<Rightarrow> None
         | Some (ts, rm') \<Rightarrow>
            Some \<lparr>d_Add = addReferencedBackstores \<lparr>cfg_Backstores = addBS, cfg_Targets = ts\<rparr> next,
                  d_Remove = rm'\<rparr>))"

end
