(* ===== verification/Configfs.thy ===== *)
theory Configfs
  imports Lio_Model
begin

text \<open>
  The file layer over the kernel's configuration tree (lio/configfs/configfs.go). Paths are relative to
  the root of the tree, as lists of segments. The kernel is an argument: what its files, directories
  and links show is a view, and the system calls that change it take the state of the kernel to a
  result and a new state.
\<close>

section \<open>The kernel\<close>

datatype fkind = Dir | File | Link

text \<open>What \<open>Lstat\<close>, \<open>Stat\<close>, \<open>ReadFile\<close>, \<open>ReadDir\<close> and \<open>Readlink\<close> return, and the size of a backing file, when it is regular.\<close>

record view =
  v_lstat :: "path \<Rightarrow> errno + fkind"
  v_stat :: "path \<Rightarrow> errno + fkind"
  v_file :: "path \<Rightarrow> errno + string"
  v_dir :: "path \<Rightarrow> errno + (string \<times> fkind) list"
  v_link :: "path \<Rightarrow> errno + string"
  v_backing :: "string \<Rightarrow> errno + int option"

definition empty_view :: view where
  "empty_view = \<lparr>v_lstat = (\<lambda>p. Inl ENOENT), v_stat = (\<lambda>p. Inl ENOENT), v_file = (\<lambda>p. Inl ENOENT), v_dir = (\<lambda>p. Inl ENOENT),
     v_link = (\<lambda>p. Inl ENOENT), v_backing = (\<lambda>p. Inl ENOENT)\<rparr>"

record 'k kernel =
  k_view :: "'k \<Rightarrow> view"
  k_mkdir :: "path \<Rightarrow> 'k \<Rightarrow> errno option \<times> 'k"
  k_rmdir :: "path \<Rightarrow> 'k \<Rightarrow> errno option \<times> 'k"
  k_unlink :: "path \<Rightarrow> 'k \<Rightarrow> errno option \<times> 'k"
  k_write :: "string \<Rightarrow> path \<Rightarrow> 'k \<Rightarrow> errno option \<times> 'k"
  k_symlink :: "string \<Rightarrow> path \<Rightarrow> 'k \<Rightarrow> errno option \<times> 'k"
  k_random :: "nat \<Rightarrow> 'k \<Rightarrow> byte list \<times> 'k"

text \<open>\<open>os.IsNotExist\<close> and \<open>os.IsExist\<close> on a system call error.\<close>

definition IsNotExist :: "cause \<Rightarrow> bool" where
  "IsNotExist e \<longleftrightarrow> e = Errno ENOENT"

definition is_exist :: "errno \<Rightarrow> bool" where
  "is_exist e \<longleftrightarrow> e = EEXIST \<or> e = ENOTEMPTY"

section \<open>Paths\<close>

definition validSeg :: "string \<Rightarrow> bool" where
  "validSeg s \<longleftrightarrow> s \<noteq> '''' \<and> s \<noteq> ''.'' \<and> s \<noteq> ''..'' \<and> CHR ''/'' \<notin> set s"

fun checkParts :: "path \<Rightarrow> cause option" where
  "checkParts [] = None"
| "checkParts (p # ps) = (if \<not> validSeg p then Some (Msg ''configfs: invalid path component'' [p]) else checkParts ps)"

text \<open>
  An absolute path, and \<open>filepath.Clean\<close> of one, on its segments. The root of the tree is an absolute,
  clean path.
\<close>

fun clean_segs :: "string list \<Rightarrow> string list \<Rightarrow> string list" where
  "clean_segs acc [] = rev acc"
| "clean_segs acc (s # ss) = (if s = '''' \<or> s = ''.'' then clean_segs acc ss
     else if s = ''..'' then clean_segs (tl acc) ss else clean_segs (s # acc) ss)"

definition cleanAbs :: "string \<Rightarrow> string" where
  "cleanAbs p = CHR ''/'' # joinStr ''/'' (clean_segs [] (splitChar CHR ''/'' p))"

definition DefaultRoot :: string where
  "DefaultRoot = ''/sys/kernel/config/target''"

definition Path :: "path \<Rightarrow> string" where
  "Path parts = cleanAbs (joinStr ''/'' (DefaultRoot # parts))"

text \<open>The target of a link at the directory \<open>dir\<close>: a relative body is resolved against the directory.\<close>

definition link_target :: "path \<Rightarrow> string \<Rightarrow> string" where
  "link_target dir t = (if hasPrefix ''/'' t then cleanAbs t else cleanAbs (Path dir @ ''/'' @ t))"

section \<open>Reading\<close>

definition Exists :: "view \<Rightarrow> path \<Rightarrow> cause + bool" where
  "Exists fs parts = (case checkParts parts of
     Some e \<Rightarrow> Inl e
   | None \<Rightarrow> (case v_lstat fs parts of
       Inl e \<Rightarrow> if e = ENOENT then Inr False else Inl (Errno e)
     | Inr _ \<Rightarrow> Inr True))"

definition IsDir :: "view \<Rightarrow> path \<Rightarrow> cause + bool" where
  "IsDir fs parts = (case checkParts parts of
     Some e \<Rightarrow> Inl e
   | None \<Rightarrow> (case v_stat fs parts of
       Inl e \<Rightarrow> if e = ENOENT then Inr False else Inl (Errno e)
     | Inr k \<Rightarrow> Inr (k = Dir)))"

definition ReadAttr :: "view \<Rightarrow> path \<Rightarrow> cause + string" where
  "ReadAttr fs parts = (case checkParts parts of
     Some e \<Rightarrow> Inl e
   | None \<Rightarrow> (case v_file fs parts of Inl e \<Rightarrow> Inl (Errno e) | Inr b \<Rightarrow> Inr (trimSuffix [newline] b)))"

definition read_entries :: "view \<Rightarrow> path \<Rightarrow> cause + (string \<times> fkind) list" where
  "read_entries fs parts = (case checkParts parts of
     Some e \<Rightarrow> Inl e
   | None \<Rightarrow> (case v_dir fs parts of Inl e \<Rightarrow> Inl (Errno e) | Inr es \<Rightarrow> Inr es))"

definition ReadDir :: "view \<Rightarrow> path \<Rightarrow> cause + string list" where
  "ReadDir fs parts = (case read_entries fs parts of Inl e \<Rightarrow> Inl e | Inr es \<Rightarrow> Inr (map fst es))"

definition ListSymlinks :: "view \<Rightarrow> path \<Rightarrow> cause + string list" where
  "ListSymlinks fs parts = (case read_entries fs parts of
     Inl e \<Rightarrow> Inl e | Inr es \<Rightarrow> Inr (map fst (filter (\<lambda>(n, k). k = Link) es)))"

text \<open>The first link of a directory and its target; the empty pair when there is none.\<close>

definition FindSymlink :: "view \<Rightarrow> path \<Rightarrow> cause + string \<times> string" where
  "FindSymlink fs parts = (case read_entries fs parts of
     Inl e \<Rightarrow> Inl e
   | Inr es \<Rightarrow> (case find (\<lambda>(n, k). k = Link) es of
       None \<Rightarrow> Inr ('''', '''')
     | Some (n, _) \<Rightarrow> (case v_link fs (parts @ [n]) of
         Inl e \<Rightarrow> Inl (Errno e) | Inr t \<Rightarrow> Inr (n, link_target parts t))))"

section \<open>Changing\<close>

definition Mkdir :: "'k kernel \<Rightarrow> path \<Rightarrow> 'k \<Rightarrow> cause option \<times> 'k" where
  "Mkdir K parts k = (case checkParts parts of
     Some e \<Rightarrow> (Some e, k)
   | None \<Rightarrow> (case k_mkdir K parts k of
       (None, k1) \<Rightarrow> (None, k1)
     | (Some e, k1) \<Rightarrow> if is_exist e \<and> v_lstat (k_view K k1) parts = Inr Dir then (None, k1) else (Some (Errno e), k1)))"

definition Rmdir :: "'k kernel \<Rightarrow> path \<Rightarrow> 'k \<Rightarrow> cause option \<times> 'k" where
  "Rmdir K parts k = (case checkParts parts of
     Some e \<Rightarrow> (Some e, k)
   | None \<Rightarrow> (case k_rmdir K parts k of
       (None, k1) \<Rightarrow> (None, k1)
     | (Some e, k1) \<Rightarrow> if e = ENOENT then (None, k1) else (Some (Errno e), k1)))"

definition Unlink :: "'k kernel \<Rightarrow> path \<Rightarrow> 'k \<Rightarrow> cause option \<times> 'k" where
  "Unlink K parts k = (case checkParts parts of
     Some e \<Rightarrow> (Some e, k)
   | None \<Rightarrow> (case k_unlink K parts k of
       (None, k1) \<Rightarrow> (None, k1)
     | (Some e, k1) \<Rightarrow> if e = ENOENT then (None, k1) else (Some (Errno e), k1)))"

abbreviation maxAttrWrite :: nat where "maxAttrWrite \<equiv> 4095"

definition WriteAttr :: "'k kernel \<Rightarrow> string \<Rightarrow> path \<Rightarrow> 'k \<Rightarrow> cause option \<times> 'k" where
  "WriteAttr K val parts k = (case checkParts parts of
     Some e \<Rightarrow> (Some e, k)
   | None \<Rightarrow> if length val + 1 > maxAttrWrite then (Some (Msg ''configfs: attribute value too large'' []), k)
      else (case k_write K (val @ [newline]) parts k of (r, k1) \<Rightarrow> (map_option Errno r, k1)))"

definition sameLinkTarget :: "view \<Rightarrow> path \<Rightarrow> string \<Rightarrow> bool" where
  "sameLinkTarget fs link target = (case v_link fs link of
     Inl e \<Rightarrow> False | Inr t \<Rightarrow> link_target (butlast link) t = cleanAbs target)"

definition Symlink :: "'k kernel \<Rightarrow> string \<Rightarrow> path \<Rightarrow> 'k \<Rightarrow> cause option \<times> 'k" where
  "Symlink K target link k = (case checkParts link of
     Some e \<Rightarrow> (Some e, k)
   | None \<Rightarrow> if sameLinkTarget (k_view K k) link target then (None, k)
      else (case k_symlink K target link k of
        (None, k1) \<Rightarrow> (None, k1)
      | (Some e, k1) \<Rightarrow> if is_exist e \<and> sameLinkTarget (k_view K k1) link target then (None, k1) else (Some (Errno e), k1)))"

section \<open>Containment\<close>

text \<open>
  Every path that an operation hands to the kernel is made of valid segments, so it stays below the
  root; anything else is refused before a system call.
\<close>

lemma checkParts_None: "checkParts ps = None \<longleftrightarrow> list_all validSeg ps"
  by (induction ps) auto

lemma clean_segs_valid: "list_all validSeg ss \<Longrightarrow> clean_segs acc ss = rev acc @ ss"
  by (induction ss arbitrary: acc) (auto simp: validSeg_def)

lemma split_path: "list_all validSeg ps \<Longrightarrow> splitChar CHR ''/'' (joinStr ''/'' (DefaultRoot # ps)) = ['''', ''sys'', ''kernel'', ''config'', ''target''] @ ps"
proof -
  assume v: "list_all validSeg ps"
  have "joinStr ''/'' (DefaultRoot # ps) = joinStr ''/'' (['''', ''sys'', ''kernel'', ''config'', ''target''] @ ps)"
    by (cases ps) (simp_all add: DefaultRoot_def)
  moreover have "splitChar CHR ''/'' (joinStr [CHR ''/''] (['''', ''sys'', ''kernel'', ''config'', ''target''] @ ps)) = ['''', ''sys'', ''kernel'', ''config'', ''target''] @ ps"
    using v by (intro splitChar_joinStr) (auto simp: list_all_iff validSeg_def)
  ultimately show ?thesis by simp
qed

lemma Path_valid: "list_all validSeg ps \<Longrightarrow> Path ps = joinStr ''/'' (DefaultRoot # ps)"
proof -
  assume v: "list_all validSeg ps"
  have "clean_segs [] (['''', ''sys'', ''kernel'', ''config'', ''target''] @ ps) = [''sys'', ''kernel'', ''config'', ''target''] @ ps"
    using v by (simp add: clean_segs_valid)
  then show ?thesis unfolding Path_def cleanAbs_def split_path [OF v] by (cases ps) (simp_all add: DefaultRoot_def)
qed

lemma Path_inj:
  assumes "list_all validSeg ps" and "list_all validSeg qs" and "Path ps = Path qs"
  shows "ps = qs"
proof -
  have "splitChar CHR ''/'' (joinStr ''/'' (DefaultRoot # ps)) = splitChar CHR ''/'' (joinStr ''/'' (DefaultRoot # qs))"
    using assms by (simp add: Path_valid)
  then show ?thesis unfolding split_path [OF assms(1)] split_path [OF assms(2)] by simp
qed

end
