(* ===== verification/Lio_Reservation.thy ===== *)
theory Lio_Reservation
  imports Configfs
begin

text \<open>
  The live state of SCSI-3 persistent reservations, read from the text files of the kernel
  (lio/prstate.go, lio/isid.go and the parsers of lio/aptplcheck.go). Reading goes through \<open>ReadAttr\<close>
  and \<open>ReadDir\<close> of lio/configfs/configfs.go over a view of the kernel tree.
\<close>

section \<open>Session identifiers (isid.go)\<close>

text \<open>The classes \<open>\s\<close> and \<open>[0-9a-fA-F]\<close> of Go's regular expressions.\<close>

definition re_space :: "char \<Rightarrow> bool" where
  "re_space c \<longleftrightarrow> c \<in> {CHR 0x09, CHR 0x0A, CHR 0x0C, CHR 0x0D, CHR 0x20}"

definition re_hex :: "char \<Rightarrow> bool" where
  "re_hex c = (let n = of_char c :: nat in (48 \<le> n \<and> n \<le> 57) \<or> (97 \<le> n \<and> n \<le> 102) \<or> (65 \<le> n \<and> n \<le> 70))"

definition isidRE :: "string \<Rightarrow> bool" where
  "isidRE s \<longleftrightarrow> length s = 12 \<and> list_all isHexDigit s"

text \<open>
  \<open>sessionISIDRE\<close>: the group \<open>([0-9a-fA-F ]+?)\s\s\<close> takes the shortest run that two spaces follow;
  the white space before \<open>0x\<close> is taken whole, since \<open>0\<close> is none. The search takes the first
  position that matches.
\<close>

fun two_spaces :: "string \<Rightarrow> bool" where
  "two_spaces (a # b # s) = (re_space a \<and> re_space b)"
| "two_spaces _ = False"

fun isid_run :: "string \<Rightarrow> string option" where
  "isid_run [] = None"
| "isid_run (c # s) = (if re_hex c \<or> c = CHR '' ''
     then (if two_spaces s then Some [c] else map_option ((#) c) (isid_run s)) else None)"

definition isid_here :: "string \<Rightarrow> string option" where
  "isid_here s = (case cutPrefix ''ISID:'' s of
     None \<Rightarrow> None
   | Some r \<Rightarrow> (case cutPrefix ''0x'' (dropWhile re_space r) of None \<Rightarrow> None | Some t \<Rightarrow> isid_run t))"

fun sessionISIDRE :: "string \<Rightarrow> string option" where
  "sessionISIDRE [] = None"
| "sessionISIDRE (c # s) = (case isid_here (c # s) of Some m \<Rightarrow> Some m | None \<Rightarrow> sessionISIDRE s)"

datatype isid_error = NoISID | BadISID string

definition ParseSessionISID :: "string \<Rightarrow> isid_error + string" where
  "ParseSessionISID info = (case sessionISIDRE (removeChar nul info) of
     None \<Rightarrow> Inl NoISID
   | Some m \<Rightarrow> (let got = toLower (removeChar CHR '' '' m) in if isidRE got then Inr got else Inl (BadISID got)))"

text \<open>
  \<open>registeredISIDRE\<close>: the shortest non-empty run without white space that \<open>,i,0x\<close> and a hexadecimal
  digit follow. The value of a match is the two groups and the rest of the text.
\<close>

fun node_run :: "string \<Rightarrow> (string \<times> string \<times> string) option" where
  "node_run [] = None"
| "node_run (c # s) = (if re_space c then None else
     (case (case cutPrefix '',i,0x'' s of None \<Rightarrow> None
              | Some t \<Rightarrow> let h = takeWhile re_hex t in if h = [] then None else Some ([c], h, drop (length h) t)) of
        Some m \<Rightarrow> Some m
      | None \<Rightarrow> (case node_run s of None \<Rightarrow> None | Some (node, h, rest) \<Rightarrow> Some (c # node, h, rest))))"

definition registered_here :: "string \<Rightarrow> (string \<times> string \<times> string) option" where
  "registered_here s = (case cutPrefix ''iSCSI Node:'' s of None \<Rightarrow> None | Some r \<Rightarrow> node_run (dropWhile re_space r))"

lemma node_run_shorter: "node_run s = Some (n, h, r) \<Longrightarrow> length r < length s"
proof (induction s arbitrary: n h r)
  case (Cons c s)
  show ?case
  proof (cases "cutPrefix '',i,0x'' s")
    case None
    with Cons show ?thesis by (fastforce split: if_splits option.splits)
  next
    case (Some t)
    then have "length t \<le> length s" by (simp add: cutPrefix_Some)
    with Some Cons show ?thesis by (fastforce simp: Let_def split: if_splits option.splits)
  qed
qed simp

lemma registered_here_shorter:
  assumes "registered_here s = Some (n, h, r)" shows "length r < length s"
proof -
  obtain t where s: "s = ''iSCSI Node:'' @ t" and "node_run (dropWhile re_space t) = Some (n, h, r)"
    using assms by (auto simp: registered_here_def cutPrefix_Some split: option.splits)
  then have "length r < length (dropWhile re_space t)" by (simp add: node_run_shorter)
  also have "\<dots> \<le> length s" using length_dropWhile_le [of re_space t] s by simp
  finally show ?thesis .
qed

function registeredISIDRE :: "string \<Rightarrow> (string \<times> string) list" where
  "registeredISIDRE s = (case registered_here s of
     Some (node, h, rest) \<Rightarrow> (node, h) # registeredISIDRE rest
   | None \<Rightarrow> (case s of [] \<Rightarrow> [] | c # t \<Rightarrow> registeredISIDRE t))"
  by auto
termination by (relation "measure length") (auto dest: registered_here_shorter)

declare registeredISIDRE.simps [simp del]

text \<open>The result is a map; a later match of an initiator replaces an earlier one.\<close>

fun collect_isids :: "(string \<times> string) list \<Rightarrow> (string \<rightharpoonup> string) \<Rightarrow> (string \<times> string) + (string \<rightharpoonup> string)" where
  "collect_isids [] out = Inr out"
| "collect_isids ((node, h) # ms) out = (let got = toLower h in
     if \<not> isidRE got then Inl (node, got) else collect_isids ms (out(node \<mapsto> got)))"

definition ParseRegisteredISIDs :: "string \<Rightarrow> (string \<times> string) + (string \<rightharpoonup> string)" where
  "ParseRegisteredISIDs s = collect_isids (registeredISIDRE (removeChar nul s)) Map.empty"

section \<open>The live state (aptplcheck.go, prstate.go)\<close>

record PRRegistration =
  rg_Initiator :: string
  rg_Key :: u64

record PRState =
  pr_Registrations :: "PRRegistration list"
  pr_Holder :: string
  pr_HolderKnown :: bool
  pr_Type :: string
  pr_APTPLActive :: bool
  pr_Truncated :: bool

record Reservation =
  rv_Holder :: string
  rv_ISID :: string
  rv_Type :: string
  rv_SPC2 :: bool

definition AllRegistrants :: "Reservation \<Rightarrow> bool" where
  "AllRegistrants r = contains_str ''all registrants'' (toLower (rv_Type r))"

text \<open>One line of the registrations: skipped, not understood, or a registration.\<close>

datatype reg_line = Skipped | Unparsed | Registered PRRegistration

definition parse_reg_line :: "string \<Rightarrow> reg_line" where
  "parse_reg_line line0 = (let line = trimSpace (removeChar nul line0) in
     if line = '''' \<or> line = ''None'' \<or> hasSuffix ''Registrations:'' line then Skipped
     else (case cut '' Node: '' line of
       None \<Rightarrow> Unparsed
     | Some (_, rest) \<Rightarrow> (case cut '' Key: '' rest of
         None \<Rightarrow> Unparsed
       | Some (node, keyPart) \<Rightarrow> (let iqn = cut_before '','' node; keyStr = cut_before '' '' (trimSpace keyPart) in
           case parseUint 16 64 (trimPrefix ''0x'' keyStr) of
             None \<Rightarrow> Unparsed
           | Some key \<Rightarrow> Registered \<lparr>rg_Initiator = trimSpace iqn, rg_Key = of_nat key\<rparr>))))"

definition parseRegistrations :: "string \<Rightarrow> PRRegistration list \<times> nat" where
  "parseRegistrations s = (let ls = map parse_reg_line (splitChar newline s) in
     (concat (map (\<lambda>l. case l of Registered r \<Rightarrow> [r] | _ \<Rightarrow> []) ls), length (filter (\<lambda>l. l = Unparsed) ls)))"

abbreviation noHolder :: string where "noHolder \<equiv> ''No SPC-3 Reservation holder''"

definition parseHolder :: "string \<Rightarrow> string \<times> string \<times> bool" where
  "parseHolder s0 = (let s = trimSpace (removeChar nul s0) in
     case cut '' Initiator: '' s of
       None \<Rightarrow> if s = noHolder then ('''', '''', True) else ('''', '''', False)
     | Some (_, rest) \<Rightarrow> (let nt = cut '','' (trimSpace rest);
           name = trimSpace (case nt of None \<Rightarrow> trimSpace rest | Some (a, _) \<Rightarrow> a) in
         if name = '''' then ('''', '''', False)
         else (case nt of
           None \<Rightarrow> (name, '''', True)
         | Some (_, tail) \<Rightarrow> (case cutPrefix ''i,0x'' (trimSpace tail) of
             None \<Rightarrow> (name, '''', True)
           | Some got0 \<Rightarrow> (case fieldsStr got0 of
               [] \<Rightarrow> (name, '''', True)
             | f # _ \<Rightarrow> if isidRE (toLower f) then (name, toLower f, True) else (name, '''', True))))))"

definition prTypeText :: "string \<Rightarrow> string" where
  "prTypeText s0 = (case cut ''Reservation Type:'' (trimSpace (removeChar nul s0)) of
     Some (_, rest) \<Rightarrow> trimSpace rest | None \<Rightarrow> '''')"

definition pr_attr :: "Backstore \<Rightarrow> string \<Rightarrow> path" where
  "pr_attr b a = objPath b @ [''pr'', a]"

abbreviation prMaxRegLine :: nat where "prMaxRegLine \<equiv> 384"

text \<open>\<open>Manager.PRState\<close>; \<open>page\<close> is the page size of the machine.\<close>

definition read_PRState :: "nat \<Rightarrow> view \<Rightarrow> Backstore \<Rightarrow> Error + PRState" where
  "read_PRState page fs b = (case ReadAttr fs (pr_attr b ''res_pr_registered_i_pts'') of
     Inl e \<Rightarrow> Inl (errf KindConfigfs ''read'' (''backstore/'' @ bs_Name b @ '' pr/res_pr_registered_i_pts'') e)
   | Inr regs \<Rightarrow> (case parseRegistrations regs of (parsed, unparsed) \<Rightarrow>
      (case ReadAttr fs (pr_attr b ''res_holder'') of
         Inl e \<Rightarrow> Inl (errf KindConfigfs ''read'' (''backstore/'' @ bs_Name b @ '' pr/res_holder'') e)
       | Inr v \<Rightarrow> (case parseHolder v of (holder, _, known) \<Rightarrow> Inr
          \<lparr>pr_Registrations = parsed, pr_Holder = holder, pr_HolderKnown = known,
           pr_Type = (if holder \<noteq> '''' then (case ReadAttr fs (pr_attr b ''res_pr_type'') of Inr t \<Rightarrow> prTypeText t | Inl _ \<Rightarrow> '''') else ''''),
           pr_APTPLActive = (case ReadAttr fs (pr_attr b ''res_aptpl_active'') of Inr t \<Rightarrow> contains_str ''Activated'' t | Inl _ \<Rightarrow> False),
           pr_Truncated = (unparsed > 0 \<or> int (length regs) \<ge> int page - int prMaxRegLine)\<rparr>))))"

text \<open>An error of the file layer that is returned as it is; its kind is unknown to the callers.\<close>

definition plain_error :: "cause \<Rightarrow> Error" where
  "plain_error e = errf KindUnknown '''' '''' e"

definition ReservationHolder :: "view \<Rightarrow> Backstore \<Rightarrow> Error + Reservation" where
  "ReservationHolder fs b = (case ReadAttr fs (pr_attr b ''res_holder'') of
     Inl e \<Rightarrow> Inl (plain_error e)
   | Inr raw \<Rightarrow> (let clean = trimSpace (removeChar nul raw) in
      case parseHolder raw of (holder, isid, known) \<Rightarrow>
      if \<not> known then Inl (errf KindConfigfs ''read'' (''backstore/'' @ bs_Name b @ '' pr/res_holder'') HolderUnreadable)
      else (let res = \<lparr>rv_Holder = holder, rv_ISID = isid, rv_Type = '''', rv_SPC2 = hasPrefix ''SPC-2 Reservation:'' clean\<rparr> in
        if holder = '''' then Inr res
        else Inr (case ReadAttr fs (pr_attr b ''res_pr_type'') of Inr t \<Rightarrow> res\<lparr>rv_Type := prTypeText t\<rparr> | Inl _ \<Rightarrow> res))))"

section \<open>The holder\<close>

lemma noHolder_plain: "cut '' Initiator: '' noHolder = None"
  by simp

text \<open>Nobody is reported as the holder only on the kernel's own words for it.\<close>

lemma parseHolder_free_iff:
  "(fst (parseHolder s) = '''' \<and> snd (snd (parseHolder s))) \<longleftrightarrow> trimSpace (removeChar nul s) = noHolder"
proof (cases "cut '' Initiator: '' (trimSpace (removeChar nul s))")
  case None
  then show ?thesis by (simp add: parseHolder_def Let_def)
next
  case (Some p)
  then have "trimSpace (removeChar nul s) \<noteq> noHolder" using noHolder_plain by auto
  then show ?thesis by (auto simp: parseHolder_def Let_def Some split: prod.splits option.splits list.splits if_splits)
qed

lemma holder_isid_valid: "parseHolder s = (h, i, known) \<Longrightarrow> i = '''' \<or> isidRE i"
  by (auto simp: parseHolder_def Let_def split: option.splits list.splits if_splits)

text \<open>What the kernel prints of a holder, and that it is read back.\<close>

definition holder_text :: "string \<Rightarrow> string \<Rightarrow> string" where
  "holder_text iqn suffix = ''SPC-3 Reservation: iSCSI Initiator: '' @ iqn @ suffix"

definition node_name :: "string \<Rightarrow> bool" where
  "node_name iqn \<longleftrightarrow> iqn \<noteq> '''' \<and> list_all graphic iqn \<and> CHR '','' \<notin> set iqn"

definition isid_suffix :: "string option \<Rightarrow> string" where
  "isid_suffix i = (case i of None \<Rightarrow> '''' | Some x \<Rightarrow> '',i,0x'' @ x)"

lemma isHexDigit_graphic: "isHexDigit c \<Longrightarrow> graphic c"
  by (auto simp: isHexDigit_def graphic_def Let_def)

lemma isHexDigit_lower: "isHexDigit c \<Longrightarrow> lower_char c = c"
  by (auto simp: isHexDigit_def lower_char_def Let_def)

lemma isidRE_word:
  assumes "isidRE x"
  shows "list_all graphic x" "x \<noteq> []" "toLower x = x"
  using assms isHexDigit_graphic isHexDigit_lower
  by (auto simp: isidRE_def list_all_iff toLower_def intro: map_idI)

lemma fields_word:
  assumes "list_all graphic x" and "x \<noteq> []"
  shows "fieldsStr x = [x]"
proof -
  have nil: "drop_one space_encodings [] = None" by (simp add: space_encodings_def)
  have "fields_from acc x = [rev acc @ x]" if "list_all graphic x" "acc \<noteq> [] \<or> x \<noteq> []" for acc x
    using that
  proof (induction x arbitrary: acc)
    case Nil then show ?case by (simp add: fields_from.simps nil)
  next
    case (Cons c x) then show ?case by (subst fields_from.simps) (simp add: graphic_not_space)
  qed
  then show ?thesis using assms by (simp add: fieldsStr_def)
qed

lemma node_suffix_word:
  assumes "node_name iqn" and "\<forall>x. i = Some x \<longrightarrow> isidRE x"
  shows "list_all graphic (iqn @ isid_suffix i)" "iqn @ isid_suffix i \<noteq> []"
proof -
  have "list_all graphic (isid_suffix i)"
    using assms(2) isidRE_word(1) by (auto simp: isid_suffix_def graphic_def Let_def split: option.splits)
  then show "list_all graphic (iqn @ isid_suffix i)" using assms(1) by (simp add: node_name_def)
  show "iqn @ isid_suffix i \<noteq> []" using assms(1) by (simp add: node_name_def)
qed

lemma parseHolder_text:
  assumes "node_name iqn" and "\<forall>x. i = Some x \<longrightarrow> isidRE x"
  shows "parseHolder (holder_text iqn (isid_suffix i)) = (iqn, case i of None \<Rightarrow> '''' | Some x \<Rightarrow> x, True)"
proof -
  note w = node_suffix_word [OF assms]
  have c: "trimSpace (removeChar nul (holder_text iqn (isid_suffix i))) = holder_text iqn (isid_suffix i)"
  proof -
    have "nul \<notin> set (holder_text iqn (isid_suffix i))" using graphic_nul [OF w(1)] by (simp add: holder_text_def)
    moreover have "graphic (last (holder_text iqn (isid_suffix i)))"
      unfolding holder_text_def by (rule last_graphic [OF w])
    moreover have "graphic (hd (holder_text iqn (isid_suffix i)))" by (simp add: holder_text_def graphic_def Let_def)
    ultimately show ?thesis by (simp add: removeChar_id trimSpace_graphic holder_text_def)
  qed
  have k: "cut '' Initiator: '' (holder_text iqn (isid_suffix i)) = Some (''SPC-3 Reservation: iSCSI'', iqn @ isid_suffix i)"
    by (simp add: holder_text_def)
  have n: "trimSpace iqn = iqn" "iqn \<noteq> ''''" "CHR '','' \<notin> set iqn"
    using assms(1) trimSpace_word by (auto simp: node_name_def)
  show ?thesis
  proof (cases i)
    case None
    then show ?thesis unfolding parseHolder_def Let_def c k using n by (simp add: isid_suffix_def cut_absent)
  next
    case (Some x)
    have x: "list_all graphic x" "x \<noteq> []" "toLower x = x" "isidRE x" using assms(2) Some isidRE_word by auto
    have "list_all graphic (''i,0x'' @ x)" using x(1) by (simp add: graphic_def Let_def)
    then have t: "trimSpace (''i,0x'' @ x) = ''i,0x'' @ x" by (rule trimSpace_word)
    have u: "cut '','' (iqn @ isid_suffix i) = Some (iqn, ''i,0x'' @ x)"
      using cut_first [OF n(3), of "[]" "''i,0x'' @ x"] Some by (simp add: isid_suffix_def)
    show ?thesis unfolding parseHolder_def Let_def c k option.case prod.case trimSpace_word [OF w(1)] u
      using n x t by (simp add: Some fields_word)
  qed
qed

section \<open>The registrations and the page they are printed on\<close>

text \<open>
  The documented output of the kernel: a heading, then one line for each registration, as long as the
  next line fits the page; one line is built in a buffer of 384 bytes with its final zero.
\<close>

record kernel_reg =
  kr_Initiator :: string
  kr_ISID :: "string option"
  kr_Key :: u64
  kr_Generation :: u32

definition reg_body :: "kernel_reg \<Rightarrow> string" where
  "reg_body r = ''iSCSI Node: '' @ (kr_Initiator r @ isid_suffix (kr_ISID r)) @ '' Key: '' @ (''0x'' @ hexDigits 16 (unat (kr_Key r)))
     @ '' PRgen: 0x'' @ hexDigits 8 (unat (kr_Generation r))"

definition kernel_reg_ok :: "kernel_reg \<Rightarrow> bool" where
  "kernel_reg_ok r \<longleftrightarrow> node_name (kr_Initiator r) \<and> (\<forall>x. kr_ISID r = Some x \<longrightarrow> isidRE x) \<and> length (reg_body r) + 1 < prMaxRegLine"

fun fill_page :: "nat \<Rightarrow> string \<Rightarrow> string list \<Rightarrow> string" where
  "fill_page page buf [] = buf"
| "fill_page page buf (l # ls) = (if length buf + length l \<ge> page then buf else fill_page page (buf @ l) ls)"

definition reg_heading :: string where
  "reg_heading = ''SPC-3 PR Registrations:''"

definition registrations_text :: "nat \<Rightarrow> kernel_reg list \<Rightarrow> string" where
  "registrations_text page rs = fill_page page (reg_heading @ [newline])
     (if rs = [] then [''None'' @ [newline]] else map (\<lambda>r. reg_body r @ [newline]) rs)"

definition seen_reg :: "kernel_reg \<Rightarrow> PRRegistration" where
  "seen_reg r = \<lparr>rg_Initiator = kr_Initiator r, rg_Key = kr_Key r\<rparr>"

lemma digit_char_not: "d < 16 \<Longrightarrow> digit_char d \<noteq> CHR '':'' \<and> digit_char d \<noteq> CHR '' ''"
  using digit_val_char [of d] by (auto simp: digit_val_def Let_def)

lemma hexDigits_no: "CHR '':'' \<notin> set (hexDigits n v)" "CHR '' '' \<notin> set (hexDigits n v)"
  by (auto dest!: hexDigits_chars digit_char_not)

lemma word_no_space: "list_all graphic s \<Longrightarrow> CHR '' '' \<notin> set s"
  using graphic_neq(3) by (auto simp: list_all_iff)

lemma parseUint_key: "parseUint 16 64 (hexDigits 16 (unat (k :: u64))) = Some (unat k)"
  using unsigned_less [of k, where ?'a = nat] by (intro parseUint_hexDigits) simp_all

lemma reg_body_shape:
  assumes "kernel_reg_ok r"
  shows "graphic (hd (reg_body r))" "graphic (last (reg_body r))" "last (reg_body r) \<noteq> CHR '':''" "nul \<notin> set (reg_body r)"
    "newline \<notin> set (reg_body r)" "reg_body r \<noteq> []"
proof -
  have n: "list_all graphic (kr_Initiator r @ isid_suffix (kr_ISID r))"
    using assms node_suffix_word by (auto simp: kernel_reg_ok_def)
  have g: "list_all graphic (hexDigits m v)" for m v by (rule hexDigits_graphic)
  have ne: "hexDigits 8 v \<noteq> []" for v using length_hexDigits [of 8 v] by fastforce
  show "graphic (hd (reg_body r))" by (simp add: reg_body_def graphic_def Let_def)
  show "reg_body r \<noteq> []" by (simp add: reg_body_def)
  have l: "last (reg_body r) = last (hexDigits 8 (unat (kr_Generation r)))" using ne by (simp add: reg_body_def)
  then show "graphic (last (reg_body r))" using last_graphic [OF g ne, of "[]"] by simp
  show "last (reg_body r) \<noteq> CHR '':''" using l ne hexDigits_no(1) by (metis last_in_set)
  have ab: "c \<notin> set w" if "c \<in> {nul, newline}" "list_all graphic w" for c w
    using that graphic_neq(1,2) by (auto simp: list_all_iff)
  have "c \<notin> set (reg_body r)" if "c \<in> {nul, newline}" for c
    using that ab [OF that n] ab [OF that g] by (auto simp: reg_body_def)
  then show "nul \<notin> set (reg_body r)" "newline \<notin> set (reg_body r)" by simp_all
qed

lemma parse_reg_body:
  assumes ok: "kernel_reg_ok r"
  shows "parse_reg_line (reg_body r) = Registered (seen_reg r)"
proof -
  note sh = reg_body_shape [OF ok]
  let ?node = "kr_Initiator r @ isid_suffix (kr_ISID r)"
  let ?hex = "hexDigits 16 (unat (kr_Key r))"
  let ?rest = "''PRgen: 0x'' @ hexDigits 8 (unat (kr_Generation r))"
  have i: "node_name (kr_Initiator r)" and s: "\<forall>x. kr_ISID r = Some x \<longrightarrow> isidRE x" using ok by (auto simp: kernel_reg_ok_def)
  have line: "trimSpace (removeChar nul (reg_body r)) = reg_body r"
    using sh by (simp add: removeChar_id trimSpace_graphic)
  have "\<not> hasSuffix ''Registrations:'' (reg_body r)" using sh(3) by (auto dest: hasSuffix_last)
  then have skip: "\<not> (reg_body r = '''' \<or> reg_body r = ''None'' \<or> hasSuffix ''Registrations:'' (reg_body r))"
    by (simp add: reg_body_def)
  have c1: "cut '' Node: '' (reg_body r) = Some (''iSCSI'', ?node @ CHR '' '' # ''Key: '' @ ''0x'' @ ?hex @ CHR '' '' # ?rest)"
    by (simp add: reg_body_def)
  have c2: "cut '' Key: '' (?node @ CHR '' '' # ''Key: '' @ ''0x'' @ ?hex @ CHR '' '' # ?rest)
      = Some (?node, ''0x'' @ ?hex @ CHR '' '' # ?rest)"
    by (rule cut_first [OF word_no_space [OF node_suffix_word(1) [OF i s]]])
  have cm: "CHR '','' \<notin> set (kr_Initiator r)" using i by (simp add: node_name_def)
  have c3: "trimSpace (cut_before '','' ?node) = kr_Initiator r"
  proof (cases "kr_ISID r")
    case None
    then show ?thesis using cm i by (simp add: cut_before_def isid_suffix_def cut_absent node_name_def trimSpace_word)
  next
    case (Some x)
    then show ?thesis using i cut_first [OF cm, of "[]" "''i,0x'' @ x"]
      by (simp add: cut_before_def isid_suffix_def node_name_def trimSpace_word)
  qed
  have ne: "hexDigits 8 v \<noteq> []" for v using length_hexDigits [of 8 v] by fastforce
  have t: "trimSpace (''0x'' @ ?hex @ CHR '' '' # ?rest) = ''0x'' @ ?hex @ CHR '' '' # ?rest"
    using last_graphic [OF hexDigits_graphic ne, of "''0x'' @ ?hex @ '' PRgen: 0x''"]
    by (intro trimSpace_graphic) (simp_all add: graphic_def Let_def)
  have "CHR '' '' \<notin> set (''0x'' @ ?hex)" using hexDigits_no(2) by simp
  from cut_first [OF this, of "[]" ?rest] have c4: "cut_before '' '' (''0x'' @ ?hex @ CHR '' '' # ?rest) = ''0x'' @ ?hex"
    by (simp add: cut_before_def)
  show ?thesis unfolding parse_reg_line_def Let_def line if_not_P [OF skip] c1 option.case prod.case c2 t c4 c3 trimPrefix_append
    by (simp add: parseUint_key seen_reg_def)
qed

lemma fill_page_prefix:
  "\<exists>k \<le> length ls. fill_page page buf ls = buf @ concat (take k ls)
     \<and> (k < length ls \<longrightarrow> length (fill_page page buf ls) + length (ls ! k) \<ge> page)"
proof (induction ls arbitrary: buf)
  case (Cons l ls)
  show ?case
  proof (cases "length buf + length l \<ge> page")
    case True then show ?thesis by (intro exI [of _ 0]) simp
  next
    case False
    obtain k where "k \<le> length ls" "fill_page page (buf @ l) ls = (buf @ l) @ concat (take k ls)"
      "k < length ls \<longrightarrow> length (fill_page page (buf @ l) ls) + length (ls ! k) \<ge> page" using Cons by blast
    then show ?thesis using False by (intro exI [of _ "Suc k"]) simp
  qed
qed simp

lemma trimSuffix_append [simp]: "trimSuffix p (x @ p) = x"
  by (simp add: trimSuffix_def)

lemma lines_joined: "h @ [newline] @ concat (map (\<lambda>l. l @ [newline]) ls) = joinStr [newline] (h # ls) @ [newline]"
  by (induction ls arbitrary: h) auto

lemma parse_lines:
  assumes "newline \<notin> set h" and "\<forall>l \<in> set ls. newline \<notin> set l"
  shows "parseRegistrations (trimSuffix [newline] (h @ [newline] @ concat (map (\<lambda>l. l @ [newline]) ls)))
    = (let ps = map parse_reg_line (h # ls) in
       (concat (map (\<lambda>l. case l of Registered r \<Rightarrow> [r] | _ \<Rightarrow> []) ps), length (filter (\<lambda>l. l = Unparsed) ps)))"
proof -
  have "splitChar newline (joinStr [newline] (h # ls)) = h # ls" by (rule splitChar_joinStr) (use assms in auto)
  then show ?thesis unfolding lines_joined trimSuffix_append by (simp only: parseRegistrations_def)
qed

lemma heading_skipped: "parse_reg_line reg_heading = Skipped" "parse_reg_line ''None'' = Skipped"
  by (simp_all add: parse_reg_line_def reg_heading_def go_eval)

text \<open>The text holds the registrations that fit, in order, and all of it is understood.\<close>

lemma registrations_text_prefix:
  assumes "\<forall>r \<in> set rs. kernel_reg_ok r"
  obtains k where "k \<le> length rs"
    "parseRegistrations (trimSuffix [newline] (registrations_text page rs)) = (map seen_reg (take k rs), 0)"
    "k < length rs \<Longrightarrow> page < length (registrations_text page rs) + prMaxRegLine"
proof (cases "rs = []")
  case True
  have "newline \<notin> set reg_heading" by (simp add: reg_heading_def)
  then have "parseRegistrations (trimSuffix [newline] (registrations_text page rs)) = ([], 0)"
    using parse_lines [of reg_heading "[]"] parse_lines [of reg_heading "[''None'']"]
    by (auto simp: registrations_text_def True heading_skipped Let_def)
  then show thesis using that [of 0] True by simp
next
  case False
  let ?ls = "map (\<lambda>r. reg_body r @ [newline]) rs"
  obtain k where k: "k \<le> length rs" "fill_page page (reg_heading @ [newline]) ?ls = (reg_heading @ [newline]) @ concat (take k ?ls)"
    "k < length rs \<longrightarrow> length (fill_page page (reg_heading @ [newline]) ?ls) + length (?ls ! k) \<ge> page"
    using fill_page_prefix [of ?ls page "reg_heading @ [newline]"] by auto
  have t: "registrations_text page rs = reg_heading @ [newline] @ concat (map (\<lambda>l. l @ [newline]) (map reg_body (take k rs)))"
    using k(2) False by (simp add: registrations_text_def take_map comp_def)
  have ok: "\<forall>r \<in> set (take k rs). kernel_reg_ok r" using assms by (auto dest: in_set_takeD)
  have p: "parse_reg_line (reg_body r) = Registered (seen_reg r)" if "r \<in> set (take k rs)" for r
    using parse_reg_body ok that by blast
  then have m: "map parse_reg_line (map reg_body (take k rs)) = map (\<lambda>r. Registered (seen_reg r)) (take k rs)" by simp
  have "newline \<notin> set reg_heading" "\<forall>l \<in> set (map reg_body (take k rs)). newline \<notin> set l"
    using ok reg_body_shape(5) by (auto simp: reg_heading_def)
  then have "parseRegistrations (trimSuffix [newline] (registrations_text page rs)) = (map seen_reg (take k rs), 0)"
    unfolding t by (subst parse_lines) (simp_all only: Let_def list.map m heading_skipped, simp_all add: comp_def)
  moreover have "page < length (registrations_text page rs) + prMaxRegLine" if "k < length rs"
  proof -
    have "length (?ls ! k) < prMaxRegLine" using assms that by (simp add: kernel_reg_ok_def)
    then show ?thesis using k(3) that False by (simp add: registrations_text_def)
  qed
  ultimately show thesis using that k(1) by blast
qed

lemma ReadAttr_file: "ReadAttr fs p = Inr x \<Longrightarrow> v_file fs p = Inr t \<Longrightarrow> x = trimSuffix [newline] t"
  by (auto simp: ReadAttr_def split: option.splits)

lemma read_PRState_Inr:
  assumes "read_PRState page fs b = Inr st"
  obtains regs v where "ReadAttr fs (pr_attr b ''res_pr_registered_i_pts'') = Inr regs" "ReadAttr fs (pr_attr b ''res_holder'') = Inr v"
    "pr_Registrations st = fst (parseRegistrations regs)"
    "pr_Truncated st \<longleftrightarrow> snd (parseRegistrations regs) > 0 \<or> int (length regs) \<ge> int page - int prMaxRegLine"
    "pr_Holder st = fst (parseHolder v)" "pr_HolderKnown st = snd (snd (parseHolder v))"
proof (cases "ReadAttr fs (pr_attr b ''res_pr_registered_i_pts'')")
  case (Inr regs)
  show thesis
  proof (cases "ReadAttr fs (pr_attr b ''res_holder'')")
    case (Inr v)
    then show thesis using assms \<open>ReadAttr _ _ = Inr regs\<close> that
      by (simp add: read_PRState_def split_beta) (metis PRState.select_convs)
  qed (use assms Inr in \<open>simp add: read_PRState_def split_beta\<close>)
qed (use assms in \<open>simp add: read_PRState_def\<close>)

section \<open>Properties\<close>

text \<open>Absence from the list is evidence. Over the documented output of the kernel, which stops silently
  when the next line does not fit the page, the registrations read are a prefix of the kernel's, and
  they are all of them whenever the state is not marked truncated: the margin of 384 bytes is enough,
  though one byte of it is the newline that reading removes. A short list is never marked truncated.\<close>

lemma pr_list_complete:
  assumes "v_file fs (pr_attr b ''res_pr_registered_i_pts'') = Inr (registrations_text page rs)"
    and "\<forall>r \<in> set rs. kernel_reg_ok r" and "read_PRState page fs b = Inr st"
  shows "(\<exists>k. pr_Registrations st = map seen_reg (take k rs))
    \<and> (\<not> pr_Truncated st \<longrightarrow> pr_Registrations st = map seen_reg rs)
    \<and> (length (registrations_text page rs) + prMaxRegLine < page \<longrightarrow> \<not> pr_Truncated st)"
proof -
  let ?t = "registrations_text page rs"
  obtain k where k: "k \<le> length rs" "parseRegistrations (trimSuffix [newline] ?t) = (map seen_reg (take k rs), 0)"
    "k < length rs \<Longrightarrow> page < length ?t + prMaxRegLine"
    using registrations_text_prefix [OF assms(2)] by blast
  obtain regs where "ReadAttr fs (pr_attr b ''res_pr_registered_i_pts'') = Inr regs"
    and r: "pr_Registrations st = fst (parseRegistrations regs)"
      "pr_Truncated st \<longleftrightarrow> snd (parseRegistrations regs) > 0 \<or> int (length regs) \<ge> int page - int prMaxRegLine"
    using read_PRState_Inr [OF assms(3)] by metis
  then have g: "regs = trimSuffix [newline] ?t" using ReadAttr_file assms(1) by blast
  have len: "length ?t \<le> length (trimSuffix [newline] ?t) + 1" "length (trimSuffix [newline] ?t) \<le> length ?t"
    by (auto simp: trimSuffix_def cutPrefix_Some split: option.splits dest!: arg_cong [of _ _ length])
  have "pr_Registrations st = map seen_reg rs" if "\<not> pr_Truncated st"
  proof -
    have "\<not> k < length rs" using that r(2) k(3) len(1) g by auto
    then show ?thesis using r(1) k(1,2) g by simp
  qed
  moreover have "\<not> pr_Truncated st" if "length ?t + prMaxRegLine < page"
    using that r(2) k(2) len(2) g by simp
  ultimately show ?thesis using r(1) k(2) g by auto
qed

definition demo_reg :: kernel_reg where
  "demo_reg = \<lparr>kr_Initiator = ''iqn.h'', kr_ISID = Some ''00023d000004'', kr_Key = 0xaaaa, kr_Generation = 0\<rparr>"

definition demo_bs :: Backstore where
  "demo_bs = \<lparr>bs_Type = FileIO, bs_HBA = 0, bs_Name = ''v'', bs_Dev = '''', bs_BufferedIO = False, bs_Size = 0, bs_WWN = '''',
     bs_VendorID = '''', bs_ProductID = '''', bs_Revision = '''', bs_Attributes = []\<rparr>"

definition demo_view :: "string \<Rightarrow> string \<Rightarrow> view" where
  "demo_view regs holder = empty_view\<lparr>v_file := (\<lambda>p. if last p = ''res_pr_registered_i_pts'' then Inr regs
     else if last p = ''res_holder'' then Inr holder else Inl ENOENT)\<rparr>"

lemma demo_reg_ok: "kernel_reg_ok demo_reg"
  by (simp add: kernel_reg_ok_def demo_reg_def node_name_def graphic_def isidRE_def isHexDigit_def reg_body_def isid_suffix_def)

lemma demo_attr: "ReadAttr (demo_view r h) (pr_attr demo_bs ''res_pr_registered_i_pts'') = Inr (trimSuffix [newline] r)"
    "ReadAttr (demo_view r h) (pr_attr demo_bs ''res_holder'') = Inr (trimSuffix [newline] h)"
  by (simp_all add: ReadAttr_def demo_view_def pr_attr_def objPath_def dirName_def demo_bs_def validSeg_def itoa_def utoa.simps digit_char_def char_of_nat_bits)

text \<open>C18. Nobody is taken for the holder only on the kernel's own words. The reservation of a unit is reported
  as not held exactly when its res_holder file was read and says so literally; both readers agree; and
  what the kernel prints of a holder, with or without a session, is read back as that holder.\<close>

theorem unheld_exact:
  "((\<exists>res. ReservationHolder fs b = Inr res \<and> rv_Holder res = '''')
      \<longleftrightarrow> (\<exists>raw. ReadAttr fs (pr_attr b ''res_holder'') = Inr raw \<and> trimSpace (removeChar nul raw) = noHolder))
    \<and> (read_PRState page fs b = Inr st \<longrightarrow> (pr_HolderKnown st \<and> pr_Holder st = ''''
      \<longleftrightarrow> (\<exists>raw. ReadAttr fs (pr_attr b ''res_holder'') = Inr raw \<and> trimSpace (removeChar nul raw) = noHolder)))
    \<and> (node_name iqn \<and> (\<forall>x. i = Some x \<longrightarrow> isidRE x) \<and> ReadAttr fs (pr_attr b ''res_holder'') = Inr (holder_text iqn (isid_suffix i))
      \<longrightarrow> (\<exists>res. ReservationHolder fs b = Inr res \<and> rv_Holder res = iqn \<and> rv_ISID res = (case i of None \<Rightarrow> '''' | Some x \<Rightarrow> x)))"
proof (intro conjI impI)
  show "(\<exists>res. ReservationHolder fs b = Inr res \<and> rv_Holder res = '''')
      \<longleftrightarrow> (\<exists>raw. ReadAttr fs (pr_attr b ''res_holder'') = Inr raw \<and> trimSpace (removeChar nul raw) = noHolder)"
    unfolding parseHolder_free_iff [symmetric]
    by (cases "ReadAttr fs (pr_attr b ''res_holder'')")
       (auto simp: ReservationHolder_def Let_def split_beta split: sum.splits)
next
  assume "read_PRState page fs b = Inr st"
  then obtain v where "ReadAttr fs (pr_attr b ''res_holder'') = Inr v"
    "pr_Holder st = fst (parseHolder v)" "pr_HolderKnown st = snd (snd (parseHolder v))"
    by (rule read_PRState_Inr)
  then show "pr_HolderKnown st \<and> pr_Holder st = ''''
      \<longleftrightarrow> (\<exists>raw. ReadAttr fs (pr_attr b ''res_holder'') = Inr raw \<and> trimSpace (removeChar nul raw) = noHolder)"
    unfolding parseHolder_free_iff [symmetric] by auto
next
  assume a: "node_name iqn \<and> (\<forall>x. i = Some x \<longrightarrow> isidRE x)
    \<and> ReadAttr fs (pr_attr b ''res_holder'') = Inr (holder_text iqn (isid_suffix i))"
  then have "parseHolder (holder_text iqn (isid_suffix i)) = (iqn, case i of None \<Rightarrow> '''' | Some x \<Rightarrow> x, True)" "iqn \<noteq> ''''"
    using parseHolder_text by (auto simp: node_name_def)
  then show "\<exists>res. ReservationHolder fs b = Inr res \<and> rv_Holder res = iqn \<and> rv_ISID res = (case i of None \<Rightarrow> '''' | Some x \<Rightarrow> x)"
    using a by (cases "ReadAttr fs (pr_attr b ''res_pr_type'')") (simp_all add: ReservationHolder_def Let_def)
qed

lemma unheld_exact_witness:
  "\<exists>res. ReservationHolder (demo_view '''' (holder_text ''iqn.h'' (isid_suffix (Some ''00023d000004'')))) demo_bs = Inr res
     \<and> rv_Holder res = ''iqn.h'' \<and> rv_ISID res = ''00023d000004''"
proof -
  have n: "node_name ''iqn.h''" "\<forall>x. Some ''00023d000004'' = Some x \<longrightarrow> isidRE x"
    by (simp_all add: node_name_def graphic_def isidRE_def isHexDigit_def)
  have t: "trimSuffix [newline] (holder_text ''iqn.h'' (isid_suffix (Some ''00023d000004'')))
      = holder_text ''iqn.h'' (isid_suffix (Some ''00023d000004''))"
    by (simp add: trimSuffix_def holder_text_def isid_suffix_def)
  show ?thesis
    using unheld_exact [of "demo_view '''' (holder_text ''iqn.h'' (isid_suffix (Some ''00023d000004'')))" demo_bs 0 _
      "''iqn.h''" "Some ''00023d000004''"] n by (simp only: demo_attr t option.case)
qed

end
