(* ===== verification/Lio_Saved.thy ===== *)
theory Lio_Saved
  imports Lio_Reservation Lio_Validate
begin

text \<open>
  The saved state of persistent reservations compared with the live one: the records of
  lio/aptplcheck.go and verifyAPTPL of lio/backstore.go.
\<close>

section \<open>The saved state (aptplcheck.go)\<close>

record aptplRecord =
  sv_Initiator :: string
  sv_Target :: string
  sv_TPGT :: int
  sv_MappedLUN :: int
  sv_TargetLUN :: int
  sv_Key :: u64
  sv_Holder :: bool
  sv_ResType :: int

definition no_record :: aptplRecord where
  "no_record = \<lparr>sv_Initiator = '''', sv_Target = '''', sv_TPGT = 0, sv_MappedLUN = 0, sv_TargetLUN = 0, sv_Key = 0,
     sv_Holder = False, sv_ResType = 0\<rparr>"

text \<open>The assignment of one field; \<open>None\<close> is the error of the conversion.\<close>

definition set_field :: "string \<Rightarrow> string \<Rightarrow> aptplRecord \<Rightarrow> aptplRecord option" where
  "set_field k v r =
    (if k = ''initiator_node'' then Some (r\<lparr>sv_Initiator := v\<rparr>)
     else if k = ''target_node'' then Some (r\<lparr>sv_Target := v\<rparr>)
     else if k = ''tpgt'' then map_option (\<lambda>n. r\<lparr>sv_TPGT := n\<rparr>) (atoi_go v)
     else if k = ''mapped_lun'' then map_option (\<lambda>n. r\<lparr>sv_MappedLUN := n\<rparr>) (atoi_go v)
     else if k = ''target_lun'' then map_option (\<lambda>n. r\<lparr>sv_TargetLUN := n\<rparr>) (atoi_go v)
     else if k = ''sa_res_key'' then map_option (\<lambda>n. r\<lparr>sv_Key := of_nat n\<rparr>) (parseUint 10 64 v)
     else if k = ''res_type'' then map_option (\<lambda>n. r\<lparr>sv_ResType := int n\<rparr>) (parseUint 16 8 v)
     else if k = ''res_holder'' then
       (if v = ''0'' then Some (r\<lparr>sv_Holder := False\<rparr>) else if v = ''1'' then Some (r\<lparr>sv_Holder := True\<rparr>) else None)
     else Some r)"

datatype record_error = BadField string string | MissingField string

fun parse_fields :: "string list \<Rightarrow> aptplRecord \<Rightarrow> string list \<Rightarrow> record_error + (aptplRecord \<times> string list)" where
  "parse_fields [] r seen = Inr (r, seen)"
| "parse_fields (f # fs) r seen = (case cut ''='' (trimSpace f) of
     None \<Rightarrow> parse_fields fs r seen
   | Some (k, v) \<Rightarrow> (case set_field k v r of
       None \<Rightarrow> Inl (BadField k v)
     | Some r1 \<Rightarrow> parse_fields fs r1 (k # seen)))"

definition required_fields :: "string list" where
  "required_fields = [''initiator_node'', ''target_node'', ''tpgt'', ''mapped_lun'', ''target_lun'', ''sa_res_key'', ''res_holder'']"

definition parseAPTPLRecord :: "string \<Rightarrow> record_error + aptplRecord" where
  "parseAPTPLRecord rec = (case parse_fields (splitChar CHR '','' rec) no_record [] of
     Inl e \<Rightarrow> Inl e
   | Inr (r, seen) \<Rightarrow> (case find (\<lambda>k. k \<notin> set seen) required_fields of Some k \<Rightarrow> Inl (MissingField k) | None \<Rightarrow> Inr r))"

text \<open>\<open>aptplRecord.exported\<close>: the nested loops stop at the first match.\<close>

definition record_exported :: "aptplRecord \<Rightarrow> Config \<Rightarrow> Backstore \<Rightarrow> bool" where
  "record_exported r cfg b = list_ex (\<lambda>t. tgt_IQN t = sv_Target r \<and> list_ex (\<lambda>g. tpg_Tag g = sv_TPGT r
     \<and> list_ex (\<lambda>acl. acl_InitiatorIQN acl = sv_Initiator r \<and> list_ex (\<lambda>ml. ml_Index ml = sv_MappedLUN r
         \<and> ml_TPGLUN ml = sv_TargetLUN r
         \<and> list_ex (\<lambda>l. lun_Index l = ml_TPGLUN ml \<and> lun_Backstore l = bs_Name b) (tpg_LUNs g))
       (acl_MappedLUNs acl)) (tpg_ACLs g)) (tgt_TPGs t)) (cfg_Targets cfg)"

definition excluded :: "aptplRecord \<Rightarrow> string" where
  "excluded r = (if sv_ResType r \<in> {5, 6, 7, 8} then ''initiators that are not registered''
     else if sv_ResType r \<in> {1, 3} then ''every other initiator'' else ''other initiators'')"

definition exportedMappings :: "Config \<Rightarrow> Backstore \<Rightarrow> string \<Rightarrow> nat" where
  "exportedMappings cfg b ignoreInitiator = sum_list (map (\<lambda>t. sum_list (map (\<lambda>g. sum_list (map (\<lambda>acl.
       if acl_InitiatorIQN acl = ignoreInitiator then 0
       else sum_list (map (\<lambda>ml. length (filter (\<lambda>l. lun_Index l = ml_TPGLUN ml \<and> lun_Backstore l = bs_Name b) (tpg_LUNs g)))
         (acl_MappedLUNs acl))) (tpg_ACLs g))) (tgt_TPGs t))) (cfg_Targets cfg))"

section \<open>Saved against live (backstore.go)\<close>

text \<open>The warnings, with the facts their text carries.\<close>

datatype aptpl_warning =
    SavedUnreadable cause
  | RecordUnparsable nat record_error
  | LiveUnreadable nat cause
  | LinesUnparsed nat
  | NotLive string u64 int
  | HolderNotRead string cause
  | HolderDiffers string string
  | LapsedUnknown string cause nat
  | LapsedUnfenced string nat string

definition reportLapsedHolder :: "view \<Rightarrow> Config \<Rightarrow> Backstore \<Rightarrow> string \<Rightarrow> aptplRecord \<Rightarrow> aptpl_warning list" where
  "reportLapsedHolder fs cfg b lapsed rec = (let survivors = exportedMappings cfg b lapsed in
     if survivors = 0 then []
     else (case ReadAttr fs (pr_attr b ''res_holder'') of
       Inl e \<Rightarrow> [LapsedUnknown lapsed e survivors]
     | Inr live \<Rightarrow> if fst (parseHolder live) \<noteq> '''' then [] else [LapsedUnfenced lapsed survivors (excluded rec)]))"

text \<open>The loop over the saved records: those still exported, the last lapsed holder, the warnings.\<close>

fun sort_records :: "Config \<Rightarrow> Backstore \<Rightarrow> nat \<Rightarrow> string list \<Rightarrow> aptplRecord list \<times> aptplRecord option \<times> aptpl_warning list" where
  "sort_records cfg b i [] = ([], None, [])"
| "sort_records cfg b i (rec # recs) = (case sort_records cfg b (i + 1) recs of (want, lapsed, out) \<Rightarrow>
     if trimSpace rec = '''' then (want, lapsed, out)
     else (case parseAPTPLRecord rec of
       Inl e \<Rightarrow> (want, lapsed, RecordUnparsable i e # out)
     | Inr r \<Rightarrow> if record_exported r cfg b then (r # want, lapsed, out)
         else if sv_Holder r then (want, (case lapsed of None \<Rightarrow> Some r | Some l \<Rightarrow> Some l), out)
         else (want, lapsed, out)))"

definition live_reg :: "aptplRecord \<Rightarrow> PRRegistration" where
  "live_reg r = \<lparr>rg_Initiator = sv_Initiator r, rg_Key = sv_Key r\<rparr>"

definition check_live :: "view \<Rightarrow> Config \<Rightarrow> Backstore \<Rightarrow> aptplRecord list \<Rightarrow> aptplRecord option \<Rightarrow> string \<Rightarrow> aptpl_warning list" where
  "check_live fs cfg b want lapsed live = (case parseRegistrations live of (regs, unparsed) \<Rightarrow>
     (if unparsed > 0 then [LinesUnparsed unparsed] else [])
     @ map (\<lambda>r. NotLive (sv_Initiator r) (sv_Key r) (sv_MappedLUN r)) (filter (\<lambda>r. live_reg r \<notin> set regs) want)
     @ (let holder = (case find sv_Holder want of None \<Rightarrow> '''' | Some r \<Rightarrow> sv_Initiator r);
            lapsedHolder = (case lapsed of None \<Rightarrow> '''' | Some l \<Rightarrow> sv_Initiator l) in
        (if holder = '''' \<and> lapsedHolder \<noteq> '''' then reportLapsedHolder fs cfg b lapsedHolder (the lapsed) else [])
        @ (if holder \<noteq> '''' then (case ReadAttr fs (pr_attr b ''res_holder'') of
             Inl e \<Rightarrow> [HolderNotRead holder e]
           | Inr got \<Rightarrow> if fst (parseHolder got) \<noteq> holder then [HolderDiffers holder (fst (parseHolder got))] else [])
           else [])))"

definition verifyBackstoreAPTPL :: "view \<Rightarrow> (Backstore \<Rightarrow> cause + string list) \<Rightarrow> Config \<Rightarrow> Backstore \<Rightarrow> aptpl_warning list" where
  "verifyBackstoreAPTPL fs records cfg b = (case records b of
     Inl e \<Rightarrow> [SavedUnreadable e]
   | Inr recs \<Rightarrow> (case sort_records cfg b 0 recs of (want, lapsed, out) \<Rightarrow>
      if want = [] \<and> out = [] \<and> (case lapsed of None \<Rightarrow> True | Some l \<Rightarrow> sv_Initiator l = '''') then []
      else (case ReadAttr fs (pr_attr b ''res_pr_registered_i_pts'') of
        Inl e \<Rightarrow> out @ [LiveUnreadable (length want) e]
      | Inr live \<Rightarrow> out @ check_live fs cfg b want lapsed live)))"

definition verifyAPTPL :: "view \<Rightarrow> (Backstore \<Rightarrow> cause + string list) option \<Rightarrow> Config \<Rightarrow> (Backstore \<times> aptpl_warning) list" where
  "verifyAPTPL fs aptplRecords cfg = (case aptplRecords of
     None \<Rightarrow> []
   | Some records \<Rightarrow> concat (map (\<lambda>b. map (Pair b) (verifyBackstoreAPTPL fs records cfg b)) (cfg_Backstores cfg)))"

section \<open>What silence means\<close>

text \<open>The records that were saved and parse.\<close>

definition saved_one :: "string \<Rightarrow> aptplRecord set" where
  "saved_one rec = {r. trimSpace rec \<noteq> '''' \<and> parseAPTPLRecord rec = Inr r}"

definition saved_records :: "string list \<Rightarrow> aptplRecord set" where
  "saved_records recs = (\<Union>rec \<in> set recs. saved_one rec)"

lemma saved_records_simps [simp]:
  "saved_records [] = {}" "saved_records (rec # recs) = saved_one rec \<union> saved_records recs"
  by (simp_all add: saved_records_def)

lemma saved_one_simps [simp]:
  "trimSpace rec = '''' \<Longrightarrow> saved_one rec = {}"
  "parseAPTPLRecord rec = Inl e \<Longrightarrow> saved_one rec = {}"
  "trimSpace rec \<noteq> '''' \<Longrightarrow> parseAPTPLRecord rec = Inr r \<Longrightarrow> saved_one rec = {r}"
  by (auto simp: saved_one_def)

lemma sort_records_spec:
  assumes "sort_records cfg b i recs = (want, lapsed, out)"
  shows "set want = {r \<in> saved_records recs. record_exported r cfg b}
    \<and> (out = [] \<longleftrightarrow> (\<forall>rec \<in> set recs. trimSpace rec \<noteq> '''' \<longrightarrow> ok (parseAPTPLRecord rec)))
    \<and> (lapsed = None \<longleftrightarrow> (\<forall>r \<in> saved_records recs. sv_Holder r \<longrightarrow> record_exported r cfg b))
    \<and> (\<forall>l. lapsed = Some l \<longrightarrow> l \<in> saved_records recs \<and> sv_Holder l \<and> \<not> record_exported l cfg b)"
  using assms
proof (induction recs arbitrary: i want lapsed out)
  case (Cons rec recs)
  obtain want0 lapsed0 out0 where s: "sort_records cfg b (i + 1) recs = (want0, lapsed0, out0)"
    by (cases "sort_records cfg b (i + 1) recs")
  note IH = Cons.IH [OF s]
  consider "trimSpace rec = ''''" | e where "trimSpace rec \<noteq> ''''" "parseAPTPLRecord rec = Inl e"
    | r :: aptplRecord where "trimSpace rec \<noteq> ''''" "parseAPTPLRecord rec = Inr r" by (cases "parseAPTPLRecord rec") auto
  then show ?case
  proof cases
    case 1 then show ?thesis using IH Cons.prems s by (simp del: One_nat_def)
  next
    case 2 then show ?thesis using IH Cons.prems s by (auto simp del: One_nat_def)
  next
    case 3 then show ?thesis using IH Cons.prems s by (auto simp del: One_nat_def split: if_splits option.splits)
  qed
qed simp
lemma exported_initiator:
  assumes "record_exported r cfg b" and "Validate cfg = None"
  shows "sv_Initiator r \<noteq> ''''"
proof -
  have "valid_config cfg" using assms(2) Validate_ok_iff by blast
  then show ?thesis using assms(1)
    by (fastforce simp: record_exported_def list_ex_iff valid_config_def valid_target_def valid_tpg_def valid_acls_def
        ValidInitiatorIQN_def hasPrefix_iff)
qed

lemma check_live_silent:
  assumes "check_live fs cfg b want lapsed live = []"
  shows "snd (parseRegistrations live) = 0" and "\<forall>r \<in> set want. live_reg r \<in> set (fst (parseRegistrations live))"
    and "find sv_Holder want = Some h \<Longrightarrow> sv_Initiator h \<noteq> ''''
      \<Longrightarrow> \<exists>raw. ReadAttr fs (pr_attr b ''res_holder'') = Inr raw \<and> fst (parseHolder raw) = sv_Initiator h"
    and "find sv_Holder want = None \<Longrightarrow> lapsed = Some l \<Longrightarrow> sv_Initiator l \<noteq> '''' \<Longrightarrow> exportedMappings cfg b (sv_Initiator l) \<noteq> 0
      \<Longrightarrow> \<exists>raw. ReadAttr fs (pr_attr b ''res_holder'') = Inr raw \<and> fst (parseHolder raw) \<noteq> ''''"
proof -
  obtain regs n where p: "parseRegistrations live = (regs, n)" by fastforce
  have parts: "n = 0" "filter (\<lambda>r. live_reg r \<notin> set regs) want = []"
    using assms by (auto simp: check_live_def p Let_def split: if_splits)
  show "snd (parseRegistrations live) = 0" using parts(1) p by simp
  show "\<forall>r \<in> set want. live_reg r \<in> set (fst (parseRegistrations live))" using parts(2) p by (auto simp: filter_empty_conv)
  show "\<exists>raw. ReadAttr fs (pr_attr b ''res_holder'') = Inr raw \<and> fst (parseHolder raw) = sv_Initiator h"
    if "find sv_Holder want = Some h" "sv_Initiator h \<noteq> ''''"
    using assms that by (cases "ReadAttr fs (pr_attr b ''res_holder'')") (auto simp: check_live_def p Let_def split: if_splits)
  show "\<exists>raw. ReadAttr fs (pr_attr b ''res_holder'') = Inr raw \<and> fst (parseHolder raw) \<noteq> ''''"
    if "find sv_Holder want = None" "lapsed = Some l" "sv_Initiator l \<noteq> ''''" "exportedMappings cfg b (sv_Initiator l) \<noteq> 0"
    using assms that by (cases "ReadAttr fs (pr_attr b ''res_holder'')")
      (auto simp: check_live_def p Let_def reportLapsedHolder_def split: if_splits)
qed

text \<open>A quiet check read the records, and either nothing saved is in force any more or it read the live state and found it.\<close>

lemma verify_silent:
  assumes "verifyBackstoreAPTPL fs records cfg b = []"
  obtains recs want lapsed where "records b = Inr recs" "sort_records cfg b 0 recs = (want, lapsed, [])"
    "want = [] \<and> (case lapsed of None \<Rightarrow> True | Some l \<Rightarrow> sv_Initiator l = '''')
     \<or> (\<exists>live. ReadAttr fs (pr_attr b ''res_pr_registered_i_pts'') = Inr live \<and> check_live fs cfg b want lapsed live = [])"
proof -
  obtain recs where r: "records b = Inr recs" using assms by (auto simp: verifyBackstoreAPTPL_def split: sum.splits)
  obtain want lapsed out where s: "sort_records cfg b 0 recs = (want, lapsed, out)" by (cases "sort_records cfg b 0 recs")
  have "out = []" "want = [] \<and> (case lapsed of None \<Rightarrow> True | Some l \<Rightarrow> sv_Initiator l = '''')
     \<or> (\<exists>live. ReadAttr fs (pr_attr b ''res_pr_registered_i_pts'') = Inr live \<and> check_live fs cfg b want lapsed live = [])"
    using assms by (auto simp: verifyBackstoreAPTPL_def r s split: if_splits sum.splits)
  then show thesis using that r s by blast
qed

section \<open>Properties\<close>

text \<open>C17. A quiet check means that the saved reservations are in force. When verifyAPTPL says nothing about a
  backstore of a valid configuration, its saved records were all read and understood; every saved
  registration whose export still exists is live with its key, by identity and not by count; a saved
  holder that is still exported is the live holder; and when the saved holders are all detached while
  other initiators can reach the unit, somebody holds a reservation on it now.\<close>

theorem silence_means_in_force:
  assumes "verifyBackstoreAPTPL fs records cfg b = []" and "Validate cfg = None"
  shows "\<exists>recs. records b = Inr recs
    \<and> (\<forall>rec \<in> set recs. trimSpace rec \<noteq> '''' \<longrightarrow> ok (parseAPTPLRecord rec))
    \<and> (\<forall>r \<in> saved_records recs. record_exported r cfg b \<longrightarrow> (\<exists>live. ReadAttr fs (pr_attr b ''res_pr_registered_i_pts'') = Inr live
         \<and> \<lparr>rg_Initiator = sv_Initiator r, rg_Key = sv_Key r\<rparr> \<in> set (fst (parseRegistrations live))))
    \<and> ((\<exists>r \<in> saved_records recs. sv_Holder r \<and> record_exported r cfg b) \<longrightarrow>
         (\<exists>raw. ReadAttr fs (pr_attr b ''res_holder'') = Inr raw
           \<and> (\<exists>r \<in> saved_records recs. sv_Holder r \<and> record_exported r cfg b \<and> fst (parseHolder raw) = sv_Initiator r)))
    \<and> ((\<exists>r \<in> saved_records recs. sv_Holder r) \<and> (\<forall>r \<in> saved_records recs. sv_Holder r \<longrightarrow>
           \<not> record_exported r cfg b \<and> sv_Initiator r \<noteq> '''' \<and> exportedMappings cfg b (sv_Initiator r) \<noteq> 0) \<longrightarrow>
         (\<exists>raw. ReadAttr fs (pr_attr b ''res_holder'') = Inr raw \<and> fst (parseHolder raw) \<noteq> ''''))"
proof -
  obtain recs want lapsed where r: "records b = Inr recs" and s: "sort_records cfg b 0 recs = (want, lapsed, [])"
    and v: "want = [] \<and> (case lapsed of None \<Rightarrow> True | Some l \<Rightarrow> sv_Initiator l = '''')
     \<or> (\<exists>live. ReadAttr fs (pr_attr b ''res_pr_registered_i_pts'') = Inr live \<and> check_live fs cfg b want lapsed live = [])"
    by (rule verify_silent [OF assms(1)])
  from sort_records_spec [OF s]
  have w: "set want = {r \<in> saved_records recs. record_exported r cfg b}"
    and p: "\<forall>rec \<in> set recs. trimSpace rec \<noteq> '''' \<longrightarrow> ok (parseAPTPLRecord rec)"
    and ln: "lapsed = None \<longleftrightarrow> (\<forall>r \<in> saved_records recs. sv_Holder r \<longrightarrow> record_exported r cfg b)"
    and ls: "\<And>l. lapsed = Some l \<Longrightarrow> l \<in> saved_records recs \<and> sv_Holder l \<and> \<not> record_exported l cfg b" by auto
  have a: "\<exists>live. ReadAttr fs (pr_attr b ''res_pr_registered_i_pts'') = Inr live \<and> live_reg x \<in> set (fst (parseRegistrations live))"
    if "x \<in> set want" for x using v that check_live_silent(2) by fastforce
  have h: "\<exists>raw. ReadAttr fs (pr_attr b ''res_holder'') = Inr raw \<and> (\<exists>x \<in> set want. sv_Holder x \<and> fst (parseHolder raw) = sv_Initiator x)"
    if x: "\<exists>x \<in> set want. sv_Holder x"
  proof -
    obtain y where y: "find sv_Holder want = Some y" using x by (cases "find sv_Holder want") (auto simp: find_None_iff)
    then have "y \<in> set want" "sv_Holder y" by (auto simp: find_Some_iff)
    moreover have "sv_Initiator y \<noteq> ''''" using \<open>y \<in> set want\<close> w exported_initiator assms(2) by blast
    moreover have "want \<noteq> []" using x by auto
    ultimately show ?thesis using v check_live_silent(3) [OF _ y] by blast
  qed
  have l: "\<exists>raw. ReadAttr fs (pr_attr b ''res_holder'') = Inr raw \<and> fst (parseHolder raw) \<noteq> ''''"
    if e: "\<exists>r \<in> saved_records recs. sv_Holder r" and all: "\<forall>r \<in> saved_records recs. sv_Holder r \<longrightarrow>
        \<not> record_exported r cfg b \<and> sv_Initiator r \<noteq> '''' \<and> exportedMappings cfg b (sv_Initiator r) \<noteq> 0"
  proof -
    obtain y where y: "lapsed = Some y" using e all ln by fastforce
    have "find sv_Holder want = None" using w all by (auto simp: find_None_iff)
    then show ?thesis using v y ls [OF y] all check_live_silent(4) [OF _ _ y] by auto
  qed
  show ?thesis using r p a h l unfolding w live_reg_def by blast
qed

definition demo_saved :: string where
  "demo_saved = ''initiator_node=iqn.h,target_node=iqn.t,tpgt=1,mapped_lun=5,target_lun=0,sa_res_key=43690,res_holder=1''"

abbreviation demo_record :: aptplRecord where
  "demo_record \<equiv> \<lparr>sv_Initiator = ''iqn.h'', sv_Target = ''iqn.t'', sv_TPGT = 1, sv_MappedLUN = 5, sv_TargetLUN = 0,
     sv_Key = 43690, sv_Holder = True, sv_ResType = 0\<rparr>"

abbreviation demo_cfg :: Config where
  "demo_cfg \<equiv> example_config 1024 [\<lparr>ml_Index = 5, ml_TPGLUN = 0, ml_WriteProtect = False\<rparr>]"

lemma demo_saved_parses: "parseAPTPLRecord demo_saved = Inr demo_record" "trimSpace demo_saved \<noteq> ''''"
  by (simp_all add: demo_saved_def parseAPTPLRecord_def no_record_def set_field_def required_fields_def trimSpace_word graphic_def go_eval)

lemma demo_record_exported: "record_exported demo_record demo_cfg demo_bs"
  by (simp add: record_exported_def example_config_def demo_bs_def)

lemma silence_means_in_force_witness:
  "\<exists>live. ReadAttr (demo_view (registrations_text 4096 [demo_reg]) (holder_text ''iqn.h'' '''')) (pr_attr demo_bs ''res_pr_registered_i_pts'') = Inr live
     \<and> \<lparr>rg_Initiator = ''iqn.h'', rg_Key = 43690\<rparr> \<in> set (fst (parseRegistrations live))"
proof -
  let ?fs = "demo_view (registrations_text 4096 [demo_reg]) (holder_text ''iqn.h'' '''')"
  have n: "registrations_text 4096 [demo_reg] = reg_heading @ [newline] @ concat (map (\<lambda>l. l @ [newline]) [reg_body demo_reg])"
    by (simp add: registrations_text_def reg_body_def reg_heading_def isid_suffix_def demo_reg_def)
  have p: "parseRegistrations (trimSuffix [newline] (registrations_text 4096 [demo_reg])) = ([seen_reg demo_reg], 0)"
    unfolding n using demo_reg_ok reg_body_shape(5) [OF demo_reg_ok]
    by (subst parse_lines) (simp_all add: heading_skipped parse_reg_body reg_heading_def [symmetric] Let_def, simp add: reg_heading_def)
  have h: "parseHolder (trimSuffix [newline] (holder_text ''iqn.h'' '''')) = (''iqn.h'', '''', True)"
    using parseHolder_text [of "''iqn.h''" None]
    by (simp add: isid_suffix_def node_name_def graphic_def trimSuffix_def holder_text_def)
  have q: "live_reg demo_record = seen_reg demo_reg" by (simp add: live_reg_def seen_reg_def demo_reg_def)
  have s: "sort_records demo_cfg demo_bs 0 [demo_saved] = ([demo_record], None, [])"
    using demo_saved_parses demo_record_exported by simp
  have "verifyBackstoreAPTPL ?fs (\<lambda>_. Inr [demo_saved]) demo_cfg demo_bs = []"
    unfolding verifyBackstoreAPTPL_def sum.case s prod.case demo_attr check_live_def p by (simp add: demo_attr h q)
  from silence_means_in_force [OF this example_valid(2)] demo_record_exported demo_saved_parses
  show ?thesis by (fastforce simp: saved_records_def saved_one_def)
qed

end
