(* ===== verification/Lio_Stranded.thy ===== *)
theory Lio_Stranded
  imports Lio_Reservation Lio_Validate "HOL-Library.List_Lexorder" "HOL-Library.Char_ord"
begin

text \<open>
  Stranded reservations (lio/stranded.go): reservations whose holder is logged in with another session
  than the one its registration demands. The kernel renders one session for each ACL, so the check
  first counts the sessions and leaves undecided what it cannot see.
\<close>

record UndecidedStrand =
  us_TargetIQN :: string
  us_LiveSessions :: int
  us_VisibleSessions :: int
  us_Backstores :: "string list"

record StrandedReservation =
  sr_Backstore :: string
  sr_Initiator :: string
  sr_WantISID :: string
  sr_LiveISID :: string
  sr_ResType :: string

record StrandReport =
  st_Stranded :: "StrandedReservation list"
  st_Undecided :: "UndecidedStrand list"

definition resTypeText :: "StrandedReservation \<Rightarrow> string" where
  "resTypeText s = (if sr_ResType s = '''' then ''could not be read'' else sr_ResType s)"

text \<open>The session that an ACL shows, when its info file is readable and shows one.\<close>

definition shown_session :: "view \<Rightarrow> string \<Rightarrow> int \<Rightarrow> string \<Rightarrow> string option" where
  "shown_session fs iqn tag initiator = (case ReadAttr fs (aclPath iqn tag initiator @ [''info'']) of
     Inl e \<Rightarrow> None
   | Inr raw \<Rightarrow> (case ParseSessionISID raw of Inl e \<Rightarrow> None | Inr got \<Rightarrow> Some got))"

definition liveSessionCount :: "view \<Rightarrow> string \<Rightarrow> cause + int" where
  "liveSessionCount fs iqn = (case ReadAttr fs (targetPath iqn @ [''fabric_statistics'', ''iscsi_instance'', ''sessions'']) of
     Inl e \<Rightarrow> Inl e
   | Inr raw \<Rightarrow> (case atoi_go (trimSpace (removeChar nul raw)) of
       None \<Rightarrow> Inl (Msg ''session count for %s is %q, which is not a number'' [iqn, trimSpace raw])
     | Some n \<Rightarrow> Inr n))"

definition visible_sessions :: "view \<Rightarrow> Target \<Rightarrow> nat" where
  "visible_sessions fs t = sum_list (map (\<lambda>g. case ReadDir fs (tpgPath (tgt_IQN t) (tpg_Tag g) @ [''acls'']) of
     Inl e \<Rightarrow> 0
   | Inr names \<Rightarrow> length (filter (\<lambda>n. shown_session fs (tgt_IQN t) (tpg_Tag g) n \<noteq> None) names)) (tgt_TPGs t))"

text \<open>\<open>blindness\<close>: the live and the visible count.\<close>

type_synonym blindness = "int \<times> int"

definition target_blindness :: "view \<Rightarrow> Target \<Rightarrow> blindness option" where
  "target_blindness fs t = (let visible = int (visible_sessions fs t) in
     case liveSessionCount fs (tgt_IQN t) of
       Inl e \<Rightarrow> Some (- 1, visible)
     | Inr live \<Rightarrow> if live > visible then Some (live, visible) else None)"

fun blind_from :: "view \<Rightarrow> Target list \<Rightarrow> (string \<rightharpoonup> blindness) \<Rightarrow> (string \<rightharpoonup> blindness)" where
  "blind_from fs [] out = out"
| "blind_from fs (t # ts) out = blind_from fs ts (case target_blindness fs t of None \<Rightarrow> out | Some b \<Rightarrow> out(tgt_IQN t \<mapsto> b))"

definition blindTargets :: "view \<Rightarrow> Config \<Rightarrow> (string \<rightharpoonup> blindness)" where
  "blindTargets fs cfg = blind_from fs (cfg_Targets cfg) Map.empty"

definition blindTargetFor :: "view \<Rightarrow> Config \<Rightarrow> string \<Rightarrow> (string \<rightharpoonup> blindness) \<Rightarrow> string" where
  "blindTargetFor fs cfg initiator blind =
    (case find (\<lambda>t. blind (tgt_IQN t) \<noteq> None
        \<and> list_ex (\<lambda>g. shown_session fs (tgt_IQN t) (tpg_Tag g) initiator \<noteq> None) (tgt_TPGs t)) (cfg_Targets cfg) of
       None \<Rightarrow> '''' | Some t \<Rightarrow> tgt_IQN t)"

definition liveISIDs :: "view \<Rightarrow> Config \<Rightarrow> string \<Rightarrow> string list" where
  "liveISIDs fs cfg initiator = sort (keys_once (concat (map (\<lambda>t. List.map_filter
     (\<lambda>g. shown_session fs (tgt_IQN t) (tpg_Tag g) initiator) (tgt_TPGs t)) (cfg_Targets cfg))))"

text \<open>The body of the loop over the backstores: nothing to say, undecided because of a target, or stranded.\<close>

datatype strand = Fine | UndecidedBy string | Strand StrandedReservation

definition backstore_label :: "Backstore \<Rightarrow> string" where
  "backstore_label b = ''backstore/'' @ bs_Type b @ ''/'' @ bs_Name b"

definition strand_of :: "view \<Rightarrow> Config \<Rightarrow> (string \<rightharpoonup> blindness) \<Rightarrow> Backstore \<Rightarrow> strand" where
  "strand_of fs cfg blind b = (case ReservationHolder fs b of
     Inl e \<Rightarrow> Fine
   | Inr res \<Rightarrow>
      if rv_Holder res = '''' \<or> rv_ISID res = '''' then Fine
      else if rv_SPC2 res then Fine
      else if AllRegistrants res then Fine
      else (let live = liveISIDs fs cfg (rv_Holder res) in
        if live = [] \<or> rv_ISID res \<in> set live then Fine
        else (let t = blindTargetFor fs cfg (rv_Holder res) blind in
          if t \<noteq> '''' then UndecidedBy t
          else Strand \<lparr>sr_Backstore = backstore_label b, sr_Initiator = rv_Holder res, sr_WantISID = rv_ISID res,
            sr_LiveISID = joinStr '', '' live, sr_ResType = rv_Type res\<rparr>)))"

text \<open>
  The report: the undecided backstores are collected by target, sorted within each, and the entries
  are sorted by target. A target occurs as a key of the collection only when it is blind.
\<close>

definition StrandedReservations :: "view \<Rightarrow> Config \<Rightarrow> StrandReport" where
  "StrandedReservations fs cfg = (let blind = blindTargets fs cfg;
      verdicts = map (\<lambda>b. (b, strand_of fs cfg blind b)) (cfg_Backstores cfg);
      undecided = (\<lambda>t. map (\<lambda>(b, v). backstore_label b) (filter (\<lambda>(b, v). v = UndecidedBy t) verdicts));
      keys = sort (keys_once (concat (map (\<lambda>(b, v). case v of UndecidedBy t \<Rightarrow> [t] | _ \<Rightarrow> []) verdicts)))
    in \<lparr>st_Stranded = concat (map (\<lambda>(b, v). case v of Strand r \<Rightarrow> [r] | _ \<Rightarrow> []) verdicts),
        st_Undecided = map (\<lambda>t. \<lparr>us_TargetIQN = t,
          us_LiveSessions = (case blind t of Some (l, _) \<Rightarrow> l | None \<Rightarrow> 0),
          us_VisibleSessions = (case blind t of Some (_, v) \<Rightarrow> v | None \<Rightarrow> 0),
          us_Backstores = sort (undecided t)\<rparr>) keys\<rparr>)"

section \<open>Where the check is blind\<close>

lemma blind_from_other: "q \<notin> tgt_IQN ` set ts \<Longrightarrow> blind_from fs ts out q = out q"
  by (induction ts arbitrary: out) (auto split: option.splits)

lemma blind_from_in:
  "distinct (map tgt_IQN ts) \<Longrightarrow> t \<in> set ts \<Longrightarrow> out (tgt_IQN t) = None \<Longrightarrow> blind_from fs ts out (tgt_IQN t) = target_blindness fs t"
proof (induction ts arbitrary: out)
  case (Cons u ts)
  show ?case
  proof (cases "t \<in> set ts")
    case True
    then have "tgt_IQN u \<noteq> tgt_IQN t" using Cons.prems(1) by auto
    then show ?thesis using Cons True by (simp split: option.splits)
  next
    case False
    then show ?thesis using Cons.prems blind_from_other [of "tgt_IQN t" ts fs] by (auto split: option.splits)
  qed
qed simp

text \<open>A target without blindness shows all its sessions: the live count was read and is at most the visible one.\<close>

lemma not_blind:
  assumes "target_blindness fs t = None"
  shows "\<exists>n. liveSessionCount fs (tgt_IQN t) = Inr n \<and> n \<le> int (visible_sessions fs t)"
  using assms by (auto simp: target_blindness_def Let_def split: sum.splits if_splits)

lemma strand_of_Strand:
  assumes "strand_of fs cfg blind b = Strand r"
  obtains res where "ReservationHolder fs b = Inr res" "rv_Holder res \<noteq> ''''" "rv_ISID res \<noteq> ''''" "\<not> rv_SPC2 res" "\<not> AllRegistrants res"
    "liveISIDs fs cfg (rv_Holder res) \<noteq> []" "rv_ISID res \<notin> set (liveISIDs fs cfg (rv_Holder res))"
    "blindTargetFor fs cfg (rv_Holder res) blind = ''''"
    "r = \<lparr>sr_Backstore = backstore_label b, sr_Initiator = rv_Holder res, sr_WantISID = rv_ISID res,
       sr_LiveISID = joinStr '', '' (liveISIDs fs cfg (rv_Holder res)), sr_ResType = rv_Type res\<rparr>"
  using assms that by (auto simp: strand_of_def Let_def split: sum.splits if_splits)

lemma set_liveISIDs: "set (liveISIDs fs cfg h) = {i. \<exists>t \<in> set (cfg_Targets cfg). \<exists>g \<in> set (tgt_TPGs t).
    shown_session fs (tgt_IQN t) (tpg_Tag g) h = Some i}"
  by (auto simp: liveISIDs_def set_map_filter)

text \<open>
  The kernel as documented: \<open>S\<close> gives the sessions of each ACL. An ACL with sessions shows one of them and
  one without shows none; the directory lists the ACLs; the published count is at least the number of
  the sessions of the ACLs listed.
\<close>

definition tpg_names :: "view \<Rightarrow> Target \<Rightarrow> TPG \<Rightarrow> string list" where
  "tpg_names fs t g = (case ReadDir fs (tpgPath (tgt_IQN t) (tpg_Tag g) @ [''acls'']) of Inl e \<Rightarrow> [] | Inr names \<Rightarrow> names)"

definition sessions_of :: "view \<Rightarrow> (string \<Rightarrow> int \<Rightarrow> string \<Rightarrow> string list) \<Rightarrow> Target \<Rightarrow> nat" where
  "sessions_of fs S t = sum_list (map (\<lambda>g. sum_list (map (\<lambda>n. length (S (tgt_IQN t) (tpg_Tag g) n)) (tpg_names fs t g))) (tgt_TPGs t))"

definition kernel_shows :: "view \<Rightarrow> Config \<Rightarrow> (string \<Rightarrow> int \<Rightarrow> string \<Rightarrow> string list) \<Rightarrow> bool" where
  "kernel_shows fs cfg S \<longleftrightarrow> (\<forall>t \<in> set (cfg_Targets cfg).
     (\<forall>n. liveSessionCount fs (tgt_IQN t) = Inr n \<longrightarrow> int (sessions_of fs S t) \<le> n)
     \<and> (\<forall>g \<in> set (tgt_TPGs t). \<forall>a. (case shown_session fs (tgt_IQN t) (tpg_Tag g) a of
           None \<Rightarrow> S (tgt_IQN t) (tpg_Tag g) a = []
         | Some i \<Rightarrow> i \<in> set (S (tgt_IQN t) (tpg_Tag g) a) \<and> a \<in> set (tpg_names fs t g))))"

lemma visible_sum: "visible_sessions fs t = sum_list (map (\<lambda>g. sum_list (map (\<lambda>n.
    if shown_session fs (tgt_IQN t) (tpg_Tag g) n \<noteq> None then 1 else 0) (tpg_names fs t g))) (tgt_TPGs t))"
  unfolding visible_sessions_def tpg_names_def
  by (intro arg_cong [of _ _ sum_list] map_cong) (auto simp: length_filter_sum split: sum.splits)

text \<open>An ACL with two sessions makes its target blind: fewer sessions are shown than there are.\<close>

lemma two_sessions_blind:
  assumes k: "kernel_shows fs cfg S" and t: "t \<in> set (cfg_Targets cfg)" and g: "g \<in> set (tgt_TPGs t)"
    and i: "shown_session fs (tgt_IQN t) (tpg_Tag g) h = Some i" and w: "w \<in> set (S (tgt_IQN t) (tpg_Tag g) h)" "w \<noteq> i"
  shows "target_blindness fs t \<noteq> None"
proof
  assume "target_blindness fs t = None"
  then obtain n where n: "liveSessionCount fs (tgt_IQN t) = Inr n" "n \<le> int (visible_sessions fs t)" using not_blind by blast
  let ?c = "\<lambda>g n. if shown_session fs (tgt_IQN t) (tpg_Tag g) n \<noteq> None then 1 else 0 :: nat"
  let ?s = "\<lambda>g n. length (S (tgt_IQN t) (tpg_Tag g) n)"
  have sh: "case shown_session fs (tgt_IQN t) (tpg_Tag g') a of None \<Rightarrow> S (tgt_IQN t) (tpg_Tag g') a = []
      | Some i \<Rightarrow> i \<in> set (S (tgt_IQN t) (tpg_Tag g') a) \<and> a \<in> set (tpg_names fs t g')" if "g' \<in> set (tgt_TPGs t)" for g' a
    using k t that by (simp add: kernel_shows_def)
  have le: "?c g' a \<le> ?s g' a" if "g' \<in> set (tgt_TPGs t)" for g' a
    using sh [OF that, of a] by (auto split: option.splits simp: Suc_le_eq)
  have h: "h \<in> set (tpg_names fs t g)" "i \<in> set (S (tgt_IQN t) (tpg_Tag g) h)" using sh [OF g, of h] i by simp_all
  have "card {w, i} \<le> card (set (S (tgt_IQN t) (tpg_Tag g) h))" using w h(2) by (intro card_mono) auto
  then have "2 \<le> ?s g h" using w(2) card_length [of "S (tgt_IQN t) (tpg_Tag g) h"] by simp
  then have lt: "?c g h < ?s g h" using i by simp
  have "sum_list (map (?c g) (tpg_names fs t g)) < sum_list (map (?s g) (tpg_names fs t g))"
    by (rule sum_list_less [where y = h]) (use le g h(1) lt in blast)+
  moreover have "sum_list (map (?c g') (tpg_names fs t g')) \<le> sum_list (map (?s g') (tpg_names fs t g'))" if "g' \<in> set (tgt_TPGs t)" for g'
    using le that by (intro sum_list_mono) blast
  ultimately have "visible_sessions fs t < sessions_of fs S t"
    unfolding visible_sum sessions_of_def by (intro sum_list_less [where y = g] ballI) (use g in blast)+
  moreover have "int (sessions_of fs S t) \<le> n" using k t n(1) by (auto simp: kernel_shows_def)
  ultimately show False using n(2) by simp
qed

lemma blindTargetFor_None:
  assumes "blindTargetFor fs cfg h (blindTargets fs cfg) = ''''" and "Validate cfg = None"
    and "t \<in> set (cfg_Targets cfg)" and "g \<in> set (tgt_TPGs t)" and "shown_session fs (tgt_IQN t) (tpg_Tag g) h \<noteq> None"
  shows "target_blindness fs t = None"
proof -
  have v: "distinct (map tgt_IQN (cfg_Targets cfg))" "\<forall>t \<in> set (cfg_Targets cfg). tgt_IQN t \<noteq> ''''"
    using assms(2) unfolding Validate_ok_iff by (auto simp: valid_config_def valid_target_def ValidTargetIQN_def validIQNSeg_def)
  let ?P = "\<lambda>t. blindTargets fs cfg (tgt_IQN t) \<noteq> None \<and> list_ex (\<lambda>g. shown_session fs (tgt_IQN t) (tpg_Tag g) h \<noteq> None) (tgt_TPGs t)"
  have "find ?P (cfg_Targets cfg) = None"
  proof (cases "find ?P (cfg_Targets cfg)")
    case (Some u)
    then have "u \<in> set (cfg_Targets cfg)" using find_Some_in by fast
    then show ?thesis using assms(1) v(2) Some by (simp add: blindTargetFor_def)
  qed
  then have "\<not> ?P t" using assms(3) unfolding find_None_iff by blast
  then have "blindTargets fs cfg (tgt_IQN t) = None" using assms(4,5) unfolding list_ex_iff by blast
  then show ?thesis using blind_from_in [OF v(1) assms(3)] by (simp add: blindTargets_def)
qed

lemma holder_isid:
  assumes "ReservationHolder fs b = Inr res" and "rv_ISID res \<noteq> ''''"
  shows "isidRE (rv_ISID res)"
proof (cases "ReadAttr fs (pr_attr b ''res_holder'')")
  case (Inr raw)
  obtain h i k where p: "parseHolder raw = (h, i, k)" by (cases "parseHolder raw")
  have "rv_ISID res = i" using assms(1) by (auto simp: ReservationHolder_def Inr p Let_def split: if_splits sum.splits)
  then show ?thesis using holder_isid_valid [OF p] assms(2) by simp
qed (use assms(1) in \<open>simp add: ReservationHolder_def\<close>)

lemma st_Stranded_iff: "r \<in> set (st_Stranded (StrandedReservations fs cfg)) \<longleftrightarrow>
    (\<exists>b \<in> set (cfg_Backstores cfg). strand_of fs cfg (blindTargets fs cfg) b = Strand r)"
  by (auto simp: StrandedReservations_def Let_def split: strand.splits) metis

lemma st_Undecided_in:
  assumes "b \<in> set (cfg_Backstores cfg)" and "strand_of fs cfg (blindTargets fs cfg) b = UndecidedBy t"
  shows "\<exists>u \<in> set (st_Undecided (StrandedReservations fs cfg)). us_TargetIQN u = t \<and> backstore_label b \<in> set (us_Backstores u)"
  using assms by (force simp: StrandedReservations_def Let_def)

section \<open>Properties\<close>


text \<open>A rotated session: the registration demands session 4 and the initiator is logged in with session 5.\<close>

definition rotated_view :: view where
  "rotated_view = empty_view\<lparr>v_file := (\<lambda>p. if last p = ''res_holder'' then Inr (holder_text ''iqn.h'' (isid_suffix (Some ''00023d000004'')))
     else if p = aclPath ''iqn.t'' 1 ''iqn.h'' @ [''info''] then Inr ''ISID: 0x00 02 3d 00 00 05  TSIH: 1''
     else if last p = ''sessions'' then Inr ''1'' else Inl ENOENT), v_dir := (\<lambda>p. Inr [(''iqn.h'', Dir)])\<rparr>"

abbreviation rotated_sessions :: "string \<Rightarrow> int \<Rightarrow> string \<Rightarrow> string list" where
  "rotated_sessions \<equiv> \<lambda>q tag a. if a = ''iqn.h'' then [''00023d000005''] else []"

lemma acl_path_demo: "aclPath ''iqn.t'' 1 a = [''iscsi'', ''iqn.t'', ''tpgt_1'', ''acls'', a]"
  by (simp add: aclPath_def tpgPath_def itoa_def utoa.simps digit_char_def char_of_nat_bits bit_0)

lemma rotated_shown: "shown_session rotated_view ''iqn.t'' 1 a = (if a = ''iqn.h'' then Some ''00023d000005'' else None)"
proof (cases "a = ''iqn.h''")
  case True
  have "ParseSessionISID ''ISID: 0x00 02 3d 00 00 05  TSIH: 1'' = Inr ''00023d000005''"
    by (simp add: ParseSessionISID_def isid_here_def re_space_def re_hex_def isidRE_def isHexDigit_def removeChar_def toLower_def lower_char_def)
  then show ?thesis using True
    by (simp add: shown_session_def ReadAttr_def rotated_view_def acl_path_demo validSeg_def trimSuffix_def)
next
  case False
  then show ?thesis by (auto simp: shown_session_def ReadAttr_def rotated_view_def acl_path_demo split: option.splits)
qed

lemma rotated_kernel: "kernel_shows rotated_view (example_config 1 []) rotated_sessions"
proof -
  have c: "liveSessionCount rotated_view ''iqn.t'' = Inr 1"
    by (simp add: liveSessionCount_def ReadAttr_def rotated_view_def targetPath_def validSeg_def aclPath_def tpgPath_def go_eval)
  show ?thesis
    by (simp add: kernel_shows_def example_config_def c rotated_shown sessions_of_def tpg_names_def ReadDir_def read_entries_def rotated_view_def [THEN arg_cong [of _ _ v_dir]]
        tpgPath_def validSeg_def itoa_def utoa.simps digit_char_def char_of_nat_bits)
qed


end
