(* ===== verification/Lio_Report.thy ===== *)
theory Lio_Report
  imports Lio_Delta Lio_Saved Lio_Stranded
begin

text \<open>
  What the engine of package \<open>lio\<close> reports (config.go, backstore.go, delta.go): the changes it made, the
  attributes that drifted, and the saved reservations that are not in force. A warning about a saved
  reservation is kept as its facts.
\<close>

record AttrDrift =
  ad_Backstore :: string
  ad_Type :: BackstoreType
  ad_Attr :: string
  ad_Live :: string
  ad_Desired :: string
  ad_Err :: "cause option"

record Report =
  rep_Changes :: "string list"
  rep_Drift :: "AttrDrift list"
  rep_APTPLUnbound :: "(Backstore \<times> aptpl_warning) list"

text \<open>What a reconcile fails with: an error of the library, or the refusal of a delta whose tree is gone.\<close>

datatype engine_error = StaleScope | EngineFailed Error

end
