(* ===== verification/Appliance_Core.thy ===== *)
theory Appliance_Core
  imports Appliance_Model Storage Lio_Report
begin

text \<open>
  The coordinator (appliance/appliance.go, translate.go, backup.go): its state, the translation of the
  database into a desired configuration, the reconcile of the kernel with it, and the two ways in which
  a mutation is committed. A method is a function from the coordinator to its result and the coordinator
  afterwards. The lock held by every method makes the calls sequential. The reconcile engine of package
  \<open>lio\<close>, which works on the kernel, is an argument, a record of functions over the state of the kernel;
  so is the order in which a Go map is iterated. Log events are not modelled, and of an error message
  only what a caller can branch on.
\<close>

section \<open>Errors (errcode.go, ops.go)\<close>

abbreviation StatusBadRequest :: int where "StatusBadRequest \<equiv> 400"
abbreviation StatusNotFound :: int where "StatusNotFound \<equiv> 404"
abbreviation StatusConflict :: int where "StatusConflict \<equiv> 409"
abbreviation StatusServiceUnavailable :: int where "StatusServiceUnavailable \<equiv> 503"

abbreviation CodeNotFound :: string where "CodeNotFound \<equiv> ''not_found''"
abbreviation CodeAlreadyExists :: string where "CodeAlreadyExists \<equiv> ''already_exists''"
abbreviation CodeConfigurationMismatch :: string where "CodeConfigurationMismatch \<equiv> ''configuration_mismatch''"
abbreviation CodeResourceConnected :: string where "CodeResourceConnected \<equiv> ''resource_connected''"
abbreviation CodeLUNConflict :: string where "CodeLUNConflict \<equiv> ''lun_conflict''"
abbreviation CodeInvalidInput :: string where "CodeInvalidInput \<equiv> ''invalid_input''"
abbreviation CodeUnsupportedState :: string where "CodeUnsupportedState \<equiv> ''unsupported_state''"
abbreviation CodeReconcileFailed :: string where "CodeReconcileFailed \<equiv> ''reconcile_failed''"
abbreviation CodeInternal :: string where "CodeInternal \<equiv> ''internal''"
abbreviation CodeNameTaken :: string where "CodeNameTaken \<equiv> ''name_taken''"
abbreviation CodeLUNRequired :: string where "CodeLUNRequired \<equiv> ''lun_required''"
abbreviation CodeClearUnverified :: string where "CodeClearUnverified \<equiv> ''clear_unverified''"
abbreviation CodeFenceDropped :: string where "CodeFenceDropped \<equiv> ''fence_dropped''"
abbreviation CodeFenceUnknown :: string where "CodeFenceUnknown \<equiv> ''fence_unknown''"

text \<open>
  What a method can fail with. \<open>StatusError\<close> carries the HTTP status and the explicit reason, empty when
  there is none. A panic (a nil dereference or a division by zero) ends the method where it happens,
  with the state as it then is.
\<close>

datatype op_error = StatusError int string | InvalidLIO Error | EngineError engine_error
  | NoDBPath | PersistFailed errno | PersistedNotDurable errno
  | RandFailed | StoreFailed store_error | Panicked

definition codeForStatus :: "int \<Rightarrow> string" where
  "codeForStatus status =
    (if status = StatusNotFound then CodeNotFound
     else if status = StatusBadRequest then CodeInvalidInput
     else if status = StatusConflict then CodeUnsupportedState
     else if status = StatusServiceUnavailable then CodeReconcileFailed
     else CodeInternal)"

fun ErrorCode :: "op_error \<Rightarrow> string" where
  "ErrorCode (StatusError status reason) = (if reason \<noteq> '''' then reason else codeForStatus status)"
| "ErrorCode _ = CodeInternal"

definition notFound :: op_error where "notFound = StatusError StatusNotFound CodeNotFound"
definition nameTaken :: op_error where "nameTaken = StatusError StatusConflict CodeNameTaken"

definition checkName :: "string \<Rightarrow> op_error option" where
  "checkName name = (case validName name of
     Some e \<Rightarrow> Some (StatusError StatusBadRequest CodeInvalidInput) | None \<Rightarrow> None)"

section \<open>What the engine reports (package lio)\<close>

text \<open>The two lists a strand report gives; each entry is kept as its facts.\<close>

definition strandedText :: "StrandReport \<Rightarrow> StrandedReservation list \<times> UndecidedStrand list" where
  [simp]: "strandedText rep = (st_Stranded rep, st_Undecided rep)"

text \<open>
  The engine and the runtime as the coordinator sees them, over a state \<open>'k\<close> of the kernel:
  \<open>Sync\<close>, \<open>ApplyDelta\<close> and the read-only checks of \<open>lio.Manager\<close>, and the order of a map iteration.
\<close>

record 'k env =
  e_range :: "'k \<Rightarrow> string list \<Rightarrow> string list"
  e_Sync :: "Config \<Rightarrow> 'k \<Rightarrow> (Report \<times> engine_error option) \<times> 'k"
  e_ApplyDelta :: "Config \<Rightarrow> Delta \<Rightarrow> 'k \<Rightarrow> (Report \<times> engine_error option) \<times> 'k"
  e_VerifyAPTPL :: "Config \<Rightarrow> 'k \<Rightarrow> (Backstore \<times> aptpl_warning) list"
  e_StrandedReservations :: "Config \<Rightarrow> 'k \<Rightarrow> StrandReport"
  e_VerifyDrift :: "Config \<Rightarrow> 'k \<Rightarrow> AttrDrift list"
  e_ReservationHolder :: "Backstore \<Rightarrow> 'k \<Rightarrow> Error + Reservation"
  e_PRState :: "Backstore \<Rightarrow> 'k \<Rightarrow> Error + PRState"
  e_Discover :: "'k \<Rightarrow> Error + Config"

section \<open>The coordinator\<close>

datatype dbfile = NoFile | Undecodable | Stored db

record health =
  hl_healthErr :: "op_error option"
  hl_prUnbound :: "(Backstore \<times> aptpl_warning) list"
  hl_prStranded :: "StrandedReservation list"
  hl_prStrandUndecided :: "UndecidedStrand list"
  hl_drift :: "AttrDrift list"
  hl_withheldNames :: "(string \<times> string) list"
  hl_clearing :: string
  hl_backupErr :: "errno option"
  hl_portalFlagIgnored :: bool
  hl_iqnFlagIgnored :: bool
  hl_prCheckedAt :: int

text \<open>
  The fields of \<open>Coordinator\<close>, and what its methods reach: the database file with its backups, the saved
  reservation files, the store, the operating system and the kernel.
\<close>

record 'k coord =
  c_cfg :: ApplianceConfig
  c_dbPath :: string
  c_st :: db
  c_applied :: "Config option"
  c_withheld :: "(string \<times> string) list"
  c_prClearing :: string
  c_lastReconcileErr :: "op_error option"
  c_health :: health
  c_store :: Store
  c_disk :: dbfile
  c_backups :: "(string \<times> dbfile) list"
  c_prfiles :: "string list"
  c_os :: os
  c_kern :: 'k

definition with_health :: "(health \<Rightarrow> health) \<Rightarrow> 'k coord \<Rightarrow> 'k coord" where
  "with_health f c = c\<lparr>c_health := f (c_health c)\<rparr>"

text \<open>The next system call of the coordinator itself.\<close>

definition c_syscall :: "'k coord \<Rightarrow> errno option \<times> 'k coord" where
  "c_syscall c = (case syscall (c_os c) of (f, w) \<Rightarrow> (f, c\<lparr>c_os := w\<rparr>))"

text \<open>The effective portal list.\<close>

definition portals :: "'k coord \<Rightarrow> Portal list" where
  "portals c = (if db_Portals (c_st c) = [] then ac_Portals (c_cfg c) else db_Portals (c_st c))"

section \<open>The desired configuration (translate.go)\<close>

definition boolAttr :: "bool \<Rightarrow> string" where
  "boolAttr b = (if b then ''1'' else ''0'')"

text \<open>
  The objects that are exported: connected and ready, without the one being cleared and the ones a
  failed clear left withheld.
\<close>

definition exported :: "'k coord \<Rightarrow> string list" where
  "exported c = filter (\<lambda>u. \<not> (c_prClearing c \<noteq> '''' \<and> u = c_prClearing c) \<and> u \<notin> fst ` set (c_withheld c))
     (keys_once (map cn_ObjectUUID (filter (\<lambda>cn. case object (c_st c) (cn_ObjectUUID cn) of
        None \<Rightarrow> False | Some x \<Rightarrow> ob_State x = stateReady) (db_Connections (c_st c)))))"

definition desired_backstore :: "'k coord \<Rightarrow> int \<Rightarrow> Object \<Rightarrow> Backstore" where
  "desired_backstore c idx v =
    \<lparr>bs_Type = FileIO, bs_HBA = idx, bs_Name = backstoreName (ob_UUID v), bs_Dev = DiskPath (c_store c) (ob_UUID v),
     bs_BufferedIO = ac_WriteBack (c_cfg c), bs_Size = ob_Capacity v - go_rem (ob_Capacity v) (ob_BlockSize v),
     bs_WWN = ob_WWN v, bs_VendorID = '''', bs_ProductID = '''', bs_Revision = '''',
     bs_Attributes = [(''block_size'', itoa (ob_BlockSize v)), (''optimal_sectors'', ''0''),
       (''emulate_write_cache'', boolAttr (ac_WriteBack (c_cfg c))),
       (''emulate_tpu'', boolAttr (\<not> ac_NoUnmap (c_cfg c))), (''emulate_tpws'', boolAttr (\<not> ac_NoUnmap (c_cfg c)))]\<rparr>"

text \<open>
  The loop over the exported objects. It allocates an export index where there is none, and panics on
  an object that is not recorded or whose block size is zero.
\<close>

fun desired_luns :: "'k coord \<Rightarrow> string list \<Rightarrow> (Backstore list \<times> LUN list) option \<times> 'k coord" where
  "desired_luns c [] = (Some ([], []), c)"
| "desired_luns c (vol # vols) = (case exportIndex (c_st c) vol of (idx, st1) \<Rightarrow>
    (let c1 = c\<lparr>c_st := st1\<rparr> in
     case object (c_st c) vol of
       None \<Rightarrow> (None, c1)
     | Some v \<Rightarrow> if ob_BlockSize v = 0 then (None, c1)
        else (case desired_luns c1 vols of
          (None, c2) \<Rightarrow> (None, c2)
        | (Some (bs, ls), c2) \<Rightarrow> (Some (desired_backstore c idx v # bs,
            \<lparr>lun_Index = idx, lun_Backstore = backstoreName vol\<rparr> # ls), c2))))"

definition desired_mapped :: "db \<Rightarrow> string list \<Rightarrow> string \<Rightarrow> MappedLUN list" where
  "desired_mapped st exp hostUUID = map (\<lambda>cn. \<lparr>ml_Index = cn_LUN cn,
      ml_TPGLUN = (case map_of (db_Exports st) (cn_ObjectUUID cn) of Some i \<Rightarrow> i | None \<Rightarrow> 0), ml_WriteProtect = False\<rparr>)
    (filter (\<lambda>cn. cn_HostUUID cn = hostUUID \<and> cn_ObjectUUID cn \<in> set exp) (db_Connections st))"

definition desired_acls :: "db \<Rightarrow> string list \<Rightarrow> ACL list" where
  "desired_acls st exp = concat (map (\<lambda>h. map (\<lambda>iqn. \<lparr>acl_InitiatorIQN = iqn,
      acl_MappedLUNs = desired_mapped st exp (h_UUID h)\<rparr>) (h_IQNs h)) (db_Hosts st))"

definition desiredLIO :: "'k env \<Rightarrow> 'k coord \<Rightarrow> Config option \<times> 'k coord" where
  "desiredLIO env c = (let exp = exported c in
    case desired_luns c (e_range env (c_kern c) exp) of
      (None, c1) \<Rightarrow> (None, c1)
    | (Some (bs, ls), c1) \<Rightarrow> (Some \<lparr>cfg_Backstores = bs, cfg_Targets = [\<lparr>tgt_IQN = ac_TargetIQN (c_cfg c1),
        tgt_TPGs = [\<lparr>tpg_Tag = 1, tpg_Enable = True, tpg_Portals = portals c1, tpg_LUNs = ls,
          tpg_ACLs = desired_acls (c_st c1) exp,
          tpg_Attributes = [(''generate_node_acls'', ''0''), (''authentication'', ''0''),
            (''demo_mode_write_protect'', ''0'')]\<rparr>]\<rparr>]\<rparr>, c1))"

definition live_patch :: "AttrDrift list \<Rightarrow> string \<Rightarrow> string_map" where
  "live_patch drift name = rev (map (\<lambda>d. (ad_Attr d, ad_Live d))
     (filter (\<lambda>d. ad_Err d = None \<and> ad_Backstore d = name) drift))"

definition appliedView :: "Config \<Rightarrow> AttrDrift list \<Rightarrow> Config" where
  "appliedView desired drift = (if drift = [] then desired
     else desired\<lparr>cfg_Backstores := map (\<lambda>b. let patch = live_patch drift (bs_Name b) in
        if patch = [] then b else b\<lparr>bs_Attributes := patch @ bs_Attributes b\<rparr>) (cfg_Backstores desired)\<rparr>)"

section \<open>Health facts (appliance.go)\<close>

definition publishReconcile :: "op_error option \<Rightarrow> (Backstore \<times> aptpl_warning) list \<Rightarrow> StrandedReservation list \<Rightarrow> UndecidedStrand list \<Rightarrow> AttrDrift list
    \<Rightarrow> 'k coord \<Rightarrow> 'k coord" where
  "publishReconcile err unbound stranded undecided drift c = with_health (\<lambda>h. h\<lparr>hl_healthErr := err,
     hl_prUnbound := unbound, hl_prStranded := stranded, hl_prStrandUndecided := undecided, hl_drift := drift,
     hl_prCheckedAt := os_now (c_os c)\<rparr>) c"

definition publishReconcileFailure :: "op_error \<Rightarrow> 'k coord \<Rightarrow> 'k coord" where
  "publishReconcileFailure err c = with_health (\<lambda>h. h\<lparr>hl_healthErr := Some err\<rparr>) c"

definition publishPRCheck :: "(Backstore \<times> aptpl_warning) list \<Rightarrow> StrandedReservation list \<Rightarrow> UndecidedStrand list \<Rightarrow> 'k coord \<Rightarrow> 'k coord" where
  "publishPRCheck unbound stranded undecided c = with_health (\<lambda>h. h\<lparr>hl_prUnbound := unbound,
     hl_prStranded := stranded, hl_prStrandUndecided := undecided, hl_prCheckedAt := os_now (c_os c)\<rparr>) c"

definition setReconcileErr :: "op_error \<Rightarrow> 'k coord \<Rightarrow> 'k coord" where
  "setReconcileErr err c = publishReconcileFailure err (c\<lparr>c_lastReconcileErr := Some err\<rparr>)"

definition setReconcileOK :: "(Backstore \<times> aptpl_warning) list \<Rightarrow> StrandedReservation list \<Rightarrow> UndecidedStrand list \<Rightarrow> AttrDrift list \<Rightarrow> 'k coord \<Rightarrow> 'k coord" where
  "setReconcileOK unbound stranded undecided drift c =
     publishReconcile None unbound stranded undecided drift (c\<lparr>c_lastReconcileErr := None\<rparr>)"

definition setClearing :: "string \<Rightarrow> 'k coord \<Rightarrow> 'k coord" where
  "setClearing name c = with_health (\<lambda>h. h\<lparr>hl_clearing := name\<rparr>) c"

definition publishWithheld :: "'k coord \<Rightarrow> 'k coord" where
  "publishWithheld c = with_health (\<lambda>h. h\<lparr>hl_withheldNames := c_withheld c\<rparr>) c"

definition holdBack :: "string \<Rightarrow> string \<Rightarrow> 'k coord \<Rightarrow> 'k coord" where
  "holdBack uuid name c = publishWithheld
     (c\<lparr>c_withheld := (uuid, name) # filter (\<lambda>p. fst p \<noteq> uuid) (c_withheld c)\<rparr>)"

definition releaseHold :: "string \<Rightarrow> 'k coord \<Rightarrow> 'k coord" where
  "releaseHold uuid c = (if map_of (c_withheld c) uuid = None then c
     else publishWithheld (c\<lparr>c_withheld := filter (\<lambda>p. fst p \<noteq> uuid) (c_withheld c)\<rparr>))"

text \<open>What \<open>/health\<close> is told: one view of the published facts.\<close>

record Health =
  H_Degraded :: bool
  H_PRUnbound :: "(Backstore \<times> aptpl_warning) list"
  H_PRStranded :: "StrandedReservation list"
  H_PRStrandUndecided :: "UndecidedStrand list"
  H_Withheld :: "string list"
  H_ClearInProgress :: string
  H_Drift :: "AttrDrift list"
  H_BackupErr :: "errno option"
  H_Quarantined :: "string list"
  H_CheckedAt :: int
  H_PortalFlagIgnored :: bool
  H_IQNFlagIgnored :: bool

definition sortedValues :: "(string \<times> string) list \<Rightarrow> string list" where
  "sortedValues m = sort (map snd m)"

definition HealthSnapshot :: "'k coord \<Rightarrow> Health" where
  "HealthSnapshot c = (let h = c_health c in
     \<lparr>H_Degraded = (hl_healthErr h \<noteq> None), H_PRUnbound = hl_prUnbound h, H_PRStranded = hl_prStranded h,
      H_PRStrandUndecided = hl_prStrandUndecided h, H_Withheld = sortedValues (hl_withheldNames h),
      H_ClearInProgress = hl_clearing h, H_Drift = hl_drift h, H_BackupErr = hl_backupErr h,
      H_Quarantined = s_quarantined (c_store c), H_CheckedAt = hl_prCheckedAt h,
      H_PortalFlagIgnored = hl_portalFlagIgnored h, H_IQNFlagIgnored = hl_iqnFlagIgnored h\<rparr>)"

definition Healthy :: "'k coord \<Rightarrow> bool" where
  "Healthy c \<longleftrightarrow> hl_healthErr (c_health c) = None"

section \<open>Reconcile (translate.go)\<close>

definition reconcileFull :: "'k env \<Rightarrow> Config \<Rightarrow> 'k coord \<Rightarrow> op_error option \<times> 'k coord" where
  "reconcileFull env desired c = (case e_Sync env desired (c_kern c) of ((rep, err), k) \<Rightarrow>
    (let c1 = c\<lparr>c_kern := k\<rparr> in
     case err of
       Some e \<Rightarrow> (Some (EngineError e), setReconcileErr (EngineError e) (c1\<lparr>c_applied := None\<rparr>))
     | None \<Rightarrow> (case strandedText (e_StrandedReservations env desired k) of (stranded, undecided) \<Rightarrow>
        (None, setReconcileOK (rep_APTPLUnbound rep) stranded undecided (rep_Drift rep)
           (c1\<lparr>c_applied := Some (appliedView desired (rep_Drift rep))\<rparr>)))))"

definition reconcileDelta :: "'k env \<Rightarrow> Config \<Rightarrow> Delta \<Rightarrow> 'k coord \<Rightarrow> op_error option \<times> 'k coord" where
  "reconcileDelta env desired delta c = (case e_ApplyDelta env desired delta (c_kern c) of ((rep, err), k) \<Rightarrow>
    (let c1 = c\<lparr>c_kern := k\<rparr> in
     case err of
       Some StaleScope \<Rightarrow> reconcileFull env desired (c1\<lparr>c_applied := None\<rparr>)
     | Some e \<Rightarrow> (Some (EngineError e), setReconcileErr (EngineError e) (c1\<lparr>c_applied := None\<rparr>))
     | None \<Rightarrow> (let unbound = e_VerifyAPTPL env desired k; drift = e_VerifyDrift env desired k in
        case strandedText (e_StrandedReservations env desired k) of (stranded, undecided) \<Rightarrow>
        (None, setReconcileOK unbound stranded undecided drift
           (c1\<lparr>c_applied := Some (appliedView desired drift)\<rparr>)))))"

definition reconcile :: "'k env \<Rightarrow> 'k coord \<Rightarrow> op_error option \<times> 'k coord" where
  "reconcile env c = (case desiredLIO env c of
     (None, c1) \<Rightarrow> (Some Panicked, c1)
   | (Some desired, c1) \<Rightarrow> (case c_applied c1 of
       None \<Rightarrow> reconcileFull env desired c1
     | Some applied \<Rightarrow> (case Diff applied desired of
         None \<Rightarrow> reconcileFull env desired c1
       | Some delta \<Rightarrow> reconcileDelta env desired delta c1)))"

definition RecheckPR :: "'k env \<Rightarrow> 'k coord \<Rightarrow> op_error option \<times> 'k coord" where
  "RecheckPR env c = (case desiredLIO env c of
     (None, c1) \<Rightarrow> (Some Panicked, c1)
   | (Some desired, c1) \<Rightarrow> (case strandedText (e_StrandedReservations env desired (c_kern c1)) of (stranded, undecided) \<Rightarrow>
       (None, publishPRCheck (e_VerifyAPTPL env desired (c_kern c1)) stranded undecided c1)))"

definition healIfDegraded :: "'k env \<Rightarrow> 'k coord \<Rightarrow> op_error option \<times> 'k coord" where
  "healIfDegraded env c = (if c_lastReconcileErr c = None then (None, c)
     else (case reconcile env c of
       (None, c1) \<Rightarrow> (None, c1)
     | (Some Panicked, c1) \<Rightarrow> (Some Panicked, c1)
     | (Some e, c1) \<Rightarrow> (Some (StatusError StatusServiceUnavailable ''''), c1)))"

section \<open>The database file (appliance.go, backup.go)\<close>

definition dbBackupsKept :: nat where "dbBackupsKept = 10"

text \<open>
  A backup is a hard link to the current file under a name that ends in the time, so that the names sort
  as the times do; only that ending is kept here. A link that exists is as good as the new one.
\<close>

definition linkBackup :: "'k coord \<Rightarrow> errno option \<times> 'k coord" where
  "linkBackup c = (case c_syscall c of
     (Some ENOENT, c1) \<Rightarrow> (None, c1)
   | (Some EEXIST, c1) \<Rightarrow> (None, c1)
   | (Some e, c1) \<Rightarrow> (Some e, c1)
   | (None, c1) \<Rightarrow> (let name = os_stamp (c_os c) in
       if c_disk c1 = NoFile \<or> map_of (c_backups c1) name \<noteq> None then (None, c1)
       else (None, c1\<lparr>c_backups := c_backups c1 @ [(name, c_disk c1)]\<rparr>)))"

fun remove_backups :: "string list \<Rightarrow> 'k coord \<Rightarrow> errno option \<times> 'k coord" where
  "remove_backups [] c = (None, c)"
| "remove_backups (n # ns) c = (case c_syscall c of
     (Some e, c1) \<Rightarrow> if e = ENOENT then remove_backups ns c1 else (Some e, c1)
   | (None, c1) \<Rightarrow> remove_backups ns (c1\<lparr>c_backups := filter (\<lambda>b. fst b \<noteq> n) (c_backups c1)\<rparr>))"

definition pruneBackups :: "nat \<Rightarrow> 'k coord \<Rightarrow> errno option \<times> 'k coord" where
  "pruneBackups keep c = (case c_syscall c of
     (Some e, c1) \<Rightarrow> (Some e, c1)
   | (None, c1) \<Rightarrow> (let backups = map fst (c_backups c1) in
       if length backups \<le> keep then (None, c1)
       else remove_backups (take (length backups - keep) (sort backups)) c1))"

text \<open>The newest backup, by name; the search starts from the empty name.\<close>

definition latestBackup :: "'k coord \<Rightarrow> (errno + string) \<times> 'k coord" where
  "latestBackup c = (case c_syscall c of
     (Some e, c1) \<Rightarrow> (Inl e, c1)
   | (None, c1) \<Rightarrow> (Inr (fold (\<lambda>n newest. if newest < n then n else newest) (map fst (c_backups c1)) ''''), c1))"

text \<open>
  The write: open, write, fsync and close the temporary file, rename it into place, fsync the directory.
  The database file changes at the rename and nowhere else.
\<close>

definition write_tmp :: "'k coord \<Rightarrow> errno option \<times> 'k coord" where
  "write_tmp c = (case syscalls 4 (c_os c) of (f, w) \<Rightarrow> (f, c\<lparr>c_os := w\<rparr>))"

definition sync_db_dir :: "'k coord \<Rightarrow> errno option \<times> 'k coord" where
  "sync_db_dir c = (case syncDir (c_os c) of (f, w) \<Rightarrow> (f, c\<lparr>c_os := w\<rparr>))"

definition take_backup :: "'k coord \<Rightarrow> errno option \<times> 'k coord" where
  "take_backup c = (case linkBackup c of
     (Some e, c1) \<Rightarrow> (Some e, c1) | (None, c1) \<Rightarrow> pruneBackups dbBackupsKept c1)"

definition persist :: "'k coord \<Rightarrow> op_error option \<times> 'k coord" where
  "persist c = (if c_dbPath c = '''' then (Some NoDBPath, c)
    else (case take_backup c of (backupErr, c1) \<Rightarrow>
     (case write_tmp c1 of
       (Some e, c2) \<Rightarrow> (Some (PersistFailed e), c2)
     | (None, c2) \<Rightarrow> (case c_syscall c2 of
         (Some e, c3) \<Rightarrow> (Some (PersistFailed e), c3)
       | (None, c3) \<Rightarrow>
          (let c4 = with_health (\<lambda>h. h\<lparr>hl_backupErr := backupErr\<rparr>) (c3\<lparr>c_disk := Stored (c_st c3)\<rparr>) in
           case sync_db_dir c4 of
             (Some e, c5) \<Rightarrow> (Some (PersistedNotDurable e), c5)
           | (None, c5) \<Rightarrow> (None, c5))))))"

fun not_durable :: "op_error \<Rightarrow> bool" where
  "not_durable (PersistedNotDurable _) = True"
| "not_durable _ = False"

definition restoreState :: "db \<Rightarrow> 'k coord \<Rightarrow> 'k coord" where
  "restoreState b c = c\<lparr>c_st := b\<rparr>"

section \<open>Committing a mutation (appliance.go)\<close>

type_synonym mutation = "db \<Rightarrow> op_error option \<times> db"

definition persistOnly :: "mutation \<Rightarrow> 'k coord \<Rightarrow> op_error option \<times> 'k coord" where
  "persistOnly mutate c = (let backup = snapshotState (c_st c) in
    case mutate (c_st c) of
      (Some e, st) \<Rightarrow> (Some e, restoreState backup (c\<lparr>c_st := st\<rparr>))
    | (None, st) \<Rightarrow> (case persist (c\<lparr>c_st := st\<rparr>) of
        (None, c1) \<Rightarrow> (None, c1)
      | (Some e, c1) \<Rightarrow> if not_durable e then (Some e, c1) else (Some e, restoreState backup c1)))"

definition commit :: "'k env \<Rightarrow> mutation \<Rightarrow> 'k coord \<Rightarrow> op_error option \<times> 'k coord" where
  "commit env mutate c = (case healIfDegraded env c of
     (Some e, c1) \<Rightarrow> (Some e, c1)
   | (None, c1) \<Rightarrow> (let backup = snapshotState (c_st c1) in
      case mutate (c_st c1) of
        (Some e, st) \<Rightarrow> (Some e, restoreState backup (c1\<lparr>c_st := st\<rparr>))
      | (None, st) \<Rightarrow> (case desiredLIO env (c1\<lparr>c_st := st\<rparr>) of
          (None, c2) \<Rightarrow> (Some Panicked, c2)
        | (Some desired, c2) \<Rightarrow> (case Validate desired of
            Some e \<Rightarrow> (Some (InvalidLIO e), restoreState backup c2)
          | None \<Rightarrow> (case persist c2 of
              (Some e, c3) \<Rightarrow> if not_durable e then
                  (case reconcile env c3 of (rerr, c4) \<Rightarrow> (Some (if rerr = Some Panicked then Panicked else e), c4))
                else (Some e, restoreState backup c3)
            | (None, c3) \<Rightarrow> reconcile env c3)))))"

end
