(* ===== verification/Appliance_Export.thy ===== *)
theory Appliance_Export
  imports Appliance_Core
begin

text \<open>
  Export indices and the desired configuration: the allocation takes the lowest free index, the
  translation changes nothing of the database but the allocated indices, and a loadable database with
  sane object records is translated into a configuration that \<open>Validate\<close> accepts.
\<close>

section \<open>Allocation\<close>

lemma lowest_free_props:
  "lowest_free used idx \<notin> set used \<and> idx \<le> lowest_free used idx
     \<and> {idx..<lowest_free used idx} \<subseteq> set used"
proof (induction used idx rule: lowest_free.induct)
  case (1 used idx)
  show ?case
  proof (cases "idx \<in> set used")
    case True
    then have eq: "lowest_free used idx = lowest_free used (idx + 1)" by (subst lowest_free.simps) simp
    have "{idx..<lowest_free used (idx + 1)} \<subseteq> insert idx {idx + 1..<lowest_free used (idx + 1)}" by auto
    with 1 True show ?thesis unfolding eq by auto
  qed (subst lowest_free.simps, subst (2) lowest_free.simps, subst (3) lowest_free.simps, simp)
qed

lemma lowest_free_le: "lowest_free used 0 \<le> int (length used)"
proof -
  have "{0..<lowest_free used 0} \<subseteq> set used" using lowest_free_props [of used 0] by simp
  then have "card {0..<lowest_free used 0} \<le> length used"
    by (meson card_length card_mono finite_set le_trans)
  then show ?thesis by simp
qed

text \<open>The objects that hold or may claim an export index.\<close>

definition export_room :: "db \<Rightarrow> string set" where
  "export_room st = fst ` set (db_Exports st) \<union> cn_ObjectUUID ` set (db_Connections st)"

definition has_room :: "db \<Rightarrow> bool" where
  "has_room st \<longleftrightarrow> card (export_room st) \<le> 16384"

definition loadable :: "db \<Rightarrow> bool" where
  "loadable st \<longleftrightarrow> checkVersion st = None \<and> validateLoaded st = None \<and> distinct (map fst (db_Exports st))"

lemma loadable_iff:
  "loadable st \<longleftrightarrow> db_Version st = dbVersion \<and> valid_db st \<and> distinct (map fst (db_Exports st))"
  by (simp add: loadable_def checkVersion_def validateLoaded_ok)

text \<open>\<open>st\<close> is \<open>st0\<close> with export indices allocated for connected objects.\<close>

definition grown :: "db \<Rightarrow> db \<Rightarrow> bool" where
  "grown st0 st \<longleftrightarrow> (\<exists>es. st = st0\<lparr>db_Exports := db_Exports st0 @ es\<rparr> \<and> fst ` set es \<subseteq> cn_ObjectUUID ` set (db_Connections st0))"

lemma grown_refl [simp]: "grown st st"
  unfolding grown_def by (rule exI [of _ "[]"]) simp

lemma grown_trans: "grown a b \<Longrightarrow> grown b c \<Longrightarrow> grown a c"
proof -
  assume "grown a b" "grown b c"
  then obtain es fs where "b = a\<lparr>db_Exports := db_Exports a @ es\<rparr>" "fst ` set es \<subseteq> cn_ObjectUUID ` set (db_Connections a)"
    "c = b\<lparr>db_Exports := db_Exports b @ fs\<rparr>" "fst ` set fs \<subseteq> cn_ObjectUUID ` set (db_Connections b)"
    by (auto simp: grown_def)
  then show "grown a c"
    unfolding grown_def by (intro exI [of _ "es @ fs"]) auto
qed

lemma grown_sel:
  assumes "grown a b"
  shows "db_Objects b = db_Objects a" "db_Hosts b = db_Hosts a" "db_Connections b = db_Connections a"
    "db_Portals b = db_Portals a" "db_TargetIQN b = db_TargetIQN a" "db_MachineID b = db_MachineID a"
    "db_Version b = db_Version a" "export_room b = export_room a"
proof -
  obtain es where b: "b = a\<lparr>db_Exports := db_Exports a @ es\<rparr>" and es: "fst ` set es \<subseteq> cn_ObjectUUID ` set (db_Connections a)"
    using assms by (auto simp: grown_def)
  show "db_Objects b = db_Objects a" "db_Hosts b = db_Hosts a" "db_Connections b = db_Connections a"
    "db_Portals b = db_Portals a" "db_TargetIQN b = db_TargetIQN a" "db_MachineID b = db_MachineID a"
    "db_Version b = db_Version a" by (simp_all add: b)
  have "export_room b = fst ` set (db_Exports a) \<union> fst ` set es \<union> cn_ObjectUUID ` set (db_Connections a)"
    by (simp add: export_room_def b image_Un)
  then show "export_room b = export_room a"
    using es unfolding export_room_def by blast
qed
lemma grown_exports: "grown a b \<Longrightarrow> map_of (db_Exports a) u = Some i \<Longrightarrow> map_of (db_Exports b) u = Some i"
  by (auto simp: grown_def)

lemma snapshot_sel [simp]:
  "db_Version (snapshotState st) = db_Version st" "db_Objects (snapshotState st) = db_Objects st"
  "db_Hosts (snapshotState st) = db_Hosts st" "db_Connections (snapshotState st) = db_Connections st"
  "db_Exports (snapshotState st) = db_Exports st" "db_Portals (snapshotState st) = db_Portals st"
  by (simp_all add: snapshotState_def)

lemma loadable_snapshot [simp]: "loadable (snapshotState st) = loadable st"
  by (simp add: loadable_iff valid_db_def)

lemma room_snapshot [simp]: "export_room (snapshotState st) = export_room st" "has_room (snapshotState st) = has_room st"
  by (simp_all add: export_room_def has_room_def)

lemma exportIndex_grown:
  assumes "u \<in> cn_ObjectUUID ` set (db_Connections st)"
  shows "grown st (snd (exportIndex st u))"
proof (cases "map_of (db_Exports st) u")
  case None
  with assms show ?thesis
    unfolding grown_def exportIndex_def Let_def
    by (intro exI [of _ "[(u, lowest_free (map snd (db_Exports st)) 0)]"]) simp
qed (simp add: exportIndex_def)

lemma exportIndex_lookup: "map_of (db_Exports (snd (exportIndex st u))) u = Some (fst (exportIndex st u))"
  by (auto simp: exportIndex_def Let_def map_add_def split: option.splits)

text \<open>With room, the allocated index is in range and free, so that the database stays loadable.\<close>

lemma exportIndex_valid:
  assumes "valid_exports (db_Exports st)" and "distinct (map fst (db_Exports st))" and "validUUID u"
    and "card (insert u (fst ` set (db_Exports st))) \<le> 16384"
  shows "valid_exports (db_Exports (snd (exportIndex st u))) \<and> distinct (map fst (db_Exports (snd (exportIndex st u))))"
proof (cases "map_of (db_Exports st) u")
  case None
  let ?used = "map snd (db_Exports st)"
  have new: "u \<notin> fst ` set (db_Exports st)" using None by (simp add: map_of_eq_None_iff)
  have "length (db_Exports st) = card (fst ` set (db_Exports st))"
    using assms(2) by (metis distinct_card length_map set_map)
  then have "lowest_free ?used 0 \<le> maxLUN"
    using lowest_free_le [of ?used] assms(4) new by (simp add: maxLUN_def)
  then show ?thesis
    using assms(1-3) new None lowest_free_props [of ?used 0]
    by (auto simp: exportIndex_def valid_exports_def Let_def)
qed (simp add: exportIndex_def assms)

lemma exportIndex_sel [simp]:
  "db_Objects (snd (exportIndex st u)) = db_Objects st" "db_Hosts (snd (exportIndex st u)) = db_Hosts st"
  "db_Connections (snd (exportIndex st u)) = db_Connections st" "db_Version (snd (exportIndex st u)) = db_Version st"
  "db_Portals (snd (exportIndex st u)) = db_Portals st"
  by (simp_all add: exportIndex_def Let_def split: option.split)

lemma object_Some: "object st u = Some x \<Longrightarrow> x \<in> set (db_Objects st) \<and> ob_UUID x = u"
  by (auto simp: object_def dest: find_key_Some)

lemma object_None: "object st u = None \<longleftrightarrow> u \<notin> ob_UUID ` set (db_Objects st)"
  by (auto simp: object_def find_None_iff)

lemma loadable_connected:
  assumes "loadable st" and "u \<in> cn_ObjectUUID ` set (db_Connections st)"
  shows "\<exists>x. object st u = Some x" "validUUID u"
proof -
  obtain x where "x \<in> set (db_Objects st)" "ob_UUID x = u"
    using assms by (force simp: loadable_iff valid_db_def valid_connections_def)
  then show "\<exists>x. object st u = Some x" "validUUID u"
    using assms object_None [of st u] by (auto simp: loadable_iff valid_db_def valid_objects_def)
qed

lemma finite_room [simp]: "finite (export_room st)"
  by (simp add: export_room_def)

lemma exportIndex_loadable:
  assumes "loadable st" and "has_room st" and "u \<in> cn_ObjectUUID ` set (db_Connections st)"
  shows "loadable (snd (exportIndex st u)) \<and> has_room (snd (exportIndex st u))"
proof -
  have "insert u (fst ` set (db_Exports st)) \<subseteq> export_room st" using assms(3) by (auto simp: export_room_def)
  then have "card (insert u (fst ` set (db_Exports st))) \<le> 16384"
    using assms(2) unfolding has_room_def by (meson card_mono finite_room le_trans)
  then show ?thesis
    using exportIndex_valid [of st u] assms loadable_connected(2) [OF assms(1,3)] exportIndex_grown [OF assms(3)]
    by (auto simp: loadable_iff valid_db_def has_room_def grown_sel)
qed

section \<open>Identifiers\<close>

lemma validUUID_hex:
  assumes "validUUID s" and "i < 36" and "i \<notin> {8, 13, 18, 23}"
  shows "isHexDigit (s ! i)"
  using assms by (auto simp: validUUID_def list_all_iff)

lemma validUUID_dash:
  assumes "validUUID s" and "i \<in> {8, 13, 18, 23}"
  shows "s ! i = CHR ''-''"
  using assms by (auto simp: validUUID_def list_all_iff)

lemma validUUID_part:
  assumes "validUUID s" and "j \<le> 36" and "{i..<j} \<inter> {8, 13, 18, 23} = {}"
  shows "list_all isHexDigit (slice i j s)"
proof -
  have "isHexDigit (s ! (i + k))" if "k < j - i" for k
    using assms that by (intro validUUID_hex) auto
  then show ?thesis
    using validUUID_length [OF assms(1)] assms(2) by (auto simp: slice_def list_all_length)
qed

lemma drop_split: "i \<le> j \<Longrightarrow> j < length s \<Longrightarrow> drop i s = slice i j s @ s ! j # drop (Suc j) s"
proof -
  assume h: "i \<le> j" "j < length s"
  then have "drop (j - i) (drop i s) = s ! j # drop (Suc j) s" by (simp add: Cons_nth_drop_Suc)
  then show ?thesis by (metis append_take_drop_id slice_def)
qed

lemma validUUID_split:
  assumes "validUUID s"
  shows "s = slice 0 8 s @ CHR ''-'' # slice 9 13 s @ CHR ''-'' # slice 14 18 s @ CHR ''-''
     # slice 19 23 s @ CHR ''-'' # slice 24 36 s"
proof -
  have l: "length s = 36" using assms by (rule validUUID_length)
  have d: "s ! 8 = CHR ''-''" "s ! 13 = CHR ''-''" "s ! 18 = CHR ''-''" "s ! 23 = CHR ''-''"
    using validUUID_dash [OF assms] by auto
  have "s = slice 0 8 s @ s ! 8 # drop 9 s" using drop_split [of 0 8 s] l by simp
  also have "drop 9 s = slice 9 13 s @ s ! 13 # drop 14 s" using drop_split [of 9 13 s] l by simp
  also have "drop 14 s = slice 14 18 s @ s ! 18 # drop 19 s" using drop_split [of 14 18 s] l by simp
  also have "drop 19 s = slice 19 23 s @ s ! 23 # drop 24 s" using drop_split [of 19 23 s] l by simp
  also have "drop 24 s = slice 24 36 s" using l by (simp add: slice_def)
  finally show ?thesis by (simp only: d)
qed

lemma hex_no_dash: "list_all isHexDigit s \<Longrightarrow> removeChar CHR ''-'' s = s"
  by (auto simp: removeChar_def list_all_iff isHexDigit_def intro!: filter_True)

lemma validUUID_nodash:
  assumes "validUUID s"
  shows "removeChar CHR ''-'' s = slice 0 8 s @ slice 9 13 s @ slice 14 18 s @ slice 19 23 s @ slice 24 36 s"
proof -
  have "removeChar CHR ''-'' (slice i j s) = slice i j s" if "(i, j) \<in> {(0, 8), (9, 13), (14, 18), (19, 23), (24, 36)}" for i j
    using that by (intro hex_no_dash validUUID_part [OF assms]) auto
  then show ?thesis
    by (subst validUUID_split [OF assms]) (simp add: removeChar_def)
qed

lemma backstoreName_inj:
  assumes "validUUID a" and "validUUID b" and "backstoreName a = backstoreName b"
  shows "a = b"
proof -
  have l: "length a = 36" "length b = 36" using assms validUUID_length by auto
  have "removeChar CHR ''-'' a = removeChar CHR ''-'' b" using assms(3) by (simp add: backstoreName_def)
  then have "slice 0 8 a = slice 0 8 b \<and> slice 9 13 a = slice 9 13 b \<and> slice 14 18 a = slice 14 18 b
      \<and> slice 19 23 a = slice 19 23 b \<and> slice 24 36 a = slice 24 36 b"
    unfolding validUUID_nodash [OF assms(1)] validUUID_nodash [OF assms(2)] using l by simp
  then show ?thesis
    using validUUID_split [OF assms(1)] validUUID_split [OF assms(2)] by simp
qed

lemma backstoreName_chars:
  assumes "validUUID u" and "ch \<in> set (backstoreName u)"
  shows "isHexDigit ch \<or> ch \<in> set ''vol_''"
proof -
  have "list_all isHexDigit (slice 0 8 u @ slice 9 13 u @ slice 14 18 u @ slice 19 23 u @ slice 24 36 u)"
    using validUUID_part [OF assms(1)] by simp
  then show ?thesis
    using assms(2) by (auto simp: backstoreName_def validUUID_nodash [OF assms(1)] list_all_iff)
qed

section \<open>The translation changes only export indices\<close>

text \<open>Go promises of a map iteration only that it visits every entry once.\<close>

definition range_ok :: "'k env \<Rightarrow> bool" where
  "range_ok env \<longleftrightarrow> (\<forall>k xs. mset (e_range env k xs) = mset xs)"

lemma range_set: "range_ok env \<Longrightarrow> set (e_range env k xs) = set xs"
  unfolding range_ok_def by (metis set_mset_mset)

lemma range_distinct: "range_ok env \<Longrightarrow> distinct xs \<Longrightarrow> distinct (e_range env k xs)"
  unfolding range_ok_def by (metis mset_eq_imp_distinct_iff)

lemma exported_connected: "set (exported c) \<subseteq> cn_ObjectUUID ` set (db_Connections (c_st c))"
  by (auto simp: exported_def)

lemma distinct_exported: "distinct (exported c)"
  by (simp add: exported_def distinct_keys_once)

lemma desired_luns_grown:
  assumes "desired_luns c vols = (r, c')" and "set vols \<subseteq> cn_ObjectUUID ` set (db_Connections (c_st c))"
  shows "c' = c\<lparr>c_st := c_st c'\<rparr> \<and> grown (c_st c) (c_st c')
    \<and> (loadable (c_st c) \<and> has_room (c_st c) \<longrightarrow> loadable (c_st c') \<and> has_room (c_st c'))"
  using assms
proof (induction vols arbitrary: c c' r)
  case (Cons vol vols)
  obtain idx st1 where x: "exportIndex (c_st c) vol = (idx, st1)" by fastforce
  then have st1: "st1 = snd (exportIndex (c_st c) vol)" by simp
  let ?c1 = "c\<lparr>c_st := st1\<rparr>"
  have conn: "vol \<in> cn_ObjectUUID ` set (db_Connections (c_st c))" using Cons.prems(2) by simp
  have g: "grown (c_st c) st1" unfolding st1 by (rule exportIndex_grown [OF conn])
  have l: "loadable (c_st c) \<and> has_room (c_st c) \<longrightarrow> loadable st1 \<and> has_room st1"
    unfolding st1 using exportIndex_loadable conn by blast
  obtain r2 c2 where rest: "desired_luns ?c1 vols = (r2, c2)" by fastforce
  have IH: "c2 = ?c1\<lparr>c_st := c_st c2\<rparr> \<and> grown st1 (c_st c2)
      \<and> (loadable st1 \<and> has_room st1 \<longrightarrow> loadable (c_st c2) \<and> has_room (c_st c2))"
    using Cons.IH [OF rest] Cons.prems(2) g by (simp add: grown_sel)
  consider "c' = ?c1" | "c' = c2"
    using Cons.prems(1) by (auto simp: x rest Let_def split: option.splits if_splits)
  then show ?case
  proof cases
    case 1
    then show ?thesis using g l by simp
  next
    case 2
    then show ?thesis using g l IH grown_trans by auto
  qed
qed auto

lemma desiredLIO_grown:
  assumes "desiredLIO env c = (r, c')" and "range_ok env"
  shows "c' = c\<lparr>c_st := c_st c'\<rparr> \<and> grown (c_st c) (c_st c')
    \<and> (loadable (c_st c) \<and> has_room (c_st c) \<longrightarrow> loadable (c_st c') \<and> has_room (c_st c'))"
proof -
  obtain r1 c1 where luns: "desired_luns c (e_range env (c_kern c) (exported c)) = (r1, c1)" by fastforce
  then have "c' = c1" using assms(1) by (auto simp: desiredLIO_def Let_def split: option.splits)
  then show ?thesis
    using desired_luns_grown [OF luns] range_set [OF assms(2)] exported_connected by metis
qed

text \<open>
  The records of the objects as the API makes them. Loading does not check this.
\<close>

definition sane_object :: "Object \<Rightarrow> bool" where
  "sane_object x \<longleftrightarrow> (ob_BlockSize x = 512 \<or> ob_BlockSize x = 4096) \<and> isHex16 (ob_WWN x)"

definition sane_db :: "db \<Rightarrow> bool" where
  "sane_db st \<longleftrightarrow> (\<forall>x \<in> set (db_Objects st). sane_object x)"

lemma itoa_block_sizes: "itoa 512 = ''512''" "itoa 4096 = ''4096''"
  by (simp_all add: go_eval)

lemma desired_backstore_valid:
  assumes "validUUID (ob_UUID v)" and "sane_object v" and "0 \<le> idx"
  shows "backstore_validate (desired_backstore c idx v) = None"
proof -
  have "\<not> list_ex (\<lambda>ch. ch \<in> set [CHR ''/'', CHR '' '', CHR 0x09, newline]) (backstoreName (ob_UUID v))"
    using backstoreName_chars [OF assms(1)] by (fastforce simp: list_ex_iff isHexDigit_def)
  moreover have "backstoreName (ob_UUID v) \<notin> {'''', ''.'', ''..''}" by (simp add: backstoreName_def)
  moreover have "validBlockSize (itoa (ob_BlockSize v))"
    using assms(2) by (auto simp: sane_object_def validBlockSize_def itoa_block_sizes)
  moreover have "DiskPath (c_store c) (ob_UUID v) \<noteq> ''''" by (simp add: DiskPath_def)
  moreover have "isHex16 (ob_WWN v)" using assms(2) by (simp add: sane_object_def)
  ultimately show ?thesis
    using assms(3) unfolding backstore_validate_def desired_backstore_def
    by (simp del: list_ex_iff list.set)
qed

section \<open>The desired configuration is valid\<close>

definition export_of :: "db \<Rightarrow> string \<Rightarrow> int" where
  "export_of st u = (case map_of (db_Exports st) u of Some i \<Rightarrow> i | None \<Rightarrow> 0)"

definition luns_for :: "db \<Rightarrow> string list \<Rightarrow> Backstore list \<times> LUN list \<Rightarrow> bool" where
  "luns_for st vols r \<longleftrightarrow> (\<forall>v \<in> set vols. map_of (db_Exports st) v \<noteq> None)
     \<and> map bs_Name (fst r) = map backstoreName vols \<and> (\<forall>b \<in> set (fst r). backstore_validate b = None)
     \<and> map lun_Backstore (snd r) = map backstoreName vols \<and> map lun_Index (snd r) = map (export_of st) vols"

lemma export_nonneg:
  assumes "loadable st" and "map_of (db_Exports st) u = Some i"
  shows "0 \<le> i"
  using assms map_of_SomeD [OF assms(2)] by (auto simp: loadable_iff valid_db_def valid_exports_def)

lemma desired_luns_result:
  assumes "set vols \<subseteq> cn_ObjectUUID ` set (db_Connections (c_st c))"
    and "loadable (c_st c)" and "has_room (c_st c)" and "sane_db (c_st c)"
  shows "\<exists>r c'. desired_luns c vols = (Some r, c') \<and> luns_for (c_st c') vols r"
  using assms
proof (induction vols arbitrary: c)
  case (Cons vol vols)
  obtain idx st1 where x: "exportIndex (c_st c) vol = (idx, st1)" by fastforce
  then have st1: "st1 = snd (exportIndex (c_st c) vol)" and idx: "idx = fst (exportIndex (c_st c) vol)" by simp_all
  let ?c1 = "c\<lparr>c_st := st1\<rparr>"
  have conn: "vol \<in> cn_ObjectUUID ` set (db_Connections (c_st c))" using Cons.prems(1) by simp
  have g: "grown (c_st c) st1" unfolding st1 by (rule exportIndex_grown [OF conn])
  have l: "loadable st1" "has_room st1" unfolding st1 using exportIndex_loadable [OF Cons.prems(2,3) conn] by auto
  obtain v where v: "object (c_st c) vol = Some v" using loadable_connected(1) [OF Cons.prems(2) conn] by blast
  have u: "validUUID vol" using loadable_connected(2) [OF Cons.prems(2) conn] .
  have vo: "v \<in> set (db_Objects (c_st c))" "ob_UUID v = vol" using object_Some [OF v] by auto
  have sane: "sane_object v" using Cons.prems(4) vo(1) by (simp add: sane_db_def)
  then have bs0: "ob_BlockSize v \<noteq> 0" by (auto simp: sane_object_def)
  have at: "map_of (db_Exports st1) vol = Some idx" unfolding st1 idx by (rule exportIndex_lookup)
  have "0 \<le> idx" using export_nonneg [OF l(1) at] .
  then have valid: "backstore_validate (desired_backstore c idx v) = None"
    using desired_backstore_valid [of v idx c] u vo sane by simp
  have "\<exists>r c'. desired_luns ?c1 vols = (Some r, c') \<and> luns_for (c_st c') vols r"
    using Cons.IH [of ?c1] Cons.prems l g by (simp add: grown_sel sane_db_def)
  then obtain bs ls c2 where rest: "desired_luns ?c1 vols = (Some (bs, ls), c2)" "luns_for (c_st c2) vols (bs, ls)" by auto
  have "grown st1 (c_st c2)" using desired_luns_grown [OF rest(1)] Cons.prems(1) g by (simp add: grown_sel)
  then have at2: "map_of (db_Exports (c_st c2)) vol = Some idx" using at grown_exports by blast
  show ?case
    using rest valid at2 vo(2)
    by (auto simp: x Let_def v bs0 luns_for_def export_of_def desired_backstore_def)
qed (auto simp: luns_for_def)

lemma map_of_inj:
  assumes "distinct (map snd es)" and "map_of es a = Some i" and "map_of es b = Some i"
  shows "a = b"
proof -
  have "(a, i) \<in> set es" "(b, i) \<in> set es" using assms(2,3) map_of_SomeD by fast+
  then show ?thesis using assms(1) inj_onD [of snd "set es" "(a, i)" "(b, i)"] by (auto simp: distinct_map)
qed

lemma desired_acls_iqns: "map acl_InitiatorIQN (desired_acls st exp) = concat (map h_IQNs (db_Hosts st))"
  by (simp add: desired_acls_def map_concat comp_def)

lemma desired_mapped_valid:
  assumes "loadable st" and "\<And>v. v \<in> set exp \<Longrightarrow> export_of st v \<in> lunIdx"
  shows "valid_mapped lunIdx (desired_mapped st exp h)"
proof -
  let ?cs = "filter (\<lambda>cn. cn_HostUUID cn = h \<and> cn_ObjectUUID cn \<in> set exp) (db_Connections st)"
  have vc: "distinct (map (\<lambda>c. (cn_HostUUID c, cn_LUN c)) (db_Connections st))"
    "\<forall>c \<in> set (db_Connections st). 0 \<le> cn_LUN c"
    using assms(1) by (auto simp: loadable_iff valid_db_def valid_connections_def)
  have "distinct (map cn_LUN ?cs)"
    using vc(1) by (auto simp: distinct_map inj_on_def)
  moreover have "map ml_Index (desired_mapped st exp h) = map cn_LUN ?cs" by (simp add: desired_mapped_def comp_def)
  ultimately show ?thesis
    using vc(2) assms(2) by (auto simp: valid_mapped_def desired_mapped_def export_of_def comp_def)
qed

lemma desired_config_valid:
  assumes l: "loadable (c_st c)" and room: "has_room (c_st c)" and sane: "sane_db (c_st c)" and env: "range_ok env"
    and po: "valid_portals (portals c)" and iqn: "ValidTargetIQN (ac_TargetIQN (c_cfg c))"
  shows "\<exists>cfg c'. desiredLIO env c = (Some cfg, c') \<and> valid_config cfg"
proof -
  let ?vols = "e_range env (c_kern c) (exported c)"
  have vs: "set ?vols = set (exported c)" "distinct ?vols"
    using range_set [OF env] range_distinct [OF env distinct_exported] by auto
  then have sub: "set ?vols \<subseteq> cn_ObjectUUID ` set (db_Connections (c_st c))" using exported_connected by simp
  obtain bs ls c' where luns: "desired_luns c ?vols = (Some (bs, ls), c')" and for_ls: "luns_for (c_st c') ?vols (bs, ls)"
    using desired_luns_result [OF sub l room sane] by (metis prod.collapse)
  have c': "c' = c\<lparr>c_st := c_st c'\<rparr>" "grown (c_st c) (c_st c')" "loadable (c_st c')"
    using desired_luns_grown [OF luns sub] l room by auto
  have exp: "\<And>v. v \<in> set ?vols \<Longrightarrow> map_of (db_Exports (c_st c')) v = Some (export_of (c_st c') v)"
    using for_ls by (auto simp: luns_for_def export_of_def)
  have "inj_on (export_of (c_st c')) (set ?vols)"
    using c'(3) exp map_of_inj [of "db_Exports (c_st c')"]
    by (intro inj_onI) (metis loadable_iff valid_db_def valid_exports_def)
  then have dl: "distinct (map lun_Index ls)"
    using for_ls vs(2) by (simp add: luns_for_def distinct_map)
  have "inj_on backstoreName (set ?vols)"
    using sub loadable_connected(2) [OF l] backstoreName_inj by (intro inj_onI) blast
  then have db: "distinct (map bs_Name bs)" using for_ls vs(2) by (simp add: luns_for_def distinct_map)
  have names: "lun_Backstore ` set ls = bs_Name ` set bs" "lun_Index ` set ls = export_of (c_st c') ` set ?vols"
    using for_ls by (simp_all add: luns_for_def) (metis list.set_map)+
  have nonneg: "0 \<le> lun_Index x" if "x \<in> set ls" for x
  proof -
    have "lun_Index x \<in> export_of (c_st c') ` set ?vols" using that names by auto
    then show ?thesis using exp export_nonneg [OF c'(3)] by (metis imageE)
  qed
  have hosts: "valid_hosts (db_Hosts (c_st c'))" using c'(3) by (simp add: loadable_iff valid_db_def)
  have "valid_acls (lun_Index ` set ls) (desired_acls (c_st c') (exported c))"
    unfolding valid_acls_def desired_acls_iqns
  proof (intro conjI ballI)
    show "distinct (concat (map h_IQNs (db_Hosts (c_st c'))))" using hosts by (simp add: valid_hosts_def)
    fix a assume "a \<in> set (desired_acls (c_st c') (exported c))"
    then obtain h q where "h \<in> set (db_Hosts (c_st c'))" "q \<in> set (h_IQNs h)" "acl_InitiatorIQN a = q"
      "acl_MappedLUNs a = desired_mapped (c_st c') (exported c) (h_UUID h)" by (auto simp: desired_acls_def)
    then show "ValidInitiatorIQN (acl_InitiatorIQN a)" "valid_mapped (lun_Index ` set ls) (acl_MappedLUNs a)"
      using hosts desired_mapped_valid [OF c'(3), of "exported c"] names(2) vs(1) by (auto simp: valid_hosts_def)
  qed
  moreover have "valid_luns (bs_Name ` set bs) ls" using dl nonneg names(1) by (auto simp: valid_luns_def)
  moreover have cfg: "c_cfg c' = c_cfg c" by (subst c'(1)) simp
  moreover have "portals c' = portals c" using grown_sel(4) [OF c'(2)] by (simp add: portals_def cfg)
  ultimately show ?thesis
    using luns db for_ls po iqn
    by (auto simp: desiredLIO_def valid_config_def valid_target_def valid_tpg_def luns_for_def)
qed

section \<open>What an initiator sees\<close>

text \<open>
  The view of an initiator: the backstore behind a LUN number, through its ACL, the mapped LUN and the
  LUN of the portal group.
\<close>

definition sees :: "Config \<Rightarrow> string \<Rightarrow> int \<Rightarrow> string \<Rightarrow> bool" where
  "sees cfg iqn lun name \<longleftrightarrow> (\<exists>t \<in> set (cfg_Targets cfg). \<exists>g \<in> set (tgt_TPGs t). \<exists>a \<in> set (tpg_ACLs g).
     \<exists>m \<in> set (acl_MappedLUNs a). \<exists>l \<in> set (tpg_LUNs g).
       acl_InitiatorIQN a = iqn \<and> ml_Index m = lun \<and> lun_Index l = ml_TPGLUN m \<and> lun_Backstore l = name)"

lemma desired_luns_shape:
  assumes "desired_luns c vols = (Some (bs, ls), c')" and "set vols \<subseteq> cn_ObjectUUID ` set (db_Connections (c_st c))"
  shows "map bs_Name bs = map backstoreName vols
    \<and> map (\<lambda>l. (lun_Index l, lun_Backstore l)) ls = map (\<lambda>v. (export_of (c_st c') v, backstoreName v)) vols
    \<and> (\<forall>v \<in> set vols. map_of (db_Exports (c_st c')) v = Some (export_of (c_st c') v))
    \<and> (\<forall>b \<in> set bs. \<exists>v idx. v \<in> set (db_Objects (c_st c)) \<and> ob_BlockSize v \<noteq> 0 \<and> ob_UUID v \<in> set vols
         \<and> b = desired_backstore c idx v \<and> map_of (db_Exports (c_st c')) (ob_UUID v) = Some idx)"
  using assms
proof (induction vols arbitrary: c bs ls)
  case (Cons vol vols)
  obtain idx st1 where x: "exportIndex (c_st c) vol = (idx, st1)" by fastforce
  then have st1: "st1 = snd (exportIndex (c_st c) vol)" and idx: "idx = fst (exportIndex (c_st c) vol)" by simp_all
  let ?c1 = "c\<lparr>c_st := st1\<rparr>"
  have conn: "vol \<in> cn_ObjectUUID ` set (db_Connections (c_st c))" using Cons.prems(2) by simp
  have g: "grown (c_st c) st1" unfolding st1 by (rule exportIndex_grown [OF conn])
  obtain v bs' ls' where v: "object (c_st c) vol = Some v" and bs0: "ob_BlockSize v \<noteq> 0"
    and rest: "desired_luns ?c1 vols = (Some (bs', ls'), c')"
    and bs: "bs = desired_backstore c idx v # bs'" and ls: "ls = \<lparr>lun_Index = idx, lun_Backstore = backstoreName vol\<rparr> # ls'"
    using Cons.prems(1) by (auto simp: x Let_def split: option.splits if_splits prod.splits)
  have vo: "v \<in> set (db_Objects (c_st c))" "ob_UUID v = vol" using object_Some [OF v] by auto
  have sub: "set vols \<subseteq> cn_ObjectUUID ` set (db_Connections (c_st ?c1))" using Cons.prems(2) g by (simp add: grown_sel)
  have "map_of (db_Exports st1) vol = Some idx" unfolding st1 idx by (rule exportIndex_lookup)
  then have at: "map_of (db_Exports (c_st c')) vol = Some idx"
    using desired_luns_grown [OF rest sub] grown_exports by (metis coord.select_convs(3) coord.surjective coord.update_convs(3))
  have same: "desired_backstore ?c1 = desired_backstore c" by (simp add: desired_backstore_def fun_eq_iff)
  have IH: "map bs_Name bs' = map backstoreName vols"
    "map (\<lambda>l. (lun_Index l, lun_Backstore l)) ls' = map (\<lambda>v. (export_of (c_st c') v, backstoreName v)) vols"
    "\<forall>v \<in> set vols. map_of (db_Exports (c_st c')) v = Some (export_of (c_st c') v)"
    and IHb: "\<forall>b \<in> set bs'. \<exists>v idx. v \<in> set (db_Objects (c_st c)) \<and> ob_BlockSize v \<noteq> 0 \<and> ob_UUID v \<in> set vols
         \<and> b = desired_backstore c idx v \<and> map_of (db_Exports (c_st c')) (ob_UUID v) = Some idx"
    using Cons.IH [OF rest sub] grown_sel(1) [OF g] by (simp_all add: same)
  have name: "bs_Name (desired_backstore c idx v) = backstoreName vol" using vo(2) by (simp add: desired_backstore_def)
  have exp: "export_of (c_st c') vol = idx" using at by (simp add: export_of_def)
  have "\<forall>b \<in> set bs. \<exists>v idx. v \<in> set (db_Objects (c_st c)) \<and> ob_BlockSize v \<noteq> 0 \<and> ob_UUID v \<in> set (vol # vols)
         \<and> b = desired_backstore c idx v \<and> map_of (db_Exports (c_st c')) (ob_UUID v) = Some idx"
    unfolding bs using IHb vo bs0 at by (metis list.set_intros(1,2) set_ConsD)
  then show ?case
    using IH at name exp by (simp add: bs ls)
qed auto

lemma desiredLIO_shape:
  assumes "desiredLIO env c = (Some cfg, c')" and "range_ok env"
  shows "\<exists>bs ls t g. desired_luns c (e_range env (c_kern c) (exported c)) = (Some (bs, ls), c')
    \<and> set (e_range env (c_kern c) (exported c)) = set (exported c)
    \<and> set (e_range env (c_kern c) (exported c)) \<subseteq> cn_ObjectUUID ` set (db_Connections (c_st c))
    \<and> cfg_Backstores cfg = bs \<and> cfg_Targets cfg = [t] \<and> tgt_TPGs t = [g] \<and> tpg_LUNs g = ls
    \<and> tpg_ACLs g = desired_acls (c_st c') (exported c)"
proof -
  obtain bs ls where luns: "desired_luns c (e_range env (c_kern c) (exported c)) = (Some (bs, ls), c')"
    using assms(1) by (auto simp: desiredLIO_def Let_def split: option.splits prod.splits)
  with assms(1) have "cfg_Backstores cfg = bs" "\<exists>t g. cfg_Targets cfg = [t] \<and> tgt_TPGs t = [g] \<and> tpg_LUNs g = ls
    \<and> tpg_ACLs g = desired_acls (c_st c') (exported c)"
    by (auto simp: desiredLIO_def Let_def)
  then show ?thesis
    using luns range_set [OF assms(2)] exported_connected by fastforce
qed

lemma desired_names:
  assumes "desiredLIO env c = (Some cfg, c')" and "range_ok env"
  shows "bs_Name ` set (cfg_Backstores cfg) = backstoreName ` set (exported c)"
proof -
  obtain bs ls where luns: "desired_luns c (e_range env (c_kern c) (exported c)) = (Some (bs, ls), c')"
    and vs: "set (e_range env (c_kern c) (exported c)) = set (exported c)" and cfg: "cfg_Backstores cfg = bs"
    using desiredLIO_shape [OF assms(1,2)] by blast
  show ?thesis
    unfolding cfg using arg_cong [OF conjunct1 [OF desired_luns_shape [OF luns]], of set] exported_connected [of c] vs by simp
qed

lemma bex_desired_mapped:
  "(\<exists>m \<in> set (desired_mapped st exp u). P m) \<longleftrightarrow> (\<exists>cn \<in> set (db_Connections st). cn_HostUUID cn = u
     \<and> cn_ObjectUUID cn \<in> set exp \<and> P \<lparr>ml_Index = cn_LUN cn, ml_TPGLUN = export_of st (cn_ObjectUUID cn), ml_WriteProtect = False\<rparr>)"
  by (auto simp: desired_mapped_def export_of_def)

lemma bex_desired_acls:
  "(\<exists>a \<in> set (desired_acls st exp). P a) \<longleftrightarrow> (\<exists>h \<in> set (db_Hosts st). \<exists>q \<in> set (h_IQNs h).
     P \<lparr>acl_InitiatorIQN = q, acl_MappedLUNs = desired_mapped st exp (h_UUID h)\<rparr>)"
  by (auto simp: desired_acls_def)

lemma sees_desired:
  assumes "desiredLIO env c = (Some cfg, c')" and env: "range_ok env" and "loadable (c_st c)" and "has_room (c_st c)"
  shows "sees cfg iqn lun name \<longleftrightarrow> (\<exists>h \<in> set (db_Hosts (c_st c)). \<exists>cn \<in> set (db_Connections (c_st c)).
      iqn \<in> set (h_IQNs h) \<and> cn_HostUUID cn = h_UUID h \<and> cn_LUN cn = lun \<and> cn_ObjectUUID cn \<in> set (exported c)
      \<and> name = backstoreName (cn_ObjectUUID cn))"
proof -
  obtain bs ls t g0 where luns: "desired_luns c (e_range env (c_kern c) (exported c)) = (Some (bs, ls), c')"
    and vs: "set (e_range env (c_kern c) (exported c)) = set (exported c)"
    and sub: "set (e_range env (c_kern c) (exported c)) \<subseteq> cn_ObjectUUID ` set (db_Connections (c_st c))"
    and cfg: "cfg_Targets cfg = [t]" "tgt_TPGs t = [g0]" "tpg_LUNs g0 = ls" "tpg_ACLs g0 = desired_acls (c_st c') (exported c)"
    using desiredLIO_shape [OF assms(1) env] by blast
  have g: "grown (c_st c) (c_st c')" "loadable (c_st c')" using desired_luns_grown [OF luns sub] assms(3,4) by auto
  have shape: "map (\<lambda>l. (lun_Index l, lun_Backstore l)) ls
      = map (\<lambda>v. (export_of (c_st c') v, backstoreName v)) (e_range env (c_kern c) (exported c))"
    and exp: "\<forall>v \<in> set (exported c). map_of (db_Exports (c_st c')) v = Some (export_of (c_st c') v)"
    using desired_luns_shape [OF luns sub] vs by auto
  have pairs: "(\<lambda>l. (lun_Index l, lun_Backstore l)) ` set ls = (\<lambda>v. (export_of (c_st c') v, backstoreName v)) ` set (exported c)"
    using arg_cong [OF shape, of set] vs by simp
  have lun: "(\<exists>l \<in> set ls. lun_Index l = i \<and> lun_Backstore l = n)
      \<longleftrightarrow> (\<exists>v \<in> set (exported c). export_of (c_st c') v = i \<and> backstoreName v = n)" for i n
  proof -
    have "(\<exists>l \<in> set ls. lun_Index l = i \<and> lun_Backstore l = n) \<longleftrightarrow> (i, n) \<in> (\<lambda>l. (lun_Index l, lun_Backstore l)) ` set ls" by auto
    also have "\<dots> \<longleftrightarrow> (\<exists>v \<in> set (exported c). export_of (c_st c') v = i \<and> backstoreName v = n)" unfolding pairs by auto
    finally show ?thesis .
  qed
  have dist: "distinct (map snd (db_Exports (c_st c')))" using g(2) by (simp add: loadable_iff valid_db_def valid_exports_def)
  have inj: "v = u" if "v \<in> set (exported c)" "u \<in> set (exported c)" "export_of (c_st c') v = export_of (c_st c') u" for u v
    using map_of_inj [OF dist, of v _ u] exp that by metis
  have at: "(\<exists>v \<in> set (exported c). export_of (c_st c') v = export_of (c_st c') u \<and> backstoreName v = name)
      \<longleftrightarrow> backstoreName u = name" if "u \<in> set (exported c)" for u name
    using that inj by blast
  have lun_at: "(\<exists>l \<in> set ls. lun_Index l = export_of (c_st c') u \<and> lun_Backstore l = name) \<longleftrightarrow> backstoreName u = name"
    if "u \<in> set (exported c)" for u name
    unfolding lun by (rule at [OF that])
  have "sees cfg iqn lun name \<longleftrightarrow> (\<exists>h \<in> set (db_Hosts (c_st c')). \<exists>cn \<in> set (db_Connections (c_st c')).
      iqn \<in> set (h_IQNs h) \<and> cn_HostUUID cn = h_UUID h \<and> cn_ObjectUUID cn \<in> set (exported c) \<and> cn_LUN cn = lun
      \<and> (\<exists>l \<in> set ls. lun_Index l = export_of (c_st c') (cn_ObjectUUID cn) \<and> lun_Backstore l = name))"
    by (simp add: sees_def cfg bex_desired_acls bex_desired_mapped)
  then show ?thesis
    unfolding grown_sel [OF g(1)] by (simp add: lun_at cong: conj_cong) (simp add: conj_ac eq_commute)
qed

section \<open>Properties\<close>

text \<open>An appliance with one volume, connected to one host at LUN 3, and an idle kernel.\<close>

definition demo_volume :: Object where
  "demo_volume = \<lparr>ob_UUID = ''6ba7b810-9dad-41d1-80b4-00c04fd430c8'', ob_Name = ''data'', ob_Kind = KindVolume,
     ob_WWN = ''6ba7b8109dad41d1'', ob_Capacity = 1048576, ob_BlockSize = 4096, ob_Created = 0,
     ob_State = stateReady, ob_Source = ''''\<rparr>"

definition demo_host :: Host where
  "demo_host = \<lparr>h_UUID = ''6ba7b811-9dad-41d1-80b4-00c04fd430c8'', h_Name = ''node1'',
     h_IQNs = [''iqn.1993-08.org.debian:01:a'']\<rparr>"

definition demo_db :: db where
  "demo_db = \<lparr>db_Version = 1, db_Objects = [demo_volume], db_Hosts = [demo_host],
     db_Connections = [\<lparr>cn_ObjectUUID = ob_UUID demo_volume, cn_HostUUID = h_UUID demo_host, cn_LUN = 3\<rparr>],
     db_Exports = [(ob_UUID demo_volume, 0)], db_Portals = [\<lparr>po_IP = V4 0x0a000001, po_Port = 3260\<rparr>],
     db_TargetIQN = ''iqn.2003-01.org.example:t'', db_MachineID = ''0123456789abcdef0123456789abcdef''\<rparr>"

definition demo_health :: health where
  "demo_health = \<lparr>hl_healthErr = None, hl_prUnbound = [], hl_prStranded = [], hl_prStrandUndecided = [], hl_drift = [],
     hl_withheldNames = [], hl_clearing = '''', hl_backupErr = None, hl_portalFlagIgnored = False,
     hl_iqnFlagIgnored = False, hl_prCheckedAt = 0\<rparr>"

definition demo :: "unit coord" where
  "demo = \<lparr>c_cfg = \<lparr>ac_TargetIQN = ''iqn.2003-01.org.example:t'', ac_Portals = [\<lparr>po_IP = V4 0x0a000001, po_Port = 3260\<rparr>],
       ac_DBRoot = '''', ac_MachineIDPath = '''', ac_WriteBack = False, ac_NoUnmap = False\<rparr>,
     c_dbPath = ''/srv/appliance.json'', c_st = demo_db, c_applied = None, c_withheld = [], c_prClearing = '''',
     c_lastReconcileErr = None, c_health = demo_health,
     c_store = \<lparr>s_root = ''/srv'', s_dirs = [(ob_UUID demo_volume, Some 1048576)], s_quarantined = []\<rparr>,
     c_disk = Stored demo_db, c_backups = [], c_prfiles = [], c_os = quiet_os, c_kern = ()\<rparr>"

definition idle_env :: "'k env" where
  "idle_env = \<lparr>e_range = (\<lambda>k xs. xs), e_Sync = (\<lambda>cfg k. ((\<lparr>rep_Changes = [], rep_Drift = [], rep_APTPLUnbound = []\<rparr>, None), k)),
     e_ApplyDelta = (\<lambda>cfg d k. ((\<lparr>rep_Changes = [], rep_Drift = [], rep_APTPLUnbound = []\<rparr>, None), k)),
     e_VerifyAPTPL = (\<lambda>cfg k. []), e_StrandedReservations = (\<lambda>cfg k. \<lparr>st_Stranded = [], st_Undecided = []\<rparr>), e_VerifyDrift = (\<lambda>cfg k. []),
     e_ReservationHolder = (\<lambda>b k. Inr \<lparr>rv_Holder = '''', rv_ISID = '''', rv_Type = '''', rv_SPC2 = False\<rparr>),
     e_PRState = (\<lambda>b k. Inr \<lparr>pr_Registrations = [], pr_Holder = '''', pr_HolderKnown = True, pr_Type = '''',
        pr_APTPLActive = False, pr_Truncated = False\<rparr>),
     e_Discover = (\<lambda>k. Inr \<lparr>cfg_Backstores = [], cfg_Targets = []\<rparr>)\<rparr>"

lemma range_ok_idle [simp]: "range_ok idle_env"
  by (simp add: range_ok_def idle_env_def)

lemma validUUID_demo [simp]:
  "validUUID ''6ba7b810-9dad-41d1-80b4-00c04fd430c8''" "validUUID ''6ba7b811-9dad-41d1-80b4-00c04fd430c8''"
  by (simp_all add: validUUID_def upt_rec isHexDigit_def)

lemma valid_demo_names [simp]: "validName ''data'' = None" "validName ''node1'' = None"
  by (simp_all add: validName_def maxNameLen_def bad_name_char_def go_eval)

lemma valid_demo_iqn [simp]: "ValidInitiatorIQN ''iqn.1993-08.org.debian:01:a''" "ValidTargetIQN ''iqn.2003-01.org.example:t''"
  by (simp_all add: ValidInitiatorIQN_def ValidTargetIQN_def validIQNSeg_def maxIQNLen_def bad_iqn_char_def go_eval)

lemma demo_loadable [simp]: "loadable demo_db"
  by (simp add: loadable_iff demo_db_def dbVersion_def valid_db_def valid_objects_def valid_hosts_def
      valid_connections_def valid_exports_def demo_volume_def demo_host_def known_kind_def maxLUN_def)

lemma demo_room [simp]: "has_room demo_db"
  by (simp add: has_room_def export_room_def demo_db_def)

lemma demo_sane [simp]: "sane_db demo_db"
  by (simp add: sane_db_def demo_db_def sane_object_def demo_volume_def isHex16_def isHexDigit_def)

lemma demo_st [simp]: "c_st demo = demo_db"
  by (simp add: demo_def)

lemma demo_portals [simp]: "valid_portals (portals demo)" "ValidTargetIQN (ac_TargetIQN (c_cfg demo))"
  by (simp_all add: demo_def portals_def demo_db_def valid_portals_def)



text \<open>C14. The configuration shows every initiator exactly what is connected to its host: an initiator sees
  a backstore at a LUN if and only if its name is bound to a host, that host has a connection at that
  LUN, and the connected object is exported (recorded, ready, not being cleared and not withheld).\<close>

theorem initiator_view_exact:
  assumes "desiredLIO env c = (Some cfg, c')" and "range_ok env" and "loadable (c_st c)" and "has_room (c_st c)"
  shows "sees cfg iqn lun name \<longleftrightarrow> (\<exists>h \<in> set (db_Hosts (c_st c)). \<exists>cn \<in> set (db_Connections (c_st c)).
      iqn \<in> set (h_IQNs h) \<and> cn_HostUUID cn = h_UUID h \<and> cn_LUN cn = lun \<and> cn_ObjectUUID cn \<in> set (exported c)
      \<and> name = backstoreName (cn_ObjectUUID cn))"
  by (rule sees_desired [OF assms])

lemma exported_demo [simp]: "exported demo = [ob_UUID demo_volume]"
  by (simp add: exported_def demo_def demo_db_def object_def) (simp add: demo_volume_def)

lemma initiator_view_exact_witness:
  "\<exists>cfg c'. desiredLIO idle_env demo = (Some cfg, c')
     \<and> sees cfg ''iqn.1993-08.org.debian:01:a'' 3 (backstoreName (ob_UUID demo_volume))
     \<and> \<not> sees cfg ''iqn.1993-08.org.debian:01:a'' 4 (backstoreName (ob_UUID demo_volume))"
proof -
  obtain cfg c' where d: "desiredLIO idle_env demo = (Some cfg, c')"
    using desired_config_valid [of demo idle_env] by auto
  show ?thesis
    using d initiator_view_exact [OF d] by simp (simp add: demo_db_def demo_host_def)
qed

text \<open>C16. An object that a failed clear left withheld, or that is being cleared, is in no configuration: it
  has neither a backstore nor a LUN, so that no reconcile can rebuild it and replay its reservations.\<close>

theorem withheld_never_exported:
  assumes "desiredLIO env c = (Some cfg, c')" and "range_ok env" and "loadable (c_st c)" and "has_room (c_st c)"
    and "validUUID u" and "u \<in> fst ` set (c_withheld c) \<or> u = c_prClearing c"
  shows "backstoreName u \<notin> bs_Name ` set (cfg_Backstores cfg) \<and> \<not> sees cfg iqn lun (backstoreName u)"
proof -
  have "u \<noteq> ''''" using validUUID_length [OF assms(5)] by auto
  then have out: "u \<notin> set (exported c)" using assms(6) by (auto simp: exported_def)
  have "backstoreName u \<noteq> backstoreName v" if v: "v \<in> set (exported c)" for v
  proof
    assume eq: "backstoreName u = backstoreName v"
    have "validUUID v" using loadable_connected(2) [OF assms(3)] exported_connected [of c] v by blast
    then have "u = v" using backstoreName_inj [OF assms(5) _ eq] by simp
    with out v show False by simp
  qed
  then have "\<forall>v \<in> set (exported c). backstoreName u \<noteq> backstoreName v" by blast
  moreover from this have "\<not> sees cfg iqn lun (backstoreName u)"
    unfolding sees_desired [OF assms(1-4)] by blast
  ultimately show ?thesis unfolding desired_names [OF assms(1,2)] by blast
qed

lemma withheld_never_exported_witness:
  "\<exists>cfg c'. desiredLIO idle_env (holdBack (ob_UUID demo_volume) ''data'' demo) = (Some cfg, c')
     \<and> backstoreName (ob_UUID demo_volume) \<notin> bs_Name ` set (cfg_Backstores cfg)"
proof -
  let ?c = "holdBack (ob_UUID demo_volume) ''data'' demo"
  have st: "c_st ?c = demo_db" "c_withheld ?c = [(ob_UUID demo_volume, ''data'')]" "portals ?c = portals demo"
    "c_cfg ?c = c_cfg demo"
    by (simp_all add: holdBack_def publishWithheld_def with_health_def demo_def portals_def)
  then obtain cfg c' where d: "desiredLIO idle_env ?c = (Some cfg, c')"
    using desired_config_valid [of ?c idle_env] by (auto simp: st)
  show ?thesis
    using d withheld_never_exported [OF d, of "ob_UUID demo_volume"] by (simp add: st) (simp add: demo_volume_def)
qed

text \<open>Every backstore of the desired configuration is that of a recorded object under its export index,
  its size is the capacity rounded down to whole blocks, it carries the object's WWN, and the write
  cache it advertises is the one it has: acknowledged writes never sit in a cache the initiator is not
  told about.\<close>

lemma desired_backstores_faithful:
  assumes "desiredLIO env c = (Some cfg, c')" and "range_ok env" and "b \<in> set (cfg_Backstores cfg)"
  shows "\<exists>v idx. v \<in> set (db_Objects (c_st c)) \<and> ob_UUID v \<in> set (exported c)
    \<and> map_of (db_Exports (c_st c')) (ob_UUID v) = Some idx \<and> bs_HBA b = idx \<and> bs_Name b = backstoreName (ob_UUID v)
    \<and> bs_WWN b = ob_WWN v \<and> bs_Dev b = DiskPath (c_store c) (ob_UUID v)
    \<and> ob_BlockSize v dvd bs_Size b
    \<and> (0 \<le> ob_Capacity v \<longrightarrow> bs_Size b \<le> ob_Capacity v \<and> ob_Capacity v < bs_Size b + \<bar>ob_BlockSize v\<bar>)
    \<and> map_of (bs_Attributes b) ''block_size'' = Some (itoa (ob_BlockSize v))
    \<and> map_of (bs_Attributes b) ''emulate_write_cache'' = Some (boolAttr (bs_BufferedIO b)) \<and> bs_Type b = FileIO"
proof -
  obtain bs ls where luns: "desired_luns c (e_range env (c_kern c) (exported c)) = (Some (bs, ls), c')"
    and vs: "set (e_range env (c_kern c) (exported c)) = set (exported c)" and cfg: "cfg_Backstores cfg = bs"
    using desiredLIO_shape [OF assms(1,2)] by blast
  have sub: "set (e_range env (c_kern c) (exported c)) \<subseteq> cn_ObjectUUID ` set (db_Connections (c_st c))"
    using vs exported_connected by simp
  obtain v idx where v: "v \<in> set (db_Objects (c_st c))" "ob_BlockSize v \<noteq> 0" "ob_UUID v \<in> set (exported c)"
    "b = desired_backstore c idx v" "map_of (db_Exports (c_st c')) (ob_UUID v) = Some idx"
    using desired_luns_shape [OF luns sub] assms(3) unfolding cfg vs by blast
  have "0 \<le> ob_Capacity v \<longrightarrow> 0 \<le> go_rem (ob_Capacity v) (ob_BlockSize v) \<and> go_rem (ob_Capacity v) (ob_BlockSize v) < \<bar>ob_BlockSize v\<bar>"
    using v(2) by (simp add: go_rem_def)
  then have rest: "bs_HBA b = idx" "bs_Name b = backstoreName (ob_UUID v)" "bs_WWN b = ob_WWN v"
    "bs_Dev b = DiskPath (c_store c) (ob_UUID v)" "ob_BlockSize v dvd bs_Size b"
    "0 \<le> ob_Capacity v \<longrightarrow> bs_Size b \<le> ob_Capacity v \<and> ob_Capacity v < bs_Size b + \<bar>ob_BlockSize v\<bar>"
    "map_of (bs_Attributes b) ''block_size'' = Some (itoa (ob_BlockSize v))"
    "map_of (bs_Attributes b) ''emulate_write_cache'' = Some (boolAttr (bs_BufferedIO b))" "bs_Type b = FileIO"
    using go_rem_dvd by (auto simp: v(4) desired_backstore_def)
  show ?thesis
    by (intro exI [of _ v] exI [of _ idx]) (use v(1,3,5) rest in simp)
qed

text \<open>Export indices are allocated as documented: an object that has one keeps it; otherwise it gets
  the lowest index not in use, the index is recorded, and no other object's index changes.\<close>

lemma exportIndex_spec:
  assumes "exportIndex st u = (idx, st')"
  shows "map_of (db_Exports st') u = Some idx
    \<and> (\<forall>v i. v \<noteq> u \<longrightarrow> map_of (db_Exports st') v = map_of (db_Exports st) v)
    \<and> (case map_of (db_Exports st) u of
         Some i \<Rightarrow> idx = i \<and> st' = st
       | None \<Rightarrow> 0 \<le> idx \<and> idx \<notin> snd ` set (db_Exports st) \<and> (\<forall>i. 0 \<le> i \<and> i < idx \<longrightarrow> i \<in> snd ` set (db_Exports st)))"
proof (cases "map_of (db_Exports st) u")
  case None
  then have "st' = st\<lparr>db_Exports := db_Exports st @ [(u, idx)]\<rparr>" and idx: "idx = lowest_free (map snd (db_Exports st)) 0"
    using assms by (auto simp: exportIndex_def Let_def)
  then show ?thesis
    using None lowest_free_props [of "map snd (db_Exports st)" 0]
    by (auto simp: map_add_def split: option.split)
next
  case (Some i)
  then show ?thesis using assms by (simp add: exportIndex_def)
qed

text \<open>The allocation has no upper bound: when every index up to the largest LUN is in use, the next
  object gets an index beyond it, and the database that records it is refused at the next start.\<close>

lemma exportIndex_overflow:
  assumes "{0..maxLUN} \<subseteq> snd ` set (db_Exports st)" and "map_of (db_Exports st) u = None"
  shows "maxLUN < fst (exportIndex st u) \<and> validateLoaded (snd (exportIndex st u)) \<noteq> None"
proof -
  let ?idx = "lowest_free (map snd (db_Exports st)) 0"
  have "?idx \<notin> {0..maxLUN}" "0 \<le> ?idx" using assms(1) lowest_free_props [of "map snd (db_Exports st)" 0] by auto
  then have big: "maxLUN < ?idx" by auto
  then have "\<not> valid_exports (db_Exports st @ [(u, ?idx)])" by (auto simp: valid_exports_def)
  then show ?thesis
    using big assms(2) by (simp add: exportIndex_def Let_def validateLoaded_ok valid_db_def)
qed

lemma exportIndex_overflow_witness:
  "maxLUN < fst (exportIndex (demo_db\<lparr>db_Exports := map (\<lambda>i. (''x'' @ itoa i, i)) [0..maxLUN]\<rparr>) ''c'')"
proof -
  let ?st = "demo_db\<lparr>db_Exports := map (\<lambda>i. (''x'' @ itoa i, i)) [0..maxLUN]\<rparr>"
  have "{0..maxLUN} \<subseteq> snd ` set (db_Exports ?st)" by force
  moreover have "map_of (db_Exports ?st) ''c'' = None" by (auto simp: map_of_eq_None_iff)
  ultimately show ?thesis using exportIndex_overflow [of ?st "''c''"] by simp
qed

text \<open>A record with block size zero, which loading accepts, takes the whole appliance down: as soon as
  such an object is exported, every translation panics with a division by zero, whatever else the
  database holds.\<close>

lemma zero_block_size_panics:
  assumes "range_ok env" and "object (c_st c) u = Some v" and "ob_BlockSize v = 0" and "u \<in> set (exported c)"
  shows "fst (desiredLIO env c) = None \<and> fst (reconcile env c) = Some Panicked"
proof -
  have none: "fst (desired_luns c vols) = None"
    if "u \<in> set vols" "object (c_st c) u = Some v" "set vols \<subseteq> cn_ObjectUUID ` set (db_Connections (c_st c))" for vols and c :: "'a coord"
    using that
  proof (induction vols arbitrary: c)
    case (Cons w vols)
    obtain idx st1 where x: "exportIndex (c_st c) w = (idx, st1)" by fastforce
    then have st1: "st1 = snd (exportIndex (c_st c) w)" by simp
    have "object st1 u = Some v" using Cons.prems(2) by (simp add: object_def st1)
    then have "u \<in> set vols \<Longrightarrow> fst (desired_luns (c\<lparr>c_st := st1\<rparr>) vols) = None"
      using Cons.IH [of "c\<lparr>c_st := st1\<rparr>"] Cons.prems(3) st1 by simp
    then show ?case
      using Cons.prems(1,2) assms(3) by (auto simp: x Let_def split: option.split prod.split if_splits)
  qed simp
  have "fst (desired_luns c (e_range env (c_kern c) (exported c))) = None"
    using none [of "e_range env (c_kern c) (exported c)" c] assms range_set [OF assms(1)] exported_connected [of c] by simp
  then have "fst (desiredLIO env c) = None"
    by (cases "desired_luns c (e_range env (c_kern c) (exported c))") (simp add: desiredLIO_def)
  then show ?thesis
    by (cases "desiredLIO env c") (simp add: reconcile_def)
qed

definition demo_zero :: "unit coord" where
  "demo_zero = demo\<lparr>c_st := demo_db\<lparr>db_Objects := [demo_volume\<lparr>ob_BlockSize := 0\<rparr>]\<rparr>\<rparr>"

lemma zero_block_size_panics_witness:
  "loadable (c_st demo_zero) \<and> fst (reconcile idle_env demo_zero) = Some Panicked"
proof -
  have "loadable (c_st demo_zero)"
    by (simp add: demo_zero_def loadable_iff demo_db_def dbVersion_def valid_db_def valid_objects_def valid_hosts_def
        valid_connections_def valid_exports_def demo_volume_def demo_host_def known_kind_def maxLUN_def)
  moreover have "object (c_st demo_zero) (ob_UUID demo_volume) = Some (demo_volume\<lparr>ob_BlockSize := 0\<rparr>)"
    by (simp add: demo_zero_def object_def)
  moreover have "ob_UUID demo_volume \<in> set (exported demo_zero)"
    by (simp add: exported_def demo_zero_def demo_def demo_db_def object_def) (simp add: demo_volume_def)
  ultimately show ?thesis
    using zero_block_size_panics [of idle_env demo_zero "ob_UUID demo_volume" "demo_volume\<lparr>ob_BlockSize := 0\<rparr>"] by simp
qed

end
