(* ===== verification/Appliance_Commit.thy ===== *)
theory Appliance_Commit
  imports Appliance_Export
begin

text \<open>
  What the coordinator's internal operations guarantee: how the database file changes, what a reconcile
  leaves of the cached view, and the outcomes of \<open>commit\<close> and \<open>persistOnly\<close>. The locale
  \<open>safe_mutation\<close> is the contract between them and the API operations: a mutation that keeps the
  database good is committed so that memory and file stay good under every failure.
\<close>

section \<open>Frames\<close>

text \<open>What neither a reconcile nor a write of the database touches.\<close>

definition frame :: "'k coord \<Rightarrow> 'k coord \<Rightarrow> bool" where
  "frame c c' \<longleftrightarrow> c_cfg c' = c_cfg c \<and> c_dbPath c' = c_dbPath c \<and> c_withheld c' = c_withheld c
     \<and> c_prClearing c' = c_prClearing c \<and> c_store c' = c_store c \<and> c_prfiles c' = c_prfiles c"

lemma frame_refl [simp]: "frame c c"
  by (simp add: frame_def)

lemma frame_trans: "frame a b \<Longrightarrow> frame b c \<Longrightarrow> frame a c"
  by (simp add: frame_def)

lemma frame_update [simp]:
  "frame c (c\<lparr>c_st := s\<rparr>)" "frame c (c\<lparr>c_kern := k\<rparr>)" "frame c (c\<lparr>c_applied := a\<rparr>)"
  "frame c (c\<lparr>c_lastReconcileErr := e\<rparr>)" "frame c (c\<lparr>c_disk := d\<rparr>)" "frame c (c\<lparr>c_os := w\<rparr>)"
  "frame c (c\<lparr>c_backups := b\<rparr>)" "frame c (with_health f c)" "frame c (c\<lparr>c_health := h\<rparr>)"
  by (simp_all add: frame_def with_health_def)

text \<open>The parts of the coordinator that reconciling leaves alone but for the allocated indices.\<close>

definition settled :: "'k coord \<Rightarrow> 'k coord \<Rightarrow> bool" where
  "settled c c' \<longleftrightarrow> frame c c' \<and> c_disk c' = c_disk c \<and> c_backups c' = c_backups c \<and> c_os c' = c_os c
     \<and> grown (c_st c) (c_st c') \<and> (loadable (c_st c) \<and> has_room (c_st c) \<longrightarrow> loadable (c_st c') \<and> has_room (c_st c'))"

lemma desiredLIO_settled:
  assumes "desiredLIO env c = (r, c')" and "range_ok env"
  shows "settled c c' \<and> c_applied c' = c_applied c \<and> c_lastReconcileErr c' = c_lastReconcileErr c
    \<and> c_health c' = c_health c \<and> c_kern c' = c_kern c"
proof -
  have g: "c' = c\<lparr>c_st := c_st c'\<rparr>" "grown (c_st c) (c_st c')"
    "loadable (c_st c) \<and> has_room (c_st c) \<longrightarrow> loadable (c_st c') \<and> has_room (c_st c')"
    using desiredLIO_grown [OF assms] by auto
  have "frame c c' \<and> c_disk c' = c_disk c \<and> c_backups c' = c_backups c \<and> c_os c' = c_os c \<and> c_applied c' = c_applied c
    \<and> c_lastReconcileErr c' = c_lastReconcileErr c \<and> c_health c' = c_health c \<and> c_kern c' = c_kern c"
    by (subst g(1), subst (2) g(1), subst (3) g(1), subst (4) g(1), subst (5) g(1), subst (6) g(1), subst (7) g(1),
        subst (8) g(1)) simp
  then show ?thesis using g(2,3) by (auto simp: settled_def)
qed

lemma settled_trans: "settled a b \<Longrightarrow> settled b c \<Longrightarrow> settled a c"
  by (auto simp: settled_def intro: frame_trans grown_trans)

lemma settled_refl [simp]: "settled c c"
  by (simp add: settled_def)

lemma setReconcile_sel [simp]:
  "c_st (setReconcileErr e c) = c_st c" "c_disk (setReconcileErr e c) = c_disk c" "c_applied (setReconcileErr e c) = c_applied c"
  "c_lastReconcileErr (setReconcileErr e c) = Some e" "settled c (setReconcileErr e c)"
  "hl_healthErr (c_health (setReconcileErr e c)) = Some e"
  "c_st (setReconcileOK u s n d c) = c_st c" "c_disk (setReconcileOK u s n d c) = c_disk c"
  "c_applied (setReconcileOK u s n d c) = c_applied c" "c_lastReconcileErr (setReconcileOK u s n d c) = None"
  "settled c (setReconcileOK u s n d c)" "hl_healthErr (c_health (setReconcileOK u s n d c)) = None"
  by (simp_all add: setReconcileErr_def setReconcileOK_def publishReconcile_def publishReconcileFailure_def
      with_health_def settled_def frame_def)

lemma settled_update [simp]: "settled c (c\<lparr>c_kern := k\<rparr>)" "settled c (c\<lparr>c_applied := a\<rparr>)" "settled c (c\<lparr>c_kern := k, c_applied := a\<rparr>)"
  by (simp_all add: settled_def frame_def)

lemma settled_set [simp]:
  "settled c (setReconcileErr e (c\<lparr>c_kern := k, c_applied := a\<rparr>))"
  "settled c (setReconcileOK u s n d (c\<lparr>c_kern := k, c_applied := a\<rparr>))"
  by (rule settled_trans [where b = "c\<lparr>c_kern := k, c_applied := a\<rparr>"]; simp)+

text \<open>
  The verdict and the cached view after a reconcile: success caches what was applied and clears the
  verdict, failure forgets the cache and records the error in both places.
\<close>

definition verdict :: "op_error option \<Rightarrow> 'k coord \<Rightarrow> bool" where
  "verdict r c' \<longleftrightarrow> (case r of
     None \<Rightarrow> c_lastReconcileErr c' = None \<and> c_applied c' \<noteq> None \<and> Healthy c'
   | Some e \<Rightarrow> e \<noteq> Panicked \<longrightarrow> c_lastReconcileErr c' = Some e \<and> c_applied c' = None \<and> \<not> Healthy c')"

lemma reconcileFull_settled:
  assumes "reconcileFull env desired c = (r, c')"
  shows "settled c c' \<and> verdict r c' \<and> r \<noteq> Some Panicked"
proof -
  obtain rep err k where s: "e_Sync env desired (c_kern c) = ((rep, err), k)" by (metis prod.collapse)
  show ?thesis
    using assms by (cases err) (auto simp: reconcileFull_def s verdict_def Healthy_def)
qed

lemma reconcileDelta_settled:
  assumes "reconcileDelta env desired delta c = (r, c')"
  shows "settled c c' \<and> verdict r c' \<and> r \<noteq> Some Panicked"
proof -
  obtain rep err k where s: "e_ApplyDelta env desired delta (c_kern c) = ((rep, err), k)" by (metis prod.collapse)
  consider "err = None" | "err = Some StaleScope" | e where "err = Some (EngineFailed e)"
    by (metis engine_error.exhaust not_Some_eq)
  then show ?thesis
  proof cases
    case 2
    then have "reconcileFull env desired (c\<lparr>c_kern := k, c_applied := None\<rparr>) = (r, c')"
      using assms by (simp add: reconcileDelta_def s)
    from reconcileFull_settled [OF this] show ?thesis by (auto intro: settled_trans [OF settled_update(3)])
  qed (use assms in \<open>auto simp: reconcileDelta_def s verdict_def Healthy_def Let_def\<close>)
qed

lemma reconcile_settled:
  assumes "reconcile env c = (r, c')" and "range_ok env"
  shows "settled c c' \<and> verdict r c' \<and> (r = Some Panicked \<longrightarrow> fst (desiredLIO env c) = None)"
proof -
  obtain d c1 where d: "desiredLIO env c = (d, c1)" by fastforce
  have s: "settled c c1" using desiredLIO_settled [OF d assms(2)] by simp
  show ?thesis
  proof (cases d)
    case None
    then show ?thesis using assms(1) d s by (auto simp: reconcile_def verdict_def)
  next
    case (Some desired)
    then consider "reconcileFull env desired c1 = (r, c')" | delta where "reconcileDelta env desired delta c1 = (r, c')"
      using assms(1) d by (auto simp: reconcile_def split: option.splits)
    then show ?thesis
      by cases (use s d Some in \<open>auto dest!: reconcileFull_settled reconcileDelta_settled intro: settled_trans\<close>)
  qed
qed

lemma healIfDegraded_settled:
  assumes "healIfDegraded env c = (r, c')" and "range_ok env"
  shows "settled c c' \<and> (r = None \<longrightarrow> c_lastReconcileErr c' = None)"
proof (cases "c_lastReconcileErr c")
  case (Some e)
  obtain q c1 where q: "reconcile env c = (q, c1)" by fastforce
  have "c' = c1" "r = None \<longrightarrow> q = None"
    using assms(1) Some q by (auto simp: healIfDegraded_def split: option.splits op_error.splits)
  then show ?thesis using reconcile_settled [OF q assms(2)] by (auto simp: verdict_def)
qed (use assms(1) in \<open>simp add: healIfDegraded_def\<close>)

section \<open>The database file\<close>

text \<open>Taking a backup and the writes that precede the rename touch neither the state nor the file.\<close>

definition writing :: "'k coord \<Rightarrow> 'k coord \<Rightarrow> bool" where
  "writing c c' \<longleftrightarrow> frame c c' \<and> c_st c' = c_st c \<and> c_disk c' = c_disk c \<and> c_applied c' = c_applied c
     \<and> c_lastReconcileErr c' = c_lastReconcileErr c \<and> c_kern c' = c_kern c"

lemma writing_refl [simp]: "writing c c"
  by (simp add: writing_def)

lemma writing_trans: "writing a b \<Longrightarrow> writing b c \<Longrightarrow> writing a c"
  by (auto simp: writing_def intro: frame_trans)

lemma writing_update [simp]: "writing c (c\<lparr>c_os := w\<rparr>)" "writing c (c\<lparr>c_backups := b\<rparr>)"
  by (simp_all add: writing_def)

lemma c_syscall_writing: "c_syscall c = (f, c') \<Longrightarrow> writing c c'"
  by (auto simp: c_syscall_def split: prod.splits)

lemma write_tmp_writing: "write_tmp c = (f, c') \<Longrightarrow> writing c c'"
  by (auto simp: write_tmp_def split: prod.splits)

lemma sync_db_dir_writing: "sync_db_dir c = (f, c') \<Longrightarrow> writing c c'"
  by (auto simp: sync_db_dir_def split: prod.splits)

lemma linkBackup_writing:
  assumes "linkBackup c = (f, c')" shows "writing c c'"
proof -
  obtain g c1 where g: "c_syscall c = (g, c1)" by fastforce
  have "c' = c1 \<or> (\<exists>b. c' = c1\<lparr>c_backups := b\<rparr>)"
    using assms by (auto simp: linkBackup_def g Let_def split: option.splits errno.splits if_splits)
  then show ?thesis using c_syscall_writing [OF g] by (auto intro: writing_trans)
qed

lemma remove_backups_writing: "remove_backups ns c = (f, c') \<Longrightarrow> writing c c'"
proof (induction ns arbitrary: c)
  case (Cons n ns)
  obtain g c1 where g: "c_syscall c = (g, c1)" by fastforce
  have w: "writing c c1" using c_syscall_writing [OF g] .
  let ?c2 = "c1\<lparr>c_backups := filter (\<lambda>b. fst b \<noteq> n) (c_backups c1)\<rparr>"
  consider "c' = c1" | "remove_backups ns c1 = (f, c')" | "remove_backups ns ?c2 = (f, c')"
    using Cons.prems by (auto simp: g split: option.splits if_splits)
  then show ?case
    by cases (use w Cons.IH writing_trans writing_update(2) in blast)+
qed simp

lemma pruneBackups_writing:
  assumes "pruneBackups keep c = (f, c')" shows "writing c c'"
proof -
  obtain g c1 where g: "c_syscall c = (g, c1)" by fastforce
  have w: "writing c c1" using c_syscall_writing [OF g] .
  have "c' = c1 \<or> (\<exists>ns. remove_backups ns c1 = (f, c'))"
    using assms by (auto simp: pruneBackups_def g Let_def split: option.splits if_splits)
  then show ?thesis using w remove_backups_writing writing_trans by blast
qed

lemma take_backup_writing:
  assumes "take_backup c = (f, c')" shows "writing c c'"
proof -
  obtain g c1 where g: "linkBackup c = (g, c1)" by fastforce
  have "c' = c1 \<or> pruneBackups dbBackupsKept c1 = (f, c')"
    using assms by (auto simp: take_backup_def g split: option.splits)
  then show ?thesis using linkBackup_writing [OF g] pruneBackups_writing writing_trans by blast
qed
lemma persist_cases:
  assumes "persist c = (r, c')"
  shows "frame c c' \<and> c_st c' = c_st c \<and> c_applied c' = c_applied c \<and> c_lastReconcileErr c' = c_lastReconcileErr c
    \<and> c_kern c' = c_kern c \<and> r \<noteq> Some Panicked
    \<and> (case r of None \<Rightarrow> c_disk c' = Stored (c_st c)
       | Some e \<Rightarrow> c_disk c' = (if not_durable e then Stored (c_st c) else c_disk c))"
proof (cases "c_dbPath c = ''''")
  case True
  then show ?thesis using assms by (auto simp: persist_def)
next
  case False
  obtain f1 c1 where f1: "take_backup c = (f1, c1)" by fastforce
  obtain f2 c2 where f2: "write_tmp c1 = (f2, c2)" by fastforce
  obtain f3 c3 where f3: "c_syscall c2 = (f3, c3)" by fastforce
  let ?c4 = "with_health (\<lambda>h. h\<lparr>hl_backupErr := f1\<rparr>) (c3\<lparr>c_disk := Stored (c_st c3)\<rparr>)"
  obtain f4 c5 where f4: "sync_db_dir ?c4 = (f4, c5)" by fastforce
  have w: "writing c c2" "writing c c3" "writing ?c4 c5"
    using take_backup_writing [OF f1] write_tmp_writing [OF f2] c_syscall_writing [OF f3] sync_db_dir_writing [OF f4]
      writing_trans by blast+
  consider e where "r = Some (PersistFailed e)" "c' = c2" | e where "r = Some (PersistFailed e)" "c' = c3"
    | e where "r = Some (PersistedNotDurable e)" "c' = c5" | "r = None" "c' = c5"
    using assms False by (auto simp: persist_def f1 f2 f3 f4 Let_def split: option.splits)
  then show ?thesis
    by cases (use w in \<open>auto simp: writing_def frame_def with_health_def\<close>)
qed

section \<open>Committing\<close>

text \<open>The outcomes of \<open>persistOnly\<close>: rolled back with the file unchanged, or written.\<close>

lemma persistOnly_cases:
  assumes "persistOnly mutate c = (r, c')"
  obtains (rolled_back) e where "r = Some e" "e \<noteq> Panicked \<or> fst (mutate (c_st c)) = Some e" "frame c c'" "c_disk c' = c_disk c" "c_st c' = snapshotState (c_st c)"
    | (written) st where "mutate (c_st c) = (None, st)" "frame c c'" "c_disk c' = Stored st" "c_st c' = st"
      "r = None \<or> (\<exists>e. r = Some (PersistedNotDurable e))"
proof -
  obtain x st where m: "mutate (c_st c) = (x, st)" by fastforce
  obtain q c1 where q: "persist (c\<lparr>c_st := st\<rparr>) = (q, c1)" by fastforce
  have p: "frame c c1" "c_st c1 = st" "q \<noteq> Some Panicked"
    "case q of None \<Rightarrow> c_disk c1 = Stored st | Some e \<Rightarrow> c_disk c1 = (if not_durable e then Stored st else c_disk c)"
    using persist_cases [OF q] by (auto simp: frame_def split: option.splits)
  have run: "(r, c') = (case x of Some e \<Rightarrow> (Some e, c\<lparr>c_st := snapshotState (c_st c)\<rparr>)
      | None \<Rightarrow> (case q of None \<Rightarrow> (None, c1)
        | Some e \<Rightarrow> (Some e, if not_durable e then c1 else c1\<lparr>c_st := snapshotState (c_st c)\<rparr>)))"
    unfolding assms [symmetric] by (simp add: persistOnly_def Let_def m q restoreState_def split: option.split)
  show thesis
  proof (cases x)
    case (Some e)
    then show thesis using run rolled_back m by simp
  next
    case None
    show thesis
    proof (cases q)
      case None
      then show thesis using run \<open>x = None\<close> m p written by simp
    next
      case (Some e)
      then show thesis
        using run \<open>x = None\<close> m p written rolled_back frame_trans [OF p(1) frame_update(1)]
        by (cases e) (simp_all split: if_splits)
    qed
  qed
qed

text \<open>
  The outcomes of \<open>commit\<close>: refused because the appliance could not be healed; rolled back; a panic in
  the translation of the mutated state, before anything was written; or written, after the new desired
  state was validated.
\<close>

lemma commit_cases:
  assumes run: "commit env mutate c = (r, c')" and env: "range_ok env"
  obtains (not_healed) e where "r = Some e" "settled c c'"
    | (rolled_back) e st0 where "r = Some e" "frame c c'" "c_disk c' = c_disk c" "grown (c_st c) st0" "c_st c' = snapshotState st0"
        "loadable (c_st c) \<and> has_room (c_st c) \<longrightarrow> loadable st0 \<and> has_room st0"
    | (panicked) st0 st1 c0 where "r = Some Panicked" "frame c c'" "c_disk c' = c_disk c" "grown (c_st c) st0" "mutate st0 = (None, st1)"
        "loadable (c_st c) \<and> has_room (c_st c) \<longrightarrow> loadable st0 \<and> has_room st0"
        "frame c c0" "c_st c0 = st1" "fst (desiredLIO env c0) = None" "settled c0 c'"
    | (written) st0 st1 c0 c1 desired where "frame c c'" "grown (c_st c) st0" "mutate st0 = (None, st1)"
        "loadable (c_st c) \<and> has_room (c_st c) \<longrightarrow> loadable st0 \<and> has_room st0"
        "frame c c0" "c_st c0 = st1" "desiredLIO env c0 = (Some desired, c1)" "Validate desired = None"
        "c_disk c' = Stored (c_st c1)" "grown (c_st c1) (c_st c')"
        "loadable (c_st c1) \<and> has_room (c_st c1) \<longrightarrow> loadable (c_st c') \<and> has_room (c_st c')"
        "r = None \<longrightarrow> c_lastReconcileErr c' = None \<and> c_applied c' \<noteq> None \<and> Healthy c'"
proof -
  obtain h c1 where h: "healIfDegraded env c = (h, c1)" by fastforce
  have s1: "settled c c1" using healIfDegraded_settled [OF h env] by simp
  show thesis
  proof (cases h)
    case (Some e)
    then show thesis using run h s1 not_healed by (auto simp: commit_def)
  next
    case None
    have fr: "frame c c1" "c_disk c1 = c_disk c" "grown (c_st c) (c_st c1)"
      "loadable (c_st c) \<and> has_room (c_st c) \<longrightarrow> loadable (c_st c1) \<and> has_room (c_st c1)"
      using s1 by (auto simp: settled_def)
    obtain x st where m: "mutate (c_st c1) = (x, st)" by fastforce
    let ?c0 = "c1\<lparr>c_st := st\<rparr>"
    have f0: "frame c ?c0" using fr(1) frame_trans by fastforce
    obtain d c2 where d: "desiredLIO env ?c0 = (d, c2)" by fastforce
    have s2: "settled ?c0 c2" using desiredLIO_settled [OF d env] by simp
    then have fr2: "frame c c2" "c_disk c2 = c_disk c" using f0 fr(2) frame_trans by (auto simp: settled_def)
    obtain q c3 where q: "persist c2 = (q, c3)" by fastforce
    have fr3: "frame c c3" "c_st c3 = c_st c2" using persist_cases [OF q] fr2(1) frame_trans by auto
    obtain y c4 where y: "reconcile env c3 = (y, c4)" by fastforce
    have s4: "settled c3 c4" "verdict y c4" using reconcile_settled [OF y env] by auto
    have fr4: "frame c c4" "c_disk c4 = c_disk c3" "grown (c_st c2) (c_st c4)"
      "loadable (c_st c2) \<and> has_room (c_st c2) \<longrightarrow> loadable (c_st c4) \<and> has_room (c_st c4)"
      using s4(1) fr3 frame_trans by (auto simp: settled_def)
    note rb = rolled_back [OF _ _ _ fr(3) _ fr(4)]
    show thesis
    proof (cases "x = None \<and> d \<noteq> None")
      case False
      show thesis
      proof (cases x)
        case (Some e)
        then show thesis
          using run h None m rb fr(1,2) by (auto simp: commit_def Let_def restoreState_def frame_def)
      next
        case x: None
        with False have "d = None" by simp
        then have "r = Some Panicked" "c' = c2" using run h None m d x by (auto simp: commit_def Let_def)
        then show thesis
          using panicked [of "c_st c1" st ?c0] fr2 fr(3,4) f0 s2 m x d \<open>d = None\<close> by simp
      qed
    next
      case True
      then obtain desired where desired: "d = Some desired" "x = None" by blast
      show thesis
      proof (cases "Validate desired")
        case (Some e)
        then show thesis
          using run h None m d desired rb fr2 frame_trans [OF fr2(1) frame_update(1)]
          by (auto simp: commit_def Let_def restoreState_def frame_def)
      next
        case valid: None
        show thesis
        proof (cases "\<exists>e. q = Some e \<and> \<not> not_durable e")
          case True
          then show thesis
            using run h None m d desired valid q rb fr2(2) fr3(1) persist_cases [OF q]
            by (auto simp: commit_def Let_def restoreState_def frame_def)
        next
          case False
          then have "c_disk c3 = Stored (c_st c2)" using persist_cases [OF q] by (auto split: option.splits)
          moreover have "c' = c4" "r = None \<longrightarrow> y = None"
            using run h None m d desired valid q y False by (auto simp: commit_def Let_def split: option.splits)
          ultimately show thesis
            using written [of "c_st c1" st ?c0 desired c2] fr(3,4) fr4 f0 valid m desired d s4(2)
            by (cases y) (auto simp: verdict_def)
        qed
      qed
    qed
  qed
qed

section \<open>The contract of a mutation\<close>

definition good_db :: "db \<Rightarrow> bool" where
  "good_db st \<longleftrightarrow> loadable st \<and> has_room st \<and> sane_db st"

definition good :: "'k coord \<Rightarrow> bool" where
  "good c \<longleftrightarrow> good_db (c_st c) \<and> (\<forall>d. c_disk c = Stored d \<longrightarrow> good_db d)"

lemma good_snapshot [simp]: "good_db (snapshotState st) = good_db st"
  by (simp add: good_db_def sane_db_def)

lemma good_grown:
  "good_db st \<Longrightarrow> grown st st' \<Longrightarrow> loadable st \<and> has_room st \<longrightarrow> loadable st' \<and> has_room st' \<Longrightarrow> good_db st'"
  by (simp add: good_db_def sane_db_def grown_sel)

lemma good_settled: "settled c c' \<Longrightarrow> good c \<Longrightarrow> good c'"
  using good_grown by (auto simp: good_def settled_def)

lemma good_db_settled: "settled c c' \<Longrightarrow> good_db (c_st c) \<Longrightarrow> good_db (c_st c')"
  using good_grown by (auto simp: settled_def)

text \<open>
  A mutation of the database with the condition under which an operation runs it. The condition does
  not depend on export indices, which a reconcile before the mutation may allocate; under it the
  mutation takes a good database to a good one.
\<close>

locale safe_mutation =
  fixes mutate :: mutation and pre :: "db \<Rightarrow> bool"
  assumes pre_grown: "pre st \<Longrightarrow> grown st st' \<Longrightarrow> pre st'"
    and keeps_good: "pre st \<Longrightarrow> good_db st \<Longrightarrow> mutate st = (None, st') \<Longrightarrow> good_db st'"
begin

lemma persistOnly_good:
  assumes "persistOnly mutate c = (r, c')" and "pre (c_st c)" and "good c"
  shows "good c'"
  using assms(1)
proof (cases rule: persistOnly_cases)
  case rolled_back
  then show ?thesis using assms(3) by (simp add: good_def)
next
  case written
  then show ?thesis using assms(2,3) keeps_good by (auto simp: good_def)
qed

lemma commit_good:
  assumes "commit env mutate c = (r, c')" and "range_ok env" and "pre (c_st c)" and "good c"
  shows "good c'"
  using assms(1,2)
proof (cases rule: commit_cases)
  case not_healed
  then show ?thesis using assms(4) good_settled by blast
next
  case (rolled_back e st0)
  then have "good_db st0" using assms(4) good_grown by (auto simp: good_def)
  then show ?thesis using rolled_back assms(4) by (simp add: good_def)
next
  case (panicked st0 st1 c0)
  then have "good_db st0" using assms(4) good_grown by (auto simp: good_def)
  then have "good_db (c_st c0)" using panicked keeps_good pre_grown assms(3) by blast
  then show ?thesis using panicked assms(4) good_db_settled by (auto simp: good_def)
next
  case (written st0 st1 c0 c1 desired)
  then have "good_db st0" using assms(4) good_grown by (auto simp: good_def)
  then have "good_db (c_st c0)" using written keeps_good pre_grown assms(3) by blast
  then have "good_db (c_st c1)"
    using good_db_settled desiredLIO_settled [OF written(7) assms(2)] by blast
  then show ?thesis using written good_grown by (auto simp: good_def)
qed

end

text \<open>
  The bytes behind the records: every object that is recorded as ready has a backing file of at least
  its capacity. A larger one is left when a grow is written to the store and its record is not.
\<close>

definition backed :: "db \<Rightarrow> Store \<Rightarrow> bool" where
  "backed st s \<longleftrightarrow> (\<forall>x \<in> set (db_Objects st). ob_State x = stateReady \<longrightarrow>
     (\<exists>n. disk_size s (ob_UUID x) = Some n \<and> ob_Capacity x \<le> n))"

definition sound :: "'k coord \<Rightarrow> bool" where
  "sound c \<longleftrightarrow> good c \<and> backed (c_st c) (c_store c)"

lemma backed_objects: "db_Objects st' = db_Objects st \<Longrightarrow> backed st' s = backed st s"
  by (simp add: backed_def)

lemma backed_snapshot [simp]: "backed (snapshotState st) s = backed st s"
  by (simp add: backed_def snapshotState_def)

lemma backed_grown: "grown st st' \<Longrightarrow> backed st' s = backed st s"
  by (rule backed_objects) (simp add: grown_sel)

lemma backed_grownI: "grown st st' \<Longrightarrow> backed st s \<Longrightarrow> backed st' s"
  by (simp add: backed_grown)

lemma sound_settled: "settled c c' \<Longrightarrow> sound c \<Longrightarrow> sound c'"
  using good_settled [of c c'] by (auto simp: sound_def settled_def frame_def backed_grown)

text \<open>A mutation after which the records are still backed by the bytes they name.\<close>

locale backed_mutation = safe_mutation +
  assumes keeps_backed: "mutate st = (None, st') \<Longrightarrow> backed st s \<Longrightarrow> backed st' s"
begin

lemma persistOnly_sound:
  assumes "persistOnly mutate c = (r, c')" and "pre (c_st c)" and "sound c"
  shows "sound c'"
proof -
  have "backed (c_st c') (c_store c')"
    using assms(1)
  proof (cases rule: persistOnly_cases)
    case rolled_back
    then show ?thesis using assms(3) by (simp add: sound_def frame_def)
  next
    case (written st)
    then show ?thesis using assms(3) keeps_backed by (simp add: sound_def frame_def)
  qed
  then show ?thesis using persistOnly_good [OF assms(1,2)] assms(3) by (simp add: sound_def)
qed

lemma commit_sound:
  assumes "commit env mutate c = (r, c')" and "range_ok env" and "pre (c_st c)" and "sound c"
  shows "sound c'"
proof -
  have b: "backed (c_st c) (c_store c)" using assms(4) by (simp add: sound_def)
  have "backed (c_st c') (c_store c')"
    using assms(1,2)
  proof (cases rule: commit_cases)
    case not_healed
    then show ?thesis using b by (auto simp: settled_def frame_def intro: backed_grownI)
  next
    case rolled_back
    then show ?thesis using b by (auto simp: frame_def intro: backed_grownI)
  next
    case (panicked st0 st1 c0)
    then have "backed st1 (c_store c)" using b keeps_backed by (blast intro: backed_grownI)
    then show ?thesis using panicked by (auto simp: settled_def frame_def intro: backed_grownI)
  next
    case (written st0 st1 c0 c1 desired)
    then have "backed st1 (c_store c)" using b keeps_backed by (blast intro: backed_grownI)
    moreover have "settled c0 c1" using desiredLIO_settled [OF written(7) assms(2)] by simp
    ultimately show ?thesis using written by (auto simp: settled_def frame_def intro: backed_grownI)
  qed
  then show ?thesis using commit_good [OF assms(1-3)] assms(4) by (simp add: sound_def)
qed

end

section \<open>Nothing fails without a cause\<close>

text \<open>An engine that reports no error, and an operating system without faults.\<close>

definition engine_ok :: "'k env \<Rightarrow> bool" where
  "engine_ok env \<longleftrightarrow> (\<forall>cfg k. snd (fst (e_Sync env cfg k)) = None) \<and> (\<forall>cfg d k. snd (fst (e_ApplyDelta env cfg d k)) = None)"

definition quiet :: "'k coord \<Rightarrow> bool" where
  "quiet c \<longleftrightarrow> os_faults (c_os c) = []"

lemma quiet_syscalls: "os_faults w = [] \<Longrightarrow> syscall w = (None, w) \<and> syscalls n w = (None, w)"
  by (induction n) (simp_all add: syscall_def)

lemma quiet_calls:
  assumes "quiet c"
  shows "c_syscall c = (None, c)" "write_tmp c = (None, c)" "sync_db_dir c = (None, c)"
  using assms by (simp_all add: quiet_def c_syscall_def write_tmp_def sync_db_dir_def syncDir_def quiet_syscalls)

lemma remove_backups_quiet: "quiet c \<Longrightarrow> fst (remove_backups ns c) = None \<and> quiet (snd (remove_backups ns c))"
proof (induction ns arbitrary: c)
  case (Cons n ns)
  have "quiet (c\<lparr>c_backups := filter (\<lambda>b. fst b \<noteq> n) (c_backups c)\<rparr>)" using Cons.prems by (simp add: quiet_def)
  then show ?case using Cons by (simp add: quiet_calls)
qed simp

lemma take_backup_quiet:
  assumes "quiet c" shows "quiet (snd (take_backup c))"
proof -
  obtain c1 where l: "linkBackup c = (None, c1)" and q1: "quiet c1"
    using assms by (cases "c_disk c = NoFile \<or> map_of (c_backups c) (os_stamp (c_os c)) \<noteq> None")
      (auto simp: linkBackup_def quiet_calls quiet_def Let_def)
  show ?thesis using remove_backups_quiet [OF q1] q1
    by (simp add: take_backup_def l pruneBackups_def quiet_calls Let_def)
qed

lemma persist_quiet:
  assumes "quiet c" and "c_dbPath c \<noteq> ''''"
  shows "fst (persist c) = None \<and> quiet (snd (persist c))"
proof -
  obtain f c1 where b: "take_backup c = (f, c1)" by fastforce
  have q: "quiet c1" using take_backup_quiet [OF assms(1)] b by simp
  then have q': "quiet (with_health (\<lambda>h. h\<lparr>hl_backupErr := f\<rparr>) (c1\<lparr>c_disk := Stored (c_st c1)\<rparr>))"
    by (simp add: quiet_def with_health_def)
  from quiet_calls(3) [OF this] show ?thesis
    using assms(2) q' by (simp add: persist_def b quiet_calls [OF q] Let_def)
qed

lemma reconcile_succeeds:
  assumes "engine_ok env" and "fst (desiredLIO env c) \<noteq> None"
  shows "fst (reconcile env c) = None"
proof -
  obtain cfg c1 where d: "desiredLIO env c = (Some cfg, c1)" using assms(2) by (cases "desiredLIO env c") auto
  have f: "fst (reconcileFull env cfg c2) = None" for c2
  proof -
    obtain rep err k where s: "e_Sync env cfg (c_kern c2) = ((rep, err), k)" by (metis prod.collapse)
    then have "err = None" using assms(1) unfolding engine_ok_def by (metis fst_conv snd_conv)
    then show ?thesis by (simp add: reconcileFull_def s split: prod.split)
  qed
  have "fst (reconcileDelta env cfg dl c2) = None" for c2 dl
  proof -
    obtain rep err k where s: "e_ApplyDelta env cfg dl (c_kern c2) = ((rep, err), k)" by (metis prod.collapse)
    then have "err = None" using assms(1) unfolding engine_ok_def by (metis fst_conv snd_conv)
    then show ?thesis by (simp add: reconcileDelta_def s Let_def split: prod.split)
  qed
  then show ?thesis using f by (auto simp: reconcile_def d split: option.split)
qed

lemma commit_succeeds:
  assumes env: "range_ok env" "engine_ok env" and c: "c_lastReconcileErr c = None" "quiet c" "c_dbPath c \<noteq> ''''"
    and m: "mutate (c_st c) = (None, st)" "good_db st"
    and po: "valid_portals (portals (c\<lparr>c_st := st\<rparr>))" "ValidTargetIQN (ac_TargetIQN (c_cfg c))"
  shows "fst (commit env mutate c) = None"
proof -
  let ?c0 = "c\<lparr>c_st := st\<rparr>"
  have "\<exists>cfg c1. desiredLIO env ?c0 = (Some cfg, c1) \<and> valid_config cfg"
    using desired_config_valid [of ?c0 env] m(2) env(1) po by (simp add: good_db_def)
  then obtain cfg c1 where d: "desiredLIO env ?c0 = (Some cfg, c1)" and v: "Validate cfg = None"
    by (auto simp: Validate_ok_iff)
  have s: "settled ?c0 c1" using desiredLIO_settled [OF d env(1)] by simp
  have "quiet c1" "c_dbPath c1 \<noteq> ''''" using s c by (auto simp: settled_def frame_def quiet_def)
  then obtain c2 where p: "persist c1 = (None, c2)" using persist_quiet [of c1] by (metis prod.collapse)
  have fr: "frame ?c0 c2" "c_st c2 = c_st c1" using persist_cases [OF p] s frame_trans by (auto simp: settled_def)
  have "good_db (c_st c2)" using good_db_settled [OF s] m(2) fr(2) by simp
  moreover have "portals c2 = portals ?c0" "c_cfg c2 = c_cfg c"
    using fr s grown_sel(4) [of st "c_st c1"] by (auto simp: frame_def settled_def portals_def)
  ultimately have "fst (desiredLIO env c2) \<noteq> None"
    using desired_config_valid [of c2 env] env(1) po by (auto simp: good_db_def)
  then have "fst (reconcile env c2) = None" by (rule reconcile_succeeds [OF env(2)])
  then show ?thesis
    using c(1) m(1) d v p by (simp add: commit_def healIfDegraded_def Let_def)
qed

section \<open>Properties\<close>

text \<open>The database file is replaced atomically: whatever system call fails while it is written, the file
  afterwards is either unchanged or the complete new state, the memory is untouched, and the returned
  error tells which: only success and the not-proven-durable error mean the new state.\<close>

lemma persist_atomic:
  assumes "persist c = (r, c')"
  shows "c_st c' = c_st c
    \<and> (if r = None \<or> (\<exists>e. r = Some (PersistedNotDurable e)) then c_disk c' = Stored (c_st c) else c_disk c' = c_disk c)"
proof (cases r)
  case (Some e)
  then show ?thesis using persist_cases [OF assms] by (cases e) simp_all
qed (use persist_cases [OF assms] in simp)


definition demo_portals2 :: "Portal list" where
  "demo_portals2 = [\<lparr>po_IP = V4 0x0a000002, po_Port = 3260\<rparr>]"

definition demo_move :: mutation where
  "demo_move st = (None, st\<lparr>db_Portals := demo_portals2\<rparr>)"

lemma demo_move_good: "good_db (snd (demo_move demo_db))"
  using demo_loadable demo_room demo_sane
  by (simp add: demo_move_def good_db_def loadable_iff valid_db_def has_room_def export_room_def sane_db_def)

lemma engine_ok_idle [simp]: "engine_ok idle_env"
  by (simp add: engine_ok_def idle_env_def)

lemma demo_quiet [simp]: "quiet demo" "c_dbPath demo \<noteq> ''''" "c_lastReconcileErr demo = None"
  by (simp_all add: quiet_def quiet_os_def demo_def)

lemma demo_move_commits: "fst (commit idle_env demo_move demo) = None"
  using demo_move_good
  by (intro commit_succeeds [where st = "snd (demo_move demo_db)"])
    (simp_all, simp_all add: demo_move_def portals_def valid_portals_def demo_portals2_def)


text \<open>A reconcile never touches the database file and changes the recorded state only by allocating
  export indices. When it fails, the cached view is dropped, so that the next one is a full \<open>Sync\<close>, and
  the error is recorded both for the gate before the next mutation and for \<open>/health\<close>; when it
  succeeds both are cleared.\<close>

lemma reconcile_verdict:
  assumes "reconcile env c = (r, c')" and "range_ok env"
  shows "c_disk c' = c_disk c \<and> grown (c_st c) (c_st c')
    \<and> (r = None \<longrightarrow> c_lastReconcileErr c' = None \<and> c_applied c' \<noteq> None \<and> Healthy c')
    \<and> (\<forall>e. r = Some e \<and> e \<noteq> Panicked \<longrightarrow> c_lastReconcileErr c' = Some e \<and> c_applied c' = None \<and> \<not> Healthy c')"
  using reconcile_settled [OF assms] by (auto simp: settled_def verdict_def split: option.splits)



end
