(* ===== verification/Appliance_Hosts.thy ===== *)
theory Appliance_Hosts
  imports Appliance_Commit
begin

text \<open>
  Hosts and connections (appliance/hosts.go, ops.go). Every operation is the whole method: its checks in
  the order of the code, the mutation it commits, and what it returns. The mutations are named, so that
  each is an instance of the contract \<open>safe_mutation\<close>.
\<close>

section \<open>Randomness and records\<close>

text \<open>The sixteen bytes that \<open>rand.Read\<close> fills, or its failure.\<close>

definition c_rand :: "'k coord \<Rightarrow> byte list option \<times> 'k coord" where
  "c_rand c = (case os_rand (c_os c) of
     [] \<Rightarrow> (None, c)
   | r # rs \<Rightarrow> (map_option (\<lambda>b. take 16 (b @ replicate 16 0)) r, c\<lparr>c_os := (c_os c)\<lparr>os_rand := rs\<rparr>\<rparr>))"

text \<open>A write through the pointer to the first record that a search returns.\<close>

fun map_first :: "('a \<Rightarrow> bool) \<Rightarrow> ('a \<Rightarrow> 'a) \<Rightarrow> 'a list \<Rightarrow> 'a list" where
  "map_first P f [] = []"
| "map_first P f (x # xs) = (if P x then f x # xs else x # map_first P f xs)"

section \<open>Warnings about fencing (ops.go)\<close>

datatype fence_warning = FenceUndetermined Error | FenceReleased string string bool

text \<open>
  Whether taking their ACLs from the initiators \<open>losing\<close> releases a reservation on the object: one that
  is persistent, held by one of them, and not held by all registrants. The last component says whether
  no other attachment remains.
\<close>

definition fenceLossWarningFor :: "'k env \<Rightarrow> string \<Rightarrow> string list \<Rightarrow> string \<Rightarrow> 'k coord
    \<Rightarrow> (op_error + fence_warning option) \<times> 'k coord" where
  "fenceLossWarningFor env objectUUID losing detachingHost c = (case object (c_st c) objectUUID of
     None \<Rightarrow> (Inr None, c)
   | Some v \<Rightarrow> (case desiredLIO env c of
       (None, c1) \<Rightarrow> (Inl Panicked, c1)
     | (Some desired, c1) \<Rightarrow>
        (case find (\<lambda>b. bs_Name b = backstoreName (ob_UUID v)) (cfg_Backstores desired) of
           None \<Rightarrow> (Inr None, c1)
         | Some bs \<Rightarrow> (case e_ReservationHolder env bs (c_kern c1) of
             Inl e \<Rightarrow> (Inr (Some (FenceUndetermined e)), c1)
           | Inr res \<Rightarrow>
              if rv_Holder res = '''' then (Inr None, c1)
              else if rv_SPC2 res then (Inr None, c1)
              else if rv_Holder res \<notin> set losing then (Inr None, c1)
              else if AllRegistrants res then (Inr None, c1)
              else (let others = length (filter (\<lambda>cn. cn_ObjectUUID cn = objectUUID
                       \<and> (detachingHost = '''' \<or> cn_HostUUID cn \<noteq> detachingHost)) (db_Connections (c_st c1))) in
                (Inr (Some (FenceReleased (rv_Holder res) (rv_Type res) (others = 0))), c1))))))"

definition fenceLossWarning :: "'k env \<Rightarrow> string \<Rightarrow> string \<Rightarrow> 'k coord \<Rightarrow> (op_error + fence_warning option) \<times> 'k coord" where
  "fenceLossWarning env objectUUID hostUUID c = (case host (c_st c) hostUUID of
     None \<Rightarrow> (Inr None, c)
   | Some h \<Rightarrow> fenceLossWarningFor env objectUUID (h_IQNs h) hostUUID c)"

section \<open>Hosts (hosts.go)\<close>

fun check_iqns :: "db \<Rightarrow> string \<Rightarrow> string list \<Rightarrow> string list \<Rightarrow> op_error option" where
  "check_iqns st exceptHost seen [] = None"
| "check_iqns st exceptHost seen (q # qs) =
    (if \<not> ValidInitiatorIQN q then Some (StatusError StatusBadRequest CodeInvalidInput)
     else if q \<in> set seen then Some (StatusError StatusBadRequest CodeInvalidInput)
     else if iqnOwner st q exceptHost \<noteq> '''' then Some (StatusError StatusConflict CodeAlreadyExists)
     else check_iqns st exceptHost (q # seen) qs)"

definition checkIQNs :: "db \<Rightarrow> string list \<Rightarrow> string \<Rightarrow> op_error option" where
  "checkIQNs st iqns exceptHost = check_iqns st exceptHost [] iqns"

definition create_host_mutation :: "Host \<Rightarrow> mutation" where
  "create_host_mutation h st = (None, st\<lparr>db_Hosts := db_Hosts st @ [h]\<rparr>)"

definition CreateHost :: "'k env \<Rightarrow> string \<Rightarrow> string list \<Rightarrow> 'k coord \<Rightarrow> (op_error + Host \<times> bool) \<times> 'k coord" where
  "CreateHost env name iqns c = (case checkName name of
     Some e \<Rightarrow> (Inl e, c)
   | None \<Rightarrow> (case hostByName (c_st c) name of
       Some existing \<Rightarrow> if sort iqns \<noteq> sort (h_IQNs existing)
         then (Inl (StatusError StatusConflict CodeConfigurationMismatch), c)
         else (Inr (existing, False), c)
     | None \<Rightarrow> (case checkIQNs (c_st c) iqns '''' of
         Some e \<Rightarrow> (Inl e, c)
       | None \<Rightarrow> (case c_rand c of
           (None, c1) \<Rightarrow> (Inl RandFailed, c1)
         | (Some b, c1) \<Rightarrow>
            (let h = \<lparr>h_UUID = newHostUUID b, h_Name = name, h_IQNs = iqns\<rparr> in
             case commit env (create_host_mutation h) c1 of
               (Some e, c2) \<Rightarrow> (Inl e, c2)
             | (None, c2) \<Rightarrow> (Inr (h, True), c2))))))"

definition ListHosts :: "'k coord \<Rightarrow> Host list" where
  "ListHosts c = db_Hosts (c_st c)"

definition GetHost :: "string \<Rightarrow> 'k coord \<Rightarrow> Host option" where
  "GetHost ref c = resolveHost (c_st c) ref"

definition rename_host_mutation :: "string \<Rightarrow> string \<Rightarrow> mutation" where
  "rename_host_mutation old newName st =
     (None, st\<lparr>db_Hosts := map_first (\<lambda>h. h_Name h = old) (\<lambda>h. h\<lparr>h_Name := newName\<rparr>) (db_Hosts st)\<rparr>)"

definition RenameHost :: "string \<Rightarrow> string \<Rightarrow> 'k coord \<Rightarrow> (op_error + Host) \<times> 'k coord" where
  "RenameHost ref newName c = (case checkName newName of
     Some e \<Rightarrow> (Inl e, c)
   | None \<Rightarrow> (case resolveHost (c_st c) ref of
       None \<Rightarrow> (Inl notFound, c)
     | Some target \<Rightarrow>
        if h_Name target = newName then (Inr target, c)
        else if hostByName (c_st c) newName \<noteq> None then (Inl nameTaken, c)
        else (case persistOnly (rename_host_mutation (h_Name target) newName) c of
          (Some e, c1) \<Rightarrow> (Inl e, c1)
        | (None, c1) \<Rightarrow> (case hostByName (c_st c1) newName of
            None \<Rightarrow> (Inl Panicked, c1) | Some h \<Rightarrow> (Inr h, c1)))))"

text \<open>The binding set that a request leads to: replaced, then extended, then reduced.\<close>

definition next_bindings :: "string list \<Rightarrow> string list option \<Rightarrow> string list \<Rightarrow> string list \<Rightarrow> string list" where
  "next_bindings cur replace add remove =
    (let n0 = (case replace of Some r \<Rightarrow> r | None \<Rightarrow> cur);
         n1 = fold (\<lambda>q n. if q \<in> set n then n else n @ [q]) add n0
     in if remove \<noteq> [] then filter (\<lambda>q. q \<notin> set remove) n1 else n1)"

fun binding_warnings :: "'k env \<Rightarrow> string list \<Rightarrow> string \<Rightarrow> Connection list \<Rightarrow> 'k coord
    \<Rightarrow> (op_error + fence_warning list) \<times> 'k coord" where
  "binding_warnings env dropped hostUUID [] c = (Inr [], c)"
| "binding_warnings env dropped hostUUID (cn # cns) c =
    (if cn_HostUUID cn \<noteq> hostUUID then binding_warnings env dropped hostUUID cns c
     else (case fenceLossWarningFor env (cn_ObjectUUID cn) dropped '''' c of
       (Inl e, c1) \<Rightarrow> (Inl e, c1)
     | (Inr w, c1) \<Rightarrow> (case binding_warnings env dropped hostUUID cns c1 of
         (Inl e, c2) \<Rightarrow> (Inl e, c2)
       | (Inr ws, c2) \<Rightarrow> (Inr (case w of Some x \<Rightarrow> x # ws | None \<Rightarrow> ws), c2))))"

definition set_bindings_mutation :: "string \<Rightarrow> string list \<Rightarrow> mutation" where
  "set_bindings_mutation uuid iqns st =
     (None, st\<lparr>db_Hosts := map_first (\<lambda>h. h_UUID h = uuid) (\<lambda>h. h\<lparr>h_IQNs := iqns\<rparr>) (db_Hosts st)\<rparr>)"

definition SetBindings :: "'k env \<Rightarrow> string \<Rightarrow> string list option \<Rightarrow> string list \<Rightarrow> string list \<Rightarrow> 'k coord
    \<Rightarrow> ((op_error + Host) \<times> fence_warning list) \<times> 'k coord" where
  "SetBindings env ref replace add remove c = (case resolveHost (c_st c) ref of
     None \<Rightarrow> ((Inl notFound, []), c)
   | Some h \<Rightarrow> (let iqns = next_bindings (h_IQNs h) replace add remove in
      case checkIQNs (c_st c) iqns (h_UUID h) of
        Some e \<Rightarrow> ((Inl e, []), c)
      | None \<Rightarrow> (let dropped = filter (\<lambda>q. q \<notin> set iqns) (h_IQNs h) in
         case (if dropped = [] then (Inr [], c)
               else binding_warnings env dropped (h_UUID h) (db_Connections (c_st c)) c) of
           (Inl e, c1) \<Rightarrow> ((Inl e, []), c1)
         | (Inr ws, c1) \<Rightarrow> (case commit env (set_bindings_mutation (h_UUID h) iqns) c1 of
             (Some e, c2) \<Rightarrow> ((Inl e, ws), c2)
           | (None, c2) \<Rightarrow> ((Inr (h\<lparr>h_IQNs := iqns\<rparr>), ws), c2)))))"

definition delete_host_mutation :: "string \<Rightarrow> mutation" where
  "delete_host_mutation uuid st = (None, st\<lparr>db_Hosts := filter (\<lambda>x. h_UUID x \<noteq> uuid) (db_Hosts st)\<rparr>)"

definition DeleteHost :: "'k env \<Rightarrow> string \<Rightarrow> 'k coord \<Rightarrow> op_error option \<times> 'k coord" where
  "DeleteHost env ref c = (case resolveHost (c_st c) ref of
     None \<Rightarrow> (Some notFound, c)
   | Some h \<Rightarrow> if connectionsOfHost (c_st c) (h_UUID h) \<noteq> [] then (Some (StatusError StatusConflict CodeResourceConnected), c)
      else commit env (delete_host_mutation (h_UUID h)) c)"

section \<open>Connections (hosts.go)\<close>

record ConnInfo =
  ci_TargetIQN :: string
  ci_Portals :: "Portal list"
  ci_LUN :: int
  ci_Wwid :: string

definition connInfo :: "'k coord \<Rightarrow> Object \<Rightarrow> int \<Rightarrow> ConnInfo" where
  "connInfo c v lun = \<lparr>ci_TargetIQN = ac_TargetIQN (c_cfg c), ci_Portals = portals c, ci_LUN = lun, ci_Wwid = Wwid (ob_WWN v)\<rparr>"

text \<open>
  The search for a connection that decides the request: the pair at this LUN is a repeat, the pair at
  another one a mismatch, the LUN taken on the host a conflict.
\<close>

fun connect_scan :: "string \<Rightarrow> string \<Rightarrow> int \<Rightarrow> Connection list \<Rightarrow> (op_error + unit) option" where
  "connect_scan objUUID hostUUID lun [] = None"
| "connect_scan objUUID hostUUID lun (cn # cns) =
    (if cn_ObjectUUID cn = objUUID \<and> cn_HostUUID cn = hostUUID then
       (if cn_LUN cn = lun then Some (Inr ()) else Some (Inl (StatusError StatusConflict CodeConfigurationMismatch)))
     else if cn_HostUUID cn = hostUUID \<and> cn_LUN cn = lun then Some (Inl (StatusError StatusConflict CodeLUNConflict))
     else connect_scan objUUID hostUUID lun cns)"

definition connect_mutation :: "string \<Rightarrow> string \<Rightarrow> int \<Rightarrow> mutation" where
  "connect_mutation objUUID hostUUID lun st = (case exportIndex st objUUID of (_, st1) \<Rightarrow>
     (None, st1\<lparr>db_Connections := db_Connections st1 @ [\<lparr>cn_ObjectUUID = objUUID, cn_HostUUID = hostUUID, cn_LUN = lun\<rparr>]\<rparr>))"

definition Connect :: "'k env \<Rightarrow> string \<Rightarrow> string \<Rightarrow> string \<Rightarrow> int \<Rightarrow> bool \<Rightarrow> 'k coord
    \<Rightarrow> (op_error + ConnInfo \<times> bool) \<times> 'k coord" where
  "Connect env kind objectRef hostRef lun lunGiven c = (case resolveObject (c_st c) kind objectRef of
     None \<Rightarrow> (Inl notFound, c)
   | Some v \<Rightarrow>
      if ob_State v \<noteq> stateReady then (Inl (StatusError StatusConflict CodeUnsupportedState), c)
      else (case resolveHost (c_st c) hostRef of
        None \<Rightarrow> (Inl notFound, c)
      | Some h \<Rightarrow>
         if \<not> lunGiven then (Inl (StatusError StatusBadRequest CodeLUNRequired), c)
         else if lun < 0 \<or> lun > maxLUN then (Inl (StatusError StatusBadRequest CodeInvalidInput), c)
         else (case connect_scan (ob_UUID v) (h_UUID h) lun (db_Connections (c_st c)) of
           Some (Inr _) \<Rightarrow> (Inr (connInfo c v lun, False), c)
         | Some (Inl e) \<Rightarrow> (Inl e, c)
         | None \<Rightarrow> (case commit env (connect_mutation (ob_UUID v) (h_UUID h) lun) c of
             (Some e, c1) \<Rightarrow> (Inl e, c1)
           | (None, c1) \<Rightarrow> (Inr (connInfo c1 v lun, True), c1)))))"

definition disconnect_mutation :: "string \<Rightarrow> string \<Rightarrow> mutation" where
  "disconnect_mutation objUUID hostUUID st = (None, pruneExports (st\<lparr>db_Connections :=
     filter (\<lambda>cn. \<not> (cn_ObjectUUID cn = objUUID \<and> cn_HostUUID cn = hostUUID)) (db_Connections st)\<rparr>))"

definition Disconnect :: "'k env \<Rightarrow> string \<Rightarrow> string \<Rightarrow> string \<Rightarrow> 'k coord
    \<Rightarrow> (op_error option \<times> fence_warning option) \<times> 'k coord" where
  "Disconnect env kind objectRef hostRef c = (case resolveObject (c_st c) kind objectRef of
     None \<Rightarrow> ((Some notFound, None), c)
   | Some v \<Rightarrow> (case resolveHost (c_st c) hostRef of
       None \<Rightarrow> ((Some notFound, None), c)
     | Some h \<Rightarrow>
        if \<not> list_ex (\<lambda>cn. cn_ObjectUUID cn = ob_UUID v \<and> cn_HostUUID cn = h_UUID h) (db_Connections (c_st c))
        then ((None, None), c)
        else (case healIfDegraded env c of
          (Some e, c1) \<Rightarrow> ((Some e, None), c1)
        | (None, c1) \<Rightarrow> (case fenceLossWarning env (ob_UUID v) (h_UUID h) c1 of
            (Inl e, c2) \<Rightarrow> ((Some e, None), c2)
          | (Inr w, c2) \<Rightarrow> (case commit env (disconnect_mutation (ob_UUID v) (h_UUID h)) c2 of
              (e, c3) \<Rightarrow> ((e, w), c3))))))"

record ConnectionView =
  cv_Object :: string
  cv_ObjectKind :: string
  cv_ObjectUUID :: string
  cv_Host :: string
  cv_HostUUID :: string
  cv_LUN :: int
  cv_TargetIQN :: string
  cv_Wwid :: string

definition connection_view :: "'k coord \<Rightarrow> Connection \<Rightarrow> ConnectionView" where
  "connection_view c cn =
    (let v = object (c_st c) (cn_ObjectUUID cn); h = host (c_st c) (cn_HostUUID cn) in
     \<lparr>cv_Object = (case v of Some x \<Rightarrow> ob_Name x | None \<Rightarrow> ''''),
      cv_ObjectKind = (case v of Some x \<Rightarrow> ob_Kind x | None \<Rightarrow> ''''), cv_ObjectUUID = cn_ObjectUUID cn,
      cv_Host = (case h of Some x \<Rightarrow> h_Name x | None \<Rightarrow> ''''), cv_HostUUID = cn_HostUUID cn, cv_LUN = cn_LUN cn,
      cv_TargetIQN = ac_TargetIQN (c_cfg c), cv_Wwid = (case v of Some x \<Rightarrow> Wwid (ob_WWN x) | None \<Rightarrow> '''')\<rparr>)"

text \<open>The object filter of a listing: none, an identifier, nothing that resolves, or an error.\<close>

definition wanted_object :: "db \<Rightarrow> string \<Rightarrow> string \<Rightarrow> op_error + string option" where
  "wanted_object st objectRef objectKind =
    (if objectRef = '''' then Inr (Some '''')
     else if objectKind = KindVolume \<or> objectKind = KindSnapshot then
       (case resolveObject st objectKind objectRef of None \<Rightarrow> Inr None | Some x \<Rightarrow> Inr (Some (ob_UUID x)))
     else if objectKind = '''' then
       (case (resolveObject st KindVolume objectRef, resolveObject st KindSnapshot objectRef) of
          (Some _, Some _) \<Rightarrow> Inl (StatusError StatusBadRequest CodeInvalidInput)
        | (Some x, None) \<Rightarrow> Inr (Some (ob_UUID x))
        | (None, Some x) \<Rightarrow> Inr (Some (ob_UUID x))
        | (None, None) \<Rightarrow> Inr None)
     else Inl (StatusError StatusBadRequest CodeInvalidInput))"

definition ListConnections :: "string \<Rightarrow> string \<Rightarrow> string \<Rightarrow> 'k coord \<Rightarrow> op_error + ConnectionView list" where
  "ListConnections objectRef objectKind hostRef c = (case wanted_object (c_st c) objectRef objectKind of
     Inl e \<Rightarrow> Inl e
   | Inr None \<Rightarrow> Inr []
   | Inr (Some wantObj) \<Rightarrow> (case (if hostRef = '''' then Some '''' else map_option h_UUID (resolveHost (c_st c) hostRef)) of
       None \<Rightarrow> Inr []
     | Some wantHost \<Rightarrow> Inr (map (connection_view c) (filter (\<lambda>cn. (wantObj = '''' \<or> cn_ObjectUUID cn = wantObj)
         \<and> (wantHost = '''' \<or> cn_HostUUID cn = wantHost)) (db_Connections (c_st c))))))"

section \<open>Minted identifiers\<close>

lemma hex2_hex: "list_all isHexDigit (hex2 b) \<and> length (hex2 b) = 2"
proof -
  have "unat b < 2 ^ 8" by (rule order_less_le_trans [OF unsigned_less]) simp
  then have "unat b div 16 < 16" "unat b mod 16 < 16" by simp_all
  moreover have "isHexDigit (digit_char n)" if "n < 16" for n
    using that by (auto simp: digit_char_def isHexDigit_def)
  ultimately show ?thesis by (simp add: hex2_def)
qed

lemma hex_bytes_hex: "list_all isHexDigit (hex_bytes bs) \<and> length (hex_bytes bs) = 2 * length bs"
  using hex2_hex by (induction bs) (auto simp: hex_bytes_def)

lemma validUUID_join:
  assumes l: "length p = 8" "length q = 4" "length r = 4" "length s = 4" "length t = 12"
    and hex: "list_all isHexDigit p" "list_all isHexDigit q" "list_all isHexDigit r" "list_all isHexDigit s" "list_all isHexDigit t"
  shows "validUUID (p @ ''-'' @ q @ ''-'' @ r @ ''-'' @ s @ ''-'' @ t)"
proof -
  let ?u = "p @ ''-'' @ q @ ''-'' @ r @ ''-'' @ s @ ''-'' @ t"
  have "length ?u = 36" using l by simp
  moreover have "if i \<in> set [8, 13, 18, 23] then ?u ! i = CHR ''-'' else isHexDigit (?u ! i)" if "i < 36" for i
    using that l hex by (auto simp: nth_append nth_Cons' list_all_length)
  ultimately show ?thesis unfolding validUUID_def list_all_iff set_upt by (metis atLeastLessThan_iff)
qed

lemma newHostUUID_valid:
  assumes "length b = 16"
  shows "validUUID (newHostUUID b)"
proof -
  let ?h = "hex_bytes (stamp_v4 b)"
  have h: "list_all isHexDigit ?h" "length ?h = 32"
    using hex_bytes_hex [of "stamp_v4 b"] assms by (auto simp: stamp_v4_def)
  then have "list_all isHexDigit (slice i j ?h)" for i j
    by (auto simp: slice_def list_all_iff dest!: in_set_takeD in_set_dropD)
  then show ?thesis
    unfolding newHostUUID_def Let_def using h(2) by (intro validUUID_join) simp_all
qed

lemma newIdentity_valid:
  assumes "length b = 16" and "newIdentity b = (uuid, wwn)"
  shows "validUUID uuid \<and> isHex16 wwn"
proof -
  have l: "length (stamp_v4 b) = 16" using assms(1) by (simp add: stamp_v4_def)
  have "validUUID uuid"
    using assms(2) hex_bytes_hex l unfolding newIdentity_def Let_def
    by (auto intro!: validUUID_join [unfolded append.simps])
  moreover have "isHex16 wwn"
    using assms(2) hex_bytes_hex [of "slice 0 8 (stamp_v4 b)"] l by (auto simp: newIdentity_def isHex16_def Let_def)
  ultimately show ?thesis by simp
qed

section \<open>Contracts of the mutations\<close>

lemma map_first_map:
  assumes "distinct (map key xs)"
  shows "map_first (\<lambda>x. key x = k) f xs = map (\<lambda>x. if key x = k then f x else x) xs"
  using assms
proof (induction xs)
  case (Cons x xs)
  show ?case
  proof (cases "key x = k")
    case True
    then have "map (\<lambda>x. if key x = k then f x else x) xs = xs"
      using Cons.prems by (intro map_idI) (auto simp: image_iff dest: sym)
    with True show ?thesis by simp
  qed (use Cons in simp)
qed simp

text \<open>The parts of a good database, and how a change of one of them keeps it good.\<close>

lemma good_db_iff:
  "good_db st \<longleftrightarrow> db_Version st = dbVersion \<and> valid_objects (db_Objects st) \<and> valid_hosts (db_Hosts st)
     \<and> valid_connections (ob_UUID ` set (db_Objects st)) (h_UUID ` set (db_Hosts st)) (db_Connections st)
     \<and> valid_exports (db_Exports st) \<and> distinct (map fst (db_Exports st)) \<and> card (export_room st) \<le> 16384 \<and> sane_db st"
  by (auto simp: good_db_def loadable_iff valid_db_def has_room_def)

lemma good_set_hosts:
  assumes "good_db st" and "valid_hosts hs" and "cn_HostUUID ` set (db_Connections st) \<subseteq> h_UUID ` set hs"
  shows "good_db (st\<lparr>db_Hosts := hs\<rparr>)"
  using assms by (auto simp: good_db_iff export_room_def sane_db_def valid_connections_def)

lemma good_set_portals: "good_db st \<Longrightarrow> good_db (st\<lparr>db_Portals := ps\<rparr>)"
  by (simp add: good_db_iff export_room_def sane_db_def)

lemma good_connected_hosts: "good_db st \<Longrightarrow> cn_HostUUID ` set (db_Connections st) \<subseteq> h_UUID ` set (db_Hosts st)"
  by (auto simp: good_db_iff valid_connections_def)

lemma iqns_distinct_concat:
  "distinct (concat (map h_IQNs hs)) \<Longrightarrow> h \<in> set hs \<Longrightarrow> distinct (h_IQNs h)"
  by (induction hs) auto

definition create_host_pre :: "Host \<Rightarrow> db \<Rightarrow> bool" where
  "create_host_pre h st \<longleftrightarrow> validUUID (h_UUID h) \<and> validName (h_Name h) = None \<and> h_UUID h \<notin> h_UUID ` set (db_Hosts st)
     \<and> h_Name h \<notin> h_Name ` set (db_Hosts st) \<and> distinct (h_IQNs h) \<and> (\<forall>q \<in> set (h_IQNs h). ValidInitiatorIQN q)
     \<and> set (h_IQNs h) \<inter> set (concat (map h_IQNs (db_Hosts st))) = {}"

interpretation create_host: backed_mutation "create_host_mutation h" "create_host_pre h" for h
proof
  show "create_host_mutation h st = (None, st') \<Longrightarrow> backed st s \<Longrightarrow> backed st' s" for st st' s
    by (auto simp: create_host_mutation_def case_prod_beta backed_def)
  show "create_host_pre h st \<Longrightarrow> grown st st' \<Longrightarrow> create_host_pre h st'" for st st'
    by (simp add: create_host_pre_def grown_sel)
  show "good_db st'" if "create_host_pre h st" "good_db st" "create_host_mutation h st = (None, st')" for st st'
  proof -
    have "valid_hosts (db_Hosts st @ [h])"
      using that by (auto simp: create_host_pre_def good_db_iff valid_hosts_def)
    then show ?thesis
      using good_set_hosts [OF that(2), of "db_Hosts st @ [h]"] good_connected_hosts [OF that(2)] that(3)
      by (auto simp: create_host_mutation_def)
  qed
qed

definition rename_host_pre :: "string \<Rightarrow> db \<Rightarrow> bool" where
  "rename_host_pre newName st \<longleftrightarrow> validName newName = None \<and> newName \<notin> h_Name ` set (db_Hosts st)"

lemma distinct_map_upd:
  assumes "distinct (map key xs)" and "v \<notin> key ` set xs"
  shows "distinct (map (\<lambda>x. if key x = k then v else key x) xs)"
  using assms by (induction xs) (auto simp: image_iff dest: sym)

interpretation rename_host: backed_mutation "rename_host_mutation old newName" "rename_host_pre newName" for old newName
proof
  show "rename_host_mutation old newName st = (None, st') \<Longrightarrow> backed st s \<Longrightarrow> backed st' s" for st st' s
    by (auto simp: rename_host_mutation_def case_prod_beta backed_def)
  show "rename_host_pre newName st \<Longrightarrow> grown st st' \<Longrightarrow> rename_host_pre newName st'" for st st'
    by (simp add: rename_host_pre_def grown_sel)
  show "good_db st'" if pre: "rename_host_pre newName st" and good: "good_db st"
    and run: "rename_host_mutation old newName st = (None, st')" for st st'
  proof -
    let ?hs = "map (\<lambda>h. if h_Name h = old then h\<lparr>h_Name := newName\<rparr> else h) (db_Hosts st)"
    have v: "valid_hosts (db_Hosts st)" using good by (simp add: good_db_iff)
    then have hs: "map_first (\<lambda>h. h_Name h = old) (\<lambda>h. h\<lparr>h_Name := newName\<rparr>) (db_Hosts st) = ?hs"
      by (intro map_first_map) (simp add: valid_hosts_def)
    have u: "map h_UUID ?hs = map h_UUID (db_Hosts st)" "map h_IQNs ?hs = map h_IQNs (db_Hosts st)"
      "map h_Name ?hs = map (\<lambda>h. if h_Name h = old then newName else h_Name h) (db_Hosts st)" by simp_all
    have "distinct (map h_Name ?hs)"
      unfolding u(3) using v pre by (intro distinct_map_upd) (auto simp: valid_hosts_def rename_host_pre_def)
    then have "valid_hosts ?hs"
      using v pre u(1,2) unfolding valid_hosts_def rename_host_pre_def by (auto simp del: map_map)
    moreover have "h_UUID ` set ?hs = h_UUID ` set (db_Hosts st)" using arg_cong [OF u(1), of set] by (simp only: set_map)
    ultimately show ?thesis
      using good_set_hosts [OF good, of ?hs] good_connected_hosts [OF good] run by (auto simp: rename_host_mutation_def hs)
  qed
qed

definition set_bindings_pre :: "string \<Rightarrow> string list \<Rightarrow> db \<Rightarrow> bool" where
  "set_bindings_pre uuid iqns st \<longleftrightarrow> distinct iqns \<and> (\<forall>q \<in> set iqns. ValidInitiatorIQN q)
     \<and> (\<forall>h \<in> set (db_Hosts st). h_UUID h \<noteq> uuid \<longrightarrow> set (h_IQNs h) \<inter> set iqns = {})"

lemma distinct_concat_upd:
  assumes "distinct (concat (map h_IQNs hs))" and "distinct (map h_UUID hs)" and "distinct iqns"
    and "\<And>h. h \<in> set hs \<Longrightarrow> h_UUID h \<noteq> uuid \<Longrightarrow> set (h_IQNs h) \<inter> set iqns = {}"
  shows "distinct (concat (map (\<lambda>h. if h_UUID h = uuid then iqns else h_IQNs h) hs))"
  using assms
proof (induction hs)
  case (Cons h hs)
  have IH: "distinct (concat (map (\<lambda>h. if h_UUID h = uuid then iqns else h_IQNs h) hs))" using Cons by simp
  show ?case
  proof (cases "h_UUID h = uuid")
    case True
    then have "uuid \<notin> h_UUID ` set hs" using Cons.prems(2) by auto
    then have same: "map (\<lambda>h. if h_UUID h = uuid then iqns else h_IQNs h) hs = map h_IQNs hs"
      by (intro map_cong refl) auto
    have "set iqns \<inter> set (h_IQNs g) = {}" if "g \<in> set hs" for g
      using Cons.prems(4) [of g] that \<open>uuid \<notin> h_UUID ` set hs\<close> by auto
    then show ?thesis using True Cons.prems(1,3) by (auto simp: same)
  next
    case False
    then have "set (h_IQNs h) \<inter> set iqns = {}" using Cons.prems(4) by simp
    then show ?thesis using False IH Cons.prems(1) by (auto split: if_splits)
  qed
qed simp

interpretation set_bindings: backed_mutation "set_bindings_mutation uuid iqns" "set_bindings_pre uuid iqns" for uuid iqns
proof
  show "set_bindings_mutation uuid iqns st = (None, st') \<Longrightarrow> backed st s \<Longrightarrow> backed st' s" for st st' s
    by (auto simp: set_bindings_mutation_def case_prod_beta backed_def)
  show "set_bindings_pre uuid iqns st \<Longrightarrow> grown st st' \<Longrightarrow> set_bindings_pre uuid iqns st'" for st st'
    by (simp add: set_bindings_pre_def grown_sel)
  show "good_db st'" if pre: "set_bindings_pre uuid iqns st" and good: "good_db st"
    and run: "set_bindings_mutation uuid iqns st = (None, st')" for st st'
  proof -
    let ?hs = "map (\<lambda>h. if h_UUID h = uuid then h\<lparr>h_IQNs := iqns\<rparr> else h) (db_Hosts st)"
    have v: "valid_hosts (db_Hosts st)" using good by (simp add: good_db_iff)
    then have hs: "map_first (\<lambda>h. h_UUID h = uuid) (\<lambda>h. h\<lparr>h_IQNs := iqns\<rparr>) (db_Hosts st) = ?hs"
      by (intro map_first_map) (simp add: valid_hosts_def)
    have u: "map h_UUID ?hs = map h_UUID (db_Hosts st)" "map h_Name ?hs = map h_Name (db_Hosts st)"
      "map h_IQNs ?hs = map (\<lambda>h. if h_UUID h = uuid then iqns else h_IQNs h) (db_Hosts st)" by simp_all
    have "distinct (concat (map h_IQNs ?hs))"
      unfolding u(3) using v pre by (intro distinct_concat_upd) (auto simp: valid_hosts_def set_bindings_pre_def)
    then have "valid_hosts ?hs"
      using v pre u(1,2) unfolding valid_hosts_def set_bindings_pre_def by (auto simp del: map_map)
    moreover have "h_UUID ` set ?hs = h_UUID ` set (db_Hosts st)" using arg_cong [OF u(1), of set] by (simp only: set_map)
    ultimately show ?thesis
      using good_set_hosts [OF good, of ?hs] good_connected_hosts [OF good] run by (auto simp: set_bindings_mutation_def hs)
  qed
qed

definition delete_host_pre :: "string \<Rightarrow> db \<Rightarrow> bool" where
  "delete_host_pre uuid st \<longleftrightarrow> uuid \<notin> cn_HostUUID ` set (db_Connections st)"

lemma distinct_concat_filter: "distinct (concat (map f xs)) \<Longrightarrow> distinct (concat (map f (filter P xs)))"
  by (induction xs) auto

interpretation delete_host: backed_mutation "delete_host_mutation uuid" "delete_host_pre uuid" for uuid
proof
  show "delete_host_mutation uuid st = (None, st') \<Longrightarrow> backed st s \<Longrightarrow> backed st' s" for st st' s
    by (auto simp: delete_host_mutation_def case_prod_beta backed_def)
  show "delete_host_pre uuid st \<Longrightarrow> grown st st' \<Longrightarrow> delete_host_pre uuid st'" for st st'
    by (simp add: delete_host_pre_def grown_sel)
  show "good_db st'" if pre: "delete_host_pre uuid st" and good: "good_db st"
    and run: "delete_host_mutation uuid st = (None, st')" for st st'
  proof -
    let ?hs = "filter (\<lambda>h. h_UUID h \<noteq> uuid) (db_Hosts st)"
    have "valid_hosts ?hs"
      using good by (auto simp: good_db_iff valid_hosts_def distinct_map_filterI distinct_concat_filter)
    moreover have "cn_HostUUID ` set (db_Connections st) \<subseteq> h_UUID ` set ?hs"
      using good_connected_hosts [OF good] pre by (force simp: delete_host_pre_def)
    ultimately show ?thesis using good_set_hosts [OF good] run by (auto simp: delete_host_mutation_def)
  qed
qed

definition connect_pre :: "string \<Rightarrow> string \<Rightarrow> int \<Rightarrow> db \<Rightarrow> bool" where
  "connect_pre objUUID hostUUID lun st \<longleftrightarrow> objUUID \<in> ob_UUID ` set (db_Objects st) \<and> hostUUID \<in> h_UUID ` set (db_Hosts st)
     \<and> 0 \<le> lun \<and> lun \<le> maxLUN \<and> (\<forall>cn \<in> set (db_Connections st). cn_HostUUID cn = hostUUID \<longrightarrow> cn_ObjectUUID cn \<noteq> objUUID \<and> cn_LUN cn \<noteq> lun)
     \<and> card (insert objUUID (export_room st)) \<le> 16384"

interpretation connect: backed_mutation "connect_mutation objUUID hostUUID lun" "connect_pre objUUID hostUUID lun" for objUUID hostUUID lun
proof
  show "connect_mutation objUUID hostUUID lun st = (None, st') \<Longrightarrow> backed st s \<Longrightarrow> backed st' s" for st st' s
    by (auto simp: connect_mutation_def case_prod_beta backed_def)
  show "connect_pre objUUID hostUUID lun st \<Longrightarrow> grown st st' \<Longrightarrow> connect_pre objUUID hostUUID lun st'" for st st'
    by (simp add: connect_pre_def grown_sel)
  show "good_db st'" if pre: "connect_pre objUUID hostUUID lun st" and good: "good_db st"
    and run: "connect_mutation objUUID hostUUID lun st = (None, st')" for st st'
  proof -
    let ?cn = "\<lparr>cn_ObjectUUID = objUUID, cn_HostUUID = hostUUID, cn_LUN = lun\<rparr>"
    let ?st1 = "snd (exportIndex st objUUID)"
    have st': "st' = ?st1\<lparr>db_Connections := db_Connections st @ [?cn]\<rparr>"
      using run by (simp add: connect_mutation_def case_prod_beta)
    have u: "validUUID objUUID" using pre good by (auto simp: connect_pre_def good_db_iff valid_objects_def)
    have sub: "insert objUUID (fst ` set (db_Exports st)) \<subseteq> insert objUUID (export_room st)" by (auto simp: export_room_def)
    have "card (insert objUUID (fst ` set (db_Exports st))) \<le> 16384"
      using card_mono [OF _ sub] pre by (simp add: connect_pre_def)
    then have ex: "valid_exports (db_Exports ?st1) \<and> distinct (map fst (db_Exports ?st1))"
      using exportIndex_valid [of st objUUID] good u by (simp add: good_db_iff)
    have keys: "fst ` set (db_Exports ?st1) \<subseteq> insert objUUID (fst ` set (db_Exports st))"
      by (auto simp: exportIndex_def Let_def split: option.splits)
    then have "export_room st' \<subseteq> insert objUUID (export_room st)" by (auto simp: export_room_def st')
    then have "card (export_room st') \<le> 16384"
      using pre le_trans [OF card_mono [of "insert objUUID (export_room st)"]] by (simp add: connect_pre_def)
    moreover have "valid_connections (ob_UUID ` set (db_Objects st)) (h_UUID ` set (db_Hosts st)) (db_Connections st @ [?cn])"
      using pre good by (auto simp: connect_pre_def good_db_iff valid_connections_def)
    ultimately show ?thesis
      using ex good by (simp add: good_db_iff st' sane_db_def)
  qed
qed

interpretation disconnect: backed_mutation "disconnect_mutation objUUID hostUUID" "\<lambda>st. True" for objUUID hostUUID
proof
  show "disconnect_mutation objUUID hostUUID st = (None, st') \<Longrightarrow> backed st s \<Longrightarrow> backed st' s" for st st' s
    by (auto simp: disconnect_mutation_def pruneExports_def backed_def)
  show "good_db st'" if good: "good_db st" and run: "disconnect_mutation objUUID hostUUID st = (None, st')" for st st'
  proof -
    obtain P Q where st': "st' = st\<lparr>db_Connections := filter P (db_Connections st), db_Exports := filter Q (db_Exports st)\<rparr>"
      using run by (simp add: disconnect_mutation_def pruneExports_def) blast
    have "export_room st' \<subseteq> export_room st" by (auto simp: export_room_def st')
    then have "card (export_room st') \<le> 16384"
      using good le_trans [OF card_mono [of "export_room st"]] by (simp add: good_db_iff)
    moreover have "valid_exports (db_Exports st') \<and> distinct (map fst (db_Exports st'))"
      using good by (auto simp: st' good_db_iff valid_exports_def distinct_map_filterI)
    moreover have "valid_connections (ob_UUID ` set (db_Objects st)) (h_UUID ` set (db_Hosts st)) (db_Connections st')"
      using good by (auto simp: st' good_db_iff valid_connections_def distinct_map_filterI)
    ultimately show ?thesis using good by (simp add: good_db_iff sane_db_def st')
  qed
qed simp

section \<open>The operations keep the appliance sound\<close>

lemma check_iqns_None:
  "check_iqns st ex seen qs = None \<longleftrightarrow>
     distinct qs \<and> (\<forall>q \<in> set qs. ValidInitiatorIQN q \<and> q \<notin> set seen \<and> iqnOwner st q ex = '''')"
  by (induction qs arbitrary: seen) auto

lemma host_UUID_nonempty: "valid_hosts hs \<Longrightarrow> h \<in> set hs \<Longrightarrow> h_UUID h \<noteq> ''''"
  by (auto simp: valid_hosts_def dest!: validUUID_length)

lemma iqnOwner_free:
  assumes "valid_hosts (db_Hosts st)"
  shows "iqnOwner st q ex = '''' \<longleftrightarrow> (\<forall>h \<in> set (db_Hosts st). h_UUID h \<noteq> ex \<longrightarrow> q \<notin> set (h_IQNs h))"
proof (cases "find (\<lambda>h. h_UUID h \<noteq> ex \<and> q \<in> set (h_IQNs h)) (db_Hosts st)")
  case None
  then show ?thesis using None by (simp add: find_None_iff iqnOwner_def del: find_None_iff) (auto simp: find_None_iff)
next
  case (Some h)
  then have "h \<in> set (db_Hosts st)" "h_UUID h \<noteq> ex \<and> q \<in> set (h_IQNs h)" by (auto simp: find_Some_iff)
  then show ?thesis using Some host_UUID_nonempty [OF assms] by (auto simp: iqnOwner_def)
qed

lemma checkIQNs_None:
  assumes "valid_hosts (db_Hosts st)"
  shows "checkIQNs st iqns ex = None \<longleftrightarrow> distinct iqns \<and> (\<forall>q \<in> set iqns. ValidInitiatorIQN q)
    \<and> (\<forall>h \<in> set (db_Hosts st). h_UUID h \<noteq> ex \<longrightarrow> set (h_IQNs h) \<inter> set iqns = {})"
  by (auto simp: checkIQNs_def check_iqns_None iqnOwner_free [OF assms])

lemma c_rand_sel:
  assumes "c_rand c = (r, c')"
  shows "(\<exists>w. c' = c\<lparr>c_os := w\<rparr>) \<and> (\<forall>b. r = Some b \<longrightarrow> length b = 16)"
  using assms by (cases "os_rand (c_os c)") (auto simp: c_rand_def intro: exI [of _ "c_os c"])

lemma sound_os [simp]: "sound (c\<lparr>c_os := w\<rparr>) = sound c"
  by (simp add: sound_def good_def)

lemma fenceLossWarningFor_settled:
  assumes "fenceLossWarningFor env u losing h c = (r, c')" and "range_ok env"
  shows "settled c c' \<and> c_kern c' = c_kern c \<and> c_lastReconcileErr c' = c_lastReconcileErr c"
proof -
  obtain d c1 where d: "desiredLIO env c = (d, c1)" by fastforce
  have "c' = c \<or> c' = c1"
    using assms(1) by (auto simp: fenceLossWarningFor_def d Let_def split: option.splits sum.splits if_splits)
  then show ?thesis using desiredLIO_settled [OF d assms(2)] by auto
qed

lemma fenceLossWarning_settled:
  "fenceLossWarning env u hu c = (r, c') \<Longrightarrow> range_ok env \<Longrightarrow> settled c c'"
  by (auto simp: fenceLossWarning_def dest: fenceLossWarningFor_settled split: option.splits)

lemma binding_warnings_settled:
  "binding_warnings env dropped hu cns c = (r, c') \<Longrightarrow> range_ok env \<Longrightarrow> settled c c'"
proof (induction cns arbitrary: c r c')
  case (Cons cn cns)
  obtain w c1 where w: "fenceLossWarningFor env (cn_ObjectUUID cn) dropped '''' c = (w, c1)" by fastforce
  obtain ws c2 where ws: "binding_warnings env dropped hu cns c1 = (ws, c2)" by fastforce
  have "settled c c1" "settled c1 c2"
    using fenceLossWarningFor_settled [OF w Cons.prems(2)] Cons.IH [OF ws Cons.prems(2)] by auto
  moreover have "binding_warnings env dropped hu cns c = (r, c') \<or> c' = c1 \<or> c' = c2"
    using Cons.prems(1) by (auto simp: w ws split: if_splits sum.splits)
  ultimately show ?case using Cons.IH Cons.prems(2) settled_trans by blast
qed simp

lemma set_hosts_settled: "settled c c' \<Longrightarrow> db_Hosts (c_st c') = db_Hosts (c_st c) \<and> db_Connections (c_st c') = db_Connections (c_st c)
    \<and> db_Objects (c_st c') = db_Objects (c_st c)"
  by (simp add: settled_def grown_sel)

lemma resolveHost_in: "resolveHost st ref = Some h \<Longrightarrow> h \<in> set (db_Hosts st)"
  by (auto simp: resolveHost_def hostByName_def host_def find_Some_iff split: option.splits)

lemma resolveObject_in: "resolveObject st kind ref = Some x \<Longrightarrow> x \<in> set (db_Objects st)"
  by (auto simp: resolveObject_def objectByName_def object_def find_Some_iff split: option.splits if_splits)

lemma sound_hosts: "sound c \<Longrightarrow> valid_hosts (db_Hosts (c_st c))"
  by (simp add: sound_def good_def good_db_iff)

text \<open>
  The identifiers that the next draw of random bytes yields are not in use. The code does not look: it
  relies on a hundred and twenty-two random bits.
\<close>

definition fresh_rand :: "'k coord \<Rightarrow> bool" where
  "fresh_rand c \<longleftrightarrow> (case fst (c_rand c) of None \<Rightarrow> True
     | Some b \<Rightarrow> newHostUUID b \<notin> h_UUID ` set (db_Hosts (c_st c)) \<and> fst (newIdentity b) \<notin> ob_UUID ` set (db_Objects (c_st c)))"

lemma hostByName_None: "hostByName st name = None \<longleftrightarrow> name \<notin> h_Name ` set (db_Hosts st)"
  by (auto simp: hostByName_def find_None_iff)

lemma checkName_None: "checkName name = None \<longleftrightarrow> validName name = None"
  by (simp add: checkName_def split: option.split)

lemma CreateHost_sound:
  assumes run: "CreateHost env name iqns c = (r, c')" and env: "range_ok env" and fresh: "fresh_rand c" and c: "sound c"
  shows "sound c'"
proof -
  obtain b c1 where b: "c_rand c = (b, c1)" by fastforce
  obtain w where c1: "c1 = c\<lparr>c_os := w\<rparr>" using c_rand_sel [OF b] by blast
  consider "c' = c \<or> c' = c1" | bs e where "b = Some bs" "checkName name = None" "hostByName (c_st c) name = None"
      "checkIQNs (c_st c) iqns '''' = None"
      "commit env (create_host_mutation \<lparr>h_UUID = newHostUUID bs, h_Name = name, h_IQNs = iqns\<rparr>) c1 = (e, c')"
    using run by (auto simp: CreateHost_def b Let_def split: option.splits if_splits prod.splits)
  then show ?thesis
  proof cases
    case 2
    have nonempty: "h_UUID h \<noteq> ''''" if "h \<in> set (db_Hosts (c_st c))" for h
      using host_UUID_nonempty [OF sound_hosts [OF c] that] .
    have "create_host_pre \<lparr>h_UUID = newHostUUID bs, h_Name = name, h_IQNs = iqns\<rparr> (c_st c1)"
      using 2(1-4) fresh b c_rand_sel [OF b] newHostUUID_valid [of bs] checkIQNs_None [OF sound_hosts [OF c]] nonempty
      by (auto simp: create_host_pre_def c1 fresh_rand_def checkName_None hostByName_None)
    from create_host.commit_sound [OF 2(5) env this] show ?thesis using c by (simp add: c1)
  qed (use c c1 in auto)
qed

lemma RenameHost_sound:
  assumes run: "RenameHost ref newName c = (r, c')" and c: "sound c"
  shows "sound c'"
proof -
  consider "c' = c" | target :: Host and e where "checkName newName = None" "hostByName (c_st c) newName = None"
      "persistOnly (rename_host_mutation (h_Name target) newName) c = (e, c')"
    using run by (auto simp: RenameHost_def split: option.splits if_splits prod.splits)
  then show ?thesis
  proof cases
    case 2
    then have "rename_host_pre newName (c_st c)" by (simp add: rename_host_pre_def checkName_None hostByName_None)
    from rename_host.persistOnly_sound [OF 2(3) this c] show ?thesis .
  qed (use c in simp)
qed

lemma SetBindings_sound:
  assumes run: "SetBindings env ref replace add remove c = (r, c')" and env: "range_ok env" and c: "sound c"
  shows "sound c'"
proof -
  consider "c' = c"
    | "settled c c'" | h :: Host and iqns c1 e where "checkIQNs (c_st c) iqns (h_UUID h) = None" "settled c c1"
      "commit env (set_bindings_mutation (h_UUID h) iqns) c1 = (e, c')"
  proof (cases "resolveHost (c_st c) ref")
    case None
    then show thesis using run that(1) by (simp add: SetBindings_def)
  next
    case (Some h)
    let ?iqns = "next_bindings (h_IQNs h) replace add remove"
    let ?dropped = "filter (\<lambda>q. q \<notin> set ?iqns) (h_IQNs h)"
    obtain ws c1 where ws: "(if ?dropped = [] then (Inr [], c)
      else binding_warnings env ?dropped (h_UUID h) (db_Connections (c_st c)) c) = (ws, c1)" by fastforce
    have s: "settled c c1" using ws env by (auto split: if_splits dest: binding_warnings_settled)
    show thesis
    proof (cases "checkIQNs (c_st c) ?iqns (h_UUID h)")
      case None
      then show thesis
        using run Some s that(2) that(3) [OF None s]
        by (cases ws) (auto simp: SetBindings_def Let_def ws simp del: filter_empty_conv split: prod.splits option.splits)
    qed (use run Some that(1) in \<open>simp add: SetBindings_def Let_def\<close>)
  qed
  then show ?thesis
  proof cases
    case (3 h iqns c1 e)
    have "set_bindings_pre (h_UUID h) iqns (c_st c1)"
      using 3(1) checkIQNs_None [OF sound_hosts [OF c]] set_hosts_settled [OF 3(2)] by (simp add: set_bindings_pre_def)
    from set_bindings.commit_sound [OF 3(3) env this sound_settled [OF 3(2) c]] show ?thesis .
  qed (use c sound_settled env in \<open>auto dest: binding_warnings_settled\<close>)
qed

lemma DeleteHost_sound:
  assumes run: "DeleteHost env ref c = (r, c')" and env: "range_ok env" and c: "sound c"
  shows "sound c'"
proof -
  consider "c' = c" | h :: Host where "connectionsOfHost (c_st c) (h_UUID h) = []"
      "commit env (delete_host_mutation (h_UUID h)) c = (r, c')"
    using run by (cases "resolveHost (c_st c) ref") (auto simp: DeleteHost_def split: if_splits)
  then show ?thesis
  proof cases
    case (2 h)
    then have "delete_host_pre (h_UUID h) (c_st c)"
      by (auto simp: delete_host_pre_def connectionsOfHost_def filter_empty_conv)
    from delete_host.commit_sound [OF 2(2) env this c] show ?thesis .
  qed (use c in simp)
qed

lemma connect_scan_None:
  "connect_scan u h l cns = None \<longleftrightarrow> (\<forall>cn \<in> set cns. cn_HostUUID cn = h \<longrightarrow> cn_ObjectUUID cn \<noteq> u \<and> cn_LUN cn \<noteq> l)"
  by (induction cns) auto

text \<open>One more exported object still gets an index.\<close>

definition room_for :: "string \<Rightarrow> db \<Rightarrow> bool" where
  "room_for objUUID st \<longleftrightarrow> card (insert objUUID (export_room st)) \<le> 16384"

lemma Connect_sound:
  assumes run: "Connect env kind objectRef hostRef lun lunGiven c = (r, c')" and env: "range_ok env" and c: "sound c"
    and room: "\<And>v. resolveObject (c_st c) kind objectRef = Some v \<Longrightarrow> room_for (ob_UUID v) (c_st c)"
  shows "sound c'"
proof -
  consider "c' = c" | v :: Object and h :: Host and e where "resolveObject (c_st c) kind objectRef = Some v" "resolveHost (c_st c) hostRef = Some h"
      "\<not> (lun < 0 \<or> lun > maxLUN)" "connect_scan (ob_UUID v) (h_UUID h) lun (db_Connections (c_st c)) = None"
      "commit env (connect_mutation (ob_UUID v) (h_UUID h) lun) c = (e, c')"
    using run by (auto simp: Connect_def split: option.splits sum.splits if_splits prod.splits)
  then show ?thesis
  proof cases
    case (2 v h e)
    then have "connect_pre (ob_UUID v) (h_UUID h) lun (c_st c)"
      using room [OF 2(1)] resolveObject_in [OF 2(1)] resolveHost_in [OF 2(2)]
      by (auto simp: connect_pre_def room_for_def connect_scan_None)
    from connect.commit_sound [OF 2(5) env this c] show ?thesis .
  qed (use c in simp)
qed

lemma Disconnect_sound:
  assumes run: "Disconnect env kind objectRef hostRef c = (r, c')" and env: "range_ok env" and c: "sound c"
  shows "sound c'"
proof -
  obtain f c1 where h: "healIfDegraded env c = (f, c1)" by fastforce
  have s1: "settled c c1" using healIfDegraded_settled [OF h env] by simp
  consider "c' = c" | "c' = c1" | v w x c2 where "fenceLossWarning env v w c1 = (x, c2)"
      "c' = c2 \<or> (\<exists>e. commit env (disconnect_mutation v w) c2 = (e, c'))"
    using run by (auto simp: Disconnect_def h split: option.splits if_splits prod.splits sum.splits)
  then show ?thesis
  proof cases
    case (3 v w x c2)
    have "sound c2" using fenceLossWarning_settled [OF 3(1) env] s1 c sound_settled by blast
    then show ?thesis using 3(2) disconnect.commit_sound [OF _ env] by blast
  qed (use c s1 sound_settled in auto)
qed

section \<open>Properties\<close>

lemma connect_scan_append: "connect_scan u h l xs = None \<Longrightarrow> connect_scan u h l (xs @ ys) = connect_scan u h l ys"
  by (induction xs) (auto split: if_splits)

text \<open>What a commit that returned success leaves.\<close>

lemma commit_success:
  assumes "commit env mutate c = (None, c')" and "range_ok env"
  obtains st0 st1 where "grown (c_st c) st0" "mutate st0 = (None, st1)" "grown st1 (c_st c')" "frame c c'"
  using assms
proof (cases rule: commit_cases)
  case (written st0 st1 c0 c1 desired)
  have "settled c0 c1" using desiredLIO_settled [OF written(7) assms(2)] by simp
  then have "grown st1 (c_st c')" using written(6,10) grown_trans by (auto simp: settled_def)
  then show thesis using written(1-3) that by blast
qed auto

lemma resolveObject_cong:
  assumes "db_Objects st' = db_Objects st"
  shows "resolveObject st' kind ref = resolveObject st kind ref"
proof -
  have "objectByName st' kind ref = objectByName st kind ref" "object st' ref = object st ref"
    by (simp_all add: objectByName_def object_def assms)
  then show ?thesis by (simp only: resolveObject_def)
qed

lemma resolveHost_cong:
  assumes "db_Hosts st' = db_Hosts st"
  shows "resolveHost st' ref = resolveHost st ref"
proof -
  have "hostByName st' ref = hostByName st ref" "host st' ref = host st ref" by (simp_all add: hostByName_def host_def assms)
  then show ?thesis by (simp only: resolveHost_def)
qed

lemma resolve_grown:
  assumes "grown st st'"
  shows "resolveObject st' kind ref = resolveObject st kind ref" "resolveHost st' ref = resolveHost st ref"
  by (rule resolveObject_cong resolveHost_cong; simp add: grown_sel [OF assms])+

text \<open>Connecting is safe to replay: after a request that succeeded, the same request returns the same
  connection details, reports that nothing was created, and changes nothing, whatever the engine would
  do: a controller that lost the first answer can ask again.\<close>

lemma connect_replay:
  assumes run: "Connect env kind objectRef hostRef lun lunGiven c = (Inr (info, created), c1)" and env: "range_ok env"
  shows "Connect env' kind objectRef hostRef lun lunGiven c1 = (Inr (info, False), c1)"
proof -
  obtain v h where vh: "resolveObject (c_st c) kind objectRef = Some v" "resolveHost (c_st c) hostRef = Some h"
    and ok: "ob_State v = stateReady" "lunGiven" "\<not> (lun < 0 \<or> lun > maxLUN)"
    using run by (auto simp: Connect_def split: option.splits if_splits)
  show ?thesis
  proof (cases "connect_scan (ob_UUID v) (h_UUID h) lun (db_Connections (c_st c))")
    case None
    then have m: "commit env (connect_mutation (ob_UUID v) (h_UUID h) lun) c = (None, c1)"
      and info: "info = connInfo c1 v lun"
      using run vh ok by (auto simp: Connect_def split: prod.splits option.splits)
    obtain st0 st1 where g: "grown (c_st c) st0" "connect_mutation (ob_UUID v) (h_UUID h) lun st0 = (None, st1)"
      "grown st1 (c_st c1)"
      using commit_success [OF m env] by blast
    have sel: "db_Connections st1 = db_Connections st0 @ [\<lparr>cn_ObjectUUID = ob_UUID v, cn_HostUUID = h_UUID h, cn_LUN = lun\<rparr>]"
      "resolveObject st1 kind objectRef = resolveObject st0 kind objectRef" "resolveHost st1 hostRef = resolveHost st0 hostRef"
      using g(2) by (auto simp: connect_mutation_def case_prod_beta intro!: resolveObject_cong resolveHost_cong)
    have "connect_scan (ob_UUID v) (h_UUID h) lun (db_Connections (c_st c1)) = Some (Inr ())"
      using None by (simp add: grown_sel [OF g(3)] sel(1) grown_sel [OF g(1)] connect_scan_append)
    moreover have "resolveObject (c_st c1) kind objectRef = Some v" "resolveHost (c_st c1) hostRef = Some h"
      using vh by (simp_all add: resolve_grown [OF g(3)] sel resolve_grown [OF g(1)])
    ultimately show ?thesis using ok info by (simp add: Connect_def)
  next
    case (Some s)
    then show ?thesis using run vh ok by (cases s) (auto simp: Connect_def)
  qed
qed

text \<open>A second host, to which nothing is connected.\<close>

definition demo_host2 :: Host where
  "demo_host2 = \<lparr>h_UUID = ''6ba7b812-9dad-41d1-80b4-00c04fd430c8'', h_Name = ''node2'', h_IQNs = []\<rparr>"

definition demo2 :: "unit coord" where
  "demo2 = demo\<lparr>c_st := demo_db\<lparr>db_Hosts := [demo_host, demo_host2]\<rparr>\<rparr>"

lemma demo2_good: "good_db (c_st demo2)"
proof -
  have g: "good_db demo_db" by (simp add: good_db_def)
  have "valid_hosts [demo_host, demo_host2]"
    by (simp add: valid_hosts_def demo_host_def demo_host2_def validUUID_def upt_rec isHexDigit_def
        validName_def maxNameLen_def bad_name_char_def go_eval)
  then show ?thesis
    using good_set_hosts [OF g, of "[demo_host, demo_host2]"] good_connected_hosts [OF g]
    by (auto simp: demo2_def demo_db_def)
qed

lemma demo2_connects:
  "\<exists>info c1. Connect idle_env KindVolume ''data'' ''node2'' 0 True demo2 = (Inr (info, True), c1)"
proof -
  let ?m = "connect_mutation (ob_UUID demo_volume) (h_UUID demo_host2) 0"
  have res: "resolveObject (c_st demo2) KindVolume ''data'' = Some demo_volume" "resolveHost (c_st demo2) ''node2'' = Some demo_host2"
    "connect_scan (ob_UUID demo_volume) (h_UUID demo_host2) 0 (db_Connections (c_st demo2)) = None" "ob_State demo_volume = stateReady"
    by (simp_all add: demo2_def demo_db_def demo_volume_def demo_host_def demo_host2_def resolveObject_def objectByName_def
        resolveHost_def hostByName_def)
  have "connect_pre (ob_UUID demo_volume) (h_UUID demo_host2) 0 (c_st demo2)"
    by (simp add: connect_pre_def demo2_def demo_db_def demo_volume_def demo_host_def demo_host2_def maxLUN_def export_room_def)
  then have "good_db (snd (?m (c_st demo2)))"
    using connect.keeps_good [OF _ demo2_good, of _ _ _ "snd (?m (c_st demo2))"] by (simp add: connect_mutation_def case_prod_beta)
  then have "fst (commit idle_env ?m demo2) = None"
    by (intro commit_succeeds [where st = "snd (?m (c_st demo2))"])
      (simp_all add: connect_mutation_def case_prod_beta demo2_def quiet_def demo_def portals_def demo_db_def valid_portals_def quiet_os_def)
  then obtain c1 where "commit idle_env ?m demo2 = (None, c1)" by (metis prod.collapse)
  then show ?thesis using res by (auto simp: Connect_def maxLUN_def)
qed

text \<open>Registering a host is safe to replay: after a request that succeeded, the same request, with the
  initiator names in any order, returns the same host, reports that nothing was created, and changes nothing.\<close>

lemma create_host_replay:
  assumes run: "CreateHost env name iqns c = (Inr (h, created), c1)" and env: "range_ok env" and perm: "mset iqns' = mset iqns"
  shows "CreateHost env' name iqns' c1 = (Inr (h, False), c1)"
proof -
  have srt: "sort iqns' = sort iqns" using perm properties_for_sort sorted_sort mset_sort by metis
  have nm: "checkName name = None" using run by (auto simp: CreateHost_def split: option.splits)
  show ?thesis
  proof (cases "hostByName (c_st c) name")
    case None
    obtain b c0 where b: "c_rand c = (b, c0)" by fastforce
    obtain w where c0: "c0 = c\<lparr>c_os := w\<rparr>" using c_rand_sel [OF b] by blast
    have h: "commit env (create_host_mutation h) c0 = (None, c1)" "h_Name h = name" "h_IQNs h = iqns"
      using run None nm b by (auto simp: CreateHost_def Let_def split: option.splits prod.splits)
    obtain st0 st1 where g: "grown (c_st c0) st0" "create_host_mutation h st0 = (None, st1)" "grown st1 (c_st c1)"
      using commit_success [OF h(1) env] by blast
    have "db_Hosts (c_st c1) = db_Hosts (c_st c) @ [h]"
      using g(2) by (auto simp: grown_sel [OF g(3)] create_host_mutation_def grown_sel [OF g(1)] c0)
    then have "hostByName (c_st c1) name = Some h"
      using None h(2) by (simp add: hostByName_def find_append)
    then show ?thesis using nm srt h(3) by (simp add: CreateHost_def)
  next
    case (Some x)
    then show ?thesis using run nm srt by (auto simp: CreateHost_def split: if_splits)
  qed
qed

lemma exported_settled:
  assumes "settled c c'" shows "exported c' = exported c"
proof -
  have "object (c_st c') = object (c_st c)" by (rule ext) (simp add: object_def set_hosts_settled [OF assms])
  then show ?thesis using assms by (simp add: exported_def set_hosts_settled [OF assms]) (simp add: settled_def frame_def)
qed

text \<open>The kernel holds a persistent reservation of the object that is lost with the initiator \<open>q\<close>.\<close>

definition fences :: "'k env \<Rightarrow> 'k \<Rightarrow> string \<Rightarrow> string \<Rightarrow> string \<Rightarrow> bool" where
  "fences env k u q ty \<longleftrightarrow> q \<noteq> '''' \<and> (\<forall>bs. bs_Name bs = backstoreName u \<longrightarrow> (\<exists>res. e_ReservationHolder env bs k = Inr res
     \<and> rv_Holder res = q \<and> rv_Type res = ty \<and> \<not> rv_SPC2 res \<and> \<not> AllRegistrants res))"

lemma fenceLossWarningFor_reports:
  assumes run: "fenceLossWarningFor env u losing h c = (Inr w, c')" and env: "range_ok env" and u: "u \<in> set (exported c)"
    and f: "fences env (c_kern c) u q ty" and q: "q \<in> set losing"
  shows "\<exists>last. w = Some (FenceReleased q ty last)"
proof -
  obtain v where v: "object (c_st c) u = Some v" "ob_UUID v = u"
    using u object_Some by (auto simp: exported_def split: option.splits)
  obtain cfg c1 where d: "desiredLIO env c = (Some cfg, c1)"
    using run v by (cases "desiredLIO env c"; cases "fst (desiredLIO env c)") (auto simp: fenceLossWarningFor_def)
  have k: "c_kern c1 = c_kern c" using desiredLIO_settled [OF d env] by simp
  have "backstoreName u \<in> bs_Name ` set (cfg_Backstores cfg)" using desired_names [OF d env] u by simp
  then obtain bs where bs: "find (\<lambda>b. bs_Name b = backstoreName u) (cfg_Backstores cfg) = Some bs"
    by (cases "find (\<lambda>b. bs_Name b = backstoreName u) (cfg_Backstores cfg)") (auto simp: find_None_iff)
  then have "bs_Name bs = backstoreName u" using find_key_Some by fast
  then obtain res where "e_ReservationHolder env bs (c_kern c1) = Inr res" "rv_Holder res = q" "rv_Type res = ty"
    "\<not> rv_SPC2 res" "\<not> AllRegistrants res" "q \<noteq> ''''"
    using f k by (auto simp: fences_def)
  then show ?thesis using run q v bs d by (auto simp: fenceLossWarningFor_def Let_def)
qed

lemma binding_warnings_reports:
  assumes "binding_warnings env losing hu cns c = (Inr ws, c')" and "range_ok env" and "cn \<in> set cns" and "cn_HostUUID cn = hu"
    and "cn_ObjectUUID cn \<in> set (exported c)" and "fences env (c_kern c) (cn_ObjectUUID cn) q ty" and "q \<in> set losing"
  shows "\<exists>last. FenceReleased q ty last \<in> set ws"
  using assms
proof (induction cns arbitrary: c ws)
  case (Cons d cns)
  obtain x c1 where x: "fenceLossWarningFor env (cn_ObjectUUID d) losing '''' c = (x, c1)" by fastforce
  have c1: "exported c1 = exported c" "c_kern c1 = c_kern c"
    using exported_settled fenceLossWarningFor_settled [OF x Cons.prems(2)] by auto
  show ?case
  proof (cases "cn_HostUUID d = hu")
    case True
    then obtain w vs where w: "x = Inr w" and vs: "binding_warnings env losing hu cns c1 = (Inr vs, c')"
      and ws: "ws = (case w of Some y \<Rightarrow> y # vs | None \<Rightarrow> vs)"
      using Cons.prems(1) x by (auto split: sum.splits prod.splits)
    show ?thesis
    proof (cases "d = cn")
      case True
      then have "\<exists>last. w = Some (FenceReleased q ty last)"
        using fenceLossWarningFor_reports Cons.prems(2,5-7) x w by blast
      then show ?thesis using ws by auto
    next
      case False
      then have "\<exists>last. FenceReleased q ty last \<in> set vs" using Cons.IH [OF vs] Cons.prems(2-7) c1 by simp
      then show ?thesis using ws by (auto split: option.splits)
    qed
  next
    case False
    then show ?thesis using Cons by auto
  qed
qed simp


text \<open>An engine in whose kernel the demonstration initiator holds a write-exclusive reservation.\<close>

definition held_env :: "unit env" where
  "held_env = idle_env\<lparr>e_ReservationHolder := (\<lambda>b k. Inr \<lparr>rv_Holder = ''iqn.1993-08.org.debian:01:a'', rv_ISID = '''',
     rv_Type = ''Write Exclusive Access, Registrants Only'', rv_SPC2 = False\<rparr>)\<rparr>"

lemma held_env_ok [simp]: "range_ok held_env" "engine_ok held_env"
  using range_ok_idle engine_ok_idle by (simp_all add: held_env_def range_ok_def engine_ok_def idle_env_def)

lemma held_env_fences: "fences held_env k u ''iqn.1993-08.org.debian:01:a'' ''Write Exclusive Access, Registrants Only''"
  by (simp add: fences_def held_env_def AllRegistrants_def go_eval)

lemma demo_unbinds:
  "\<exists>h' ws c'. SetBindings held_env ''node1'' None [] [''iqn.1993-08.org.debian:01:a''] demo = ((Inr h', ws), c') \<and> h_IQNs h' = []"
proof -
  let ?q = "''iqn.1993-08.org.debian:01:a''"
  let ?m = "set_bindings_mutation (h_UUID demo_host) []"
  have res: "resolveHost (c_st demo) ''node1'' = Some demo_host" "h_IQNs demo_host = [?q]"
    by (simp_all add: demo_db_def resolveHost_def hostByName_def demo_host_def)
  have nb: "next_bindings (h_IQNs demo_host) None [] [?q] = []" "checkIQNs (c_st demo) [] (h_UUID demo_host) = None"
    by (simp_all add: next_bindings_def res checkIQNs_def)
  obtain x c1 where x: "fenceLossWarningFor held_env (ob_UUID demo_volume) [?q] '''' demo = (x, c1)" by fastforce
  have s: "settled demo c1" "c_lastReconcileErr c1 = None"
    using fenceLossWarningFor_settled [OF x] by simp_all
  obtain cfg c2 where "desiredLIO held_env demo = (Some cfg, c2)" using desired_config_valid [of demo held_env] by auto
  then obtain w where w: "x = Inr w"
    using x by (cases x) (auto simp: fenceLossWarningFor_def Let_def split: option.splits sum.splits if_splits)
  have conn: "db_Connections (c_st demo) = [\<lparr>cn_ObjectUUID = ob_UUID demo_volume, cn_HostUUID = h_UUID demo_host, cn_LUN = 3\<rparr>]"
    by (simp add: demo_db_def)
  have "good_db (c_st c1)" using good_db_settled [OF s(1)] by (simp add: good_db_def)
  moreover have "set_bindings_pre (h_UUID demo_host) [] (c_st c1)" by (simp add: set_bindings_pre_def)
  ultimately have g: "good_db (snd (?m (c_st c1)))"
    using set_bindings.keeps_good [of "h_UUID demo_host" "[]" "c_st c1" "snd (?m (c_st c1))"] by (simp add: set_bindings_mutation_def)
  have fr: "c_cfg c1 = c_cfg demo" "c_dbPath c1 = c_dbPath demo" "c_os c1 = c_os demo" "db_Portals (c_st c1) = db_Portals demo_db"
    using s(1) by (auto simp: settled_def frame_def grown_sel)
  have "fst (commit held_env ?m c1) = None"
    using g s(2) fr by (intro commit_succeeds [where st = "snd (?m (c_st c1))"])
      (simp_all add: set_bindings_mutation_def quiet_def quiet_os_def portals_def demo_def demo_db_def valid_portals_def)
  then obtain c' where "commit held_env ?m c1 = (None, c')" by (metis prod.collapse)
  then show ?thesis using res nb x w conn by (auto simp: SetBindings_def Let_def)
qed


end
