(* ===== verification/Appliance_Objects.thy ===== *)
theory Appliance_Objects
  imports Appliance_Hosts
begin

text \<open>
  Volumes and snapshots (appliance/objects.go, and \<open>discardSavedPR\<close> of ops.go). Each operation works on the
  record and on the bytes, in the order the code has them: bytes before record on the way in, record
  before bytes on the way out. The contract of the bytes, \<open>backed\<close>, survives every failure.
\<close>

section \<open>Sizes\<close>

definition DefaultBlockSize :: int where "DefaultBlockSize = 512"
definition MaxBlockSize :: int where "MaxBlockSize = 4096"
definition MinVolumeSize :: int where "MinVolumeSize = 1048576"

definition ValidBlockSize :: "int \<Rightarrow> bool" where
  "ValidBlockSize n \<longleftrightarrow> n = DefaultBlockSize \<or> n = MaxBlockSize"

definition checkSize :: "int \<Rightarrow> op_error option" where
  "checkSize sz = (if sz < MinVolumeSize then Some (StatusError StatusBadRequest CodeInvalidInput)
     else (case CheckGranularity sz SizeGranularity of
       Some e \<Rightarrow> Some (StatusError StatusBadRequest CodeInvalidInput) | None \<Rightarrow> None))"

section \<open>The store and the saved reservations as the coordinator calls them\<close>

definition with_store :: "(Store \<Rightarrow> os \<Rightarrow> store_error option \<times> Store \<times> os) \<Rightarrow> 'k coord \<Rightarrow> op_error option \<times> 'k coord" where
  "with_store f c = (case f (c_store c) (c_os c) of (r, s, w) \<Rightarrow> (map_option StoreFailed r, c\<lparr>c_store := s, c_os := w\<rparr>))"

text \<open>The name under which the kernel saves the reservations of a unit, in \<open>db_root/pr\<close>.\<close>

definition aptpl_file :: "string \<Rightarrow> string" where
  "aptpl_file wwn = ''aptpl_'' @ wwn"

text \<open>\<open>os.Remove\<close> on a saved file. A failure never claims that something present is absent.\<close>

definition remove_prfile :: "string \<Rightarrow> 'k coord \<Rightarrow> errno option \<times> 'k coord" where
  "remove_prfile n c = (case c_syscall c of (f, c1) \<Rightarrow>
     if n \<notin> set (c_prfiles c1) then (Some (case f of Some e \<Rightarrow> e | None \<Rightarrow> ENOENT), c1)
     else if f = None \<or> f = Some ENOENT then (None, c1\<lparr>c_prfiles := filter (\<lambda>p. p \<noteq> n) (c_prfiles c1)\<rparr>)
     else (f, c1))"

text \<open>Best effort: a failure is logged and the file left.\<close>

definition discardSavedPR :: "string \<Rightarrow> 'k coord \<Rightarrow> 'k coord" where
  "discardSavedPR wwn c = (if ac_DBRoot (c_cfg c) = '''' \<or> wwn = '''' then c else snd (remove_prfile (aptpl_file wwn) c))"

section \<open>Creating\<close>

record CreateRequest =
  cr_Name :: string
  cr_Size :: int
  cr_BlockSize :: int
  cr_Source :: string
  cr_SourceKind :: string

definition dropBytes :: "op_error \<Rightarrow> bool" where
  "dropBytes e = (\<not> not_durable e)"

definition matchExisting :: "db \<Rightarrow> Object \<Rightarrow> CreateRequest \<Rightarrow> op_error option" where
  "matchExisting st existing req =
    (if cr_BlockSize req \<noteq> 0 \<and> ob_BlockSize existing \<noteq> cr_BlockSize req
     then Some (StatusError StatusConflict CodeConfigurationMismatch)
     else if cr_Source req \<noteq> '''' \<and> cr_Source req \<noteq> ob_Source existing then
       (case resolveObject st (cr_SourceKind req) (cr_Source req) of
          None \<Rightarrow> Some (StatusError StatusConflict CodeConfigurationMismatch)
        | Some src \<Rightarrow> if ob_Source existing \<noteq> ob_UUID src then Some (StatusError StatusConflict CodeConfigurationMismatch)
            else None)
     else None)"

text \<open>The source of a copy, with the geometry and the size that the request then has.\<close>

definition copy_source :: "db \<Rightarrow> CreateRequest \<Rightarrow> op_error + Object option \<times> CreateRequest" where
  "copy_source st req =
    (if cr_Source req = '''' then Inr (None, req)
     else (case resolveObject st (cr_SourceKind req) (cr_Source req) of
       None \<Rightarrow> Inl notFound
     | Some source \<Rightarrow>
        if ob_State source \<noteq> stateReady then Inl (StatusError StatusConflict CodeUnsupportedState)
        else (let sz = (if cr_Size req = 0 then ob_Capacity source else cr_Size req) in
          if sz < ob_Capacity source then Inl (StatusError StatusBadRequest CodeInvalidInput)
          else Inr (Some source, req\<lparr>cr_BlockSize := ob_BlockSize source, cr_Size := sz\<rparr>))))"

definition make_bytes :: "Object option \<Rightarrow> string \<Rightarrow> int \<Rightarrow> 'k coord \<Rightarrow> op_error option \<times> 'k coord" where
  "make_bytes source uuid sz c = (case source of
     None \<Rightarrow> with_store (store_Create uuid sz) c
   | Some s \<Rightarrow> (case with_store (Clone (ob_UUID s) uuid) c of
       (Some e, c1) \<Rightarrow> (Some e, c1)
     | (None, c1) \<Rightarrow> if sz > ob_Capacity s then
         (case with_store (store_Resize uuid sz) c1 of
            (Some e, c2) \<Rightarrow> (Some e, snd (with_store (store_Delete uuid) c2))
          | (None, c2) \<Rightarrow> (None, c2))
         else (None, c1)))"

definition create_object_mutation :: "Object \<Rightarrow> mutation" where
  "create_object_mutation x st = (None, st\<lparr>db_Objects := db_Objects st @ [x]\<rparr>)"

text \<open>The result is the object with the flag \<open>created\<close>, if one is returned, and the error.\<close>

type_synonym create_result = "(Object \<times> bool) option \<times> op_error option"

definition new_object :: "string \<Rightarrow> CreateRequest \<Rightarrow> Object option \<Rightarrow> string \<times> string \<Rightarrow> int \<Rightarrow> Object" where
  "new_object kind req source ident now =
    \<lparr>ob_UUID = fst ident, ob_Name = cr_Name req, ob_Kind = kind, ob_WWN = snd ident, ob_Capacity = cr_Size req,
     ob_BlockSize = cr_BlockSize req, ob_Created = now, ob_State = stateReady,
     ob_Source = (case source of Some s \<Rightarrow> ob_UUID s | None \<Rightarrow> '''')\<rparr>"

definition create_new :: "string \<Rightarrow> CreateRequest \<Rightarrow> 'k coord \<Rightarrow> create_result \<times> 'k coord" where
  "create_new kind req0 c = (case copy_source (c_st c) req0 of
     Inl e \<Rightarrow> ((None, Some e), c)
   | Inr (source, req) \<Rightarrow> (case checkSize (cr_Size req) of
       Some e \<Rightarrow> ((None, Some e), c)
     | None \<Rightarrow> (case c_rand c of
         (None, c1) \<Rightarrow> ((None, Some RandFailed), c1)
       | (Some b, c1) \<Rightarrow> (let ident = newIdentity b in
          case make_bytes source (fst ident) (cr_Size req) c1 of
            (Some e, c2) \<Rightarrow> ((None, Some e), c2)
          | (None, c2) \<Rightarrow> (let obj = new_object kind req source ident (os_now (c_os c2)) in
             case persistOnly (create_object_mutation obj) c2 of
               (None, c3) \<Rightarrow> ((Some (obj, True), None), c3)
             | (Some e, c3) \<Rightarrow> if dropBytes e then ((None, Some e), snd (with_store (store_Delete (fst ident)) c3))
                 else ((Some (obj, True), Some e), c3))))))"

text \<open>The block size of a request, zero meaning the default.\<close>

definition with_default :: "CreateRequest \<Rightarrow> CreateRequest" where
  "with_default req = (if cr_BlockSize req = 0 then req\<lparr>cr_BlockSize := DefaultBlockSize\<rparr> else req)"

definition Create :: "string \<Rightarrow> CreateRequest \<Rightarrow> 'k coord \<Rightarrow> create_result \<times> 'k coord" where
  "Create kind req0 c = (case checkName (cr_Name req0) of
     Some e \<Rightarrow> ((None, Some e), c)
   | None \<Rightarrow> (let req = with_default req0 in
      if \<not> ValidBlockSize (cr_BlockSize req) then ((None, Some (StatusError StatusBadRequest CodeInvalidInput)), c)
      else (case objectByName (c_st c) kind (cr_Name req) of
        Some existing \<Rightarrow> (case matchExisting (c_st c) existing req of
            Some e \<Rightarrow> ((None, Some e), c)
          | None \<Rightarrow> ((Some (existing, False), None), c))
      | None \<Rightarrow> create_new kind req c)))"

section \<open>Reading, renaming, deleting, growing\<close>

definition List_objects :: "string \<Rightarrow> 'k coord \<Rightarrow> Object list" where
  "List_objects kind c = filter (\<lambda>x. ob_Kind x = kind) (db_Objects (c_st c))"

definition Get :: "string \<Rightarrow> string \<Rightarrow> 'k coord \<Rightarrow> Object option" where
  "Get kind ref c = resolveObject (c_st c) kind ref"

definition rename_object_mutation :: "string \<Rightarrow> string \<Rightarrow> string \<Rightarrow> mutation" where
  "rename_object_mutation kind old newName st =
     (None, st\<lparr>db_Objects := map_first (\<lambda>x. ob_Kind x = kind \<and> ob_Name x = old) (\<lambda>x. x\<lparr>ob_Name := newName\<rparr>) (db_Objects st)\<rparr>)"

definition Rename :: "string \<Rightarrow> string \<Rightarrow> string \<Rightarrow> 'k coord \<Rightarrow> (op_error + Object) \<times> 'k coord" where
  "Rename kind ref newName c = (case checkName newName of
     Some e \<Rightarrow> (Inl e, c)
   | None \<Rightarrow> (case resolveObject (c_st c) kind ref of
       None \<Rightarrow> (Inl notFound, c)
     | Some x \<Rightarrow>
        if ob_Name x = newName then (Inr x, c)
        else if objectByName (c_st c) kind newName \<noteq> None then (Inl nameTaken, c)
        else (case persistOnly (rename_object_mutation kind (ob_Name x) newName) c of
          (Some e, c1) \<Rightarrow> (Inl e, c1)
        | (None, c1) \<Rightarrow> (case objectByName (c_st c1) kind newName of
            None \<Rightarrow> (Inl Panicked, c1) | Some y \<Rightarrow> (Inr y, c1)))))"

definition deleteObject :: "Object list \<Rightarrow> string \<Rightarrow> Object list" where
  "deleteObject objs uuid = filter (\<lambda>x. ob_UUID x \<noteq> uuid) objs"

definition delete_object_mutation :: "string \<Rightarrow> mutation" where
  "delete_object_mutation uuid st = (None, st\<lparr>db_Objects := deleteObject (db_Objects st) uuid,
     db_Exports := filter (\<lambda>e. fst e \<noteq> uuid) (db_Exports st)\<rparr>)"

definition Delete :: "'k env \<Rightarrow> string \<Rightarrow> string \<Rightarrow> 'k coord \<Rightarrow> op_error option \<times> 'k coord" where
  "Delete env kind ref c = (case resolveObject (c_st c) kind ref of
     None \<Rightarrow> (Some notFound, c)
   | Some x \<Rightarrow>
      if connectionsOf (c_st c) (ob_UUID x) \<noteq> [] then (Some (StatusError StatusConflict CodeResourceConnected), c)
      else (case healIfDegraded env c of
        (Some e, c1) \<Rightarrow> (Some e, c1)
      | (None, c1) \<Rightarrow> (case persistOnly (delete_object_mutation (ob_UUID x)) c1 of
          (Some e, c2) \<Rightarrow> (Some e, c2)
        | (None, c2) \<Rightarrow> with_store (store_Delete (ob_UUID x)) (releaseHold (ob_UUID x) (discardSavedPR (ob_WWN x) c2)))))"

definition resize_mutation :: "string \<Rightarrow> int \<Rightarrow> mutation" where
  "resize_mutation uuid newSize st =
     (None, st\<lparr>db_Objects := map_first (\<lambda>x. ob_UUID x = uuid) (\<lambda>x. x\<lparr>ob_Capacity := newSize\<rparr>) (db_Objects st)\<rparr>)"

text \<open>The result is the flag \<open>rescan_required\<close> and the error.\<close>

definition Resize :: "'k env \<Rightarrow> string \<Rightarrow> string \<Rightarrow> int \<Rightarrow> 'k coord \<Rightarrow> (bool \<times> op_error option) \<times> 'k coord" where
  "Resize env kind ref newSize c = (case resolveObject (c_st c) kind ref of
     None \<Rightarrow> ((False, Some notFound), c)
   | Some x \<Rightarrow>
      if newSize = ob_Capacity x then ((connectionsOf (c_st c) (ob_UUID x) \<noteq> [], None), c)
      else if newSize < ob_Capacity x then ((False, Some (StatusError StatusBadRequest CodeInvalidInput)), c)
      else (case checkSize newSize of
        Some e \<Rightarrow> ((False, Some e), c)
      | None \<Rightarrow> (case healIfDegraded env c of
          (Some e, c1) \<Rightarrow> ((False, Some e), c1)
        | (None, c1) \<Rightarrow> (case with_store (store_Resize (ob_UUID x) newSize) c1 of
            (Some e, c2) \<Rightarrow> ((False, Some e), c2)
          | (None, c2) \<Rightarrow> (let exported = connectionsOf (c_st c2) (ob_UUID x) \<noteq> [] in
             case persistOnly (resize_mutation (ob_UUID x) newSize) c2 of
               (Some e, c3) \<Rightarrow> ((exported, Some e), c3)
             | (None, c3) \<Rightarrow> (case reconcile env c3 of (e, c4) \<Rightarrow> ((exported, e), c4)))))))"

section \<open>Contracts of the mutations\<close>

lemma objectByName_None: "objectByName st kind name = None \<longleftrightarrow> (kind, name) \<notin> (\<lambda>x. (ob_Kind x, ob_Name x)) ` set (db_Objects st)"
  by (auto simp: objectByName_def find_None_iff)

lemma good_set_objects:
  assumes "good_db st" and "valid_objects xs" and "\<forall>x \<in> set xs. sane_object x"
    and "cn_ObjectUUID ` set (db_Connections st) \<subseteq> ob_UUID ` set xs"
  shows "good_db (st\<lparr>db_Objects := xs\<rparr>)"
  using assms by (auto simp: good_db_iff export_room_def sane_db_def valid_connections_def)

lemma same_image: "map f ys = map f xs \<Longrightarrow> f ` set ys = f ` set xs"
  by (metis set_map)

lemma good_objects:
  assumes "good_db st"
  shows "valid_objects (db_Objects st)" "\<forall>x \<in> set (db_Objects st). sane_object x"
    "cn_ObjectUUID ` set (db_Connections st) \<subseteq> ob_UUID ` set (db_Objects st)"
  using assms by (auto simp: good_db_iff sane_db_def valid_connections_def)

definition create_object_pre :: "Object \<Rightarrow> db \<Rightarrow> bool" where
  "create_object_pre x st \<longleftrightarrow> validUUID (ob_UUID x) \<and> ob_UUID x \<notin> ob_UUID ` set (db_Objects st) \<and> known_kind (ob_Kind x)
     \<and> validName (ob_Name x) = None \<and> objectByName st (ob_Kind x) (ob_Name x) = None \<and> sane_object x"

interpretation create_object: safe_mutation "create_object_mutation x" "create_object_pre x" for x
proof
  show "create_object_pre x st \<Longrightarrow> grown st st' \<Longrightarrow> create_object_pre x st'" for st st'
    by (simp add: create_object_pre_def objectByName_def grown_sel)
  show "good_db st'" if "create_object_pre x st" "good_db st" "create_object_mutation x st = (None, st')" for st st'
  proof -
    have "valid_objects (db_Objects st @ [x])"
      using that(1) good_objects [OF that(2)] by (auto simp: create_object_pre_def valid_objects_def objectByName_None)
    moreover have "\<forall>y \<in> set (db_Objects st @ [x]). sane_object y"
      using that(1) good_objects [OF that(2)] by (auto simp: create_object_pre_def)
    ultimately show ?thesis
      using good_set_objects [OF that(2), of "db_Objects st @ [x]"] good_objects(3) [OF that(2)] that(3)
      by (auto simp: create_object_mutation_def)
  qed
qed

definition rename_object_pre :: "string \<Rightarrow> string \<Rightarrow> db \<Rightarrow> bool" where
  "rename_object_pre kind newName st \<longleftrightarrow> validName newName = None \<and> objectByName st kind newName = None"

lemma map_first_object_name:
  assumes "valid_objects xs"
  shows "map_first (\<lambda>x. ob_Kind x = kind \<and> ob_Name x = old) f xs = map (\<lambda>x. if ob_Kind x = kind \<and> ob_Name x = old then f x else x) xs"
  using map_first_map [of "\<lambda>x. (ob_Kind x, ob_Name x)" xs "(kind, old)" f] assms by (simp add: valid_objects_def)

lemma map_first_object_uuid:
  assumes "valid_objects xs"
  shows "map_first (\<lambda>x. ob_UUID x = uuid) f xs = map (\<lambda>x. if ob_UUID x = uuid then f x else x) xs"
  using map_first_map [of ob_UUID xs uuid f] assms by (simp add: valid_objects_def)

lemma valid_objects_rename:
  assumes "valid_objects xs" and "validName newName = None" and "(kind, newName) \<notin> (\<lambda>x. (ob_Kind x, ob_Name x)) ` set xs"
  shows "valid_objects (map (\<lambda>x. if ob_Kind x = kind \<and> ob_Name x = old then x\<lparr>ob_Name := newName\<rparr> else x) xs)"
proof -
  let ?g = "\<lambda>x. if ob_Kind x = kind \<and> ob_Name x = old then x\<lparr>ob_Name := newName\<rparr> else x"
  have u: "map ob_UUID (map ?g xs) = map ob_UUID xs" by simp
  have eq: "map (\<lambda>x. (ob_Kind x, ob_Name x)) (map ?g xs)
      = map (\<lambda>x. if (ob_Kind x, ob_Name x) = (kind, old) then (kind, newName) else (ob_Kind x, ob_Name x)) xs" by auto
  have "distinct (map (\<lambda>x. (ob_Kind x, ob_Name x)) (map ?g xs))"
    unfolding eq using distinct_map_upd [of "\<lambda>x. (ob_Kind x, ob_Name x)" xs "(kind, newName)" "(kind, old)"] assms(1,3)
    by (simp add: valid_objects_def)
  moreover have "\<forall>x \<in> set (map ?g xs). validUUID (ob_UUID x) \<and> known_kind (ob_Kind x) \<and> validName (ob_Name x) = None"
    using assms(1,2) by (auto simp: valid_objects_def)
  ultimately show ?thesis using assms(1) unfolding valid_objects_def u by blast
qed

interpretation rename_object: backed_mutation "rename_object_mutation kind old newName" "rename_object_pre kind newName" for kind old newName
proof
  have mem: "\<exists>y \<in> set xs. ob_UUID x = ob_UUID y \<and> ob_State x = ob_State y \<and> ob_Capacity x = ob_Capacity y"
    if "x \<in> set (map_first (\<lambda>x. ob_Kind x = kind \<and> ob_Name x = old) (\<lambda>x. x\<lparr>ob_Name := newName\<rparr>) xs)" for x xs
    using that by (induction xs) (auto split: if_splits)
  show "rename_object_mutation kind old newName st = (None, st') \<Longrightarrow> backed st s \<Longrightarrow> backed st' s" for st st' s
    by (auto simp: rename_object_mutation_def backed_def dest!: mem)
  show "rename_object_pre kind newName st \<Longrightarrow> grown st st' \<Longrightarrow> rename_object_pre kind newName st'" for st st'
    by (simp add: rename_object_pre_def objectByName_def grown_sel)
  show "good_db st'" if pre: "rename_object_pre kind newName st" and good: "good_db st"
    and run: "rename_object_mutation kind old newName st = (None, st')" for st st'
  proof -
    let ?xs = "map (\<lambda>x. if ob_Kind x = kind \<and> ob_Name x = old then x\<lparr>ob_Name := newName\<rparr> else x) (db_Objects st)"
    have "valid_objects ?xs"
      using pre good_objects(1) [OF good] by (intro valid_objects_rename) (auto simp: rename_object_pre_def objectByName_None)
    moreover have "\<forall>x \<in> set ?xs. sane_object x" using good_objects(2) [OF good] by (auto simp: sane_object_def)
    moreover have "ob_UUID ` set ?xs = ob_UUID ` set (db_Objects st)" by (rule same_image) simp
    ultimately have "good_db (st\<lparr>db_Objects := ?xs\<rparr>)" using good_set_objects [OF good, of ?xs] good_objects(3) [OF good] by simp
    then show ?thesis
      using run by (simp add: rename_object_mutation_def map_first_object_name [OF good_objects(1) [OF good]])
  qed
qed

definition unconnected :: "string \<Rightarrow> db \<Rightarrow> bool" where
  "unconnected uuid st \<longleftrightarrow> uuid \<notin> cn_ObjectUUID ` set (db_Connections st)"

interpretation delete_object: backed_mutation "delete_object_mutation uuid" "unconnected uuid" for uuid
proof
  show "delete_object_mutation uuid st = (None, st') \<Longrightarrow> backed st s \<Longrightarrow> backed st' s" for st st' s
    by (auto simp: delete_object_mutation_def deleteObject_def backed_def)
  show "unconnected uuid st \<Longrightarrow> grown st st' \<Longrightarrow> unconnected uuid st'" for st st'
    by (simp add: unconnected_def grown_sel)
  show "good_db st'" if pre: "unconnected uuid st" and good: "good_db st" and run: "delete_object_mutation uuid st = (None, st')" for st st'
  proof -
    let ?xs = "deleteObject (db_Objects st) uuid"
    have "good_db (st\<lparr>db_Objects := ?xs\<rparr>)"
    proof (rule good_set_objects [OF good])
      show "valid_objects ?xs"
        using good_objects(1) [OF good] by (auto simp: valid_objects_def deleteObject_def distinct_map_filterI)
      show "\<forall>x \<in> set ?xs. sane_object x" using good_objects(2) [OF good] by (auto simp: deleteObject_def)
      show "cn_ObjectUUID ` set (db_Connections st) \<subseteq> ob_UUID ` set ?xs"
        using good_objects(3) [OF good] pre by (force simp: unconnected_def deleteObject_def)
    qed
    moreover have "card (export_room st') \<le> 16384"
    proof -
      have "export_room st' \<subseteq> export_room st" using run by (auto simp: export_room_def delete_object_mutation_def)
      then show ?thesis using good le_trans [OF card_mono [of "export_room st"]] by (simp add: good_db_iff)
    qed
    ultimately show ?thesis
      using run by (auto simp: good_db_iff delete_object_mutation_def valid_exports_def distinct_map_filterI sane_db_def)
  qed
qed

interpretation resize: safe_mutation "resize_mutation uuid newSize" "\<lambda>st. True" for uuid newSize
proof
  show "good_db st'" if good: "good_db st" and run: "resize_mutation uuid newSize st = (None, st')" for st st'
  proof -
    let ?xs = "map (\<lambda>x. if ob_UUID x = uuid then x\<lparr>ob_Capacity := newSize\<rparr> else x) (db_Objects st)"
    have u: "map ob_UUID ?xs = map ob_UUID (db_Objects st)"
      "map (\<lambda>x. (ob_Kind x, ob_Name x)) ?xs = map (\<lambda>x. (ob_Kind x, ob_Name x)) (db_Objects st)" by simp_all
    have "\<forall>x \<in> set ?xs. validUUID (ob_UUID x) \<and> known_kind (ob_Kind x) \<and> validName (ob_Name x) = None"
      using good_objects(1) [OF good] by (auto simp: valid_objects_def)
    then have "valid_objects ?xs" using good_objects(1) [OF good] unfolding valid_objects_def u by blast
    moreover have "\<forall>x \<in> set ?xs. sane_object x" using good_objects(2) [OF good] by (auto simp: sane_object_def)
    moreover have "ob_UUID ` set ?xs = ob_UUID ` set (db_Objects st)" by (rule same_image [OF u(1)])
    ultimately have "good_db (st\<lparr>db_Objects := ?xs\<rparr>)" using good_set_objects [OF good, of ?xs] good_objects(3) [OF good] by simp
    then show ?thesis
      using run by (simp add: resize_mutation_def map_first_object_uuid [OF good_objects(1) [OF good]])
  qed
qed simp

section \<open>Bytes\<close>

text \<open>What the calls on the store keep of the other backing files.\<close>

lemma with_store_sel:
  assumes "with_store f c = (r, c')"
  obtains q s w where "f (c_store c) (c_os c) = (q, s, w)" "r = map_option StoreFailed q" "c' = c\<lparr>c_store := s, c_os := w\<rparr>"
  using assms by (auto simp: with_store_def split: prod.splits)

lemma store_Delete_others:
  "store_Delete uuid s w = (r, s', w') \<Longrightarrow> n \<noteq> uuid \<Longrightarrow> map_of (s_dirs s') n = map_of (s_dirs s) n"
  by (auto simp: store_Delete_def split: prod.splits option.splits dest: remove_all_cases)

lemma staged_others: "staged uuid sz s r s' \<Longrightarrow> validUUID n \<Longrightarrow> n \<noteq> uuid \<Longrightarrow> map_of (s_dirs s') n = map_of (s_dirs s) n"
proof -
  assume st: "staged uuid sz s r s'" and n: "validUUID n" "n \<noteq> uuid"
  have "isHexDigit (n ! 0)" using n(1) by (simp add: validUUID_def list_all_iff)
  moreover have "(stagingPrefix @ uuid) ! 0 = CHR ''.''" by (simp add: stagingPrefix_def)
  ultimately have "n \<noteq> stagingPrefix @ uuid" by (auto simp: isHexDigit_def)
  then show "map_of (s_dirs s') n = map_of (s_dirs s) n" using st n(2) by (simp add: staged_def)
qed

lemma Clone_staged:
  assumes "Clone src uuid s w = (r, s', w')"
  shows "s' = s \<and> r \<noteq> None \<or> (\<exists>sz. disk_size s src = Some sz \<and> staged uuid sz s r s')"
proof -
  obtain f w1 where f: "stat_disk s src w = (f, w1)" by fastforce
  show ?thesis
  proof (cases f)
    case None
    then obtain sz where sz: "disk_size s src = Some sz" using stat_disk_ok f by blast
    have "stage uuid (reflink sz) s w1 = (r, s', w')" using assms f None sz by (simp add: Clone_def)
    moreover have "reflink sz v = (Inr n, v') \<Longrightarrow> n = sz" for v n v'
      by (auto simp: reflink_def split: prod.splits option.splits)
    ultimately show ?thesis using stage_staged sz by blast
  qed (use assms f in \<open>auto simp: Clone_def\<close>)
qed

text \<open>
  Making the bytes of a new object leaves every recorded object's bytes alone; on success the new ones
  are there, at least as large as asked.
\<close>

lemma make_bytes_cases:
  assumes run: "make_bytes source uuid sz c = (r, c')" and src: "\<And>s. source = Some s \<Longrightarrow> \<exists>n. disk_size (c_store c) (ob_UUID s) = Some n \<and> ob_Capacity s \<le> n \<and> ob_UUID s \<noteq> uuid"
    and sz: "\<And>s. source = Some s \<Longrightarrow> ob_Capacity s \<le> sz"
  shows "(\<exists>s w. c' = c\<lparr>c_store := s, c_os := w\<rparr>)
    \<and> (\<forall>n. validUUID n \<and> n \<noteq> uuid \<longrightarrow> disk_size (c_store c') n = disk_size (c_store c) n)
    \<and> (r = None \<longrightarrow> (\<exists>n. disk_size (c_store c') uuid = Some n \<and> sz \<le> n))"
proof (cases source)
  case None
  then obtain q s w where q: "store_Create uuid sz (c_store c) (c_os c) = (q, s, w)" and r: "r = map_option StoreFailed q"
    and c': "c' = c\<lparr>c_store := s, c_os := w\<rparr>"
    using run by (auto simp: make_bytes_def elim: with_store_sel)
  have st: "staged uuid sz (c_store c) q s" using store_Create_staged [OF q] .
  then have "\<forall>n. validUUID n \<and> n \<noteq> uuid \<longrightarrow> disk_size s n = disk_size (c_store c) n"
    using staged_others by (metis disk_size_def)
  moreover have "q = None \<longrightarrow> disk_size s uuid = Some sz" using st by (simp add: staged_def disk_size_def)
  ultimately show ?thesis using r c' by auto
next
  case (Some x)
  obtain n where n: "disk_size (c_store c) (ob_UUID x) = Some n" "ob_Capacity x \<le> n" using src [OF Some] by blast
  obtain r1 c1 where w1: "with_store (Clone (ob_UUID x) uuid) c = (r1, c1)" by fastforce
  then obtain q s w where q: "Clone (ob_UUID x) uuid (c_store c) (c_os c) = (q, s, w)" and r1: "r1 = map_option StoreFailed q"
    and c1: "c1 = c\<lparr>c_store := s, c_os := w\<rparr>" by (rule with_store_sel)
  have st: "s = c_store c \<and> q \<noteq> None \<or> staged uuid n (c_store c) q s" using Clone_staged [OF q] n(1) by auto
  have o1: "\<forall>m. validUUID m \<and> m \<noteq> uuid \<longrightarrow> disk_size s m = disk_size (c_store c) m"
    using st staged_others by (metis disk_size_def)
  have d1: "q = None \<longrightarrow> disk_size s uuid = Some n" using st by (auto simp: staged_def disk_size_def)
  obtain r2 c2 where w2: "with_store (store_Resize uuid sz) c1 = (r2, c2)" by fastforce
  then obtain q2 s2 w2 where q2: "store_Resize uuid sz s w = (q2, s2, w2)" and r2: "r2 = map_option StoreFailed q2"
    and c2: "c2 = c\<lparr>c_store := s2, c_os := w2\<rparr>" by (rule with_store_sel) (simp add: c1)
  have o2: "\<forall>m. m \<noteq> uuid \<longrightarrow> disk_size s2 m = disk_size s m" and d2: "q2 = None \<longrightarrow> disk_size s2 uuid = Some sz"
    using store_Resize_cases [OF q2] by (auto simp: disk_size_def)
  obtain r3 c3 where w3: "with_store (store_Delete uuid) c2 = (r3, c3)" by fastforce
  then obtain q3 s3 w3 where q3: "store_Delete uuid s2 w2 = (q3, s3, w3)" and c3: "c3 = c\<lparr>c_store := s3, c_os := w3\<rparr>"
    by (rule with_store_sel) (simp add: c2)
  have o3: "\<forall>m. m \<noteq> uuid \<longrightarrow> disk_size s3 m = disk_size s2 m" using store_Delete_others [OF q3] by (simp add: disk_size_def)
  consider "r \<noteq> None" "c' = c1" | "r = None" "q = None" "c' = c1" "sz = ob_Capacity x" | "r = None" "q2 = None" "c' = c2" | "r \<noteq> None" "c' = c3"
    using run sz [OF Some] by (cases q; cases q2) (auto simp: make_bytes_def Some w1 w2 w3 r1 r2 split: if_splits)
  then show ?thesis
    by cases (use o1 o2 o3 d1 d2 n(2) c1 c2 c3 in auto)
qed

section \<open>The operations keep the appliance sound\<close>

lemma sound_objects: "sound c \<Longrightarrow> x \<in> set (db_Objects (c_st c)) \<Longrightarrow> validUUID (ob_UUID x) \<and> sane_object x"
  by (simp add: sound_def good_def good_db_iff valid_objects_def sane_db_def)

lemma sound_bytes:
  assumes "sound c" and "c_st c' = c_st c" and "c_disk c' = c_disk c"
    and "\<And>x n. x \<in> set (db_Objects (c_st c)) \<Longrightarrow> disk_size (c_store c) (ob_UUID x) = Some n
      \<Longrightarrow> \<exists>m. disk_size (c_store c') (ob_UUID x) = Some m \<and> n \<le> m"
  shows "sound c'"
proof -
  have "\<exists>m. disk_size (c_store c') (ob_UUID x) = Some m \<and> ob_Capacity x \<le> m"
    if x: "x \<in> set (db_Objects (c_st c))" "ob_State x = stateReady" for x
  proof -
    obtain n where n: "disk_size (c_store c) (ob_UUID x) = Some n" "ob_Capacity x \<le> n"
      using assms(1) x by (auto simp: sound_def backed_def)
    with assms(4) [OF x(1) n(1)] show ?thesis by fastforce
  qed
  then show ?thesis using assms(1-3) by (simp add: sound_def good_def backed_def)
qed

lemma sound_drop_bytes:
  assumes "with_store (store_Delete uuid) c = (r, c')" and "sound c" and "uuid \<notin> ob_UUID ` set (db_Objects (c_st c))"
  shows "sound c'"
proof -
  obtain q s w where q: "store_Delete uuid (c_store c) (c_os c) = (q, s, w)" and c': "c' = c\<lparr>c_store := s, c_os := w\<rparr>"
    using assms(1) by (rule with_store_sel)
  have "disk_size s (ob_UUID x) = disk_size (c_store c) (ob_UUID x)" if "x \<in> set (db_Objects (c_st c))" for x
  proof -
    have "ob_UUID x \<noteq> uuid" using that assms(3) by blast
    then show ?thesis using store_Delete_others [OF q] by (simp add: disk_size_def)
  qed
  then show ?thesis by (intro sound_bytes [OF assms(2)]) (auto simp: c')
qed

lemma copy_source_cases:
  assumes "copy_source st req = Inr (source, req')"
  shows "cr_Name req' = cr_Name req \<and> (case source of
      None \<Rightarrow> cr_Source req = '''' \<and> req' = req
    | Some s \<Rightarrow> cr_Source req \<noteq> '''' \<and> resolveObject st (cr_SourceKind req) (cr_Source req) = Some s \<and> ob_State s = stateReady
        \<and> cr_BlockSize req' = ob_BlockSize s \<and> ob_Capacity s \<le> cr_Size req')"
  using assms [symmetric] by (cases "resolveObject st (cr_SourceKind req) (cr_Source req)")
    (auto simp: copy_source_def Let_def split: if_splits)

lemma same_os: "\<exists>w. c = c\<lparr>c_os := w\<rparr>"
  by (rule exI [of _ "c_os c"]) simp

text \<open>The outcomes of making a new object.\<close>

lemma create_new_cases:
  assumes run: "create_new kind req0 c = (r, c')"
  obtains (refused) e where "r = (None, Some e)" "\<exists>w. c' = c\<lparr>c_os := w\<rparr>"
    | (no_bytes) e source req b c1 where "r = (None, Some e)" "copy_source (c_st c) req0 = Inr (source, req)" "c_rand c = (Some b, c1)"
        "make_bytes source (fst (newIdentity b)) (cr_Size req) c1 = (Some e, c')"
    | (made) source req b c1 c2 q c3 where "copy_source (c_st c) req0 = Inr (source, req)" "checkSize (cr_Size req) = None"
        "c_rand c = (Some b, c1)" "make_bytes source (fst (newIdentity b)) (cr_Size req) c1 = (None, c2)"
        "persistOnly (create_object_mutation (new_object kind req source (newIdentity b) (os_now (c_os c2)))) c2 = (q, c3)"
        "c' = (case q of Some e \<Rightarrow> if dropBytes e then snd (with_store (store_Delete (fst (newIdentity b))) c3) else c3 | None \<Rightarrow> c3)"
        "r = (if \<exists>e. q = Some e \<and> dropBytes e then None
              else Some (new_object kind req source (newIdentity b) (os_now (c_os c2)), True), q)"
proof (cases "copy_source (c_st c) req0")
  case (Inl e)
  then show thesis using run refused [of e] same_os [of c] by (auto simp: create_new_def)
next
  case (Inr sr)
  obtain source req where sr: "sr = (source, req)" by fastforce
  obtain b c1 where b: "c_rand c = (b, c1)" by fastforce
  obtain w where w: "c1 = c\<lparr>c_os := w\<rparr>" using c_rand_sel [OF b] by blast
  show thesis
  proof (cases "checkSize (cr_Size req)")
    case (Some e)
    then show thesis using run Inr sr refused [of e] same_os [of c] by (auto simp: create_new_def)
  next
    case sz: None
    show thesis
    proof (cases b)
      case None
      then show thesis using run Inr sr sz b w refused [of RandFailed] by (auto simp: create_new_def)
    next
      case (Some bs)
      obtain m c2 where m: "make_bytes source (fst (newIdentity bs)) (cr_Size req) c1 = (m, c2)" by fastforce
      show thesis
      proof (cases m)
        case mb: None
        let ?x = "new_object kind req source (newIdentity bs) (os_now (c_os c2))"
        obtain q c3 where q: "persistOnly (create_object_mutation ?x) c2 = (q, c3)" by fastforce
        have eq: "(r, c') = (case q of None \<Rightarrow> ((Some (?x, True), None), c3)
          | Some e \<Rightarrow> if dropBytes e then ((None, Some e), snd (with_store (store_Delete (fst (newIdentity bs))) c3))
              else ((Some (?x, True), Some e), c3))"
          unfolding run [symmetric] using Inr sr sz b Some m mb q by (simp add: create_new_def Let_def)
        show thesis
        proof (rule made)
          show "copy_source (c_st c) req0 = Inr (source, req)" "c_rand c = (Some bs, c1)"
            "make_bytes source (fst (newIdentity bs)) (cr_Size req) c1 = (None, c2)" using Inr sr b Some m mb by simp_all
        qed (use sz q eq in \<open>auto split: option.splits if_splits\<close>)
      qed (use run Inr sr sz b Some m no_bytes in \<open>auto simp: create_new_def Let_def\<close>)
    qed
  qed
qed

lemma fresh_object:
  assumes "fresh_rand c" and "c_rand c = (Some b, c1)"
  shows "fst (newIdentity b) \<notin> ob_UUID ` set (db_Objects (c_st c))" "validUUID (fst (newIdentity b))" "isHex16 (snd (newIdentity b))"
  using assms c_rand_sel [OF assms(2)] newIdentity_valid [of b "fst (newIdentity b)" "snd (newIdentity b)"]
  by (simp_all add: fresh_rand_def)

lemma make_bytes_sound:
  assumes run: "make_bytes source uuid sz c = (r, c')" and c: "sound c" and fresh: "uuid \<notin> ob_UUID ` set (db_Objects (c_st c))"
    and src: "case source of None \<Rightarrow> True | Some s \<Rightarrow> s \<in> set (db_Objects (c_st c)) \<and> ob_State s = stateReady \<and> ob_Capacity s \<le> sz"
  shows "sound c' \<and> c_st c' = c_st c \<and> (r = None \<longrightarrow> (\<exists>n. disk_size (c_store c') uuid = Some n \<and> sz \<le> n))"
proof -
  have b: "backed (c_st c) (c_store c)" using c by (simp add: sound_def)
  have "\<exists>n. disk_size (c_store c) (ob_UUID s) = Some n \<and> ob_Capacity s \<le> n \<and> ob_UUID s \<noteq> uuid" if "source = Some s" for s
    using that src b fresh by (auto simp: backed_def)
  moreover have "ob_Capacity s \<le> sz" if "source = Some s" for s using that src by simp
  ultimately have "(\<exists>s w. c' = c\<lparr>c_store := s, c_os := w\<rparr>)
    \<and> (\<forall>n. validUUID n \<and> n \<noteq> uuid \<longrightarrow> disk_size (c_store c') n = disk_size (c_store c) n)
    \<and> (r = None \<longrightarrow> (\<exists>n. disk_size (c_store c') uuid = Some n \<and> sz \<le> n))"
    by (rule make_bytes_cases [OF run])
  then have m: "\<exists>s w. c' = c\<lparr>c_store := s, c_os := w\<rparr>"
    "\<And>n. validUUID n \<Longrightarrow> n \<noteq> uuid \<Longrightarrow> disk_size (c_store c') n = disk_size (c_store c) n"
    "r = None \<longrightarrow> (\<exists>n. disk_size (c_store c') uuid = Some n \<and> sz \<le> n)" by blast+
  then have "c_st c' = c_st c" "c_disk c' = c_disk c" by auto
  moreover have "sound c'"
  proof (rule sound_bytes [OF c])
    fix x n assume x: "x \<in> set (db_Objects (c_st c))" "disk_size (c_store c) (ob_UUID x) = Some n"
    have "ob_UUID x \<noteq> uuid" using x(1) fresh by blast
    then have "disk_size (c_store c') (ob_UUID x) = Some n" using m(2) sound_objects [OF c x(1)] x(2) by simp
    then show "\<exists>k. disk_size (c_store c') (ob_UUID x) = Some k \<and> n \<le> k" by simp
  qed (use calculation in simp_all)
  ultimately show ?thesis using m(3) by simp
qed

lemma Create_sound:
  assumes run: "Create kind req0 c = (r, c')" and kind: "known_kind kind" and fresh: "fresh_rand c" and c: "sound c"
  shows "sound c'"
proof -
  let ?req = "with_default req0"
  consider "c' = c" | "checkName (cr_Name req0) = None" "ValidBlockSize (cr_BlockSize ?req)"
      "objectByName (c_st c) kind (cr_Name ?req) = None" "create_new kind ?req c = (r, c')"
    using run by (auto simp: Create_def Let_def split: option.splits if_splits)
  then show ?thesis
  proof cases
    case 2
    from 2(4) show ?thesis
    proof (cases rule: create_new_cases)
      case refused
      then show ?thesis using c by auto
    next
      case (no_bytes e source req b c1)
      obtain w where c1: "c1 = c\<lparr>c_os := w\<rparr>" using c_rand_sel [OF no_bytes(3)] by blast
      have "sound c1" using c by (simp add: c1)
      moreover have "case source of None \<Rightarrow> True | Some s \<Rightarrow> s \<in> set (db_Objects (c_st c1)) \<and> ob_State s = stateReady \<and> ob_Capacity s \<le> cr_Size req"
        using copy_source_cases [OF no_bytes(2)] by (auto simp: c1 dest: resolveObject_in split: option.splits)
      ultimately show ?thesis using make_bytes_sound [OF no_bytes(4)] fresh_object(1) [OF fresh no_bytes(3)] by (simp add: c1)
    next
      case (made source req b c1 c2 q c3)
      let ?x = "new_object kind req source (newIdentity b) (os_now (c_os c2))"
      obtain w where c1: "c1 = c\<lparr>c_os := w\<rparr>" using c_rand_sel [OF made(3)] by blast
      have src: "case source of None \<Rightarrow> True | Some s \<Rightarrow> s \<in> set (db_Objects (c_st c1)) \<and> ob_State s = stateReady \<and> ob_Capacity s \<le> cr_Size req"
        using copy_source_cases [OF made(1)] by (auto simp: c1 dest: resolveObject_in split: option.splits)
      have c2: "sound c2" "c_st c2 = c_st c" "\<exists>n. disk_size (c_store c2) (fst (newIdentity b)) = Some n \<and> cr_Size req \<le> n"
        using make_bytes_sound [OF made(4) _ _ src] fresh_object(1) [OF fresh made(3)] c by (auto simp: c1)
      have bsz: "cr_BlockSize req = 512 \<or> cr_BlockSize req = 4096"
        using copy_source_cases [OF made(1)] 2(2) sound_objects [OF c]
        by (auto simp: ValidBlockSize_def DefaultBlockSize_def MaxBlockSize_def sane_object_def dest: resolveObject_in split: option.splits)
      have "create_object_pre ?x (c_st c2)"
        using fresh_object [OF fresh made(3)] kind 2(1,3) copy_source_cases [OF made(1)] bsz
        by (simp add: create_object_pre_def new_object_def c2(2) checkName_None sane_object_def with_default_def split: if_splits)
      then have g: "good c3" using create_object.persistOnly_good [OF made(5)] c2(1) by (simp add: sound_def)
      from made(5) show ?thesis
      proof (cases rule: persistOnly_cases)
        case (rolled_back e)
        then have "sound c3" using c2 g by (simp add: sound_def frame_def)
        moreover have "fst (newIdentity b) \<notin> ob_UUID ` set (db_Objects (c_st c3))"
          using rolled_back fresh_object(1) [OF fresh made(3)] c2(2) by simp
        ultimately have "sound (snd (with_store (store_Delete (fst (newIdentity b))) c3))"
          using sound_drop_bytes by (metis prod.collapse)
        then show ?thesis using made(6) \<open>sound c3\<close> by (auto split: option.splits)
      next
        case (written st)
        then have "c' = c3" using made(6) by (auto simp: dropBytes_def)
        moreover have "backed (c_st c3) (c_store c3)"
          using written c2(1,3) by (auto simp: create_object_mutation_def backed_def sound_def frame_def new_object_def)
        ultimately show ?thesis using g by (simp add: sound_def)
      qed
    qed
  qed (use c in simp)
qed

lemma Rename_sound:
  assumes run: "Rename kind ref newName c = (r, c')" and c: "sound c"
  shows "sound c'"
proof -
  consider "c' = c" | x :: Object and e where "checkName newName = None" "objectByName (c_st c) kind newName = None"
      "persistOnly (rename_object_mutation kind (ob_Name x) newName) c = (e, c')"
    using run by (auto simp: Rename_def split: option.splits if_splits prod.splits)
  then show ?thesis
  proof cases
    case (2 x e)
    then have "rename_object_pre kind newName (c_st c)" by (simp add: rename_object_pre_def checkName_None)
    from rename_object.persistOnly_sound [OF 2(3) this c] show ?thesis .
  qed (use c in simp)
qed

lemma discard_release_sel:
  "c_st (releaseHold u (discardSavedPR wwn c)) = c_st c" "c_disk (releaseHold u (discardSavedPR wwn c)) = c_disk c"
  "c_store (releaseHold u (discardSavedPR wwn c)) = c_store c"
  "c_lastReconcileErr (releaseHold u (discardSavedPR wwn c)) = c_lastReconcileErr c"
  by (auto simp: releaseHold_def discardSavedPR_def remove_prfile_def c_syscall_def publishWithheld_def with_health_def split: prod.splits)

text \<open>The outcomes of a delete: nothing but a reconcile, a failed write, or the record gone before the bytes.\<close>

lemma Delete_cases:
  assumes run: "Delete env kind ref c = (r, c')" and env: "range_ok env"
  obtains (refused) "settled c c'" "r \<noteq> None"
    | (not_written) x c1 e where "resolveObject (c_st c) kind ref = Some x" "unconnected (ob_UUID x) (c_st c)" "settled c c1"
        "persistOnly (delete_object_mutation (ob_UUID x)) c1 = (Some e, c')" "r = Some e"
    | (deleted) x c1 c2 where "resolveObject (c_st c) kind ref = Some x" "unconnected (ob_UUID x) (c_st c)" "settled c c1"
        "c_lastReconcileErr c1 = None" "persistOnly (delete_object_mutation (ob_UUID x)) c1 = (None, c2)"
        "with_store (store_Delete (ob_UUID x)) (releaseHold (ob_UUID x) (discardSavedPR (ob_WWN x) c2)) = (r, c')"
proof (cases "resolveObject (c_st c) kind ref")
  case None
  then have "c' = c" "r = Some notFound" using run by (auto simp: Delete_def)
  then show thesis using refused by simp
next
  case (Some x)
  obtain f c1 where h: "healIfDegraded env c = (f, c1)" by fastforce
  have s: "settled c c1" "f = None \<longrightarrow> c_lastReconcileErr c1 = None" using healIfDegraded_settled [OF h env] by simp_all
  show thesis
  proof (cases "connectionsOf (c_st c) (ob_UUID x) = [] \<and> f = None")
    case True
    then have u: "unconnected (ob_UUID x) (c_st c)" by (auto simp: unconnected_def connectionsOf_def filter_empty_conv)
    obtain q c2 where q: "persistOnly (delete_object_mutation (ob_UUID x)) c1 = (q, c2)" by fastforce
    show thesis
      using run Some h True q s not_written [OF Some u s(1)] deleted [OF Some u s(1)] by (cases q) (auto simp: Delete_def)
  next
    case False
    then show thesis using run Some h s refused by (cases f) (auto simp: Delete_def split: if_splits)
  qed
qed

lemma Delete_sound:
  assumes run: "Delete env kind ref c = (r, c')" and env: "range_ok env" and c: "sound c"
  shows "sound c'"
  using run env
proof (cases rule: Delete_cases)
  case refused
  then show ?thesis using c sound_settled by blast
next
  case (not_written x c1 e)
  have "unconnected (ob_UUID x) (c_st c1)" using not_written(2) set_hosts_settled [OF not_written(3)] by (simp add: unconnected_def)
  then show ?thesis using delete_object.persistOnly_sound [OF not_written(4)] sound_settled [OF not_written(3) c] by simp
next
  case (deleted x c1 c2)
  let ?c = "releaseHold (ob_UUID x) (discardSavedPR (ob_WWN x) c2)"
  have "unconnected (ob_UUID x) (c_st c1)" using deleted(2) set_hosts_settled [OF deleted(3)] by (simp add: unconnected_def)
  then have "sound c2" using delete_object.persistOnly_sound [OF deleted(5)] sound_settled [OF deleted(3) c] by simp
  then have "sound ?c" by (simp add: sound_def good_def discard_release_sel)
  moreover from deleted(5) have "ob_UUID x \<notin> ob_UUID ` set (db_Objects (c_st ?c))"
    by (cases rule: persistOnly_cases) (auto simp: delete_object_mutation_def deleteObject_def discard_release_sel)
  ultimately show ?thesis by (rule sound_drop_bytes [OF deleted(6)])
qed

lemma Resize_sound:
  assumes run: "Resize env kind ref newSize c = (r, c')" and env: "range_ok env" and c: "sound c"
  shows "sound c'"
proof -
  obtain f c1 where h: "healIfDegraded env c = (f, c1)" by fastforce
  have s1: "settled c c1" using healIfDegraded_settled [OF h env] by simp
  then have c1: "sound c1" using c sound_settled by blast
  consider "c' = c" | "c' = c1" | x q c2 where "x \<in> set (db_Objects (c_st c))" "with_store (store_Resize (ob_UUID x) newSize) c1 = (q, c2)"
      "c' = c2 \<or> q = None \<and> (\<exists>p c3. persistOnly (resize_mutation (ob_UUID x) newSize) c2 = (p, c3) \<and> (c' = c3 \<or> (\<exists>e. reconcile env c3 = (e, c'))))"
  proof (cases "resolveObject (c_st c) kind ref")
    case None
    then show thesis using run that(1) by (simp add: Resize_def)
  next
    case (Some x)
    obtain q c2 where q: "with_store (store_Resize (ob_UUID x) newSize) c1 = (q, c2)" by fastforce
    obtain p c3 where p: "persistOnly (resize_mutation (ob_UUID x) newSize) c2 = (p, c3)" by fastforce
    have "c' = c \<or> c' = c1 \<or> c' = c2 \<or> q = None \<and> (c' = c3 \<or> (\<exists>e. reconcile env c3 = (e, c')))"
      using run Some h q p by (cases q; cases p) (auto simp: Resize_def Let_def split: option.splits if_splits prod.splits)
    then show thesis using that(1,2) that(3) [OF resolveObject_in [OF Some] q] p by blast
  qed
  then show ?thesis
  proof cases
    case (3 x q c2)
    obtain g s w where g: "store_Resize (ob_UUID x) newSize (c_store c1) (c_os c1) = (g, s, w)" and qg: "q = map_option StoreFailed g"
      and c2: "c2 = c1\<lparr>c_store := s, c_os := w\<rparr>" using 3(2) by (rule with_store_sel)
    have grow: "\<exists>m. disk_size s n = Some m \<and> k \<le> m" if "disk_size (c_store c1) n = Some k" for n k
      using store_Resize_cases [OF g] that by (auto simp: disk_size_iff)
    have sz: "q = None \<longrightarrow> disk_size s (ob_UUID x) = Some newSize"
      using store_Resize_cases [OF g] qg by (auto simp: disk_size_iff)
    have sc2: "sound c2" using grow by (intro sound_bytes [OF c1]) (auto simp: c2)
    have "sound c3" if p: "persistOnly (resize_mutation (ob_UUID x) newSize) c2 = (p, c3)" and q: "q = None" for p c3
    proof -
      have g3: "good c3" using resize.persistOnly_good [OF p] sc2 by (simp add: sound_def)
      from p show ?thesis
      proof (cases rule: persistOnly_cases)
        case rolled_back
        then show ?thesis using g3 sc2 by (simp add: sound_def frame_def)
      next
        case (written st)
        have vo: "valid_objects (db_Objects (c_st c1))" using c1 by (simp add: sound_def good_def good_db_iff)
        have "backed st s"
          using written(1) sc2 sz q
          by (auto simp: resize_mutation_def map_first_object_uuid [OF vo] backed_def sound_def c2)
        then show ?thesis using written g3 by (simp add: sound_def frame_def c2)
      qed
    qed
    then show ?thesis using 3(3) sc2 sound_settled reconcile_settled env by blast
  qed (use c c1 in simp_all)
qed

section \<open>Properties\<close>

lemma persistOnly_err: "persistOnly m c = (r, c') \<Longrightarrow> c_lastReconcileErr c' = c_lastReconcileErr c"
  using persist_cases by (fastforce simp: persistOnly_def Let_def restoreState_def split: prod.splits option.splits if_splits)

text \<open>C13. A delete never unlinks bytes that are recorded or may be in use: whatever fails, if the backing file
  of some object changed, then that object is in neither the database file nor the memory, nothing is
  connected to it, and the kernel was known to match the database.\<close>

theorem delete_record_before_bytes:
  assumes run: "Delete env kind ref c = (r, c')" and env: "range_ok env"
    and diff: "disk_size (c_store c') u \<noteq> disk_size (c_store c) u"
  shows "(\<exists>d. c_disk c' = Stored d \<and> u \<notin> ob_UUID ` set (db_Objects d)) \<and> u \<notin> ob_UUID ` set (db_Objects (c_st c'))
    \<and> unconnected u (c_st c') \<and> c_lastReconcileErr c' = None"
  using run env
proof (cases rule: Delete_cases)
  case refused
  then show ?thesis using diff by (simp add: settled_def frame_def)
next
  case (not_written x c1 e)
  have "frame c1 c'" using not_written(4) by (cases rule: persistOnly_cases) simp_all
  then show ?thesis using diff not_written(3) by (simp add: settled_def frame_def)
next
  case (deleted x c1 c2)
  let ?c = "releaseHold (ob_UUID x) (discardSavedPR (ob_WWN x) c2)"
  obtain st where st: "delete_object_mutation (ob_UUID x) (c_st c1) = (None, st)" "c_disk c2 = Stored st" "c_st c2 = st" "frame c1 c2"
    using deleted(5) by (cases rule: persistOnly_cases) auto
  obtain q s w where q: "store_Delete (ob_UUID x) (c_store ?c) (c_os ?c) = (q, s, w)" and c': "c' = ?c\<lparr>c_store := s, c_os := w\<rparr>"
    using deleted(6) by (rule with_store_sel)
  have "u = ob_UUID x"
  proof (rule ccontr)
    assume "u \<noteq> ob_UUID x"
    then have "disk_size s u = disk_size (c_store c2) u"
      using store_Delete_others [OF q] by (simp add: disk_size_def discard_release_sel)
    then show False using diff st(4) deleted(3) by (simp add: c' settled_def frame_def)
  qed
  then show ?thesis
    using st deleted(2,4) persistOnly_err [OF deleted(5)] set_hosts_settled [OF deleted(3)]
    by (auto simp: c' discard_release_sel delete_object_mutation_def deleteObject_def unconnected_def)
qed

lemma delete_record_before_bytes_witness:
  "\<exists>r c'. Delete idle_env KindVolume ''data'' (demo\<lparr>c_st := demo_db\<lparr>db_Connections := []\<rparr>\<rparr>) = (r, c')
     \<and> disk_size (c_store c') (ob_UUID demo_volume) = None
     \<and> (\<exists>d. c_disk c' = Stored d \<and> ob_UUID demo_volume \<notin> ob_UUID ` set (db_Objects d))"
proof -
  let ?c = "demo\<lparr>c_st := demo_db\<lparr>db_Connections := []\<rparr>\<rparr>"
  obtain r c' where run: "Delete idle_env KindVolume ''data'' ?c = (r, c')" by fastforce
  have res: "resolveObject (c_st ?c) KindVolume ''data'' = Some demo_volume"
    by (simp add: resolveObject_def objectByName_def demo_db_def demo_volume_def)
  let ?c1 = "?c\<lparr>c_st := snd (delete_object_mutation (ob_UUID demo_volume) (c_st ?c))\<rparr>"
  have "quiet ?c1" "c_dbPath ?c1 \<noteq> ''''" by (simp_all add: quiet_def demo_def quiet_os_def)
  then obtain c2 where p: "persist ?c1 = (None, c2)" and quiet2: "quiet c2" using persist_quiet [of ?c1] by (cases "persist ?c1") auto
  then have po: "persistOnly (delete_object_mutation (ob_UUID demo_volume)) ?c = (None, c2)"
    by (simp add: persistOnly_def delete_object_mutation_def Let_def)
  have c2: "c_store c2 = c_store demo" "c_cfg c2 = c_cfg demo" "c_withheld c2 = []" using persist_cases [OF p] by (simp_all add: frame_def) (simp add: demo_def)
  have "with_store (store_Delete (ob_UUID demo_volume)) (releaseHold (ob_UUID demo_volume) (discardSavedPR (ob_WWN demo_volume) c2)) = (r, c')"
    using run res po by (simp add: Delete_def connectionsOf_def healIfDegraded_def demo_db_def)
  moreover have "discardSavedPR (ob_WWN demo_volume) c2 = c2" by (simp add: discardSavedPR_def c2 demo_def)
  ultimately have "disk_size (c_store c') (ob_UUID demo_volume) = None"
    using quiet2 by (auto simp: with_store_def store_Delete_def remove_all_def c2 demo_def releaseHold_def quiet_def quiet_syscalls
        disk_size_def syncDir_def publishWithheld_def with_health_def)
  then show ?thesis
    using delete_record_before_bytes [OF run range_ok_idle, of "ob_UUID demo_volume"] run
    by (auto simp: demo_def disk_size_def)
qed

lemma objectByName_append: "objectByName (st\<lparr>db_Objects := db_Objects st @ [x]\<rparr>) kind name = (case objectByName st kind name of
    Some y \<Rightarrow> Some y | None \<Rightarrow> if ob_Kind x = kind \<and> ob_Name x = name then Some x else None)"
  by (cases "objectByName st kind name") (simp_all add: objectByName_def find_append)

lemma resolve_append:
  assumes "resolveObject st kind ref = Some s" and "ob_UUID s \<noteq> ref"
  shows "resolveObject (st\<lparr>db_Objects := db_Objects st @ [x]\<rparr>) kind ref = Some s"
  using assms by (auto simp: resolveObject_def objectByName_append split: option.splits if_splits dest: object_Some)

lemma create_new_recorded:
  assumes "create_new kind req0 c = ((Some (x, created), None), c1)"
  obtains source req where "copy_source (c_st c) req0 = Inr (source, req)" "c_st c1 = (c_st c)\<lparr>db_Objects := db_Objects (c_st c) @ [x]\<rparr>"
    "ob_Kind x = kind" "ob_Name x = cr_Name req0" "ob_BlockSize x = cr_BlockSize req"
    "ob_Source x = (case source of Some s \<Rightarrow> ob_UUID s | None \<Rightarrow> '''')" "created"
proof -
  obtain source req b c0 c2 where src: "copy_source (c_st c) req0 = Inr (source, req)"
    and b: "c_rand c = (Some b, c0)" and mb: "make_bytes source (fst (newIdentity b)) (cr_Size req) c0 = (None, c2)"
    and p: "persistOnly (create_object_mutation x) c2 = (None, c1)"
    and x: "x = new_object kind req source (newIdentity b) (os_now (c_os c2))" and "created"
    using assms by (cases rule: create_new_cases) (auto split: if_splits option.splits)
  have "c_st c2 = c_st c"
    using c_rand_sel [OF b] mb by (auto simp: make_bytes_def with_store_def split: option.splits prod.splits if_splits)
  with p have "c_st c1 = (c_st c)\<lparr>db_Objects := db_Objects (c_st c) @ [x]\<rparr>"
    by (cases rule: persistOnly_cases) (auto simp: create_object_mutation_def)
  moreover have "ob_Kind x = kind" "ob_Name x = cr_Name req0" "ob_BlockSize x = cr_BlockSize req"
    "ob_Source x = (case source of Some s \<Rightarrow> ob_UUID s | None \<Rightarrow> '''')"
    using copy_source_cases [OF src] by (simp_all add: x new_object_def)
  ultimately show thesis using that src \<open>created\<close> by blast
qed

text \<open>Repeating a create. After a create that succeeded, the same request changes nothing and returns the
  object with created=false, if it names no source or the source's block size is the one the request
  asks for, which is 512 when it asks for none. A copy of a source with another block size is refused as
  a mismatch with itself, although a copy ignores the block size of its request.\<close>

lemma create_replay:
  assumes run: "Create kind req c = ((Some (x, created), None), c1)"
  shows "Create kind req c1 = (if cr_Source req = '''' \<or> cr_BlockSize (with_default req) = ob_BlockSize x
      then ((Some (x, False), None), c1) else ((None, Some (StatusError StatusConflict CodeConfigurationMismatch)), c1))"
proof -
  let ?req = "with_default req"
  have nz: "cr_BlockSize ?req \<noteq> 0" "cr_Source ?req = cr_Source req" "cr_Name ?req = cr_Name req" "cr_SourceKind ?req = cr_SourceKind req"
    by (simp_all add: with_default_def DefaultBlockSize_def)
  have ok: "checkName (cr_Name req) = None" "ValidBlockSize (cr_BlockSize ?req)"
    using run by (auto simp: Create_def Let_def split: option.splits if_splits)
  show ?thesis
  proof (cases "objectByName (c_st c) kind (cr_Name req)")
    case (Some y)
    then have "y = x" "c1 = c" "matchExisting (c_st c) y ?req = None"
      using run ok nz by (auto simp: Create_def Let_def split: option.splits)
    then show ?thesis using Some ok nz by (auto simp: Create_def Let_def matchExisting_def split: if_splits)
  next
    case None
    then have "create_new kind ?req c = ((Some (x, created), None), c1)" using run ok nz by (simp add: Create_def Let_def)
    then obtain source req' where src: "copy_source (c_st c) ?req = Inr (source, req')"
      and st1: "c_st c1 = (c_st c)\<lparr>db_Objects := db_Objects (c_st c) @ [x]\<rparr>"
      and xs: "ob_Kind x = kind" "ob_Name x = cr_Name req" "ob_BlockSize x = cr_BlockSize req'"
        "ob_Source x = (case source of Some s \<Rightarrow> ob_UUID s | None \<Rightarrow> '''')"
      by (rule create_new_recorded) (simp add: nz)
    have "objectByName (c_st c1) kind (cr_Name req) = Some x" unfolding st1 objectByName_append using None xs by simp
    then have Cr: "Create kind req c1 = (case matchExisting (c_st c1) x ?req of
        Some e \<Rightarrow> ((None, Some e), c1) | None \<Rightarrow> ((Some (x, False), None), c1))"
      using ok nz by (simp add: Create_def Let_def)
    show ?thesis
    proof (cases source)
      case None
      then show ?thesis using copy_source_cases [OF src] nz xs by (simp add: Cr matchExisting_def)
    next
      case (Some s)
      then have s: "cr_Source req \<noteq> ''''" "resolveObject (c_st c) (cr_SourceKind req) (cr_Source req) = Some s" "ob_Source x = ob_UUID s"
        using copy_source_cases [OF src] nz xs by simp_all
      have "resolveObject (c_st c1) (cr_SourceKind req) (cr_Source req) = Some s" if "ob_UUID s \<noteq> cr_Source req"
        unfolding st1 by (rule resolve_append [OF s(2) that])
      then show ?thesis using nz s by (auto simp: Cr matchExisting_def)
    qed
  qed
qed

text \<open>A copy of the demonstration volume, whose block size is 4096.\<close>

definition demo_copy :: CreateRequest where
  "demo_copy = \<lparr>cr_Name = ''copy'', cr_Size = 0, cr_BlockSize = 0, cr_Source = ''data'', cr_SourceKind = KindVolume\<rparr>"

lemma demo_ident: "newIdentity (replicate 16 0) = (''00000000-0000-4000-8000-000000000000'', ''0000000000004000'')"
  by code_simp

lemma quiet_stage:
  assumes "os_faults w = []" and "map_of (s_dirs s) u = None" and "map_of (s_dirs s) (stagingPrefix @ u) = None"
    and "u \<noteq> ''''" "CHR ''/'' \<notin> set u" "u \<noteq> ''.''" "u \<noteq> ''..''" and "fill w = (Inr n, w)"
  shows "\<exists>s'. stage u fill s w = (None, s', w)"
  using assms by (auto simp: stage_def stat_dir_def quiet_syscalls syncDir_def Let_def unstage_def remove_all_def)

lemma demo_copies:
  "\<exists>x c1. Create KindVolume demo_copy (demo\<lparr>c_os := quiet_os\<lparr>os_rand := [Some (replicate 16 0)]\<rparr>\<rparr>) = ((Some (x, True), None), c1) \<and> ob_BlockSize x = 4096"
proof -
  let ?c = "demo\<lparr>c_os := quiet_os\<lparr>os_rand := [Some (replicate 16 0)]\<rparr>\<rparr>"
  let ?u = "''00000000-0000-4000-8000-000000000000''"
  let ?req = "(with_default demo_copy)\<lparr>cr_BlockSize := 4096, cr_Size := 1048576\<rparr>"
  have src: "copy_source (c_st ?c) (with_default demo_copy) = Inr (Some demo_volume, ?req)"
    by (simp add: copy_source_def demo_copy_def with_default_def resolveObject_def objectByName_def demo_db_def Let_def) (simp add: demo_volume_def)
  have b: "c_rand ?c = (Some (replicate 16 0), demo)" by (simp add: c_rand_def demo_def quiet_os_def)
  have "os_faults (c_os demo) = []" by (simp add: demo_def quiet_os_def)
  then have "\<exists>s'. stage ?u (reflink 1048576) (c_store demo) (c_os demo) = (None, s', c_os demo)"
    by (intro quiet_stage) (simp_all add: demo_def demo_volume_def stagingPrefix_def reflink_def quiet_syscalls)
  then obtain s' where "Clone (ob_UUID demo_volume) ?u (c_store demo) (c_os demo) = (None, s', c_os demo)"
    using \<open>os_faults (c_os demo) = []\<close> by (auto simp: Clone_def stat_disk_def quiet_syscalls disk_size_def demo_def)
  then have mb: "make_bytes (Some demo_volume) ?u 1048576 demo = (None, demo\<lparr>c_store := s'\<rparr>)"
    by (simp add: make_bytes_def with_store_def demo_volume_def)
  let ?x = "new_object KindVolume ?req (Some demo_volume) (newIdentity (replicate 16 0)) (os_now (c_os demo))"
  let ?c2 = "demo\<lparr>c_store := s', c_st := snd (create_object_mutation ?x demo_db)\<rparr>"
  have "fst (persist ?c2) = None" using persist_quiet [of ?c2] by (simp add: quiet_def demo_def quiet_os_def)
  then obtain c3 where "persist ?c2 = (None, c3)" by (metis prod.collapse)
  then have po: "persistOnly (create_object_mutation ?x) (demo\<lparr>c_store := s'\<rparr>) = (None, c3)"
    by (simp add: persistOnly_def create_object_mutation_def Let_def)
  have "create_new KindVolume (with_default demo_copy) ?c = ((Some (?x, True), None), c3)"
    using src b mb po by (simp add: create_new_def checkSize_def MinVolumeSize_def SizeGranularity_def CheckGranularity_def go_rem_def demo_ident Let_def)
  moreover have "Create KindVolume demo_copy ?c = create_new KindVolume (with_default demo_copy) ?c"
    by (simp add: Create_def checkName_def demo_copy_def with_default_def ValidBlockSize_def validName_def maxNameLen_def bad_name_char_def
        go_eval objectByName_def demo_db_def DefaultBlockSize_def) (simp add: demo_volume_def)
  moreover have "ob_BlockSize ?x = 4096" by (simp add: new_object_def)
  ultimately show ?thesis by metis
qed

lemma create_replay_witness:
  "\<exists>x c1. Create KindVolume demo_copy (demo\<lparr>c_os := quiet_os\<lparr>os_rand := [Some (replicate 16 0)]\<rparr>\<rparr>) = ((Some (x, True), None), c1)
     \<and> Create KindVolume demo_copy c1 = ((None, Some (StatusError StatusConflict CodeConfigurationMismatch)), c1)"
  using demo_copies create_replay by (fastforce simp: demo_copy_def with_default_def DefaultBlockSize_def)

end
