(* ===== verification/Appliance_Aptpl.thy ===== *)
theory Appliance_Aptpl
  imports Appliance_Objects Lio_Saved
begin

text \<open>
  The saved reservation records (appliance/aptpl.go): the kernel writes one file for each unit and never
  reads it back. This theory holds the parser that turns such a file into the records the kernel accepts,
  the provider that the engine calls, and the report on files without a unit. The parser is what stands
  between a damaged file and a unit exported without its reservation.
\<close>

section \<open>The parser\<close>

definition startMark :: string where "startMark = ''PR_REG_START:''"

definition endMark :: string where "endMark = ''PR_REG_END:''"

datatype aptpl_error =
    NestedStart nat nat | StrayEnd nat | UnparsableLine nat string | IllegalComma nat string | EmptyBlock nat
  | MissingKey nat string | Unterminated nat | EmptyState | NotPlaceholder

definition aptplRequired :: "string list" where
  "aptplRequired = [''initiator_node'', ''sa_res_key'', ''mapped_lun'', ''target_node'']"

definition joinRecord :: "string list \<Rightarrow> nat \<Rightarrow> aptpl_error + string" where
  "joinRecord lines startLine = (if lines = [] then Inl (EmptyBlock startLine)
     else (case find (\<lambda>k. k \<notin> set (map (cut_before ''='') lines)) aptplRequired of
       Some k \<Rightarrow> Inl (MissingKey startLine k)
     | None \<Rightarrow> Inr (joinStr '','' lines)))"

definition isNoRegistrations :: "string \<Rightarrow> bool" where
  "isNoRegistrations s \<longleftrightarrow> trimSpace (removeChar nul s) = ''No Registrations or Reservations''"

text \<open>
  The loop over the lines. \<open>cur\<close> is the open block, its first line and its fields, when \<open>inBlock\<close> holds;
  the result is the records and whether a line outside every block was seen.
\<close>

fun aptpl_lines :: "nat \<Rightarrow> string list \<Rightarrow> (nat \<times> string list) option \<Rightarrow> string list \<Rightarrow> bool \<Rightarrow> aptpl_error + (string list \<times> bool)" where
  "aptpl_lines n [] cur out stray = (case cur of Some (startLine, _) \<Rightarrow> Inl (Unterminated startLine) | None \<Rightarrow> Inr (out, stray))"
| "aptpl_lines n (l # ls) cur out stray = (let line = trimSpace l in
     if hasPrefix startMark line then (case cur of
         Some (startLine, _) \<Rightarrow> Inl (NestedStart (n + 1) startLine)
       | None \<Rightarrow> aptpl_lines (n + 1) ls (Some (n + 1, [])) out stray)
     else if hasPrefix endMark line then (case cur of
         None \<Rightarrow> Inl (StrayEnd (n + 1))
       | Some (startLine, fs) \<Rightarrow> (case joinRecord fs startLine of
           Inl e \<Rightarrow> Inl e
         | Inr rec \<Rightarrow> aptpl_lines (n + 1) ls None (out @ [rec]) stray))
     else if line = '''' then aptpl_lines (n + 1) ls cur out stray
     else (case cur of
         None \<Rightarrow> aptpl_lines (n + 1) ls None out True
       | Some (startLine, fs) \<Rightarrow>
           if \<not> contains_str ''='' line then Inl (UnparsableLine (n + 1) line)
           else if contains_str '','' line then Inl (IllegalComma (n + 1) line)
           else aptpl_lines (n + 1) ls (Some (startLine, fs @ [line])) out stray))"

definition ParseAPTPL :: "string \<Rightarrow> aptpl_error + string list" where
  "ParseAPTPL s = (case aptpl_lines 0 (splitChar newline s) None [] False of
     Inl e \<Rightarrow> Inl e
   | Inr (out, sawStray) \<Rightarrow>
      if out = [] \<and> \<not> isNoRegistrations s then
        (if trimSpace (removeChar nul s) = '''' then Inl EmptyState
         else if sawStray then Inl NotPlaceholder else Inr out)
      else Inr out)"

section \<open>The provider and the orphans\<close>

definition aptpl_isHex16 :: "string \<Rightarrow> bool" where
  "aptpl_isHex16 s \<longleftrightarrow> length s = 16 \<and> list_all isHexDigit s"

datatype saved_error = MalformedWWN string | SavedNotRead errno | SavedDamaged aptpl_error

text \<open>\<open>readFile\<close> is \<open>os.ReadFile\<close> in the directory of the saved files.\<close>

definition APTPLProvider :: "(string \<Rightarrow> errno + string) \<Rightarrow> Backstore \<Rightarrow> saved_error + string list" where
  "APTPLProvider readFile b = (if bs_WWN b = '''' then Inr []
     else if \<not> aptpl_isHex16 (bs_WWN b) then Inl (MalformedWWN (bs_WWN b))
     else (case readFile (aptpl_file (bs_WWN b)) of
       Inl e \<Rightarrow> if e = ENOENT then Inr [] else Inl (SavedNotRead e)
     | Inr data \<Rightarrow> (case ParseAPTPL data of Inl e \<Rightarrow> Inl (SavedDamaged e) | Inr recs \<Rightarrow> Inr recs)))"

text \<open>The files whose suffix is no unit's WWN; the listing is sorted by name.\<close>

definition OrphanPRState :: "string \<Rightarrow> errno + string list \<Rightarrow> string list \<Rightarrow> errno + string list" where
  "OrphanPRState dbRoot listing liveWWNs = (if dbRoot = '''' then Inr []
     else (case listing of
       Inl e \<Rightarrow> if e = ENOENT then Inr [] else Inl e
     | Inr names \<Rightarrow> Inr (filter (\<lambda>n. case cutPrefix ''aptpl_'' n of None \<Rightarrow> False | Some wwn \<Rightarrow> wwn \<notin> set liveWWNs) names)))"

section \<open>Failing closed\<close>

lemma aptpl_lines_mono: "aptpl_lines n ls cur out stray = Inr (out', stray') \<Longrightarrow> \<exists>recs. out' = out @ recs"
proof (induction n ls cur out stray rule: aptpl_lines.induct)
  case (2 n l ls cur out stray)
  then show ?case by (fastforce simp: Let_def split: if_splits option.splits sum.splits)
qed (auto split: option.splits)

lemma in_block_no_end:
  "\<forall>l \<in> set ls. \<not> hasPrefix endMark (trimSpace l) \<Longrightarrow> \<exists>e. aptpl_lines n ls (Some (st, fs)) out stray = Inl e"
proof (induction ls arbitrary: n fs)
  case (Cons l ls)
  then show ?case by (auto simp: Let_def)
qed simp

text \<open>A file that gives no record and showed nothing outside a block has only white space.\<close>

lemma nothing_seen:
  "aptpl_lines n ls None [] False = Inr ([], False) \<Longrightarrow> \<forall>l \<in> set ls. trimSpace l = ''''"
proof (induction ls arbitrary: n)
  case (Cons l ls)
  have stray: "aptpl_lines n ls cur out True \<noteq> Inr (o', False)" for n ls cur out o'
  proof (induction n ls cur out True rule: aptpl_lines.induct)
    case (2 n l ls cur out)
    then show ?case by (auto simp: Let_def split: if_splits option.splits sum.splits)
  qed (auto split: option.splits)
  have opened: "aptpl_lines n ls (Some b) [] False \<noteq> Inr ([], False)" for n ls b
  proof (induction ls arbitrary: n b)
    case (Cons l ls)
    have "aptpl_lines m ls None [rec] False \<noteq> Inr ([], False)" for m rec using aptpl_lines_mono by fastforce
    with Cons show ?case by (cases b) (auto simp: Let_def split: if_splits sum.splits)
  qed (auto split: prod.splits)
  have s: "\<not> hasPrefix startMark (trimSpace l)" using Cons.prems opened by (auto simp: Let_def)
  moreover have "\<not> hasPrefix endMark (trimSpace l)" using Cons.prems s by (auto simp: Let_def split: if_splits)
  ultimately show ?case using Cons stray by (auto simp: Let_def split: if_splits)
qed simp

section \<open>Files as the kernel writes them\<close>

text \<open>The fields of a registration: printable, without comma, with the keys that are required.\<close>

definition field_line :: "string \<Rightarrow> bool" where
  "field_line f \<longleftrightarrow> f \<noteq> '''' \<and> graphic (hd f) \<and> graphic (last f) \<and> newline \<notin> set f \<and> contains_str ''='' f \<and> \<not> contains_str '','' f
     \<and> \<not> hasPrefix startMark f \<and> \<not> hasPrefix endMark f"

definition block_ok :: "string list \<Rightarrow> bool" where
  "block_ok fs \<longleftrightarrow> fs \<noteq> [] \<and> list_all field_line fs \<and> set aptplRequired \<subseteq> cut_before ''='' ` set fs"

definition block_lines :: "nat \<Rightarrow> string list \<Rightarrow> string list" where
  "block_lines i fs = (startMark @ '' '' @ utoa i) # fs @ [endMark @ '' '' @ utoa i]"

fun saved_file :: "nat \<Rightarrow> string list list \<Rightarrow> string" where
  "saved_file i [] = ''''"
| "saved_file i (fs # blocks) = concat (map (\<lambda>l. l @ [newline]) (block_lines i fs)) @ saved_file (i + 1) blocks"

lemma joinRecord_ok: "block_ok fs \<Longrightarrow> joinRecord fs st = Inr (joinStr '','' fs)"
proof -
  assume b: "block_ok fs"
  then have "find (\<lambda>k. k \<notin> set (map (cut_before ''='') fs)) aptplRequired = None" by (auto simp: block_ok_def find_None_iff)
  with b show "joinRecord fs st = Inr (joinStr '','' fs)" by (simp add: joinRecord_def block_ok_def)
qed

lemma utoa_graphic: "list_all graphic (utoa i)"
proof -
  have "graphic c" if "c \<in> set (utoa i)" for c using digit_val_utoa [OF that] digit_char_graphic by fastforce
  then show ?thesis by (simp add: list_all_iff)
qed

lemma trim_start: "trimSpace (startMark @ '' '' @ utoa i) = startMark @ '' '' @ utoa i"
  by (rule trimSpace_graphic) (use last_graphic [OF utoa_graphic [of i] utoa_nonempty, of "startMark @ '' ''"] in \<open>simp_all add: startMark_def graphic_def\<close>)

lemma trim_field: "field_line f \<Longrightarrow> trimSpace f = f"
  by (simp add: field_line_def trimSpace_graphic)

lemma fields_run:
  "list_all field_line fs \<Longrightarrow> aptpl_lines n (fs @ ls) (Some (st, gs)) out stray = aptpl_lines (n + length fs) ls (Some (st, gs @ fs)) out stray"
proof (induction fs arbitrary: n gs)
  case (Cons f fs)
  have "field_line f" "trimSpace f = f" using Cons.prems trim_field by auto
  then show ?case using Cons by (simp add: field_line_def)
qed simp

text \<open>A block that ends with a line that has the end mark gives its record.\<close>

lemma block_run:
  assumes "block_ok fs" and "hasPrefix endMark (trimSpace e)"
  shows "aptpl_lines n ((startMark @ '' '' @ utoa i) # fs @ e # ls) None out stray
    = aptpl_lines (n + length fs + 2) ls None (out @ [joinStr '','' fs]) stray"
proof -
  have "\<not> hasPrefix startMark (trimSpace e)" using assms(2) by (auto simp: hasPrefix_iff startMark_def endMark_def)
  moreover have "list_all field_line fs" using assms(1) by (simp add: block_ok_def)
  ultimately show ?thesis using assms by (simp only: aptpl_lines.simps trim_start) (simp add: Let_def fields_run joinRecord_ok)
qed
section \<open>Truncated files\<close>

lemma prefix_mark:
  assumes "x @ y = f" and "f \<noteq> []" and "graphic (hd f)" and "hasPrefix m (trimSpace x)"
  shows "hasPrefix m f"
proof -
  have "x = [] \<or> graphic (hd x)" using assms(1-3) by (cases x) auto
  from trimSpace_prefix [OF this] obtain b where "x = trimSpace x @ b" by blast
  moreover obtain r where "trimSpace x = m @ r" using assms(4) by (auto simp: hasPrefix_iff)
  ultimately have "f = m @ r @ b @ y" using assms(1) by (metis append_assoc)
  then show ?thesis by simp
qed
lemma split_lines:
  "\<forall>l \<in> set ls. newline \<notin> set l \<Longrightarrow> splitChar newline (concat (map (\<lambda>l. l @ [newline]) ls) @ r) = ls @ splitChar newline r"
  by (induction ls) (simp_all add: splitChar_append)

lemma split_truncated:
  assumes "\<forall>l \<in> set ls. newline \<notin> set l" and "q @ y = concat (map (\<lambda>l. l @ [newline]) ls)" and "y \<noteq> []"
  shows "\<exists>j x z. j < length ls \<and> splitChar newline q = take j ls @ [x] \<and> x @ z = ls ! j"
  using assms
proof (induction ls arbitrary: q)
  case (Cons l ls)
  have e: "q @ y = l @ newline # concat (map (\<lambda>l. l @ [newline]) ls)" using Cons.prems(2) by simp
  show ?case
  proof (cases "length q \<le> length l")
    case True
    then obtain z where z: "l = q @ z" using e by (auto simp: append_eq_append_conv2)
    then have "splitChar newline q = [q]" using Cons.prems(1) by (intro splitChar_plain) auto
    then show ?thesis using z by (intro exI [of _ 0]) auto
  next
    case False
    then obtain q' where q: "q = l @ newline # q'" "q' @ y = concat (map (\<lambda>l. l @ [newline]) ls)"
    proof -
      obtain us where us: "us \<noteq> []" "us @ y = newline # concat (map (\<lambda>l. l @ [newline]) ls)" "q = l @ us"
        using e False by (auto simp: append_eq_append_conv2)
      then show thesis using that by (cases us) auto
    qed
    obtain j x z where "j < length ls" "splitChar newline q' = take j ls @ [x]" "x @ z = ls ! j"
      using Cons.IH [OF _ q(2) Cons.prems(3)] Cons.prems(1) by auto
    then show ?thesis using q(1) Cons.prems(1) by (intro exI [of _ "Suc j"]) (auto simp: splitChar_append)
  qed
qed simp

lemma start_line: "aptpl_lines n ((startMark @ '' '' @ utoa i) # ls) None out stray = aptpl_lines (n + 1) ls (Some (n + 1, [])) out stray"
  by (simp only: aptpl_lines.simps trim_start) (simp add: Let_def)

lemma block_lines_newline:
  assumes "block_ok fs"
  shows "\<forall>l \<in> set (block_lines i fs). newline \<notin> set l"
proof -
  have "newline \<notin> set (utoa i)" by (rule notin_utoa) (simp add: digit_val_def)
  then show ?thesis using assms by (auto simp: block_lines_def startMark_def endMark_def block_ok_def list_all_iff field_line_def)
qed

lemma truncated_block:
  assumes b: "block_ok fs" and q: "q @ y = concat (map (\<lambda>l. l @ [newline]) (block_lines i fs))" and y: "y \<noteq> []"
  shows "(\<exists>e. aptpl_lines n (splitChar newline q) None out stray = Inl e)
    \<or> (\<exists>s. aptpl_lines n (splitChar newline q) None out stray = Inr (out, s))
    \<or> aptpl_lines n (splitChar newline q) None out stray = Inr (out @ [joinStr '','' fs], stray)"
proof -
  obtain j x z where j: "j < length (block_lines i fs)" "splitChar newline q = take j (block_lines i fs) @ [x]" "x @ z = block_lines i fs ! j"
    using split_truncated [OF block_lines_newline [OF b] q y] by blast
  let ?start = "startMark @ '' '' @ utoa i"
  have fl: "\<forall>f \<in> set fs. field_line f" using b by (simp add: block_ok_def list_all_iff)
  consider "j = 0" | k where "j = Suc k" "k < length fs" | "j = Suc (length fs)"
    using j(1) by (cases j) (auto simp: block_lines_def less_Suc_eq)
  then show ?thesis
  proof cases
    case 1
    have x: "x @ z = ?start" using j(3) 1 by (simp add: block_lines_def)
    have "\<not> hasPrefix endMark ?start" by (simp add: startMark_def endMark_def hasPrefix_def)
    then have "\<not> hasPrefix endMark (trimSpace x)" using prefix_mark [OF x] by (auto simp: startMark_def graphic_def)
    then show ?thesis using j(2) 1 by (auto simp: Let_def)
  next
    case 2
    have f: "field_line (fs ! k)" and x: "x @ z = fs ! k" using fl j(3) 2 by (simp_all add: block_lines_def nth_append)
    have "\<not> hasPrefix endMark (trimSpace x)" using prefix_mark [OF x, of endMark] f by (auto simp: field_line_def)
    moreover have "\<forall>l \<in> set (take k fs). \<not> hasPrefix endMark (trimSpace l)"
      using fl trim_field by (auto simp: field_line_def dest!: in_set_takeD)
    ultimately have "\<exists>e. aptpl_lines (n + 1) (take k fs @ [x]) (Some (n + 1, [])) out stray = Inl e"
      by (intro in_block_no_end) auto
    moreover have "splitChar newline q = ?start # take k fs @ [x]" using j(2) 2 by (simp add: block_lines_def)
    ultimately show ?thesis using start_line by simp
  next
    case 3
    have l: "splitChar newline q = ?start # fs @ [x]" using j(2) 3 by (simp add: block_lines_def)
    show ?thesis
    proof (cases "hasPrefix endMark (trimSpace x)")
      case True
      then show ?thesis using block_run [OF b True, of n i "[]"] l by simp
    next
      case False
      then have "\<forall>l \<in> set (fs @ [x]). \<not> hasPrefix endMark (trimSpace l)" using fl trim_field by (auto simp: field_line_def)
      then have "\<exists>e. aptpl_lines (n + 1) (fs @ [x]) (Some (n + 1, [])) out stray = Inl e" by (rule in_block_no_end)
      then show ?thesis using l start_line by simp
    qed
  qed
qed

lemma end_mark: "hasPrefix endMark (trimSpace (endMark @ '' '' @ utoa i))"
proof -
  have "trimSpace (endMark @ '' '' @ utoa i) = endMark @ '' '' @ utoa i"
    by (rule trimSpace_graphic) (use last_graphic [OF utoa_graphic [of i] utoa_nonempty, of "endMark @ '' ''"] in \<open>simp_all add: endMark_def graphic_def\<close>)
  then show ?thesis by (simp add: hasPrefix_append)
qed

text \<open>A complete block in front adds its record.\<close>

lemma whole_block:
  assumes "block_ok fs"
  shows "aptpl_lines n (splitChar newline (concat (map (\<lambda>l. l @ [newline]) (block_lines i fs)) @ p)) None out stray
    = aptpl_lines (n + length fs + 2) (splitChar newline p) None (out @ [joinStr '','' fs]) stray"
  using block_run [OF assms end_mark, of n i i "splitChar newline p"] split_lines [OF block_lines_newline [OF assms]]
  by (simp add: block_lines_def)

lemma saved_file_run:
  "\<forall>fs \<in> set blocks. block_ok fs \<Longrightarrow>
     aptpl_lines n (splitChar newline (saved_file i blocks)) None out stray = Inr (out @ map (joinStr '','') blocks, stray)"
proof (induction blocks arbitrary: n i out)
  case Nil
  then show ?case by (simp add: startMark_def endMark_def hasPrefix_def)
next
  case (Cons fs blocks)
  then show ?case by (simp add: whole_block)
qed

lemma truncated_file_run:
  assumes "\<forall>fs \<in> set blocks. block_ok fs" and "p @ y = saved_file i blocks"
  shows "(\<exists>e. aptpl_lines n (splitChar newline p) None out stray = Inl e)
    \<or> (\<exists>k s. aptpl_lines n (splitChar newline p) None out stray = Inr (out @ take k (map (joinStr '','') blocks), s))"
  using assms
proof (induction blocks arbitrary: n i out p)
  case Nil
  then show ?case by (simp add: startMark_def endMark_def hasPrefix_def)
next
  case (Cons fs blocks)
  let ?t = "concat (map (\<lambda>l. l @ [newline]) (block_lines i fs))"
  have b: "block_ok fs" using Cons.prems(1) by simp
  have "p @ y = ?t @ saved_file (i + 1) blocks" using Cons.prems(2) by simp
  then obtain us where "p = ?t @ us \<and> us @ y = saved_file (i + 1) blocks \<or> p @ us = ?t \<and> y = us @ saved_file (i + 1) blocks"
    unfolding append_eq_append_conv2 by blast
  then consider y' where "p @ y' = ?t" "y' \<noteq> []" | p' where "p = ?t @ p'" "p' @ y = saved_file (i + 1) blocks"
    by (cases "us = []") auto
  then show ?case
  proof cases
    case 1
    from truncated_block [OF b this, of n out stray] show ?thesis
    proof (elim disjE exE)
      fix s assume "aptpl_lines n (splitChar newline p) None out stray = Inr (out, s)"
      then show ?thesis by (intro disjI2 exI [of _ 0] exI [of _ s]) simp
    next
      assume "aptpl_lines n (splitChar newline p) None out stray = Inr (out @ [joinStr '','' fs], stray)"
      then show ?thesis by (intro disjI2 exI [of _ 1] exI [of _ stray]) simp
    qed blast
  next
    case 2
    have "(\<exists>e. aptpl_lines (n + length fs + 2) (splitChar newline p') None (out @ [joinStr '','' fs]) stray = Inl e)
      \<or> (\<exists>k s. aptpl_lines (n + length fs + 2) (splitChar newline p') None (out @ [joinStr '','' fs]) stray
          = Inr ((out @ [joinStr '','' fs]) @ take k (map (joinStr '','') blocks), s))"
      by (rule Cons.IH [OF _ 2(2)]) (use Cons.prems(1) in simp)
    then show ?thesis unfolding 2(1) whole_block [OF b]
    proof (elim disjE exE)
      fix k s assume "aptpl_lines (n + length fs + 2) (splitChar newline p') None (out @ [joinStr '','' fs]) stray
          = Inr ((out @ [joinStr '','' fs]) @ take k (map (joinStr '','') blocks), s)"
      then show "(\<exists>e. aptpl_lines (n + length fs + 2) (splitChar newline p') None (out @ [joinStr '','' fs]) stray = Inl e)
        \<or> (\<exists>k s. aptpl_lines (n + length fs + 2) (splitChar newline p') None (out @ [joinStr '','' fs]) stray
            = Inr (out @ take k (map (joinStr '','') (fs # blocks)), s))"
        by (intro disjI2 exI [of _ "Suc k"] exI [of _ s]) simp
    qed blast
  qed
qed
lemma file_head: "saved_file i (fs # blocks) = CHR ''P'' # tl (saved_file i (fs # blocks))"
  by (simp add: block_lines_def startMark_def)

lemma ParseAPTPL_Inr:
  assumes "ParseAPTPL s = Inr recs"
  shows "(\<exists>stray. aptpl_lines 0 (splitChar newline s) None [] False = Inr (recs, stray)) \<and> (recs = [] \<longrightarrow> isNoRegistrations s)"
proof -
  obtain out stray where o: "aptpl_lines 0 (splitChar newline s) None [] False = Inr (out, stray)"
    using assms by (auto simp: ParseAPTPL_def split: sum.splits)
  then have "recs = out" using assms by (auto simp: ParseAPTPL_def split: if_splits)
  moreover have "isNoRegistrations s" if "out = []"
  proof (rule ccontr)
    assume n: "\<not> isNoRegistrations s"
    then have t: "trimSpace (removeChar nul s) \<noteq> ''''" and "\<not> stray" using assms o that by (auto simp: ParseAPTPL_def split: if_splits)
    then have "\<forall>l \<in> set (splitChar newline s). blank l" using nothing_seen [of 0 "splitChar newline s"] o that trimSpace_empty_iff by auto
    then have "blank (joinStr [newline] (splitChar newline s))" by (rule blank_join)
    then have "blank s" by (simp only: joinStr_splitChar)
    then show False using t blank_nul trimSpace_empty_iff removeChar_id by metis
  qed
  ultimately show ?thesis using o by blast
qed

lemma not_placeholder:
  assumes "p @ y = saved_file i (fs # blocks)"
  shows "\<not> isNoRegistrations p"
proof
  assume n: "isNoRegistrations p"
  have "p \<noteq> []" using n by (auto simp: isNoRegistrations_def removeChar_def)
  then obtain c p' where c: "p = c # p'" by (cases p) auto
  then have p: "p = CHR ''P'' # p'" using assms file_head [of i fs blocks] by (metis append_Cons list.inject)
  obtain b where "removeChar nul p = trimSpace (removeChar nul p) @ b"
    using trimSpace_prefix [of "removeChar nul p"] p by (auto simp: removeChar_def graphic_def)
  then show False using n p by (simp add: isNoRegistrations_def removeChar_def)
qed

section \<open>Properties\<close>



definition demo_block :: "string list" where
  "demo_block = [''initiator_node=iqn.h'', ''sa_res_key=43690'', ''mapped_lun=5'', ''target_node=iqn.t'']"

lemma demo_block_ok: "block_ok demo_block"
  by (simp add: block_ok_def demo_block_def field_line_def aptplRequired_def startMark_def endMark_def go_eval graphic_def)



end
