(* ===== verification/Appliance_Start.thy ===== *)
theory Appliance_Start
  imports Appliance_Objects
begin

text \<open>
  Starting and re-initialising an appliance (\<open>Open\<close>, \<open>load\<close>, \<open>adoptStorage\<close> and \<open>adoptPortals\<close> of appliance.go,
  identity.go, reinit.go), and the target's portals at run time (\<open>Target\<close> and \<open>SetPortals\<close> of ops.go). The
  contents of the machine-id file are an argument, by path. Starting is a function of the coordinator
  that \<open>Open\<close> builds before it reads anything; when it fails the coordinator is discarded, and what
  remains is the file, the store and the kernel.
\<close>

datatype start_error = BadConfig config_error | ReadFailed errno | NotJSON | LoadRefused load_error
  | StorageFailed store_error | LostRecords string | MachineIDUnreadable errno | MachineIDMalformed string
  | IdentityConflict string string | NoIdentity | RecordFailed op_error | ReplayFailed op_error
  | NoRoot | BadReinitIQN string | NoRandomness

section \<open>Loading (appliance.go)\<close>

definition empty_db :: db where
  "empty_db = \<lparr>db_Version = dbVersion, db_Objects = [], db_Hosts = [], db_Connections = [], db_Exports = [],
     db_Portals = [], db_TargetIQN = '''', db_MachineID = ''''\<rparr>"

text \<open>\<open>os.ReadFile\<close> on the database: a failure never claims that a file present is absent.\<close>

definition read_db :: "'k coord \<Rightarrow> (errno + dbfile) \<times> 'k coord" where
  "read_db c = (case c_syscall c of (f, c1) \<Rightarrow>
     (if c_disk c1 = NoFile then Inl (case f of Some e \<Rightarrow> e | None \<Rightarrow> ENOENT)
      else (case f of Some e \<Rightarrow> if e = ENOENT then Inr (c_disk c1) else Inl e | None \<Rightarrow> Inr (c_disk c1)), c1))"

definition load :: "'k coord \<Rightarrow> (start_error + bool) \<times> 'k coord" where
  "load c = (case read_db c of
     (Inl e, c1) \<Rightarrow> if e = ENOENT then (Inr False, c1) else (Inl (ReadFailed e), c1)
   | (Inr f, c1) \<Rightarrow> (case f of
       Stored d \<Rightarrow> (let c2 = c1\<lparr>c_st := d\<rparr> in
         case checkVersion d of
           Some e \<Rightarrow> (Inl (LoadRefused e), c2)
         | None \<Rightarrow> (case validateLoaded d of
             Some e \<Rightarrow> (Inl (LoadRefused e), c2) | None \<Rightarrow> (Inr True, c2)))
     | _ \<Rightarrow> (Inl NotJSON, c1)))"

section \<open>Storage (appliance.go)\<close>

fun quarantine_unknown :: "string list \<Rightarrow> string list \<Rightarrow> 'k coord \<Rightarrow> start_error option \<times> 'k coord" where
  "quarantine_unknown known [] c = (None, c)"
| "quarantine_unknown known (d # ds) c =
    (if d \<in> set known then quarantine_unknown known ds c
     else (case Quarantine d (c_store c) (c_os c) of
       (Inl e, s, w) \<Rightarrow> (Some (StorageFailed e), c\<lparr>c_store := s, c_os := w\<rparr>)
     | (Inr q, s, w) \<Rightarrow> quarantine_unknown known ds (c\<lparr>c_store := s, c_os := w\<rparr>)))"

fun mark_missing :: "Store \<Rightarrow> Object list \<Rightarrow> os \<Rightarrow> Object list \<times> os" where
  "mark_missing s [] w = ([], w)"
| "mark_missing s (x # xs) w = (case Storage.Exists s (ob_UUID x) w of (there, w1) \<Rightarrow>
    (case mark_missing s xs w1 of (ys, w2) \<Rightarrow> ((if there then x else x\<lparr>ob_State := stateMissing\<rparr>) # ys, w2)))"

definition adoptStorage :: "bool \<Rightarrow> 'k coord \<Rightarrow> start_error option \<times> 'k coord" where
  "adoptStorage dbExisted c = (case ObjectDirs (c_store c) (c_os c) of
     (Inl e, w) \<Rightarrow> (Some (StorageFailed e), c\<lparr>c_os := w\<rparr>)
   | (Inr dirs, w) \<Rightarrow> (let c1 = c\<lparr>c_os := w\<rparr> in
      if \<not> dbExisted \<and> dirs \<noteq> [] then
        (case latestBackup c1 of
           (Inr bak, c2) \<Rightarrow> (Some (LostRecords bak), c2)
         | (Inl e, c2) \<Rightarrow> (Some (LostRecords ''''), c2))
      else (case quarantine_unknown (map ob_UUID (db_Objects (c_st c1))) dirs c1 of
        (Some e, c2) \<Rightarrow> (Some e, c2)
      | (None, c2) \<Rightarrow> (case mark_missing (c_store c2) (db_Objects (c_st c2)) (c_os c2) of
          (xs, w2) \<Rightarrow> (None, c2\<lparr>c_st := (c_st c2)\<lparr>db_Objects := xs\<rparr>, c_os := w2\<rparr>)))))"

section \<open>Identity (identity.go)\<close>

definition IQNPrefix :: string where "IQNPrefix = ''iqn.2026-01.dev.glitr:''"
definition DefaultMachineIDPath :: string where "DefaultMachineIDPath = ''/etc/machine-id''"

type_synonym files = "string \<Rightarrow> errno + string"

definition validMachineID :: "string \<Rightarrow> bool" where
  "validMachineID i \<longleftrightarrow> length i = 32 \<and> list_all (\<lambda>c. CHR ''0'' \<le> c \<and> c \<le> CHR ''9'' \<or> CHR ''a'' \<le> c \<and> c \<le> CHR ''f'') i"

definition readMachineID :: "files \<Rightarrow> string \<Rightarrow> start_error + string" where
  "readMachineID fs path = (case fs path of
     Inl e \<Rightarrow> if e = ENOENT then Inr '''' else Inl (MachineIDUnreadable e)
   | Inr b \<Rightarrow> (let i = trimSpace b in
      if i = '''' then Inr '''' else if \<not> validMachineID i then Inl (MachineIDMalformed i) else Inr i))"

definition DeriveTargetIQN :: "string \<Rightarrow> string" where
  "DeriveTargetIQN machineID = IQNPrefix @ machineID"

definition machineIDPath :: "'k coord \<Rightarrow> string" where
  "machineIDPath c = (if ac_MachineIDPath (c_cfg c) \<noteq> '''' then ac_MachineIDPath (c_cfg c) else DefaultMachineIDPath)"

definition liveTargetIQN :: "'k env \<Rightarrow> 'k coord \<Rightarrow> string" where
  "liveTargetIQN env c = (case e_Discover env (c_kern c) of
     Inl e \<Rightarrow> '''' | Inr live \<Rightarrow> (case cfg_Targets live of [t] \<Rightarrow> tgt_IQN t | _ \<Rightarrow> ''''))"

text \<open>The name, and whether a flag that disagrees with the record was ignored; none when there is nothing to go by.\<close>

definition choose_iqn :: "'k env \<Rightarrow> string \<Rightarrow> 'k coord \<Rightarrow> (string \<times> bool) option" where
  "choose_iqn env actual c =
    (let recorded = db_TargetIQN (c_st c); flag = ac_TargetIQN (c_cfg c) in
     if recorded \<noteq> '''' then Some (recorded, flag \<noteq> '''' \<and> flag \<noteq> recorded)
     else if flag \<noteq> '''' then Some (flag, False)
     else if liveTargetIQN env c \<noteq> '''' then Some (liveTargetIQN env c, False)
     else if actual \<noteq> '''' then Some (DeriveTargetIQN actual, False)
     else None)"

definition adoptIdentity :: "'k env \<Rightarrow> files \<Rightarrow> 'k coord \<Rightarrow> start_error option \<times> 'k coord" where
  "adoptIdentity env fs c = (case readMachineID fs (machineIDPath c) of
     Inl e \<Rightarrow> (Some e, c)
   | Inr actual \<Rightarrow>
      if db_MachineID (c_st c) \<noteq> '''' \<and> actual \<noteq> '''' \<and> db_MachineID (c_st c) \<noteq> actual
      then (Some (IdentityConflict (db_MachineID (c_st c)) actual), c)
      else (case choose_iqn env actual c of
        None \<Rightarrow> (Some NoIdentity, c)
      | Some (iqn, ignored) \<Rightarrow>
         (let c1 = (if ignored then with_health (\<lambda>h. h\<lparr>hl_iqnFlagIgnored := True\<rparr>) c else c) in
          if db_TargetIQN (c_st c1) = iqn \<and> db_MachineID (c_st c1) = actual
          then (None, c1\<lparr>c_cfg := (c_cfg c1)\<lparr>ac_TargetIQN := iqn\<rparr>\<rparr>)
          else (case persist (c1\<lparr>c_st := (c_st c1)\<lparr>db_TargetIQN := iqn, db_MachineID := actual\<rparr>,
                  c_cfg := (c_cfg c1)\<lparr>ac_TargetIQN := iqn\<rparr>\<rparr>) of
            (Some e, c2) \<Rightarrow> (Some (RecordFailed e), c2)
          | (None, c2) \<Rightarrow> (None, c2)))))"

section \<open>Portals (appliance.go, ops.go)\<close>

text \<open>The counting loop over the second list; a missing key counts as zero.\<close>

fun drain_portals :: "AddrPort list \<Rightarrow> AddrPort list \<Rightarrow> bool" where
  "drain_portals seen [] = True"
| "drain_portals seen (k # ks) = (if k \<in> set seen then drain_portals (remove1 k seen) ks else False)"

definition samePortalSet :: "Portal list \<Rightarrow> Portal list \<Rightarrow> bool" where
  "samePortalSet a b = (if length a \<noteq> length b then False
     else drain_portals (map (\<lambda>p. (po_IP p, po_Port p)) a) (map (\<lambda>p. (po_IP p, po_Port p)) b))"

definition adoptPortals :: "'k coord \<Rightarrow> start_error option \<times> 'k coord" where
  "adoptPortals c =
    (if db_Portals (c_st c) = [] then
       (case persist (c\<lparr>c_st := (c_st c)\<lparr>db_Portals := ac_Portals (c_cfg c)\<rparr>\<rparr>) of
          (Some e, c1) \<Rightarrow> (Some (RecordFailed e), c1) | (None, c1) \<Rightarrow> (None, c1))
     else if \<not> samePortalSet (db_Portals (c_st c)) (ac_Portals (c_cfg c))
     then (None, with_health (\<lambda>h. h\<lparr>hl_portalFlagIgnored := True\<rparr>) c)
     else (None, c))"

definition Target :: "'k coord \<Rightarrow> string \<times> Portal list" where
  "Target c = (ac_TargetIQN (c_cfg c), portals c)"

definition set_portals_mutation :: "Portal list \<Rightarrow> mutation" where
  "set_portals_mutation ps st = (None, st\<lparr>db_Portals := ps\<rparr>)"

definition SetPortals :: "'k env \<Rightarrow> Portal list \<Rightarrow> 'k coord \<Rightarrow> (op_error + Portal list) \<times> 'k coord" where
  "SetPortals env ps c =
    (if ps = [] then (Inl (StatusError StatusBadRequest ''''), c)
     else (case ApplianceConfig_Validate \<lparr>ac_TargetIQN = ac_TargetIQN (c_cfg c), ac_Portals = ps, ac_DBRoot = '''',
              ac_MachineIDPath = '''', ac_WriteBack = False, ac_NoUnmap = False\<rparr> of
       Some e \<Rightarrow> (Inl (StatusError StatusBadRequest ''''), c)
     | None \<Rightarrow>
        if samePortalSet (db_Portals (c_st c)) ps then (Inr (portals c), c)
        else (case commit env (set_portals_mutation ps) c of
          (Some Panicked, c1) \<Rightarrow> (Inl Panicked, c1)
        | (Some e, c1) \<Rightarrow> (Inl (StatusError StatusConflict ''''), c1)
        | (None, c1) \<Rightarrow> (let c2 = with_health (\<lambda>h. h\<lparr>hl_portalFlagIgnored := False\<rparr>) c1 in (Inr (portals c2), c2)))))"

section \<open>Opening (appliance.go)\<close>

text \<open>The coordinator that \<open>Open\<close> builds, over the state that it finds.\<close>

definition fresh_health :: health where
  "fresh_health = \<lparr>hl_healthErr = None, hl_prUnbound = [], hl_prStranded = [], hl_prStrandUndecided = [], hl_drift = [],
     hl_withheldNames = [], hl_clearing = '''', hl_backupErr = None, hl_portalFlagIgnored = False,
     hl_iqnFlagIgnored = False, hl_prCheckedAt = 0\<rparr>"

definition booted :: "ApplianceConfig \<Rightarrow> 'k coord \<Rightarrow> 'k coord" where
  "booted cfg c = c\<lparr>c_cfg := cfg, c_st := empty_db, c_applied := None, c_withheld := [], c_prClearing := '''',
     c_lastReconcileErr := None, c_health := fresh_health\<rparr>"

definition Open :: "'k env \<Rightarrow> files \<Rightarrow> ApplianceConfig \<Rightarrow> 'k coord \<Rightarrow> start_error option \<times> 'k coord" where
  "Open env fs cfg c0 = (case ApplianceConfig_Validate cfg of
     Some e \<Rightarrow> (Some (BadConfig e), c0)
   | None \<Rightarrow> (case load (booted cfg c0) of
       (Inl e, c1) \<Rightarrow> (Some e, c1)
     | (Inr existed, c1) \<Rightarrow> (case adoptStorage existed c1 of
         (Some e, c2) \<Rightarrow> (Some e, c2)
       | (None, c2) \<Rightarrow> (case adoptIdentity env fs c2 of
           (Some e, c3) \<Rightarrow> (Some e, c3)
         | (None, c3) \<Rightarrow> (case adoptPortals c3 of
             (Some e, c4) \<Rightarrow> (Some e, c4)
           | (None, c4) \<Rightarrow> (case reconcile env c4 of
               (Some e, c5) \<Rightarrow> (Some (ReplayFailed e), c5)
             | (None, c5) \<Rightarrow> (None, c5)))))))"

section \<open>Re-initialising (reinit.go)\<close>

fun remintWWNs :: "Object list \<Rightarrow> 'k coord \<Rightarrow> Object list option \<times> 'k coord" where
  "remintWWNs [] c = (Some [], c)"
| "remintWWNs (x # xs) c = (case c_rand c of
     (None, c1) \<Rightarrow> (None, c1)
   | (Some b, c1) \<Rightarrow> (case remintWWNs xs c1 of
       (None, c2) \<Rightarrow> (None, c2)
     | (Some ys, c2) \<Rightarrow> (Some (x\<lparr>ob_WWN := snd (newIdentity b)\<rparr> # ys), c2)))"

fun wipe_dirs :: "Object list \<Rightarrow> 'k coord \<Rightarrow> start_error option \<times> 'k coord" where
  "wipe_dirs [] c = (None, c)"
| "wipe_dirs (x # xs) c = (case Storage.Exists (c_store c) (ob_UUID x) (c_os c) of (there, w) \<Rightarrow>
    (let c1 = c\<lparr>c_os := w\<rparr> in
     if \<not> there then wipe_dirs xs c1
     else (case Quarantine (ob_UUID x) (c_store c1) (c_os c1) of
       (Inl e, s, w1) \<Rightarrow> (Some (StorageFailed e), c1\<lparr>c_store := s, c_os := w1\<rparr>)
     | (Inr q, s, w1) \<Rightarrow> wipe_dirs xs (c1\<lparr>c_store := s, c_os := w1\<rparr>))))"

definition wipeObjects :: "'k coord \<Rightarrow> start_error option \<times> 'k coord" where
  "wipeObjects c = (case wipe_dirs (db_Objects (c_st c)) c of
     (Some e, c1) \<Rightarrow> (Some e, c1)
   | (None, c1) \<Rightarrow> (None, c1\<lparr>c_st := (c_st c1)\<lparr>db_Objects := [], db_Connections := [], db_Exports := []\<rparr>\<rparr>))"

record ReinitOptions =
  ro_Root :: string
  ro_TargetIQN :: string
  ro_Wipe :: bool
  ro_MachineIDPath :: string

definition reinit_iqn :: "files \<Rightarrow> ReinitOptions \<Rightarrow> start_error + string \<times> string" where
  "reinit_iqn fs opts =
    (case readMachineID fs (if ro_MachineIDPath opts = '''' then DefaultMachineIDPath else ro_MachineIDPath opts) of
       Inl e \<Rightarrow> Inl e
     | Inr machineID \<Rightarrow>
        if ro_TargetIQN opts \<noteq> '''' then Inr (ro_TargetIQN opts, machineID)
        else if machineID = '''' then Inl NoIdentity
        else Inr (DeriveTargetIQN machineID, machineID))"

definition reinit_objects :: "bool \<Rightarrow> 'k coord \<Rightarrow> start_error option \<times> 'k coord" where
  "reinit_objects wipe c = (if wipe then wipeObjects c
     else (case remintWWNs (db_Objects (c_st c)) c of
       (None, c1) \<Rightarrow> (Some NoRandomness, c1)
     | (Some xs, c1) \<Rightarrow> (None, c1\<lparr>c_st := (c_st c1)\<lparr>db_Objects := xs\<rparr>\<rparr>)))"

definition Reinit :: "files \<Rightarrow> ReinitOptions \<Rightarrow> 'k coord \<Rightarrow> start_error option \<times> 'k coord" where
  "Reinit fs opts c0 =
    (if ro_Root opts = '''' then (Some NoRoot, c0)
     else if ro_TargetIQN opts \<noteq> '''' \<and> \<not> ValidTargetIQN (ro_TargetIQN opts) then (Some (BadReinitIQN (ro_TargetIQN opts)), c0)
     else (case reinit_iqn fs opts of
       Inl e \<Rightarrow> (Some e, c0)
     | Inr (iqn, machineID) \<Rightarrow> (case store_Open (ro_Root opts) (s_dirs (c_store c0)) (c_os c0) of
         (Inl e, w) \<Rightarrow> (Some (StorageFailed e), c0\<lparr>c_os := w\<rparr>)
       | (Inr s, w) \<Rightarrow>
          (let c1 = c0\<lparr>c_store := s, c_os := w, c_st := empty_db, c_dbPath := ro_Root opts @ ''/appliance.json''\<rparr> in
           case load c1 of
             (Inl e, c2) \<Rightarrow> (Some e, c2)
           | (Inr existed, c2) \<Rightarrow> (case reinit_objects (ro_Wipe opts) c2 of
               (Some e, c3) \<Rightarrow> (Some e, c3)
             | (None, c3) \<Rightarrow>
                (case persist (c3\<lparr>c_st := (c_st c3)\<lparr>db_Portals := [], db_TargetIQN := iqn, db_MachineID := machineID\<rparr>\<rparr>) of
                   (None, c4) \<Rightarrow> (None, c4)
                 | (Some e, c4) \<Rightarrow> if not_durable e then (None, c4) else (Some (RecordFailed e), c4)))))))"

section \<open>What each stage of a start touches\<close>

text \<open>The store, the kernel and the database file across a step.\<close>

definition same_data :: "Store \<Rightarrow> Store \<Rightarrow> bool" where
  "same_data s s' \<longleftrightarrow> mset (map snd (s_dirs s')) = mset (map snd (s_dirs s)) \<and> distinct (map fst (s_dirs s'))"

definition keeps_rest :: "'k coord \<Rightarrow> 'k coord \<Rightarrow> bool" where
  "keeps_rest c c' \<longleftrightarrow> c_kern c' = c_kern c \<and> c_dbPath c' = c_dbPath c \<and> c_withheld c' = c_withheld c \<and> c_prClearing c' = c_prClearing c
     \<and> c_applied c' = c_applied c \<and> c_lastReconcileErr c' = c_lastReconcileErr c"

lemma keeps_rest_refl [simp]: "keeps_rest c c"
  by (simp add: keeps_rest_def)

lemma keeps_rest_trans: "keeps_rest a b \<Longrightarrow> keeps_rest b c \<Longrightarrow> keeps_rest a c"
  by (simp add: keeps_rest_def)

lemma load_cases:
  assumes "load c = (r, c')"
  shows "keeps_rest c c' \<and> c_store c' = c_store c \<and> c_disk c' = c_disk c \<and> c_cfg c' = c_cfg c
    \<and> (case r of Inr True \<Rightarrow> c_disk c = Stored (c_st c') \<and> checkVersion (c_st c') = None \<and> validateLoaded (c_st c') = None
       | Inr False \<Rightarrow> c_disk c = NoFile \<and> c_st c' = c_st c | Inl e \<Rightarrow> True)"
proof -
  obtain f c1 where f: "c_syscall c = (f, c1)" by fastforce
  have w: "writing c c1" using c_syscall_writing [OF f] .
  then have k: "keeps_rest c c1" "c_store c1 = c_store c" "c_disk c1 = c_disk c" "c_cfg c1 = c_cfg c" "c_st c1 = c_st c"
    by (auto simp: writing_def frame_def keeps_rest_def)
  show ?thesis
  proof (cases "c_disk c")
    case (Stored d)
    then show ?thesis
      using assms k by (auto simp: load_def read_db_def f Let_def keeps_rest_def split: option.splits if_splits)
  qed (use assms k in \<open>auto simp: load_def read_db_def f split: option.splits if_splits\<close>)
qed

lemma quarantine_unknown_cases:
  assumes "quarantine_unknown known ds c = (r, c')" and "distinct (map fst (s_dirs (c_store c)))"
  shows "(\<exists>s w. c' = c\<lparr>c_store := s, c_os := w\<rparr>) \<and> same_data (c_store c) (c_store c')
    \<and> (\<forall>n \<in> set known. \<forall>v. map_of (s_dirs (c_store c)) n = Some v \<longrightarrow> map_of (s_dirs (c_store c')) n = Some v)"
  using assms
proof (induction ds arbitrary: c)
  case Nil
  then show ?case by (auto simp: same_data_def intro!: exI [of _ "c_store c"] exI [of _ "c_os c"])
next
  case (Cons d ds)
  show ?case
  proof (cases "d \<in> set known")
    case False
    obtain q s w where q: "Quarantine d (c_store c) (c_os c) = (q, s, w)" by (metis prod_cases3)
    note Q = Quarantine_cases [OF Cons.prems(2) q]
    have k: "\<forall>n \<in> set known. \<forall>v. map_of (s_dirs (c_store c)) n = Some v \<longrightarrow> map_of (s_dirs s) n = Some v"
    proof (intro ballI allI impI)
      fix n v assume "n \<in> set known" "map_of (s_dirs (c_store c)) n = Some v"
      moreover from this False have "n \<noteq> d" by auto
      ultimately show "map_of (s_dirs s) n = Some v" using Q by simp
    qed
    show ?thesis
    proof (cases q)
      case (Inl e)
      then have "c' = c\<lparr>c_store := s, c_os := w\<rparr>" using Cons.prems(1) False q by auto
      then show ?thesis using Q k by (auto simp: same_data_def)
    next
      case (Inr n)
      then have "quarantine_unknown known ds (c\<lparr>c_store := s, c_os := w\<rparr>) = (r, c')" using Cons.prems(1) False q by auto
      from Cons.IH [OF this] Q have "\<exists>s2 w2. c' = c\<lparr>c_store := s2, c_os := w2\<rparr> \<and> same_data s s2
          \<and> (\<forall>n \<in> set known. \<forall>v. map_of (s_dirs s) n = Some v \<longrightarrow> map_of (s_dirs s2) n = Some v)" by auto
      then obtain s2 w2 where c': "c' = c\<lparr>c_store := s2, c_os := w2\<rparr>" and s2: "same_data s s2"
        "\<forall>n \<in> set known. \<forall>v. map_of (s_dirs s) n = Some v \<longrightarrow> map_of (s_dirs s2) n = Some v" by blast
      have "same_data (c_store c) s2" using s2(1) Q by (simp add: same_data_def)
      then show ?thesis using s2(2) k c' by auto
    qed
  qed (use Cons in auto)
qed

text \<open>The same records but for objects now marked as missing.\<close>

definition remarked :: "db \<Rightarrow> db \<Rightarrow> bool" where
  "remarked st st' \<longleftrightarrow> st' = st\<lparr>db_Objects := db_Objects st'\<rparr>
     \<and> list_all2 (\<lambda>x y. y = x \<or> y = x\<lparr>ob_State := stateMissing\<rparr>) (db_Objects st) (db_Objects st')"

lemma remarked_map:
  assumes "list_all2 (\<lambda>x y. y = x \<or> y = x\<lparr>ob_State := stateMissing\<rparr>) xs ys"
    and "\<And>x. f (x\<lparr>ob_State := stateMissing\<rparr>) = f x"
  shows "map f ys = map f xs"
  using assms(1) by (induction xs ys rule: list_all2_induct) (auto simp: assms(2))

lemma remarked_good:
  assumes "remarked st st'" and "good_db st" shows "good_db st'"
proof -
  have l: "list_all2 (\<lambda>x y. y = x \<or> y = x\<lparr>ob_State := stateMissing\<rparr>) (db_Objects st) (db_Objects st')"
    and st': "st' = st\<lparr>db_Objects := db_Objects st'\<rparr>" using assms(1) by (simp_all add: remarked_def)
  note m = remarked_map [OF l]
  have u: "map ob_UUID (db_Objects st') = map ob_UUID (db_Objects st)"
    "map (\<lambda>x. (ob_Kind x, ob_Name x)) (db_Objects st') = map (\<lambda>x. (ob_Kind x, ob_Name x)) (db_Objects st)" by (rule m; simp)+
  have s: "map sane_object (db_Objects st') = map sane_object (db_Objects st)"
    "map (\<lambda>x. validUUID (ob_UUID x) \<and> known_kind (ob_Kind x) \<and> validName (ob_Name x) = None) (db_Objects st')
      = map (\<lambda>x. validUUID (ob_UUID x) \<and> known_kind (ob_Kind x) \<and> validName (ob_Name x) = None) (db_Objects st)"
    by (rule m; simp add: sane_object_def)+
  have all: "map P ys = map P xs \<Longrightarrow> (\<forall>y \<in> set ys. P y) = (\<forall>x \<in> set xs. P x)" for P and xs ys :: "Object list"
    by (metis (mono_tags, lifting) image_iff same_image)
  have "valid_objects (db_Objects st')" using good_objects(1) [OF assms(2)] unfolding valid_objects_def u all [OF s(2)] .
  moreover have "\<forall>x \<in> set (db_Objects st'). sane_object x" using good_objects(2) [OF assms(2)] all [OF s(1)] by simp
  moreover have "cn_ObjectUUID ` set (db_Connections st) \<subseteq> ob_UUID ` set (db_Objects st')"
    using good_objects(3) [OF assms(2)] same_image [OF u(1)] by simp
  ultimately show ?thesis using good_set_objects [OF assms(2)] by (subst st') simp
qed

lemma mark_missing_cases:
  assumes "mark_missing s xs w = (ys, w')"
  shows "list_all2 (\<lambda>x y. y = x \<or> y = x\<lparr>ob_State := stateMissing\<rparr>) xs ys
    \<and> (\<forall>y \<in> set ys. ob_State y = stateReady \<longrightarrow> (\<exists>n. disk_size s (ob_UUID y) = Some n))"
  using assms
proof (induction xs arbitrary: ys w w')
  case (Cons x xs)
  obtain there w1 where e: "Storage.Exists s (ob_UUID x) w = (there, w1)" by fastforce
  obtain zs w2 where z: "mark_missing s xs w1 = (zs, w2)" by fastforce
  have "there \<longrightarrow> (\<exists>n. disk_size s (ob_UUID x) = Some n)"
    using e stat_disk_ok by (auto simp: Storage.Exists_def split: prod.splits)
  then show ?case using Cons.prems Cons.IH [OF z] by (auto simp: e z)
qed simp

lemma latestBackup_writing: "latestBackup c = (r, c') \<Longrightarrow> writing c c'"
  by (auto simp: latestBackup_def split: prod.splits option.splits dest: c_syscall_writing)

lemma ObjectDirs_sel: "ObjectDirs s w = (r, w') \<Longrightarrow> \<forall>ds. r = Inr ds \<longrightarrow> ds = sort (filter (\<lambda>n. \<not> (hasPrefix stagingPrefix n \<or> hasPrefix quarantinePrefix n)) (map fst (s_dirs s)))"
  by (auto simp: ObjectDirs_def split: prod.splits option.splits)

lemma adoptStorage_cases:
  assumes run: "adoptStorage existed c = (r, c')" and dist: "distinct (map fst (s_dirs (c_store c)))"
  shows "keeps_rest c c' \<and> c_disk c' = c_disk c \<and> c_cfg c' = c_cfg c \<and> same_data (c_store c) (c_store c') \<and> remarked (c_st c) (c_st c')
    \<and> (\<not> existed \<and> filter (\<lambda>n. \<not> (hasPrefix stagingPrefix n \<or> hasPrefix quarantinePrefix n)) (map fst (s_dirs (c_store c))) \<noteq> []
        \<longrightarrow> r \<noteq> None \<and> c_store c' = c_store c)
    \<and> (\<forall>n \<in> ob_UUID ` set (db_Objects (c_st c)). \<forall>v. map_of (s_dirs (c_store c)) n = Some v \<longrightarrow> map_of (s_dirs (c_store c')) n = Some v)
    \<and> (r = None \<longrightarrow> (\<forall>y \<in> set (db_Objects (c_st c')). ob_State y = stateReady \<longrightarrow> (\<exists>n. disk_size (c_store c') (ob_UUID y) = Some n)))"
proof -
  obtain f w where f: "ObjectDirs (c_store c) (c_os c) = (f, w)" by fastforce
  have same: "remarked (c_st c) (c_st c)" "same_data (c_store c) (c_store c)"
    using dist by (simp_all add: remarked_def same_data_def list_all2_same)
  show ?thesis
  proof (cases f)
    case (Inl e)
    then show ?thesis using run f same by (auto simp: adoptStorage_def keeps_rest_def)
  next
    case (Inr dirs)
    have dirs: "dirs = sort (filter (\<lambda>n. \<not> (hasPrefix stagingPrefix n \<or> hasPrefix quarantinePrefix n)) (map fst (s_dirs (c_store c))))"
      using ObjectDirs_sel [OF f] Inr by simp
    let ?c1 = "c\<lparr>c_os := w\<rparr>"
    show ?thesis
    proof (cases "\<not> existed \<and> dirs \<noteq> []")
      case True
      obtain b c2 where b: "latestBackup ?c1 = (b, c2)" by fastforce
      have "r \<noteq> None" "c' = c2" using run f Inr True b by (auto simp: adoptStorage_def split: sum.splits)
      then show ?thesis using latestBackup_writing [OF b] same by (auto simp: writing_def frame_def keeps_rest_def)
    next
      case False
      obtain q c2 where q: "quarantine_unknown (map ob_UUID (db_Objects (c_st c))) dirs ?c1 = (q, c2)" by fastforce
      have Q: "\<exists>s v. c2 = c\<lparr>c_store := s, c_os := v\<rparr>" "same_data (c_store c) (c_store c2)"
        "\<forall>n \<in> ob_UUID ` set (db_Objects (c_st c)). \<forall>v. map_of (s_dirs (c_store c)) n = Some v \<longrightarrow> map_of (s_dirs (c_store c2)) n = Some v"
        using quarantine_unknown_cases [OF q] dist by auto
      have nil: "\<not> existed \<longrightarrow> filter (\<lambda>n. \<not> (hasPrefix stagingPrefix n \<or> hasPrefix quarantinePrefix n)) (map fst (s_dirs (c_store c))) = []"
        using False dirs by (metis set_empty set_sort)
      obtain xs v where m: "mark_missing (c_store c2) (db_Objects (c_st c)) (c_os c2) = (xs, v)" by fastforce
      have st2: "c_st c2 = c_st c" using Q(1) by auto
      have k2: "keeps_rest c c2" "c_disk c2 = c_disk c" "c_cfg c2 = c_cfg c" using Q(1) by (auto simp: keeps_rest_def)
      show ?thesis
      proof (cases q)
        case None
        then have c': "r = None" "c' = c2\<lparr>c_st := (c_st c)\<lparr>db_Objects := xs\<rparr>, c_os := v\<rparr>"
          using run f Inr False q m st2 by (auto simp: adoptStorage_def Let_def)
        then show ?thesis using mark_missing_cases [OF m] Q k2 nil by (auto simp: remarked_def keeps_rest_def)
      next
        case (Some e)
        then have "r = Some e" "c' = c2" using run f Inr False q by (auto simp: adoptStorage_def Let_def)
        then show ?thesis using Q k2 nil same st2 by auto
      qed
    qed
  qed
qed

lemma persist_keeps: "persist c = (r, c') \<Longrightarrow> keeps_rest c c' \<and> c_cfg c' = c_cfg c \<and> c_store c' = c_store c \<and> c_st c' = c_st c
    \<and> (r = None \<longrightarrow> c_disk c' = Stored (c_st c)) \<and> (c_disk c' = c_disk c \<or> c_disk c' = Stored (c_st c))"
  using persist_cases [of c r c'] by (auto simp: keeps_rest_def frame_def split: option.splits if_splits)

text \<open>The identity settled: the record names the target, and nothing else of it changes.\<close>

lemma adoptIdentity_cases:
  assumes run: "adoptIdentity env fs c = (r, c')"
  shows "keeps_rest c c' \<and> c_store c' = c_store c \<and> ac_Portals (c_cfg c') = ac_Portals (c_cfg c)
    \<and> (\<exists>iqn mid. c_st c' = (c_st c)\<lparr>db_TargetIQN := iqn, db_MachineID := mid\<rparr>
         \<and> (db_TargetIQN (c_st c) \<noteq> '''' \<longrightarrow> iqn = db_TargetIQN (c_st c))
         \<and> (r = None \<longrightarrow> ac_TargetIQN (c_cfg c') = iqn \<and> readMachineID fs (machineIDPath c) = Inr mid
             \<and> \<not> (db_MachineID (c_st c) \<noteq> '''' \<and> mid \<noteq> '''' \<and> db_MachineID (c_st c) \<noteq> mid)
             \<and> (c_st c' \<noteq> c_st c \<longrightarrow> c_disk c' = Stored (c_st c')))
         \<and> (c_disk c' = c_disk c \<or> c_disk c' = Stored (c_st c')))
    \<and> (\<forall>a. readMachineID fs (machineIDPath c) = Inr a \<and> a \<noteq> '''' \<and> db_MachineID (c_st c) \<noteq> '''' \<and> a \<noteq> db_MachineID (c_st c)
         \<longrightarrow> r = Some (IdentityConflict (db_MachineID (c_st c)) a) \<and> c' = c)"
proof -
  have id: "\<exists>iqn mid. c_st c = (c_st c)\<lparr>db_TargetIQN := iqn, db_MachineID := mid\<rparr>
      \<and> (db_TargetIQN (c_st c) \<noteq> [] \<longrightarrow> iqn = db_TargetIQN (c_st c))"
    by (intro exI [of _ "db_TargetIQN (c_st c)"] exI [of _ "db_MachineID (c_st c)"]) simp
  show ?thesis
  proof (cases "readMachineID fs (machineIDPath c)")
    case (Inl e)
    then show ?thesis using run id by (auto simp: adoptIdentity_def)
  next
    case (Inr a)
    show ?thesis
    proof (cases "db_MachineID (c_st c) \<noteq> '''' \<and> a \<noteq> '''' \<and> db_MachineID (c_st c) \<noteq> a \<or> choose_iqn env a c = None")
      case True
      then have "c' = c" "r \<noteq> None"
        "db_MachineID (c_st c) \<noteq> '''' \<and> a \<noteq> '''' \<and> db_MachineID (c_st c) \<noteq> a \<longrightarrow> r = Some (IdentityConflict (db_MachineID (c_st c)) a)"
        using run Inr by (auto simp: adoptIdentity_def split: if_splits)
      then show ?thesis using Inr id by auto
    next
      case False
      then obtain iqn ig where ch: "choose_iqn env a c = Some (iqn, ig)" by auto
      have rec: "db_TargetIQN (c_st c) \<noteq> '''' \<longrightarrow> iqn = db_TargetIQN (c_st c)"
        using ch by (auto simp: choose_iqn_def Let_def split: if_splits)
      define c1 where "c1 = (if ig then with_health (\<lambda>h. h\<lparr>hl_iqnFlagIgnored := True\<rparr>) c else c)"
      have c1: "keeps_rest c c1" "c_store c1 = c_store c" "c_cfg c1 = c_cfg c" "c_st c1 = c_st c" "c_disk c1 = c_disk c"
        by (simp_all add: c1_def keeps_rest_def with_health_def)
      let ?c2 = "c1\<lparr>c_st := (c_st c1)\<lparr>db_TargetIQN := iqn, db_MachineID := a\<rparr>, c_cfg := (c_cfg c1)\<lparr>ac_TargetIQN := iqn\<rparr>\<rparr>"
      have eq: "(r, c') = (if db_TargetIQN (c_st c1) = iqn \<and> db_MachineID (c_st c1) = a
          then (None, c1\<lparr>c_cfg := (c_cfg c1)\<lparr>ac_TargetIQN := iqn\<rparr>\<rparr>)
          else (case persist ?c2 of (Some e, c3) \<Rightarrow> (Some (RecordFailed e), c3) | (None, c3) \<Rightarrow> (None, c3)))"
        unfolding run [symmetric] adoptIdentity_def c1_def Let_def using Inr False ch by auto
      show ?thesis
      proof (cases "db_TargetIQN (c_st c) = iqn \<and> db_MachineID (c_st c) = a")
        case True
        then have "r = None" "c' = c1\<lparr>c_cfg := (c_cfg c1)\<lparr>ac_TargetIQN := iqn\<rparr>\<rparr>"
          using eq c1(4) by simp_all
        moreover have "c_st c = (c_st c)\<lparr>db_TargetIQN := iqn, db_MachineID := a\<rparr>" using True by simp
        ultimately show ?thesis using c1 Inr False rec by (auto simp: keeps_rest_def)
      next
        case ne: False
        obtain q c3 where q: "persist ?c2 = (q, c3)" by fastforce
        have "c' = c3" "r = None \<longleftrightarrow> q = None"
          using eq ne q c1(4) by (auto split: option.splits)
        then show ?thesis using persist_keeps [OF q] c1 Inr False rec by (auto simp: keeps_rest_def)
      qed
    qed
  qed
qed

lemma adoptPortals_cases:
  assumes run: "adoptPortals c = (r, c')"
  shows "keeps_rest c c' \<and> c_store c' = c_store c \<and> c_cfg c' = c_cfg c
    \<and> c_st c' = (if db_Portals (c_st c) = [] then (c_st c)\<lparr>db_Portals := ac_Portals (c_cfg c)\<rparr> else c_st c)
    \<and> (c_disk c' = c_disk c \<or> c_disk c' = Stored (c_st c'))
    \<and> (r = None \<and> c_st c' \<noteq> c_st c \<longrightarrow> c_disk c' = Stored (c_st c'))"
proof (cases "db_Portals (c_st c) = []")
  case True
  obtain q c1 where q: "persist (c\<lparr>c_st := (c_st c)\<lparr>db_Portals := ac_Portals (c_cfg c)\<rparr>\<rparr>) = (q, c1)" by fastforce
  have "c' = c1" "r = None \<longleftrightarrow> q = None" using run True q by (auto simp: adoptPortals_def split: option.splits)
  then show ?thesis using True persist_keeps [OF q] by (auto simp: keeps_rest_def)
qed (use run in \<open>auto simp: adoptPortals_def keeps_rest_def with_health_def split: if_splits\<close>)

section \<open>A start as a whole\<close>

lemma Open_cases:
  assumes run: "Open env fs cfg c0 = (r, c')"
  obtains (config) e where "r = Some (BadConfig e)" "c' = c0"
    | (load) e where "r = Some e" "load (booted cfg c0) = (Inl e, c')"
    | (storage) existed c1 e where "r = Some e" "load (booted cfg c0) = (Inr existed, c1)" "adoptStorage existed c1 = (Some e, c')"
    | (identity) existed c1 c2 e where "r = Some e" "load (booted cfg c0) = (Inr existed, c1)" "adoptStorage existed c1 = (None, c2)"
        "adoptIdentity env fs c2 = (Some e, c')"
    | (portals) existed c1 c2 c3 e where "r = Some e" "load (booted cfg c0) = (Inr existed, c1)" "adoptStorage existed c1 = (None, c2)"
        "adoptIdentity env fs c2 = (None, c3)" "adoptPortals c3 = (Some e, c')"
    | (replay) existed c1 c2 c3 c4 q where "load (booted cfg c0) = (Inr existed, c1)" "adoptStorage existed c1 = (None, c2)"
        "adoptIdentity env fs c2 = (None, c3)" "adoptPortals c3 = (None, c4)" "reconcile env c4 = (q, c')"
        "r = map_option ReplayFailed q"
proof -
  obtain l c1 where l: "load (booted cfg c0) = (l, c1)" by fastforce
  show thesis
  proof (cases "ApplianceConfig_Validate cfg")
    case (Some e)
    then show thesis using run config by (auto simp: Open_def)
  next
    case ok: None
    show thesis
    proof (cases l)
      case (Inl e)
      then show thesis using run ok l load by (auto simp: Open_def)
    next
      case (Inr existed)
      obtain s c2 where s: "adoptStorage existed c1 = (s, c2)" by fastforce
      obtain i c3 where i: "adoptIdentity env fs c2 = (i, c3)" by fastforce
      obtain p c4 where p: "adoptPortals c3 = (p, c4)" by fastforce
      obtain q c5 where q: "reconcile env c4 = (q, c5)" by fastforce
      have "(r, c') = (case s of Some e \<Rightarrow> (Some e, c2) | None \<Rightarrow> (case i of Some e \<Rightarrow> (Some e, c3) | None \<Rightarrow>
          (case p of Some e \<Rightarrow> (Some e, c4) | None \<Rightarrow> (map_option ReplayFailed q, c5))))"
        unfolding run [symmetric] Open_def by (simp add: ok l Inr s i p q split: option.split)
      then show thesis
        using l Inr s i p q storage identity portals replay by (cases s; cases i; cases p) simp_all
    qed
  qed
qed

lemma booted_sel [simp]:
  "c_store (booted cfg c) = c_store c" "c_disk (booted cfg c) = c_disk c" "c_kern (booted cfg c) = c_kern c"
  "c_cfg (booted cfg c) = cfg" "c_st (booted cfg c) = empty_db" "c_withheld (booted cfg c) = []" "c_prClearing (booted cfg c) = ''''"
  by (simp_all add: booted_def)

lemma reconcile_keeps:
  assumes "reconcile env c = (r, c')" and "range_ok env"
  shows "c_store c' = c_store c" "c_disk c' = c_disk c" "c_cfg c' = c_cfg c" "c_withheld c' = c_withheld c"
    "db_TargetIQN (c_st c') = db_TargetIQN (c_st c)" "db_MachineID (c_st c') = db_MachineID (c_st c)"
  using reconcile_settled [OF assms] by (auto simp: settled_def frame_def grown_def)

text \<open>The directories that the store counts as objects.\<close>

definition object_dirs :: "Store \<Rightarrow> string list" where
  "object_dirs s = filter (\<lambda>n. \<not> (hasPrefix stagingPrefix n \<or> hasPrefix quarantinePrefix n)) (map fst (s_dirs s))"

text \<open>C8. A start never loses data: whatever fails, the store afterwards holds the same backing files, some under
  a name that sets them aside. When the database file is missing while object directories are present
  it refuses, and leaves the store, the missing file and the kernel as they were.\<close>

theorem start_keeps_data:
  assumes run: "Open env fs cfg c0 = (r, c')" and env: "range_ok env" and dist: "distinct (map fst (s_dirs (c_store c0)))"
  shows "mset (map snd (s_dirs (c_store c'))) = mset (map snd (s_dirs (c_store c0)))
    \<and> (c_disk c0 = NoFile \<and> object_dirs (c_store c0) \<noteq> []
       \<longrightarrow> r \<noteq> None \<and> c_store c' = c_store c0 \<and> c_disk c' = NoFile \<and> c_kern c' = c_kern c0)"
proof -
  have ad: "same_data (c_store c0) (c_store c2) \<and> (c_disk c0 = NoFile \<and> object_dirs (c_store c0) \<noteq> []
      \<longrightarrow> s \<noteq> None \<and> c_store c2 = c_store c0 \<and> c_disk c2 = NoFile \<and> c_kern c2 = c_kern c0)"
    if l: "load (booted cfg c0) = (Inr existed, c1)" and s: "adoptStorage existed c1 = (s, c2)" for existed c1 s c2
  proof -
    have c1: "c_store c1 = c_store c0" "c_disk c1 = c_disk c0" "c_kern c1 = c_kern c0" "c_disk c0 = NoFile \<longrightarrow> \<not> existed"
      using load_cases [OF l] by (auto simp: keeps_rest_def split: bool.splits)
    then show ?thesis using adoptStorage_cases [OF s] dist by (auto simp: object_dirs_def keeps_rest_def)
  qed
  from run show ?thesis
  proof (cases rule: Open_cases)
    case (load e)
    then show ?thesis using load_cases [OF load(2)] by (simp add: keeps_rest_def)
  next
    case (storage existed c1 e)
    then show ?thesis using ad [OF storage(2,3)] by (simp add: same_data_def)
  next
    case (identity existed c1 c2 e)
    have "c_store c' = c_store c2" using adoptIdentity_cases [OF identity(4)] by blast
    then show ?thesis using ad [OF identity(2,3)] identity(1) by (auto simp: same_data_def)
  next
    case (portals existed c1 c2 c3 e)
    have "c_store c' = c_store c2" using adoptIdentity_cases [OF portals(4)] adoptPortals_cases [OF portals(5)] by metis
    then show ?thesis using ad [OF portals(2,3)] portals(1) by (auto simp: same_data_def)
  next
    case (replay existed c1 c2 c3 c4 q)
    have "c_store c' = c_store c2"
      using adoptIdentity_cases [OF replay(3)] adoptPortals_cases [OF replay(4)] reconcile_keeps(1) [OF replay(5) env] by metis
    then show ?thesis using ad [OF replay(1,2)] by (auto simp: same_data_def)
  qed simp
qed

lemma start_keeps_data_witness:
  "\<exists>r c'. Open idle_env (\<lambda>_. Inl ENOENT) (c_cfg demo) (demo\<lparr>c_disk := NoFile\<rparr>) = (r, c') \<and> r \<noteq> None \<and> c_store c' = c_store demo"
proof -
  obtain r c' where run: "Open idle_env (\<lambda>_. Inl ENOENT) (c_cfg demo) (demo\<lparr>c_disk := NoFile\<rparr>) = (r, c')" by fastforce
  have "distinct (map fst (s_dirs (c_store demo)))" "object_dirs (c_store demo) \<noteq> []"
    by (simp_all add: demo_def object_dirs_def demo_volume_def stagingPrefix_def quarantinePrefix_def hasPrefix_def)
  then show ?thesis using start_keeps_data [OF run] run by simp
qed

text \<open>The stages up to the storage keep the recorded identity.\<close>

lemma load_adopt_identity:
  assumes l: "load (booted cfg c0) = (Inr existed, c1)" and s: "adoptStorage existed c1 = (q, c2)"
    and d: "c_disk c0 = Stored d" and dist: "distinct (map fst (s_dirs (c_store c0)))"
  shows "db_TargetIQN (c_st c2) = db_TargetIQN d" "db_MachineID (c_st c2) = db_MachineID d" "c_disk c2 = Stored d"
    "c_cfg c2 = cfg" "c_kern c2 = c_kern c0"
proof -
  have c1: "c_st c1 = d" "c_store c1 = c_store c0" "c_disk c1 = Stored d" "c_cfg c1 = cfg" "c_kern c1 = c_kern c0"
    using load_cases [OF l] d by (auto simp: keeps_rest_def split: bool.splits)
  note a = adoptStorage_cases [OF s]
  then show "c_disk c2 = Stored d" "c_cfg c2 = cfg" "c_kern c2 = c_kern c0" using c1 dist by (simp_all add: keeps_rest_def)
  have "c_st c2 = d\<lparr>db_Objects := db_Objects (c_st c2)\<rparr>" using a c1 dist by (simp add: remarked_def)
  then show "db_TargetIQN (c_st c2) = db_TargetIQN d" "db_MachineID (c_st c2) = db_MachineID d"
    by (metis db.select_convs(7) db.surjective db.update_convs(2), metis db.select_convs(8) db.surjective db.update_convs(2))
qed

lemma machineIDPath_cfg: "machineIDPath c = machineIDPath (booted (c_cfg c) c0)"
  by (simp add: machineIDPath_def)

text \<open>C25. The recorded name of the target outlives every restart: whatever the flags say and whatever fails, the
  database file still records it, and an appliance that started serves under it. A database made on
  another machine is refused, with the file and the kernel untouched.\<close>

theorem identity_stable:
  assumes run: "Open env fs cfg c0 = (r, c')" and env: "range_ok env" and dist: "distinct (map fst (s_dirs (c_store c0)))"
    and d: "c_disk c0 = Stored d" and named: "db_TargetIQN d \<noteq> ''''"
  shows "(r = None \<longrightarrow> ac_TargetIQN (c_cfg c') = db_TargetIQN d) \<and> (\<exists>d'. c_disk c' = Stored d' \<and> db_TargetIQN d' = db_TargetIQN d)
    \<and> (\<forall>a. readMachineID fs (machineIDPath (booted cfg c0)) = Inr a \<and> a \<noteq> '''' \<and> db_MachineID d \<noteq> '''' \<and> a \<noteq> db_MachineID d
         \<longrightarrow> r \<noteq> None \<and> c_disk c' = c_disk c0 \<and> c_kern c' = c_kern c0)"
proof -
  have id: "(\<exists>d'. c_disk c3 = Stored d' \<and> db_TargetIQN d' = db_TargetIQN d) \<and> db_TargetIQN (c_st c3) = db_TargetIQN d
      \<and> (i = None \<longrightarrow> ac_TargetIQN (c_cfg c3) = db_TargetIQN d)
      \<and> (\<forall>a. readMachineID fs (machineIDPath (booted cfg c0)) = Inr a \<and> a \<noteq> '''' \<and> db_MachineID d \<noteq> '''' \<and> a \<noteq> db_MachineID d
         \<longrightarrow> i \<noteq> None \<and> c_disk c3 = c_disk c0 \<and> c_kern c3 = c_kern c0)"
    if l: "load (booted cfg c0) = (Inr existed, c1)" and s: "adoptStorage existed c1 = (None, c2)" and i: "adoptIdentity env fs c2 = (i, c3)"
    for existed c1 c2 i c3
  proof -
    note c2 = load_adopt_identity [OF l s d dist]
    have path: "machineIDPath c2 = machineIDPath (booted cfg c0)" using c2(4) machineIDPath_cfg by metis
    obtain iqn mid where st3: "c_st c3 = (c_st c2)\<lparr>db_TargetIQN := iqn, db_MachineID := mid\<rparr>"
      and rec: "db_TargetIQN (c_st c2) \<noteq> [] \<longrightarrow> iqn = db_TargetIQN (c_st c2)" and ok: "i = None \<longrightarrow> ac_TargetIQN (c_cfg c3) = iqn"
      and disk: "c_disk c3 = c_disk c2 \<or> c_disk c3 = Stored (c_st c3)"
      using adoptIdentity_cases [OF i] by blast
    have iqn: "iqn = db_TargetIQN d" "i = None \<longrightarrow> ac_TargetIQN (c_cfg c3) = iqn" using rec ok c2(1) named by simp_all
    have "\<forall>a. readMachineID fs (machineIDPath (booted cfg c0)) = Inr a \<and> a \<noteq> '''' \<and> db_MachineID d \<noteq> '''' \<and> a \<noteq> db_MachineID d
         \<longrightarrow> i \<noteq> None \<and> c3 = c2"
    proof (intro allI impI)
      fix a assume "readMachineID fs (machineIDPath (booted cfg c0)) = Inr a \<and> a \<noteq> [] \<and> db_MachineID d \<noteq> [] \<and> a \<noteq> db_MachineID d"
      then have "i = Some (IdentityConflict (db_MachineID (c_st c2)) a) \<and> c3 = c2"
        using adoptIdentity_cases [OF i] unfolding path c2(2) by blast
      then show "i \<noteq> None \<and> c3 = c2" by simp
    qed
    then have "\<forall>a. readMachineID fs (machineIDPath (booted cfg c0)) = Inr a \<and> a \<noteq> '''' \<and> db_MachineID d \<noteq> '''' \<and> a \<noteq> db_MachineID d
         \<longrightarrow> i \<noteq> None \<and> c_disk c3 = c_disk c0 \<and> c_kern c3 = c_kern c0"
      using c2(3,5) d by metis
    moreover have "\<exists>d'. c_disk c3 = Stored d' \<and> db_TargetIQN d' = db_TargetIQN d" using disk st3 iqn(1) c2(3) by auto
    moreover have "db_TargetIQN (c_st c3) = db_TargetIQN d" using st3 iqn(1) by simp
    ultimately show ?thesis using iqn by simp
  qed
  from run show ?thesis
  proof (cases rule: Open_cases)
    case (load e)
    then show ?thesis using load_cases [OF load(2)] d by (auto simp: keeps_rest_def)
  next
    case (storage existed c1 e)
    then show ?thesis using load_adopt_identity [OF storage(2,3) d dist] d by auto
  next
    case (identity existed c1 c2 e)
    then show ?thesis using id [OF identity(2-4)] by auto
  next
    case (portals existed c1 c2 c3 e)
    have "db_TargetIQN (c_st c') = db_TargetIQN (c_st c3)" "c_disk c' = c_disk c3 \<or> c_disk c' = Stored (c_st c')"
      using adoptPortals_cases [OF portals(5)] by (auto split: if_splits)
    then show ?thesis using id [OF portals(2-4)] portals(1) by auto
  next
    case (replay existed c1 c2 c3 c4 q)
    have "db_TargetIQN (c_st c4) = db_TargetIQN (c_st c3)" "c_disk c4 = c_disk c3 \<or> c_disk c4 = Stored (c_st c4)" "c_cfg c4 = c_cfg c3"
      using adoptPortals_cases [OF replay(4)] by (auto split: if_splits)
    then show ?thesis using id [OF replay(1-3)] reconcile_keeps [OF replay(5) env] by auto
  qed (use d in auto)
qed

lemma readMachineID_demo:
  "readMachineID (\<lambda>_. Inr ''fedcba9876543210fedcba9876543210'') p = Inr ''fedcba9876543210fedcba9876543210''"
  by (simp add: readMachineID_def validMachineID_def go_eval)

lemma identity_stable_witness:
  "\<exists>r c'. Open idle_env (\<lambda>_. Inr ''fedcba9876543210fedcba9876543210'') (c_cfg demo) demo = (r, c') \<and> r \<noteq> None \<and> c_disk c' = Stored demo_db"
proof -
  obtain r c' where run: "Open idle_env (\<lambda>_. Inr ''fedcba9876543210fedcba9876543210'') (c_cfg demo) demo = (r, c')" by fastforce
  have "distinct (map fst (s_dirs (c_store demo)))" "c_disk demo = Stored demo_db" by (simp_all add: demo_def)
  then show ?thesis
    using identity_stable [OF run range_ok_idle, of demo_db] run
    by (simp add: readMachineID_demo) (simp add: demo_db_def)
qed

lemma adoptStorage_error:
  assumes "adoptStorage existed c = (Some e, c')"
  shows "e \<noteq> IdentityConflict a b"
proof -
  have q: "quarantine_unknown known ds x = (Some e', x') \<Longrightarrow> e' \<noteq> IdentityConflict a b" for known ds x e' x'
    by (induction ds arbitrary: x) (auto split: if_splits prod.splits sum.splits)
  show ?thesis
    using assms by (auto simp: adoptStorage_def Let_def dest: q split: prod.splits sum.splits if_splits option.splits)
qed

text \<open>An absent or empty machine-id file erases the recorded machine: a start that then succeeds leaves a
  database without it, and no later start of that database, on whatever machine, reports that it was
  made elsewhere.\<close>

lemma machine_id_erased:
  fixes env :: "'k env"
  assumes run: "Open env fs cfg c0 = (None, c1)" and env: "range_ok env" and dist: "distinct (map fst (s_dirs (c_store c0)))"
    and d: "c_disk c0 = Stored d" and absent: "readMachineID fs (machineIDPath (booted cfg c0)) = Inr ''''" and was: "db_MachineID d \<noteq> ''''"
  shows "\<exists>d'. c_disk c1 = Stored d' \<and> db_MachineID d' = ''''
    \<and> (\<forall>(env2 :: 'k env) fs2 cfg2 c2. c_disk c2 = Stored d' \<and> distinct (map fst (s_dirs (c_store c2)))
         \<longrightarrow> (\<nexists>a b. fst (Open env2 fs2 cfg2 c2) = Some (IdentityConflict a b)))"
proof -
  obtain existed b2 b3 b4 c2 where st: "load (booted cfg c0) = (Inr existed, b2)" "adoptStorage existed b2 = (None, b3)"
    "adoptIdentity env fs b3 = (None, b4)" "adoptPortals b4 = (None, c2)" "reconcile env c2 = (None, c1)"
    using run by (cases rule: Open_cases) auto
  note b3 = load_adopt_identity [OF st(1,2) d dist]
  have path: "machineIDPath b3 = machineIDPath (booted cfg c0)" using b3(4) machineIDPath_cfg by metis
  obtain iqn mid where b4: "c_st b4 = (c_st b3)\<lparr>db_TargetIQN := iqn, db_MachineID := mid\<rparr>" "mid = ''''"
    "c_st b4 \<noteq> c_st b3 \<longrightarrow> c_disk b4 = Stored (c_st b4)"
    using adoptIdentity_cases [OF st(3)] path absent by auto
  have "db_MachineID (c_st b4) = ''''" using b4 by simp
  moreover from this have "c_st b4 \<noteq> c_st b3" using b3(2) was by metis
  ultimately have m4: "c_disk b4 = Stored (c_st b4)" "db_MachineID (c_st b4) = ''''" using b4(3) by simp_all
  have "db_MachineID (c_st c2) = ''''" "c_disk c2 = c_disk b4 \<or> c_disk c2 = Stored (c_st c2)"
    using adoptPortals_cases [OF st(4)] m4(2) by (auto split: if_splits)
  then obtain d' where d': "c_disk c1 = Stored d'" "db_MachineID d' = ''''" using m4 reconcile_keeps(2) [OF st(5) env] by auto
  have "fst (Open env2 fs2 cfg2 c2) \<noteq> Some (IdentityConflict a b)"
    if c2: "c_disk c2 = Stored d'" "distinct (map fst (s_dirs (c_store c2)))" for env2 :: "'k env" and fs2 cfg2 c2 a b
  proof -
    obtain r' c' where run2: "Open env2 fs2 cfg2 c2 = (r', c')" by fastforce
    from run2 have "r' \<noteq> Some (IdentityConflict a b)"
    proof (cases rule: Open_cases)
      case (load e)
      then show ?thesis by (auto simp: load_def Let_def split: prod.splits sum.splits if_splits dbfile.splits option.splits)
    next
      case (storage existed c1 e)
      then show ?thesis using adoptStorage_error [OF storage(3)] by auto
    next
      case (identity existed c1 c3 e)
      have "db_MachineID (c_st c3) = ''''" using load_adopt_identity(2) [OF identity(2,3) c2] d'(2) by simp
      then show ?thesis using identity(1,4) by (auto simp: adoptIdentity_def readMachineID_def Let_def split: sum.splits if_splits option.splits prod.splits)
    next
      case (portals existed c1 c2 c3 e)
      then show ?thesis by (auto simp: adoptPortals_def split: if_splits prod.splits option.splits)
    qed auto
    then show ?thesis using run2 by simp
  qed
  then show ?thesis using d' by blast
qed

lemma grown_room: "grown st st' \<Longrightarrow> export_room st' = export_room st"
  unfolding grown_def export_room_def by (elim exE conjE) (simp add: image_Un, blast)

text \<open>The demonstration appliance starts when its machine-id file is gone.\<close>

lemma demo_starts: "\<exists>c1. Open idle_env (\<lambda>_. Inl ENOENT) (c_cfg demo) demo = (None, c1)
  \<and> db_Hosts (c_st c1) = db_Hosts demo_db \<and> db_Connections (c_st c1) = db_Connections demo_db \<and> exported c1 = exported demo
  \<and> export_room (c_st c1) = export_room demo_db"
proof -
  let ?b = "booted (c_cfg demo) demo"
  let ?c1 = "?b\<lparr>c_st := demo_db\<rparr>"
  let ?st = "demo_db\<lparr>db_MachineID := ''''\<rparr>"
  have os: "c_os ?b = quiet_os" "quiet ?b" "quiet ?c1" by (simp_all add: booted_def demo_def quiet_def quiet_os_def)
  have cfg: "ApplianceConfig_Validate (c_cfg demo) = None"
    by (simp add: ApplianceConfig_Validate_def demo_def checkPortalOverlap_def overlap_in_def List.map_filter_simps)
  have "checkVersion demo_db = None" "validateLoaded demo_db = None" using demo_loadable by (simp_all add: loadable_def)
  then have load: "load ?b = (Inr True, ?c1)"
    by (simp add: load_def read_db_def quiet_calls [OF os(2)]) (simp add: demo_def)
  have dirs: "ObjectDirs (c_store ?c1) (c_os ?c1) = (Inr [ob_UUID demo_volume], c_os ?c1)"
    by (simp add: ObjectDirs_def booted_def demo_def syscall_def quiet_os_def demo_volume_def stagingPrefix_def quarantinePrefix_def hasPrefix_def)
  have "mark_missing (c_store ?c1) (db_Objects demo_db) (c_os ?c1) = (db_Objects demo_db, c_os ?c1)"
    by (simp add: demo_db_def Storage.Exists_def stat_disk_def disk_size_def booted_def demo_def syscall_def quiet_os_def)
  then have sto: "adoptStorage True ?c1 = (None, ?c1)"
    using dirs by (simp add: adoptStorage_def Let_def) (simp add: demo_db_def)
  let ?c2 = "?c1\<lparr>c_st := ?st, c_cfg := (c_cfg demo)\<lparr>ac_TargetIQN := db_TargetIQN demo_db\<rparr>\<rparr>"
  have "quiet ?c2" "c_dbPath ?c2 \<noteq> ''''" by (simp_all add: booted_def demo_def quiet_def quiet_os_def)
  then have "fst (persist ?c2) = None" using persist_quiet [of ?c2] by simp
  then obtain c3 where p: "persist ?c2 = (None, c3)" by (metis prod.collapse)
  have ch: "choose_iqn idle_env '''' ?c1 = Some (db_TargetIQN demo_db, False)"
    by (simp add: choose_iqn_def Let_def demo_db_def demo_def)
  have "db_MachineID demo_db \<noteq> ''''" "readMachineID (\<lambda>_. Inl ENOENT) q = Inr ''''" for q
    by (simp_all add: demo_db_def readMachineID_def)
  then have idn: "adoptIdentity idle_env (\<lambda>_. Inl ENOENT) ?c1 = (None, c3)"
    using ch p by (simp add: adoptIdentity_def Let_def)
  have c3: "c_st c3 = ?st" "c_cfg c3 = c_cfg ?c2" "c_withheld c3 = []" "c_prClearing c3 = ''''"
    using persist_cases [OF p] by (simp_all add: frame_def)
  have po: "adoptPortals c3 = (None, c3)"
    by (simp add: adoptPortals_def c3) (simp add: demo_db_def samePortalSet_def demo_def)
  have "good_db ?st" using demo_loadable demo_room demo_sane
    by (simp add: good_db_def loadable_iff valid_db_def has_room_def export_room_def sane_db_def)
  then have "\<exists>cfg c'. desiredLIO idle_env c3 = (Some cfg, c') \<and> valid_config cfg"
    using c3 by (intro desired_config_valid) (simp_all add: good_db_def portals_def, simp_all add: demo_db_def demo_def valid_portals_def)
  then have "fst (reconcile idle_env c3) = None" using reconcile_succeeds [OF engine_ok_idle, of c3] by auto
  then obtain c5 where rec: "reconcile idle_env c3 = (None, c5)" by (metis prod.collapse)
  then have s: "settled c3 c5" using reconcile_settled [OF rec range_ok_idle] by simp
  have "exported c3 = exported demo" unfolding exported_def c3(1,3,4) by (simp add: object_def) (simp add: demo_def)
  then have "db_Hosts (c_st c5) = db_Hosts demo_db" "db_Connections (c_st c5) = db_Connections demo_db" "exported c5 = exported demo"
    using set_hosts_settled [OF s] exported_settled [OF s] by (simp_all add: c3(1))
  moreover have "export_room (c_st c5) = export_room demo_db" using grown_room [of "c_st c3" "c_st c5"] s by (simp add: settled_def c3(1)) (simp add: export_room_def)
  moreover have "Open idle_env (\<lambda>_. Inl ENOENT) (c_cfg demo) demo = (None, c5)" using cfg load sto idn po rec by (simp add: Open_def)
  ultimately show ?thesis by blast
qed

lemma machine_id_erased_witness:
  "\<exists>c1 d'. Open idle_env (\<lambda>_. Inl ENOENT) (c_cfg demo) demo = (None, c1) \<and> c_disk c1 = Stored d' \<and> db_MachineID d' = ''''"
proof -
  obtain c1 where run: "Open idle_env (\<lambda>_. Inl ENOENT) (c_cfg demo) demo = (None, c1)" using demo_starts by blast
  have "distinct (map fst (s_dirs (c_store demo)))" "c_disk demo = Stored demo_db" "db_MachineID demo_db \<noteq> ''''"
    by (simp_all add: demo_def) (simp add: demo_db_def)
  then show ?thesis using machine_id_erased [OF run range_ok_idle] run by (auto simp: readMachineID_def)
qed

section \<open>Re-initialising without a database\<close>

lemma object_dirs_put_drop:
  assumes "hasPrefix quarantinePrefix q"
  shows "set (object_dirs (s\<lparr>s_dirs := put_dir q v (drop_dir d (s_dirs s)), s_quarantined := x\<rparr>)) = set (object_dirs s) - {d} - {q}"
  using assms by (auto simp: object_dirs_def put_dir_def drop_dir_def)

lemma Quarantine_success:
  assumes "Quarantine d s w = (Inr q, s', w')"
  shows "hasPrefix quarantinePrefix q \<and> (\<exists>v x. s' = s\<lparr>s_dirs := put_dir q v (drop_dir d (s_dirs s)), s_quarantined := x\<rparr>)"
proof -
  have "q = quarantinePrefix @ os_stamp w @ ''-'' @ d"
    "\<exists>v. s' = s\<lparr>s_dirs := put_dir q v (drop_dir d (s_dirs s)), s_quarantined := sort (s_quarantined s @ [q])\<rparr>"
    using assms by (auto simp: Quarantine_def Let_def split: prod.splits option.splits if_splits)
  then show ?thesis by auto
qed

lemma quarantine_unknown_all:
  assumes "quarantine_unknown [] ds c = (None, c')"
  shows "set (object_dirs (c_store c')) \<subseteq> set (object_dirs (c_store c)) - set ds"
  using assms
proof (induction ds arbitrary: c)
  case (Cons d ds)
  obtain q s w where q: "Quarantine d (c_store c) (c_os c) = (Inr q, s, w)"
    and r: "quarantine_unknown [] ds (c\<lparr>c_store := s, c_os := w\<rparr>) = (None, c')"
    using Cons.prems by (auto split: prod.splits sum.splits)
  have "set (object_dirs s) \<subseteq> set (object_dirs (c_store c)) - {d}"
    using Quarantine_success [OF q] object_dirs_put_drop by auto
  then show ?case using Cons.IH [OF r] by auto
qed simp

lemma adoptStorage_empty:
  assumes "adoptStorage existed c = (None, c')" and "db_Objects (c_st c) = []"
  shows "object_dirs (c_store c') = []"
proof -
  obtain dirs w where d: "ObjectDirs (c_store c) (c_os c) = (Inr dirs, w)"
    using assms(1) by (cases "ObjectDirs (c_store c) (c_os c)"; cases "fst (ObjectDirs (c_store c) (c_os c))") (auto simp: adoptStorage_def)
  have dirs: "set dirs = set (object_dirs (c_store c))" using ObjectDirs_sel [OF d] by (simp add: object_dirs_def)
  obtain q c2 where q: "quarantine_unknown [] dirs (c\<lparr>c_os := w\<rparr>) = (q, c2)" by fastforce
  have "\<not> (\<not> existed \<and> dirs \<noteq> [])" using assms(1) d by (auto simp: adoptStorage_def Let_def split: prod.splits sum.splits if_splits)
  then have "q = None" "c_store c' = c_store c2"
    using assms d q by (auto simp: adoptStorage_def Let_def split: option.splits prod.splits)
  then show ?thesis using quarantine_unknown_all [of dirs "c\<lparr>c_os := w\<rparr>" c2] q dirs by auto
qed

text \<open>Re-initialising hides a lost database. With the database file missing, a re-initialisation that keeps
  the volumes succeeds and writes a database without any; the next start, which would have refused to
  run without the file, accepts it and sets every object directory aside.\<close>

lemma reinit_forgets_volumes:
  fixes c0 :: "'k coord"
  assumes run: "Reinit fs opts c0 = (None, c1)" and keep: "\<not> ro_Wipe opts" and lost: "c_disk c0 = NoFile"
  shows "\<exists>d. c_disk c1 = Stored d \<and> db_Objects d = []
    \<and> (\<forall>(env :: 'k env) fs2 cfg c2. range_ok env \<and> Open env fs2 cfg c1 = (None, c2) \<longrightarrow> object_dirs (c_store c2) = [])"
proof -
  obtain iqn machineID s w c2 c3 existed e where iqn: "reinit_iqn fs opts = Inr (iqn, machineID)"
    and o: "store_Open (ro_Root opts) (s_dirs (c_store c0)) (c_os c0) = (Inr s, w)"
    and l: "load (c0\<lparr>c_store := s, c_os := w, c_st := empty_db, c_dbPath := ro_Root opts @ ''/appliance.json''\<rparr>) = (Inr existed, c2)"
    and m: "reinit_objects False c2 = (None, c3)"
    and p: "persist (c3\<lparr>c_st := (c_st c3)\<lparr>db_Portals := [], db_TargetIQN := iqn, db_MachineID := machineID\<rparr>\<rparr>) = (e, c1)"
    and e: "e = None \<or> (\<exists>x. e = Some x \<and> not_durable x)"
    using run keep by (auto simp: Reinit_def Let_def split: if_splits sum.splits prod.splits option.splits)
  have "c_st c2 = empty_db" using load_cases [OF l] lost by (auto split: bool.splits)
  then have "db_Objects (c_st c3) = []" using m by (auto simp: reinit_objects_def empty_db_def split: option.splits prod.splits)
  then obtain d where d: "c_disk c1 = Stored d" "db_Objects d = []"
    using persist_cases [OF p] e by (auto split: option.splits)
  have "object_dirs (c_store c2) = []" if env: "range_ok env" and op: "Open env fs2 cfg c1 = (None, c2)" for env :: "'k env" and fs2 cfg c2
  proof -
    obtain existed b1 b2 b3 b4 where st: "load (booted cfg c1) = (Inr existed, b1)" "adoptStorage existed b1 = (None, b2)"
      "adoptIdentity env fs2 b2 = (None, b3)" "adoptPortals b3 = (None, b4)" "reconcile env b4 = (None, c2)"
      using op by (cases rule: Open_cases) auto
    have "c_st b1 = d" using load_cases [OF st(1)] d(1) by (auto split: bool.splits)
    then have "object_dirs (c_store b2) = []" using adoptStorage_empty [OF st(2)] d(2) by simp
    moreover have "c_store c2 = c_store b2"
      using adoptIdentity_cases [OF st(3)] adoptPortals_cases [OF st(4)] reconcile_keeps(1) [OF st(5) env] by metis
    ultimately show ?thesis by simp
  qed
  then show ?thesis using d by blast
qed

definition demo_reinit :: ReinitOptions where
  "demo_reinit = \<lparr>ro_Root = ''/srv'', ro_TargetIQN = ''iqn.2003-01.org.example:t'', ro_Wipe = False, ro_MachineIDPath = ''''\<rparr>"

lemma demo_reinits: "\<exists>c1. Reinit (\<lambda>_. Inl ENOENT) demo_reinit (demo\<lparr>c_disk := NoFile\<rparr>) = (None, c1)"
proof -
  let ?c0 = "demo\<lparr>c_disk := NoFile\<rparr>"
  have q: "os_faults (c_os demo) = []" by (simp add: demo_def quiet_os_def)
  have so: "store_Open ''/srv'' (s_dirs (c_store demo)) (c_os demo) = (Inr (c_store demo), c_os demo)"
    using q by (simp add: store_Open_def quiet_syscalls) (simp add: demo_def demo_volume_def stagingPrefix_def quarantinePrefix_def hasPrefix_def)
  let ?c1 = "?c0\<lparr>c_store := c_store demo, c_os := c_os demo, c_st := empty_db, c_dbPath := ''/srv/appliance.json''\<rparr>"
  have "quiet ?c1" using q by (simp add: quiet_def)
  then have l: "load ?c1 = (Inr False, ?c1)" by (simp add: load_def read_db_def quiet_calls)
  have ro: "reinit_objects False ?c1 = (None, ?c1)" by (simp add: reinit_objects_def empty_db_def)
  let ?c2 = "?c1\<lparr>c_st := empty_db\<lparr>db_Portals := [], db_TargetIQN := ''iqn.2003-01.org.example:t'', db_MachineID := ''''\<rparr>\<rparr>"
  have "fst (persist ?c2) = None" using persist_quiet [of ?c2] q by (simp add: quiet_def)
  then obtain c3 where p: "persist ?c2 = (None, c3)" by (metis prod.collapse)
  have "reinit_iqn (\<lambda>_. Inl ENOENT) demo_reinit = Inr (''iqn.2003-01.org.example:t'', '''')"
    by (simp add: reinit_iqn_def readMachineID_def demo_reinit_def)
  then show ?thesis using so l ro p by (simp add: Reinit_def Let_def demo_reinit_def)
qed

lemma reinit_forgets_volumes_witness:
  "\<exists>c1 d. Reinit (\<lambda>_. Inl ENOENT) demo_reinit (demo\<lparr>c_disk := NoFile\<rparr>) = (None, c1) \<and> c_disk c1 = Stored d \<and> db_Objects d = []"
proof -
  obtain c1 where run: "Reinit (\<lambda>_. Inl ENOENT) demo_reinit (demo\<lparr>c_disk := NoFile\<rparr>) = (None, c1)" using demo_reinits by blast
  then show ?thesis using reinit_forgets_volumes [OF run] by (auto simp: demo_reinit_def)
qed

section \<open>A started appliance is sound\<close>

interpretation set_portals: backed_mutation "set_portals_mutation ps" "\<lambda>st. True" for ps
proof
  show "set_portals_mutation ps st = (None, st') \<Longrightarrow> backed st s \<Longrightarrow> backed st' s" for st st' s
    by (auto simp: set_portals_mutation_def backed_def)
  show "good_db st \<Longrightarrow> set_portals_mutation ps st = (None, st') \<Longrightarrow> good_db st'" for st st'
    using good_set_portals by (auto simp: set_portals_mutation_def)
qed simp

lemma sound_health: "sound (with_health f c) = sound c"
  by (simp add: sound_def good_def with_health_def)

lemma SetPortals_sound:
  assumes run: "SetPortals env ps c = (r, c')" and env: "range_ok env" and c: "sound c"
  shows "sound c'"
proof -
  obtain e c1 where e: "commit env (set_portals_mutation ps) c = (e, c1)" by fastforce
  have "sound c1" using set_portals.commit_sound [OF e env] c by simp
  moreover have "c' = c \<or> c' = c1 \<or> (\<exists>f. c' = with_health f c1)"
    using run e by (auto simp: SetPortals_def Let_def split: if_splits option.splits op_error.splits)
  ultimately show ?thesis using c sound_health by metis
qed

lemma Quarantine_old:
  assumes "Quarantine d s w = (r, s', w')" and "\<not> hasPrefix quarantinePrefix n" and "map_of (s_dirs s') n = Some v"
  shows "map_of (s_dirs s) n = Some v"
proof (cases r)
  case (Inl e)
  then have "s' = s" using assms(1) by (auto simp: Quarantine_def Let_def split: prod.splits option.splits if_splits)
  then show ?thesis using assms(3) by simp
next
  case (Inr q)
  then show ?thesis using Quarantine_success [of d s w q s' w'] assms by (auto split: if_splits)
qed

lemma quarantine_unknown_old:
  assumes "quarantine_unknown known ds c = (r, c')" and "\<not> hasPrefix quarantinePrefix n" and "map_of (s_dirs (c_store c')) n = Some v"
  shows "map_of (s_dirs (c_store c)) n = Some v"
  using assms
proof (induction ds arbitrary: c)
  case (Cons d ds)
  show ?case
  proof (cases "d \<in> set known")
    case False
    obtain q s w where q: "Quarantine d (c_store c) (c_os c) = (q, s, w)" by (metis prod_cases3)
    have "map_of (s_dirs s) n = Some v"
    proof (cases q)
      case (Inl e)
      then show ?thesis using Cons.prems False q by auto
    next
      case (Inr x)
      then have "quarantine_unknown known ds (c\<lparr>c_store := s, c_os := w\<rparr>) = (r, c')" using Cons.prems(1) False q by auto
      from Cons.IH [OF this Cons.prems(2,3)] show ?thesis by simp
    qed
    then show ?thesis by (rule Quarantine_old [OF q Cons.prems(2)])
  qed (use Cons in auto)
qed simp

text \<open>The files that are there are as large as their records say.\<close>

definition sized :: "db \<Rightarrow> Store \<Rightarrow> bool" where
  "sized st s \<longleftrightarrow> (\<forall>x \<in> set (db_Objects st). \<forall>n. disk_size s (ob_UUID x) = Some n \<longrightarrow> ob_Capacity x \<le> n)"

lemma list_all2_mem: "list_all2 P xs ys \<Longrightarrow> y \<in> set ys \<Longrightarrow> \<exists>x \<in> set xs. P x y"
  by (induction xs ys rule: list_all2_induct) auto

lemma adoptStorage_backed:
  assumes run: "adoptStorage existed c = (None, c')" and dist: "distinct (map fst (s_dirs (c_store c)))"
    and good: "good_db (c_st c)" and sz: "sized (c_st c) (c_store c)"
  shows "good_db (c_st c') \<and> backed (c_st c') (c_store c')"
proof -
  note a = adoptStorage_cases [OF run dist]
  have rm: "remarked (c_st c) (c_st c')" using a by blast
  obtain dirs w where d: "ObjectDirs (c_store c) (c_os c) = (Inr dirs, w)"
    using run by (cases "ObjectDirs (c_store c) (c_os c)"; cases "fst (ObjectDirs (c_store c) (c_os c))") (auto simp: adoptStorage_def)
  obtain q c2 where q: "quarantine_unknown (map ob_UUID (db_Objects (c_st c))) dirs (c\<lparr>c_os := w\<rparr>) = (q, c2)" by fastforce
  have store: "c_store c' = c_store c2"
    using run d q by (auto simp: adoptStorage_def Let_def split: option.splits prod.splits sum.splits if_splits)
  have "\<exists>n. disk_size (c_store c') (ob_UUID y) = Some n \<and> ob_Capacity y \<le> n"
    if y: "y \<in> set (db_Objects (c_st c'))" "ob_State y = stateReady" for y
  proof -
    obtain n where n: "disk_size (c_store c') (ob_UUID y) = Some n" using a y by blast
    have l: "list_all2 (\<lambda>x y. y = x \<or> y = x\<lparr>ob_State := stateMissing\<rparr>) (db_Objects (c_st c)) (db_Objects (c_st c'))"
      using rm by (simp add: remarked_def)
    then obtain x where x: "x \<in> set (db_Objects (c_st c))" "y = x \<or> y = x\<lparr>ob_State := stateMissing\<rparr>"
      using list_all2_mem [OF _ y(1)] by blast
    have "isHexDigit (ob_UUID x ! 0)" using good_objects(1) [OF good] x(1) by (simp add: valid_objects_def validUUID_def list_all_iff)
    then have "\<not> hasPrefix quarantinePrefix (ob_UUID y)"
      using x(2) by (cases "ob_UUID x") (auto simp: hasPrefix_def quarantinePrefix_def isHexDigit_def)
    then have "disk_size (c_store c) (ob_UUID y) = Some n"
      using quarantine_unknown_old [OF q] n store by (simp add: disk_size_iff)
    then have "ob_Capacity y \<le> n" using sz x by (auto simp: sized_def)
    then show ?thesis using n by simp
  qed
  then show ?thesis using remarked_good [OF rm good] by (simp add: backed_def)
qed

text \<open>What a start finds: a database that the appliance wrote, over files as large as it says, or none at all.\<close>

definition bootable :: "'k coord \<Rightarrow> bool" where
  "bootable c \<longleftrightarrow> distinct (map fst (s_dirs (c_store c))) \<and> (\<forall>d. c_disk c = Stored d \<longrightarrow> good_db d \<and> sized d (c_store c))"

lemma good_identity: "good_db (st\<lparr>db_TargetIQN := i, db_MachineID := m\<rparr>) = good_db st"
  by (simp add: good_db_iff export_room_def sane_db_def)

lemma empty_good: "good_db empty_db"
  by (simp add: good_db_iff empty_db_def dbVersion_def valid_objects_def valid_hosts_def valid_connections_def valid_exports_def
      export_room_def sane_db_def)

lemma Open_sound:
  assumes run: "Open env fs cfg c0 = (None, c')" and env: "range_ok env" and boot: "bootable c0"
  shows "sound c' \<and> Healthy c' \<and> c_withheld c' = []"
proof -
  obtain existed c1 c2 c3 c4 where st: "load (booted cfg c0) = (Inr existed, c1)" "adoptStorage existed c1 = (None, c2)"
    "adoptIdentity env fs c2 = (None, c3)" "adoptPortals c3 = (None, c4)" "reconcile env c4 = (None, c')"
    using run by (cases rule: Open_cases) auto
  have c1: "c_store c1 = c_store c0" "c_disk c1 = c_disk c0" "keeps_rest (booted cfg c0) c1"
    "c_disk c0 = Stored (c_st c1) \<or> c_st c1 = empty_db"
    using load_cases [OF st(1)] by (auto split: bool.splits)
  have dist: "distinct (map fst (s_dirs (c_store c1)))" using boot c1(1) by (simp add: bootable_def)
  have g1: "good_db (c_st c1)" "sized (c_st c1) (c_store c1)"
    using c1 boot empty_good by (auto simp: bootable_def) (auto simp: sized_def empty_db_def)
  have c2: "good_db (c_st c2)" "backed (c_st c2) (c_store c2)" using adoptStorage_backed [OF st(2) dist g1] by auto
  have k2: "c_disk c2 = c_disk c0" "keeps_rest c1 c2" using adoptStorage_cases [OF st(2) dist] c1(2) by auto
  obtain iqn mid where st3: "c_st c3 = (c_st c2)\<lparr>db_TargetIQN := iqn, db_MachineID := mid\<rparr>"
    and k3: "c_store c3 = c_store c2" "keeps_rest c2 c3" "c_disk c3 = c_disk c2 \<or> c_disk c3 = Stored (c_st c3)"
    using adoptIdentity_cases [OF st(3)] by blast
  have st4: "c_st c4 = (if db_Portals (c_st c3) = [] then (c_st c3)\<lparr>db_Portals := ac_Portals (c_cfg c3)\<rparr> else c_st c3)"
    and k4: "c_store c4 = c_store c3" "keeps_rest c3 c4" "c_disk c4 = c_disk c3 \<or> c_disk c4 = Stored (c_st c4)"
    using adoptPortals_cases [OF st(4)] by auto
  have g3: "good_db (c_st c3)" using c2(1) by (simp add: st3 good_identity)
  have g4: "good_db (c_st c4)" using g3 good_set_portals by (simp add: st4)
  have "backed (c_st c4) (c_store c4)" using c2(2) k3(1) k4(1) by (simp add: st4 st3 backed_def)
  moreover have "\<forall>d. c_disk c4 = Stored d \<longrightarrow> good_db d" using k2(1) k3(3) k4(3) g3 g4 boot by (auto simp: bootable_def)
  ultimately have "sound c4" using g4 by (simp add: sound_def good_def)
  then have "sound c'" using sound_settled reconcile_settled [OF st(5) env] by blast
  moreover have "Healthy c'" using reconcile_settled [OF st(5) env] by (simp add: verdict_def)
  moreover have "c_withheld c' = []"
    using reconcile_keeps(4) [OF st(5) env] k4(2) k3(2) k2(2) c1(3) by (simp add: keeps_rest_def)
  ultimately show ?thesis by simp
qed

end
