(* ===== verification/Appliance_Clear.thy ===== *)
theory Appliance_Clear
  imports Appliance_Start
begin

text \<open>
  Clearing a reservation (appliance/clearpr.go): the object is withheld from the kernel, its saved
  reservations are discarded, it is presented again, and the result is read back. The engine's reads
  of the kernel are those of the environment; the kernel writing a saved file by itself is not part of
  the model, since nothing can reach the device while it is withheld. Warnings are kept as a list of
  their kinds, errors by status and reason.
\<close>

datatype clear_warning = StateUnreadable Error | NotPresented | AlreadyReleased nat | FenceStateUnknown
  | Withheld | PartlyPresentedUnknown | PartlyPresented | DeviceDisappeared

record ClearedReservation =
  cl_Object :: string
  cl_Held :: bool
  cl_HeldKnown :: bool
  cl_Holder :: string
  cl_ISID :: string
  cl_Type :: string
  cl_SavedRecordDiscarded :: bool
  cl_Warning :: "clear_warning list"

definition no_clear :: "string \<Rightarrow> ClearedReservation" where
  "no_clear name = \<lparr>cl_Object = name, cl_Held = False, cl_HeldKnown = False, cl_Holder = '''', cl_ISID = '''', cl_Type = '''',
     cl_SavedRecordDiscarded = False, cl_Warning = []\<rparr>"

definition addWarning :: "clear_warning \<Rightarrow> ClearedReservation \<Rightarrow> ClearedReservation" where
  "addWarning w r = r\<lparr>cl_Warning := cl_Warning r @ [w]\<rparr>"

text \<open>The desired backstore of an object; the outer option is the panic of the translation.\<close>

definition backstoreOf :: "'k env \<Rightarrow> string \<Rightarrow> 'k coord \<Rightarrow> Backstore option option \<times> 'k coord" where
  "backstoreOf env objectUUID c = (case desiredLIO env c of
     (None, c1) \<Rightarrow> (None, c1)
   | (Some desired, c1) \<Rightarrow> (Some (find (\<lambda>b. bs_Name b = backstoreName objectUUID) (cfg_Backstores desired)), c1))"

section \<open>The saved record\<close>

datatype discard_error = RemoveFailed errno | StillExists | Unconfirmed errno

text \<open>\<open>os.Stat\<close> of a saved file. A failure never claims that something present is absent.\<close>

definition stat_prfile :: "string \<Rightarrow> 'k coord \<Rightarrow> errno option \<times> 'k coord" where
  "stat_prfile n c = (case c_syscall c of (f, c1) \<Rightarrow>
     (if n \<notin> set (c_prfiles c1) then Some (case f of Some e \<Rightarrow> e | None \<Rightarrow> ENOENT)
      else if f = Some ENOENT then None else f, c1))"

definition discardSavedPRChecked :: "string \<Rightarrow> 'k coord \<Rightarrow> (bool \<times> discard_error option) \<times> 'k coord" where
  "discardSavedPRChecked wwn c =
    (if ac_DBRoot (c_cfg c) = '''' \<or> wwn = '''' then ((False, None), c)
     else (case remove_prfile (aptpl_file wwn) c of (r, c1) \<Rightarrow>
       if r \<noteq> None \<and> r \<noteq> Some ENOENT then ((False, Some (RemoveFailed (the r))), c1)
       else (let removed = (r = None) in
         case stat_prfile (aptpl_file wwn) c1 of
           (None, c2) \<Rightarrow> ((removed, Some StillExists), c2)
         | (Some e, c2) \<Rightarrow> ((removed, if e = ENOENT then None else Some (Unconfirmed e)), c2))))"

section \<open>The fence\<close>

datatype fenceVerdict = fenceUnknown | fenceDown | fenceUp

definition no_pr :: PRState where
  "no_pr = \<lparr>pr_Registrations = [], pr_Holder = '''', pr_HolderKnown = True, pr_Type = '''', pr_APTPLActive = False, pr_Truncated = False\<rparr>"

record fence_reading =
  fr_verdict :: fenceVerdict
  fr_state :: PRState
  fr_haveBackstore :: bool
  fr_err :: "Error option"

definition fenceStateOf :: "'k env \<Rightarrow> string \<Rightarrow> 'k coord \<Rightarrow> fence_reading option \<times> 'k coord" where
  "fenceStateOf env objectUUID c = (case backstoreOf env objectUUID c of
     (None, c1) \<Rightarrow> (None, c1)
   | (Some None, c1) \<Rightarrow> (Some \<lparr>fr_verdict = fenceDown, fr_state = no_pr, fr_haveBackstore = False, fr_err = None\<rparr>, c1)
   | (Some (Some bs), c1) \<Rightarrow> (case e_PRState env bs (c_kern c1) of
       Inl e \<Rightarrow> (Some \<lparr>fr_verdict = fenceUnknown, fr_state = no_pr, fr_haveBackstore = True, fr_err = Some e\<rparr>, c1)
     | Inr st \<Rightarrow> (Some \<lparr>fr_verdict = (if \<not> pr_HolderKnown st then fenceUnknown else if pr_Holder st \<noteq> '''' then fenceUp else fenceDown),
         fr_state = st, fr_haveBackstore = True, fr_err = None\<rparr>, c1)))"

definition verifyCleared :: "'k env \<Rightarrow> string \<Rightarrow> 'k coord \<Rightarrow> op_error option \<times> 'k coord" where
  "verifyCleared env objectUUID c = (case fenceStateOf env objectUUID c of
     (None, c1) \<Rightarrow> (Some Panicked, c1)
   | (Some f, c1) \<Rightarrow>
      (if fr_err f \<noteq> None then Some (StatusError StatusConflict CodeClearUnverified)
       else if fr_verdict f = fenceUnknown then Some (StatusError StatusConflict CodeClearUnverified)
       else if fr_verdict f = fenceUp then Some (StatusError StatusConflict CodeClearUnverified)
       else if \<not> fr_haveBackstore f then None
       else if pr_Truncated (fr_state f) then Some (StatusError StatusConflict CodeFenceDropped)
       else if pr_Registrations (fr_state f) \<noteq> [] then Some (StatusError StatusConflict CodeFenceDropped)
       else None, c1))"

type_synonym clear_result = "ClearedReservation \<times> op_error option"

definition recoverFromFailedPrune :: "'k env \<Rightarrow> ClearedReservation \<Rightarrow> string \<Rightarrow> 'k coord \<Rightarrow> clear_result \<times> 'k coord" where
  "recoverFromFailedPrune env out objectUUID c = (case reconcile env (c\<lparr>c_prClearing := ''''\<rparr>) of
     (Some Panicked, c1) \<Rightarrow> ((out, Some Panicked), c1)
   | (Some e, c1) \<Rightarrow> ((addWarning NotPresented out, Some (StatusError StatusConflict CodeFenceUnknown)), c1)
   | (None, c1) \<Rightarrow> (case fenceStateOf env objectUUID c1 of
       (None, c2) \<Rightarrow> ((out, Some Panicked), c2)
     | (Some f, c2) \<Rightarrow> (case fr_verdict f of
         fenceDown \<Rightarrow> ((addWarning (AlreadyReleased (length (pr_Registrations (fr_state f)))) out,
           Some (StatusError StatusConflict CodeFenceDropped)), c2)
       | fenceUp \<Rightarrow> ((out, Some (StatusError StatusConflict CodeClearUnverified)), c2)
       | fenceUnknown \<Rightarrow> ((addWarning FenceStateUnknown out, Some (StatusError StatusConflict CodeFenceUnknown)), c2))))"

section \<open>The operation\<close>

text \<open>What is about to be dropped, as far as it can be read.\<close>

definition read_before :: "'k env \<Rightarrow> Object \<Rightarrow> 'k coord \<Rightarrow> ClearedReservation option \<times> 'k coord" where
  "read_before env v c = (let out = no_clear (ob_Name v) in
    case backstoreOf env (ob_UUID v) c of
      (None, c1) \<Rightarrow> (None, c1)
    | (Some None, c1) \<Rightarrow> (Some (out\<lparr>cl_HeldKnown := True\<rparr>), c1)
    | (Some (Some bs), c1) \<Rightarrow> (Some (case e_ReservationHolder env bs (c_kern c1) of
        Inl e \<Rightarrow> addWarning (StateUnreadable e) out
      | Inr res \<Rightarrow>
         if rv_SPC2 res then out\<lparr>cl_HeldKnown := True, cl_Held := True, cl_Holder := rv_Holder res, cl_Type := ''SPC-2 reservation''\<rparr>
         else if rv_Holder res \<noteq> '''' then out\<lparr>cl_HeldKnown := True, cl_Held := True, cl_Holder := rv_Holder res,
           cl_ISID := rv_ISID res, cl_Type := rv_Type res\<rparr>
         else out\<lparr>cl_HeldKnown := True\<rparr>), c1))"

text \<open>Presenting the object again, and reading the result back.\<close>

definition restore_export :: "'k env \<Rightarrow> ClearedReservation \<Rightarrow> string \<Rightarrow> 'k coord \<Rightarrow> clear_result \<times> 'k coord" where
  "restore_export env out uuid c = (case reconcile env (c\<lparr>c_prClearing := ''''\<rparr>) of
     (Some Panicked, c1) \<Rightarrow> ((out, Some Panicked), c1)
   | (Some e, c1) \<Rightarrow> (case fenceStateOf env uuid c1 of
       (None, c2) \<Rightarrow> ((out, Some Panicked), c2)
     | (Some f, c2) \<Rightarrow> if fr_verdict f = fenceUnknown
         then ((addWarning PartlyPresentedUnknown out, Some (StatusError StatusServiceUnavailable CodeFenceUnknown)), c2)
         else ((addWarning PartlyPresented out, Some (StatusError StatusServiceUnavailable CodeReconcileFailed)), c2))
   | (None, c1) \<Rightarrow> (case verifyCleared env uuid c1 of
       (Some e, c2) \<Rightarrow> ((out, Some e), c2)
     | (None, c2) \<Rightarrow> ((addWarning DeviceDisappeared out, None), c2)))"

definition discard_and_restore :: "'k env \<Rightarrow> ClearedReservation \<Rightarrow> Object \<Rightarrow> 'k coord \<Rightarrow> clear_result \<times> 'k coord" where
  "discard_and_restore env out v c = (case discardSavedPRChecked (ob_WWN v) c of
     ((discarded, err), c1) \<Rightarrow> (let out1 = out\<lparr>cl_SavedRecordDiscarded := discarded\<rparr> in
       case err of
         Some e \<Rightarrow> ((addWarning Withheld out1, Some (StatusError StatusConflict CodeFenceDropped)), holdBack (ob_UUID v) (ob_Name v) c1)
       | None \<Rightarrow> restore_export env out1 (ob_UUID v) (releaseHold (ob_UUID v) c1)))"

definition clear_phases :: "'k env \<Rightarrow> ClearedReservation \<Rightarrow> Object \<Rightarrow> 'k coord \<Rightarrow> clear_result \<times> 'k coord" where
  "clear_phases env out v c = (case reconcile env (c\<lparr>c_prClearing := ob_UUID v\<rparr>) of
     (Some Panicked, c1) \<Rightarrow> ((out, Some Panicked), c1)
   | (Some e, c1) \<Rightarrow> recoverFromFailedPrune env out (ob_UUID v) c1
   | (None, c1) \<Rightarrow> discard_and_restore env out v c1)"

definition ClearReservation :: "'k env \<Rightarrow> string \<Rightarrow> string \<Rightarrow> string \<Rightarrow> 'k coord \<Rightarrow> clear_result \<times> 'k coord" where
  "ClearReservation env kind ref confirm c = (case resolveObject (c_st c) kind ref of
     None \<Rightarrow> ((no_clear '''', Some notFound), c)
   | Some v \<Rightarrow>
      if confirm \<noteq> ob_Name v then ((no_clear '''', Some (StatusError StatusBadRequest CodeInvalidInput)), c)
      else if ob_State v \<noteq> stateReady then ((no_clear '''', Some (StatusError StatusConflict CodeUnsupportedState)), c)
      else (case healIfDegraded env c of
        (Some e, c1) \<Rightarrow> ((no_clear '''', Some e), c1)
      | (None, c1) \<Rightarrow> (case read_before env v c1 of
          (None, c2) \<Rightarrow> ((no_clear '''', Some Panicked), c2)
        | (Some out, c2) \<Rightarrow> (case clear_phases env out v (setClearing (ob_Name v) c2) of
            (r, c3) \<Rightarrow> (r, setClearing '''' c3)))))"

section \<open>What clearing leaves alone\<close>

text \<open>Clearing never touches the database file, the store or the records but for export indices.\<close>

definition calm :: "'k coord \<Rightarrow> 'k coord \<Rightarrow> bool" where
  "calm c c' \<longleftrightarrow> c_cfg c' = c_cfg c \<and> c_dbPath c' = c_dbPath c \<and> c_store c' = c_store c \<and> c_disk c' = c_disk c \<and> grown (c_st c) (c_st c')
     \<and> (loadable (c_st c) \<and> has_room (c_st c) \<longrightarrow> loadable (c_st c') \<and> has_room (c_st c'))"

lemma calm_refl [simp]: "calm c c"
  by (simp add: calm_def)

lemma calm_trans: "calm a b \<Longrightarrow> calm b c \<Longrightarrow> calm a c"
  by (auto simp: calm_def intro: grown_trans)

lemma calm_settled: "settled c c' \<Longrightarrow> calm c c'"
  by (auto simp: calm_def settled_def frame_def)

lemma calm_settled_step:
  assumes "calm c c1" and "settled c1 c2"
  shows "calm c c2 \<and> c_prClearing c2 = c_prClearing c1 \<and> c_withheld c2 = c_withheld c1 \<and> c_prfiles c2 = c_prfiles c1"
  using calm_trans [OF assms(1) calm_settled [OF assms(2)]] assms(2) by (simp add: settled_def frame_def)

lemma calm_update [simp]: "calm c (c\<lparr>c_prClearing := u\<rparr>)" "calm c (setClearing n c)" "calm c (holdBack u n c)" "calm c (releaseHold u c)"
  by (simp_all add: calm_def setClearing_def holdBack_def releaseHold_def publishWithheld_def with_health_def)

lemma sound_calm: "calm c c' \<Longrightarrow> sound c \<Longrightarrow> sound c'"
  using good_grown [of "c_st c" "c_st c'"] backed_grown [of "c_st c" "c_st c'"] by (auto simp: sound_def good_def calm_def)

lemma prfile_calls:
  "remove_prfile n c = (r, c') \<Longrightarrow> calm c c' \<and> c_kern c' = c_kern c \<and> c_withheld c' = c_withheld c \<and> c_prClearing c' = c_prClearing c
     \<and> set (c_prfiles c') \<subseteq> set (c_prfiles c)"
  "stat_prfile n c = (r, c') \<Longrightarrow> calm c c' \<and> c_kern c' = c_kern c \<and> c_withheld c' = c_withheld c \<and> c_prClearing c' = c_prClearing c
     \<and> c_prfiles c' = c_prfiles c \<and> (r = Some ENOENT \<longrightarrow> n \<notin> set (c_prfiles c'))"
  by (auto simp: remove_prfile_def stat_prfile_def c_syscall_def calm_def split: prod.splits if_splits option.splits)

lemma discardSavedPRChecked_cases:
  assumes "discardSavedPRChecked wwn c = ((removed, err), c')"
  shows "calm c c' \<and> c_kern c' = c_kern c \<and> c_withheld c' = c_withheld c \<and> c_prClearing c' = c_prClearing c
    \<and> (err = None \<and> ac_DBRoot (c_cfg c) \<noteq> '''' \<and> wwn \<noteq> '''' \<longrightarrow> aptpl_file wwn \<notin> set (c_prfiles c'))"
proof -
  obtain r c1 where r: "remove_prfile (aptpl_file wwn) c = (r, c1)" by fastforce
  obtain s c2 where s: "stat_prfile (aptpl_file wwn) c1 = (s, c2)" by fastforce
  have k: "calm c c1" "c_kern c1 = c_kern c" "c_withheld c1 = c_withheld c" "c_prClearing c1 = c_prClearing c"
    "calm c c2" "c_kern c2 = c_kern c" "c_withheld c2 = c_withheld c" "c_prClearing c2 = c_prClearing c"
    "s = Some ENOENT \<longrightarrow> aptpl_file wwn \<notin> set (c_prfiles c2)"
    using prfile_calls(1) [OF r] prfile_calls(2) [OF s] calm_trans by auto
  show ?thesis
  proof (cases "ac_DBRoot (c_cfg c) = '''' \<or> wwn = ''''")
    case False
    then have "(err \<noteq> None \<and> c' = c1) \<or> (c' = c2 \<and> (err = None \<longrightarrow> s = Some ENOENT))"
      using assms by (auto simp: discardSavedPRChecked_def r s Let_def split: if_splits option.splits)
    then show ?thesis using k by auto
  qed (use assms in \<open>auto simp: discardSavedPRChecked_def\<close>)
qed

lemma backstoreOf_settled:
  assumes "backstoreOf env u c = (r, c')" and "range_ok env"
  shows "settled c c' \<and> c_kern c' = c_kern c \<and> (\<forall>bs. r = Some (Some bs) \<longrightarrow> bs_Name bs = backstoreName u)
    \<and> (r = Some None \<longrightarrow> u \<notin> set (exported c'))"
proof -
  obtain d c1 where d: "desiredLIO env c = (d, c1)" by fastforce
  have s: "settled c c1" "c_kern c1 = c_kern c" using desiredLIO_settled [OF d assms(2)] by simp_all
  show ?thesis
  proof (cases d)
    case None
    then show ?thesis using assms(1) d s by (auto simp: backstoreOf_def)
  next
    case (Some cfg)
    have "u \<notin> set (exported c1)" if none: "find (\<lambda>b. bs_Name b = backstoreName u) (cfg_Backstores cfg) = None"
    proof
      assume "u \<in> set (exported c1)"
      then have "backstoreName u \<in> bs_Name ` set (cfg_Backstores cfg)"
        using desired_names [of env c cfg c1] d Some assms(2) exported_settled [OF s(1)] by simp
      then show False using none by (auto simp: find_None_iff)
    qed
    then show ?thesis using assms(1) d s Some find_key_Some [of bs_Name] by (auto simp: backstoreOf_def)
  qed
qed

lemma fenceStateOf_settled:
  assumes "fenceStateOf env u c = (r, c')" and "range_ok env"
  shows "settled c c' \<and> c_kern c' = c_kern c"
proof -
  obtain b c1 where b: "backstoreOf env u c = (b, c1)" by fastforce
  have "c' = c1" using assms(1) by (auto simp: fenceStateOf_def b split: option.splits sum.splits)
  then show ?thesis using backstoreOf_settled [OF b assms(2)] by simp
qed

text \<open>The kernel shows no holder of the unit of \<open>u\<close>; it shows neither a holder nor a registration.\<close>

definition kernel_down :: "'k env \<Rightarrow> 'k \<Rightarrow> string \<Rightarrow> bool" where
  "kernel_down env k u \<longleftrightarrow> (\<forall>bs. bs_Name bs = backstoreName u \<longrightarrow> (\<exists>st. e_PRState env bs k = Inr st \<and> pr_HolderKnown st \<and> pr_Holder st = ''''))"

definition read_unfenced :: "'k env \<Rightarrow> 'k coord \<Rightarrow> string \<Rightarrow> bool" where
  "read_unfenced env c u \<longleftrightarrow> u \<notin> set (exported c) \<or> (\<exists>bs st. bs_Name bs = backstoreName u \<and> e_PRState env bs (c_kern c) = Inr st
     \<and> pr_HolderKnown st \<and> pr_Holder st = '''' \<and> pr_Registrations st = [] \<and> \<not> pr_Truncated st)"

lemma fenceStateOf_down:
  assumes "fenceStateOf env u c = (Some f, c')" and "range_ok env" and "kernel_down env (c_kern c) u"
  shows "fr_verdict f = fenceDown \<and> fr_err f = None"
proof -
  obtain b c1 where b: "backstoreOf env u c = (b, c1)" by fastforce
  note B = backstoreOf_settled [OF b assms(2)]
  consider "b = Some None" | bs where "b = Some (Some bs)" using assms(1) b by (auto simp: fenceStateOf_def split: option.splits)
  then show ?thesis
  proof cases
    case (2 bs)
    then obtain st where "e_PRState env bs (c_kern c1) = Inr st" "pr_HolderKnown st" "pr_Holder st = ''''"
      using B assms(3) by (auto simp: kernel_down_def)
    then show ?thesis using assms(1) b 2 by (auto simp: fenceStateOf_def)
  qed (use assms(1) b in \<open>auto simp: fenceStateOf_def\<close>)
qed

lemma verifyCleared_cases:
  assumes "verifyCleared env u c = (r, c')" and "range_ok env"
  shows "settled c c' \<and> c_kern c' = c_kern c \<and> (r = None \<longrightarrow> read_unfenced env c' u)
    \<and> (kernel_down env (c_kern c) u \<longrightarrow> r \<noteq> Some (StatusError StatusConflict CodeClearUnverified))"
proof -
  obtain f c1 where f: "fenceStateOf env u c = (f, c1)" by fastforce
  have s: "settled c c1" "c_kern c1 = c_kern c" using fenceStateOf_settled [OF f assms(2)] by simp_all
  have c': "c' = c1" using assms(1) by (auto simp: verifyCleared_def f split: option.splits)
  obtain b c2 where b: "backstoreOf env u c = (b, c2)" by fastforce
  have "c2 = c1" using f by (auto simp: fenceStateOf_def b split: option.splits sum.splits)
  note B = backstoreOf_settled [OF b assms(2), unfolded this]
  have "read_unfenced env c1 u" if "r = None"
  proof (cases b)
    case None
    then show ?thesis using assms(1) that f b by (auto simp: verifyCleared_def fenceStateOf_def)
  next
    case (Some x)
    show ?thesis
    proof (cases x)
      case None
      then show ?thesis using Some B by (simp add: read_unfenced_def)
    next
      case (Some bs)
      then show ?thesis
        using \<open>b = Some x\<close> assms(1) that f b B \<open>c2 = c1\<close>
        by (auto simp: verifyCleared_def fenceStateOf_def read_unfenced_def split: sum.splits if_splits)
    qed
  qed
  moreover have "r \<noteq> Some (StatusError StatusConflict CodeClearUnverified)" if "kernel_down env (c_kern c) u"
    using assms(1) f fenceStateOf_down [OF _ assms(2) that] by (cases f) (auto simp: verifyCleared_def split: if_splits)
  ultimately show ?thesis using s c' by simp
qed

section \<open>The outcomes of a clear\<close>

text \<open>
  What holds of a state in which a clear of \<open>u\<close> ended with the error \<open>e\<close>, if any: an answer of success is
  backed by a reading of the kernel, and the answer that the clear is unverified is not given when the
  kernel shows no holder.
\<close>

definition honest :: "'k env \<Rightarrow> string \<Rightarrow> op_error option \<Rightarrow> 'k coord \<Rightarrow> bool" where
  "honest env u e c \<longleftrightarrow> (e = None \<longrightarrow> read_unfenced env c u)
     \<and> (kernel_down env (c_kern c) u \<longrightarrow> e \<noteq> Some (StatusError StatusConflict CodeClearUnverified))"

definition warns_withheld :: "ClearedReservation \<Rightarrow> bool" where
  "warns_withheld out \<longleftrightarrow> Withheld \<in> set (cl_Warning out)"

lemma warns_simps [simp]:
  "warns_withheld (addWarning w out) \<longleftrightarrow> w = Withheld \<or> warns_withheld out"
  "warns_withheld (out\<lparr>cl_SavedRecordDiscarded := b\<rparr>) = warns_withheld out" "\<not> warns_withheld (no_clear n)"
  by (auto simp: warns_withheld_def addWarning_def no_clear_def)

lemma reconcile_withhold:
  assumes "reconcile env (c\<lparr>c_prClearing := x\<rparr>) = (r, c')" and "range_ok env"
  shows "calm c c' \<and> c_prClearing c' = x \<and> c_withheld c' = c_withheld c \<and> c_prfiles c' = c_prfiles c \<and> c_os c' = c_os c"
proof -
  have s: "settled (c\<lparr>c_prClearing := x\<rparr>) c'" using reconcile_settled [OF assms] by simp
  then show ?thesis using calm_trans [OF calm_update(1) calm_settled [OF s]] by (simp add: settled_def frame_def)
qed

lemma restore_export_cases:
  assumes run: "restore_export env out u c = ((out', e), c')" and env: "range_ok env"
  shows "calm c c' \<and> c_prClearing c' = '''' \<and> c_withheld c' = c_withheld c \<and> c_prfiles c' = c_prfiles c \<and> honest env u e c'
    \<and> (warns_withheld out' \<longrightarrow> warns_withheld out)"
proof -
  obtain q c1 where q: "reconcile env (c\<lparr>c_prClearing := ''''\<rparr>) = (q, c1)" by fastforce
  note Q = reconcile_withhold [OF q env]
  obtain f c2 where f: "fenceStateOf env u c1 = (f, c2)" by fastforce
  obtain v c3 where v: "verifyCleared env u c1 = (v, c3)" by fastforce
  have S: "settled c1 c2" "settled c1 c3" "c_kern c3 = c_kern c1"
    using fenceStateOf_settled [OF f env] verifyCleared_cases [OF v env] by simp_all
  have k: "calm c x \<and> c_prClearing x = '''' \<and> c_withheld x = c_withheld c \<and> c_prfiles x = c_prfiles c" if "x = c1 \<or> x = c2 \<or> x = c3" for x
    using that Q calm_settled_step [OF _ S(1)] calm_settled_step [OF _ S(2)] by auto
  consider x where "e = Some x" "x \<noteq> StatusError StatusConflict CodeClearUnverified" "c' = c1 \<or> c' = c2" "warns_withheld out' \<longrightarrow> warns_withheld out"
    | "e = v" "c' = c3" "warns_withheld out' \<longrightarrow> warns_withheld out"
    using run by (cases q) (auto simp: restore_export_def q f v split: op_error.splits option.splits if_splits)
  then show ?thesis
  proof cases
    case 1
    then show ?thesis using k by (auto simp: honest_def)
  next
    case 2
    then show ?thesis using k verifyCleared_cases [OF v env] S(3) by (auto simp: honest_def)
  qed
qed

lemma recover_cases:
  assumes run: "recoverFromFailedPrune env out u c = ((out', e), c')" and env: "range_ok env"
  shows "calm c c' \<and> c_prClearing c' = '''' \<and> c_withheld c' = c_withheld c \<and> e \<noteq> None \<and> honest env u e c'
    \<and> (warns_withheld out' \<longrightarrow> warns_withheld out)"
proof -
  obtain q c1 where q: "reconcile env (c\<lparr>c_prClearing := ''''\<rparr>) = (q, c1)" by fastforce
  note Q = reconcile_withhold [OF q env]
  obtain f c2 where f: "fenceStateOf env u c1 = (f, c2)" by fastforce
  have S: "settled c1 c2" "c_kern c2 = c_kern c1" using fenceStateOf_settled [OF f env] by simp_all
  have k: "calm c x \<and> c_prClearing x = '''' \<and> c_withheld x = c_withheld c" if "x = c1 \<or> x = c2" for x
    using that Q calm_settled_step [OF _ S(1)] by auto
  consider x where "e = Some x" "x \<noteq> StatusError StatusConflict CodeClearUnverified" "c' = c1 \<or> c' = c2" "warns_withheld out' \<longrightarrow> warns_withheld out"
    | g where "f = Some g" "fr_verdict g = fenceUp" "e \<noteq> None" "c' = c2" "out' = out"
    using run by (cases q) (auto simp: recoverFromFailedPrune_def q f split: op_error.splits option.splits fenceVerdict.splits)
  then show ?thesis
  proof cases
    case 1
    then show ?thesis using k by (auto simp: honest_def)
  next
    case (2 g)
    have "\<not> kernel_down env (c_kern c1) u" using fenceStateOf_down [of env u c1 g c2] f env 2(1,2) by auto
    then show ?thesis using 2 k S(2) by (auto simp: honest_def)
  qed
qed

lemma hold_sel [simp]:
  "c_kern (releaseHold u c) = c_kern c" "c_prfiles (releaseHold u c) = c_prfiles c" "c_kern (holdBack u n c) = c_kern c"
  "u \<in> fst ` set (c_withheld (holdBack u n c))" "u \<notin> fst ` set (c_withheld (releaseHold u c))" "c_cfg (releaseHold u c) = c_cfg c"
  by (auto simp: releaseHold_def holdBack_def publishWithheld_def with_health_def map_of_eq_None_iff)

lemma clear_phases_cases:
  assumes run: "clear_phases env out v c = ((out', e), c')" and env: "range_ok env" and quiet: "\<not> warns_withheld out"
  shows "calm c c' \<and> honest env (ob_UUID v) e c'
    \<and> (e = None \<longrightarrow> c_prClearing c' = '''' \<and> ob_UUID v \<notin> fst ` set (c_withheld c')
         \<and> (ac_DBRoot (c_cfg c) \<noteq> '''' \<and> ob_WWN v \<noteq> '''' \<longrightarrow> aptpl_file (ob_WWN v) \<notin> set (c_prfiles c')))
    \<and> (warns_withheld out' \<longrightarrow> ob_UUID v \<in> fst ` set (c_withheld c'))"
proof -
  obtain q c1 where q: "reconcile env (c\<lparr>c_prClearing := ob_UUID v\<rparr>) = (q, c1)" by fastforce
  note Q = reconcile_withhold [OF q env]
  obtain rm err c2 where d: "discardSavedPRChecked (ob_WWN v) c1 = ((rm, err), c2)" by (metis prod.collapse)
  note D = discardSavedPRChecked_cases [OF d]
  have "calm c c1" "calm c1 c2" using Q D by simp_all
  then have c2: "calm c c2" "c_cfg c1 = c_cfg c" using calm_trans by (blast, simp add: calm_def)
  let ?o = "out\<lparr>cl_SavedRecordDiscarded := rm\<rparr>"
  have eq: "((out', e), c') = (case q of
      Some x \<Rightarrow> if x = Panicked then ((out, Some Panicked), c1) else recoverFromFailedPrune env out (ob_UUID v) c1
    | None \<Rightarrow> (case err of
        Some x \<Rightarrow> ((addWarning Withheld ?o, Some (StatusError StatusConflict CodeFenceDropped)), holdBack (ob_UUID v) (ob_Name v) c2)
      | None \<Rightarrow> restore_export env ?o (ob_UUID v) (releaseHold (ob_UUID v) c2)))"
    unfolding run [symmetric] clear_phases_def discard_and_restore_def q
    by (cases q) (simp_all add: d Let_def split: op_error.split)
  consider "e = Some Panicked" "c' = c1" "out' = out" | "recoverFromFailedPrune env out (ob_UUID v) c1 = ((out', e), c')"
    | "e = Some (StatusError StatusConflict CodeFenceDropped)" "c' = holdBack (ob_UUID v) (ob_Name v) c2"
    | "err = None" "restore_export env (out\<lparr>cl_SavedRecordDiscarded := rm\<rparr>) (ob_UUID v) (releaseHold (ob_UUID v) c2) = ((out', e), c')"
    using eq by (cases q; cases err) (simp_all split: if_splits)
  then show ?thesis
  proof cases
    case 1
    then show ?thesis using Q quiet by (auto simp: honest_def)
  next
    case 2
    then show ?thesis using recover_cases [OF 2 env] Q quiet calm_trans by blast
  next
    case 3
    then show ?thesis using c2(1) calm_trans [OF c2(1) calm_update(3)] by (auto simp: honest_def)
  next
    case 4
    note R = restore_export_cases [OF 4(2) env]
    then show ?thesis using 4(1) D c2 quiet calm_trans [OF calm_trans [OF c2(1) calm_update(4)]] by (auto simp del: image_iff)
  qed
qed

lemma exported_clearing [simp]: "exported (setClearing n c) = exported c" "c_kern (setClearing n c) = c_kern c"
  "c_withheld (setClearing n c) = c_withheld c" "c_prClearing (setClearing n c) = c_prClearing c" "c_prfiles (setClearing n c) = c_prfiles c"
  "c_cfg (setClearing n c) = c_cfg c"
  by (simp_all add: exported_def setClearing_def with_health_def)

lemma honest_clearing [simp]: "honest env u e (setClearing n c) = honest env u e c"
  by (simp add: honest_def read_unfenced_def)

lemma read_before_cases:
  assumes "read_before env v c = (r, c')" and "range_ok env"
  shows "settled c c' \<and> (\<forall>out. r = Some out \<longrightarrow> \<not> warns_withheld out)"
proof -
  obtain b c1 where b: "backstoreOf env (ob_UUID v) c = (b, c1)" by fastforce
  have "c' = c1" using assms(1) by (auto simp: read_before_def b Let_def split: option.splits)
  moreover have "\<forall>out. r = Some out \<longrightarrow> \<not> warns_withheld out"
    using assms(1) by (auto simp: read_before_def b Let_def warns_withheld_def no_clear_def addWarning_def split: option.splits sum.splits if_splits)
  ultimately show ?thesis using backstoreOf_settled [OF b assms(2)] by simp
qed

text \<open>The outcomes of the whole operation.\<close>

lemma ClearReservation_cases:
  assumes run: "ClearReservation env kind ref confirm c = ((out, e), c')" and env: "range_ok env"
  obtains (refused) "settled c c'" "e \<noteq> None" "e \<noteq> Some (StatusError StatusConflict CodeClearUnverified)" "\<not> warns_withheld out"
    | (phases) v c2 c3 out0 where "resolveObject (c_st c) kind ref = Some v" "ob_Name v = confirm" "calm c c2" "\<not> warns_withheld out0"
        "clear_phases env out0 v c2 = ((out, e), c3)" "c' = setClearing '''' c3"
proof (cases "\<exists>v. resolveObject (c_st c) kind ref = Some v \<and> ob_Name v = confirm \<and> ob_State v = stateReady")
  case False
  then have "c' = c \<and> e \<noteq> None \<and> e \<noteq> Some (StatusError StatusConflict CodeClearUnverified) \<and> \<not> warns_withheld out"
    using run by (auto simp: ClearReservation_def notFound_def split: option.splits if_splits)
  then show thesis using refused by simp
next
  case True
  then obtain v where v: "resolveObject (c_st c) kind ref = Some v" "ob_Name v = confirm" "ob_State v = stateReady" by blast
  obtain f c1 where h: "healIfDegraded env c = (f, c1)" by fastforce
  have s1: "settled c c1" using healIfDegraded_settled [OF h env] by simp
  have fe: "f \<noteq> Some (StatusError StatusConflict CodeClearUnverified)"
    using h by (auto simp: healIfDegraded_def split: if_splits prod.splits option.splits op_error.splits)
  obtain b c2 where b: "read_before env v c1 = (b, c2)" by fastforce
  have s2: "settled c c2" using settled_trans [OF s1] read_before_cases [OF b env] by blast
  show thesis
  proof (cases "f = None \<and> b \<noteq> None")
    case True
    then obtain out0 where o: "b = Some out0" "\<not> warns_withheld out0" using read_before_cases [OF b env] by auto
    obtain c3 where "clear_phases env out0 v (setClearing (ob_Name v) c2) = ((out, e), c3)" "c' = setClearing '''' c3"
      using run v h b o True by (auto simp: ClearReservation_def split: prod.splits)
    then show thesis using phases [OF v(1,2) _ o(2)] calm_trans [OF calm_settled [OF s2] calm_update(2)] by blast
  next
    case False
    then have "(c' = c1 \<or> c' = c2) \<and> e \<noteq> None \<and> e \<noteq> Some (StatusError StatusConflict CodeClearUnverified) \<and> \<not> warns_withheld out"
      using run v h b fe by (cases f; cases b) (auto simp: ClearReservation_def)
    then show thesis using refused s1 s2 by auto
  qed
qed

lemma ClearReservation_calm:
  assumes "ClearReservation env kind ref confirm c = ((out, e), c')" and "range_ok env"
  shows "calm c c'"
  using assms
proof (cases rule: ClearReservation_cases)
  case refused
  then show ?thesis by (simp add: calm_settled)
next
  case (phases v c2 c3 out0)
  then show ?thesis using clear_phases_cases [OF phases(5) assms(2)] calm_trans calm_update(2) by metis
qed

lemma ClearReservation_sound:
  "ClearReservation env kind ref confirm c = (r, c') \<Longrightarrow> range_ok env \<Longrightarrow> sound c \<Longrightarrow> sound c'"
  by (cases r) (blast intro: sound_calm ClearReservation_calm)

lemma ClearReservation_success:
  assumes run: "ClearReservation env kind ref confirm c = ((out, None), c')" and env: "range_ok env"
  obtains v where "resolveObject (c_st c) kind ref = Some v" "ob_Name v = confirm" "read_unfenced env c' (ob_UUID v)"
    "ac_DBRoot (c_cfg c) \<noteq> [] \<and> ob_WWN v \<noteq> [] \<longrightarrow> aptpl_file (ob_WWN v) \<notin> set (c_prfiles c')"
    "c_prClearing c' = []" "ob_UUID v \<notin> fst ` set (c_withheld c')"
  using run env
proof (cases rule: ClearReservation_cases)
  case (phases v c2 c3 out0)
  have P: "honest env (ob_UUID v) None c3" "c_prClearing c3 = []" "ob_UUID v \<notin> fst ` set (c_withheld c3)"
    "ac_DBRoot (c_cfg c2) \<noteq> [] \<and> ob_WWN v \<noteq> [] \<longrightarrow> aptpl_file (ob_WWN v) \<notin> set (c_prfiles c3)"
    using clear_phases_cases [OF phases(5) env phases(4)] by blast+
  have "c_cfg c2 = c_cfg c" using phases(3) by (simp add: calm_def)
  moreover have "read_unfenced env c' (ob_UUID v)" using P(1) phases(6) by (simp add: honest_def read_unfenced_def)
  ultimately show thesis using that [of v] phases(1,2,6) P(2-4) by simp
qed simp

text \<open>C3. A clear that reports success has established what it promises: the object confirmed by its name is
  either not exported or was read back from the kernel with a known, empty holder and a complete, empty
  list of registrations; its saved record is gone, nothing holds it back any more, and the database
  file and the records are as before.\<close>

theorem clear_success_proved:
  assumes run: "ClearReservation env kind ref confirm c = ((out, None), c')" and env: "range_ok env"
  shows "\<exists>v. resolveObject (c_st c) kind ref = Some v \<and> ob_Name v = confirm
    \<and> (ob_UUID v \<notin> set (exported c') \<or> (\<exists>bs st. bs_Name bs = backstoreName (ob_UUID v) \<and> e_PRState env bs (c_kern c') = Inr st
         \<and> pr_HolderKnown st \<and> pr_Holder st = '''' \<and> pr_Registrations st = [] \<and> \<not> pr_Truncated st))
    \<and> (ac_DBRoot (c_cfg c) \<noteq> '''' \<and> ob_WWN v \<noteq> '''' \<longrightarrow> aptpl_file (ob_WWN v) \<notin> set (c_prfiles c'))
    \<and> c_prClearing c' = '''' \<and> ob_UUID v \<notin> fst ` set (c_withheld c') \<and> c_disk c' = c_disk c \<and> grown (c_st c) (c_st c')"
proof -
  obtain v where v: "resolveObject (c_st c) kind ref = Some v" "ob_Name v = confirm" "read_unfenced env c' (ob_UUID v)"
    "ac_DBRoot (c_cfg c) \<noteq> [] \<and> ob_WWN v \<noteq> [] \<longrightarrow> aptpl_file (ob_WWN v) \<notin> set (c_prfiles c')"
    "c_prClearing c' = []" "ob_UUID v \<notin> fst ` set (c_withheld c')"
    by (rule ClearReservation_success [OF run env])
  have "c_disk c' = c_disk c" "grown (c_st c) (c_st c')" using ClearReservation_calm [OF run env] by (simp_all add: calm_def)
  then show ?thesis using v unfolding read_unfenced_def by (intro exI [of _ v]) simp
qed


section \<open>Examples\<close>

lemma demo_reconciles:
  assumes env: "range_ok env" "engine_ok env" and d: "c_st d = demo_db" "ac_TargetIQN (c_cfg d) = ac_TargetIQN (c_cfg demo)" and c: "calm d c"
  shows "fst (desiredLIO env c) \<noteq> None" "fst (reconcile env c) = None"
proof -
  have g: "good_db (c_st c)" using good_grown [of demo_db "c_st c"] c d(1) by (simp add: calm_def) (simp add: good_db_def)
  have "db_Portals (c_st c) = db_Portals demo_db" using c d(1) by (simp add: calm_def grown_sel)
  then have "valid_portals (portals c)" by (simp add: portals_def) (simp add: demo_db_def valid_portals_def)
  moreover have "ValidTargetIQN (ac_TargetIQN (c_cfg c))" using c d(2) demo_portals(2) by (simp add: calm_def)
  ultimately have "\<exists>cfg c'. desiredLIO env c = (Some cfg, c') \<and> valid_config cfg"
    using g env(1) by (intro desired_config_valid) (simp_all add: good_db_def)
  then show "fst (desiredLIO env c) \<noteq> None" by auto
  then show "fst (reconcile env c) = None" using reconcile_succeeds [OF env(2)] by blast
qed

text \<open>The first stages on the demonstration appliance: the object is withheld and the kernel pruned.\<close>

lemma demo_prunes:
  assumes env: "range_ok env" "engine_ok env"
    and d: "c_st d = demo_db" "ac_TargetIQN (c_cfg d) = ac_TargetIQN (c_cfg demo)" "c_lastReconcileErr d = None"
  shows "\<exists>out c1. ClearReservation env KindVolume ''data'' ''data'' d
      = (case discard_and_restore env out demo_volume c1 of (r, c3) \<Rightarrow> (r, setClearing [] c3))
    \<and> calm d c1 \<and> c_prfiles c1 = c_prfiles d \<and> c_os c1 = c_os d"
proof -
  have res: "resolveObject (c_st d) KindVolume ''data'' = Some demo_volume" "ob_Name demo_volume = ''data''" "ob_State demo_volume = stateReady"
    by (simp_all add: d(1) resolveObject_def objectByName_def demo_db_def demo_volume_def)
  have h: "healIfDegraded env d = (None, d)" using d(3) by (simp add: healIfDegraded_def)
  obtain b c0 where b: "backstoreOf env (ob_UUID demo_volume) d = (b, c0)" by fastforce
  have s0: "settled d c0" using backstoreOf_settled [OF b env(1)] by simp
  have "b \<noteq> None" using b demo_reconciles(1) [OF env d(1,2) calm_refl] by (auto simp: backstoreOf_def split: prod.splits option.splits)
  then have "\<exists>out. read_before env demo_volume d = (Some out, c0)"
    using b by (cases b; cases "the b") (auto simp: read_before_def Let_def)
  then obtain out where rb: "read_before env demo_volume d = (Some out, c0)" by blast
  let ?c = "(setClearing ''data'' c0)\<lparr>c_prClearing := ob_UUID demo_volume\<rparr>"
  have cc: "calm d (setClearing ''data'' c0)" "calm d ?c"
    using calm_trans [OF calm_settled [OF s0] calm_update(2)] calm_trans [OF _ calm_update(1)] by blast+
  obtain c1 where q: "reconcile env ?c = (None, c1)" using demo_reconciles(2) [OF env d(1,2) cc(2)] by (metis prod.collapse)
  note Q = reconcile_withhold [OF q env(1)]
  have "clear_phases env out demo_volume (setClearing ''data'' c0) = discard_and_restore env out demo_volume c1"
    by (simp add: clear_phases_def q)
  then have "ClearReservation env KindVolume ''data'' ''data'' d
      = (case discard_and_restore env out demo_volume c1 of (r, c3) \<Rightarrow> (r, setClearing [] c3))"
    using res h rb by (simp add: ClearReservation_def)
  moreover have "calm d c1" using Q cc(1) calm_trans by blast
  moreover have "c_prfiles c1 = c_prfiles d" "c_os c1 = c_os d"
    using Q s0 by (simp_all add: settled_def frame_def setClearing_def with_health_def)
  ultimately show ?thesis by blast
qed

text \<open>The engine reads no reservation on the backstore of the demonstration volume.\<close>

definition demo_unfenced :: "'k env \<Rightarrow> bool" where
  "demo_unfenced env \<longleftrightarrow> (\<forall>b k. bs_Type b = FileIO \<and> bs_Name b = backstoreName (ob_UUID demo_volume) \<longrightarrow>
     (\<exists>st. e_PRState env b k = Inr st \<and> pr_HolderKnown st \<and> pr_Holder st = [] \<and> pr_Registrations st = [] \<and> \<not> pr_Truncated st))"

lemma demo_clears:
  assumes env: "range_ok env" "engine_ok env" and u: "demo_unfenced env"
  shows "\<exists>out c'. ClearReservation env KindVolume ''data'' ''data'' demo = ((out, None), c')"
proof -
  obtain out c1 where run: "ClearReservation env KindVolume ''data'' ''data'' demo
      = (case discard_and_restore env out demo_volume c1 of (r, c3) \<Rightarrow> (r, setClearing [] c3))" and c1: "calm demo c1"
    using demo_prunes [OF env, of demo] by auto
  let ?c = "releaseHold (ob_UUID demo_volume) c1" and ?o = "out\<lparr>cl_SavedRecordDiscarded := False\<rparr>"
  have "discardSavedPRChecked (ob_WWN demo_volume) c1 = ((False, None), c1)"
    using c1 by (simp add: discardSavedPRChecked_def calm_def) (simp add: demo_def)
  then have dr: "discard_and_restore env out demo_volume c1 = restore_export env ?o (ob_UUID demo_volume) ?c"
    by (simp add: discard_and_restore_def)
  have cc: "calm demo (?c\<lparr>c_prClearing := []\<rparr>)" using c1 calm_trans calm_update(1,4) by blast
  obtain c2 where q: "reconcile env (?c\<lparr>c_prClearing := []\<rparr>) = (None, c2)"
    using demo_reconciles(2) [OF env _ _ cc] by (metis demo_st prod.collapse)
  have c2: "calm demo c2" using reconcile_withhold [OF q env(1)] calm_trans [OF c1 calm_update(4)] calm_trans by blast
  obtain b c3 where b: "backstoreOf env (ob_UUID demo_volume) c2 = (b, c3)" by fastforce
  have "b \<noteq> None" using b demo_reconciles(1) [OF env _ _ c2] by (auto simp: backstoreOf_def split: prod.splits option.splits)
  then have "verifyCleared env (ob_UUID demo_volume) c2 = (None, c3)"
  proof (cases "the b")
    case None
    then show ?thesis using b \<open>b \<noteq> None\<close> by (auto simp: verifyCleared_def fenceStateOf_def)
  next
    case (Some bs)
    obtain cfg where cfg: "desiredLIO env c2 = (Some cfg, c3)" "find (\<lambda>x. bs_Name x = backstoreName (ob_UUID demo_volume)) (cfg_Backstores cfg) = Some bs"
      using b Some \<open>b \<noteq> None\<close> by (auto simp: backstoreOf_def split: prod.splits option.splits)
    then have "bs \<in> set (cfg_Backstores cfg)" "bs_Name bs = backstoreName (ob_UUID demo_volume)" using find_Some_in by fast+
    moreover from this(1) have "bs_Type bs = FileIO" using desired_backstores_faithful [OF cfg(1) env(1)] by blast
    ultimately obtain st where "e_PRState env bs (c_kern c3) = Inr st" "pr_HolderKnown st" "pr_Holder st = []" "pr_Registrations st = []" "\<not> pr_Truncated st"
      using u unfolding demo_unfenced_def by blast
    then show ?thesis using b Some \<open>b \<noteq> None\<close> by (auto simp: verifyCleared_def fenceStateOf_def)
  qed
  then have "\<exists>o' c'. restore_export env ?o (ob_UUID demo_volume) ?c = ((o', None), c')" by (simp add: restore_export_def q)
  then show ?thesis using run dr by auto
qed

lemma demo_unfenced_idle: "demo_unfenced idle_env"
  by (simp add: demo_unfenced_def idle_env_def)

lemma clear_success_proved_witness:
  "\<exists>out c'. ClearReservation idle_env KindVolume ''data'' ''data'' demo = ((out, None), c') \<and> c_prClearing c' = '''' \<and> c_disk c' = Stored demo_db"
proof -
  obtain out c' where run: "ClearReservation idle_env KindVolume ''data'' ''data'' demo = ((out, None), c')" using demo_clears [OF range_ok_idle engine_ok_idle demo_unfenced_idle] by blast
  then show ?thesis using clear_success_proved [OF run range_ok_idle] by (auto simp: demo_def)
qed

text \<open>The same with a saved record that cannot be removed.\<close>

definition demo_stuck :: "unit coord" where
  "demo_stuck = demo\<lparr>c_cfg := (c_cfg demo)\<lparr>ac_DBRoot := ''/db''\<rparr>, c_prfiles := [aptpl_file (ob_WWN demo_volume)],
     c_os := quiet_os\<lparr>os_faults := [Some EROFS]\<rparr>\<rparr>"


end
