(* ===== verification/Appliance_API.thy ===== *)
theory Appliance_API
  imports Appliance_Clear
begin

text \<open>
  The appliance as a state machine: it is started, then serves one request after the other, each under
  the lock, while the operating system and the kernel change under it. The requests are the methods that
  the REST interface calls (appliance/rest.go) and the periodic check. The invariant is that the state
  stays sound, so that the database file can always be loaded again.
\<close>

datatype request =
    ReqCreate string CreateRequest
  | ReqRename string string string
  | ReqDelete string string
  | ReqResize string string int
  | ReqCreateHost string "string list"
  | ReqRenameHost string string
  | ReqSetBindings string "string list option" "string list" "string list"
  | ReqDeleteHost string
  | ReqConnect string string string int bool
  | ReqDisconnect string string string
  | ReqSetPortals "Portal list"
  | ReqClear string string string
  | ReqRecheck

fun perform :: "'k env \<Rightarrow> request \<Rightarrow> 'k coord \<Rightarrow> 'k coord" where
  "perform env (ReqCreate kind req) c = snd (Create kind req c)"
| "perform env (ReqRename kind ref newName) c = snd (Rename kind ref newName c)"
| "perform env (ReqDelete kind ref) c = snd (Delete env kind ref c)"
| "perform env (ReqResize kind ref newSize) c = snd (Resize env kind ref newSize c)"
| "perform env (ReqCreateHost name iqns) c = snd (CreateHost env name iqns c)"
| "perform env (ReqRenameHost ref newName) c = snd (RenameHost ref newName c)"
| "perform env (ReqSetBindings ref replace add remove) c = snd (SetBindings env ref replace add remove c)"
| "perform env (ReqDeleteHost ref) c = snd (DeleteHost env ref c)"
| "perform env (ReqConnect kind objectRef hostRef lun given) c = snd (Connect env kind objectRef hostRef lun given c)"
| "perform env (ReqDisconnect kind objectRef hostRef) c = snd (Disconnect env kind objectRef hostRef c)"
| "perform env (ReqSetPortals ps) c = snd (SetPortals env ps c)"
| "perform env (ReqClear kind ref confirm) c = snd (ClearReservation env kind ref confirm c)"
| "perform env ReqRecheck c = snd (RecheckPR env c)"

text \<open>
  What the surroundings grant a request: the routes name one of the two kinds, a minted identifier is not
  in use, and an index is left for one more exported object.
\<close>

fun admissible :: "request \<Rightarrow> 'k coord \<Rightarrow> bool" where
  "admissible (ReqCreate kind req) c = (known_kind kind \<and> fresh_rand c)"
| "admissible (ReqCreateHost name iqns) c = fresh_rand c"
| "admissible (ReqConnect kind objectRef hostRef lun given) c = (case resolveObject (c_st c) kind objectRef of
     None \<Rightarrow> True | Some v \<Rightarrow> room_for (ob_UUID v) (c_st c))"
| "admissible _ c = True"

text \<open>
  A run: a start on whatever a previous run left, then requests, interleaved with changes of the
  operating system (faults, randomness, time) and of the kernel.
\<close>

inductive running :: "'k env \<Rightarrow> 'k coord \<Rightarrow> bool" for env where
  started: "Open env fs cfg c0 = (None, c) \<Longrightarrow> bootable c0 \<Longrightarrow> running env c"
| served: "running env c \<Longrightarrow> admissible req c \<Longrightarrow> running env (perform env req c)"
| surroundings: "running env c \<Longrightarrow> running env (c\<lparr>c_os := w, c_kern := k\<rparr>)"

lemma RecheckPR_sound:
  assumes "RecheckPR env c = (r, c')" and "range_ok env" and "sound c"
  shows "sound c'"
proof -
  obtain d c1 where d: "desiredLIO env c = (d, c1)" by fastforce
  have "sound c1" using desiredLIO_settled [OF d assms(2)] sound_settled assms(3) by blast
  then show ?thesis
    using assms(1) by (auto simp: RecheckPR_def d publishPRCheck_def sound_health split: option.splits prod.splits)
qed

text \<open>The contracts of the operations, with the state after each as a projection.\<close>

lemmas sound_ops = Create_sound [OF prod.collapse [symmetric]] Rename_sound [OF prod.collapse [symmetric]]
  Delete_sound [OF prod.collapse [symmetric]] Resize_sound [OF prod.collapse [symmetric]]
  CreateHost_sound [OF prod.collapse [symmetric]] RenameHost_sound [OF prod.collapse [symmetric]]
  SetBindings_sound [OF prod.collapse [symmetric]] DeleteHost_sound [OF prod.collapse [symmetric]]
  Connect_sound [OF prod.collapse [symmetric]] Disconnect_sound [OF prod.collapse [symmetric]]
  SetPortals_sound [OF prod.collapse [symmetric]] ClearReservation_sound [OF prod.collapse [symmetric]]
  RecheckPR_sound [OF prod.collapse [symmetric]]

lemma perform_sound:
  assumes "range_ok env" and "admissible req c" and "sound c"
  shows "sound (perform env req c)"
  using assms by (cases req) (auto intro: sound_ops)

lemma running_sound:
  assumes "running env c" and "range_ok env"
  shows "sound c"
  using assms(1)
proof (induction rule: running.induct)
  case (started fs cfg c0 c)
  then show ?case using Open_sound assms(2) by blast
next
  case (served c req)
  then show ?case using perform_sound assms(2) by blast
next
  case (surroundings c w k)
  then show ?case by (simp add: sound_def good_def)
qed

lemma sound_translates:
  assumes "sound c" and "range_ok env"
  shows "fst (desiredLIO env c) \<noteq> None"
proof -
  have g: "loadable (c_st c)" "has_room (c_st c)" "sane_db (c_st c)" using assms(1) by (simp_all add: sound_def good_def good_db_def)
  have "set (e_range env (c_kern c) (exported c)) \<subseteq> cn_ObjectUUID ` set (db_Connections (c_st c))"
    using exported_connected [of c] range_set [OF assms(2)] by simp
  from desired_luns_result [OF this g] show ?thesis by (auto simp: desiredLIO_def Let_def)
qed

section \<open>Properties\<close>


lemma demo_bootable: "bootable demo"
  using demo_loadable demo_room demo_sane
  by (simp add: bootable_def good_db_def demo_def) (simp add: sized_def demo_db_def disk_size_def demo_volume_def)


lemma one_binding:
  assumes "distinct (concat (map h_IQNs hs))" and "h1 \<in> set hs" "h2 \<in> set hs" and "q \<in> set (h_IQNs h1)" "q \<in> set (h_IQNs h2)"
  shows "h1 = h2"
  using assms by (induction hs) auto

text \<open>What an initiator sees is unambiguous: in every state of a run, the configuration maps at most one
  backstore at each LUN of an initiator, so that a reconnecting initiator never finds another object
  where it left one.\<close>

lemma running_lun_unambiguous:
  assumes run: "running env c" and env: "range_ok env" and d: "desiredLIO env c = (Some cfg, c')"
    and a: "sees cfg iqn lun a" and b: "sees cfg iqn lun b"
  shows "a = b"
proof -
  have g: "good_db (c_st c)" using running_sound [OF run env] by (simp add: sound_def good_def)
  then have l: "loadable (c_st c)" "has_room (c_st c)" by (simp_all add: good_db_def)
  note view = sees_desired [OF d env l, of iqn lun]
  obtain h1 c1 where 1: "h1 \<in> set (db_Hosts (c_st c))" "c1 \<in> set (db_Connections (c_st c))" "iqn \<in> set (h_IQNs h1)"
    "cn_HostUUID c1 = h_UUID h1" "cn_LUN c1 = lun" "a = backstoreName (cn_ObjectUUID c1)" using a view by blast
  obtain h2 c2 where 2: "h2 \<in> set (db_Hosts (c_st c))" "c2 \<in> set (db_Connections (c_st c))" "iqn \<in> set (h_IQNs h2)"
    "cn_HostUUID c2 = h_UUID h2" "cn_LUN c2 = lun" "b = backstoreName (cn_ObjectUUID c2)" using b view by blast
  have "distinct (concat (map h_IQNs (db_Hosts (c_st c))))" using g by (simp add: good_db_iff valid_hosts_def)
  then have "h1 = h2" by (rule one_binding) (use 1 2 in simp_all)
  have "inj_on (\<lambda>x. (cn_HostUUID x, cn_LUN x)) (set (db_Connections (c_st c)))"
    using g by (simp add: good_db_iff valid_connections_def distinct_map)
  then have "c1 = c2" by (rule inj_onD) (use 1 2 \<open>h1 = h2\<close> in simp_all)
  then show ?thesis using 1(6) 2(6) by simp
qed

end
