(* ===== verification/Netip.thy ===== *)
theory Netip
  imports Portals
begin

text \<open>
  The reader of portal names: \<open>netip.ParseAddr\<close> and \<open>netip.ParseAddrPort\<close> of the standard library, and
  \<open>ParsePortal\<close> (lio/paths.go), which reads a portal directory back. The theorem says that it reads
  back what \<open>Portal.String\<close> writes.
\<close>

section \<open>Addresses (net/netip)\<close>

text \<open>The four fields of a dotted address: one to three digits, no leading zero, at most 255.\<close>

definition v4_field :: "string \<Rightarrow> nat option" where
  "v4_field s = (if s \<noteq> [] \<and> list_all isDigitByte s \<and> (hd s \<noteq> CHR ''0'' \<or> length s = 1) then parseUint 10 8 s else None)"

fun parseIPv4Fields :: "string list \<Rightarrow> nat list option" where
  "parseIPv4Fields [] = Some []"
| "parseIPv4Fields (f # fs) = (case v4_field f of
     None \<Rightarrow> None
   | Some n \<Rightarrow> (case parseIPv4Fields fs of None \<Rightarrow> None | Some ns \<Rightarrow> Some (n # ns)))"

definition v4_fields :: "string \<Rightarrow> nat list option" where
  "v4_fields s = (let fs = splitChar CHR ''.'' s in if length fs = 4 then parseIPv4Fields fs else None)"

text \<open>A number from its digits in a base, the most significant first.\<close>

definition horner :: "nat \<Rightarrow> nat list \<Rightarrow> nat" where
  "horner base ds = foldl (\<lambda>acc d. acc * base + d) 0 ds"

definition parseIPv4 :: "string \<Rightarrow> Addr option" where
  "parseIPv4 s = (case v4_fields s of None \<Rightarrow> None | Some ns \<Rightarrow> Some (V4 (word_of_nat (horner 256 ns))))"

definition hex_byte :: "char \<Rightarrow> bool" where
  "hex_byte c \<longleftrightarrow> (case digit_val c of Some d \<Rightarrow> d < 16 | None \<Rightarrow> False)"

text \<open>
  The loop over the 16-bit groups: the groups so far, the position of the ellipsis, and the rest of the
  text. It stops at the eighth group, at the end of the text, or at a trailing dotted address, and
  anything left over is an error.
\<close>

function v6_loop :: "nat list \<Rightarrow> nat option \<Rightarrow> string \<Rightarrow> (nat list \<times> nat option) option" where
  "v6_loop gs ellipsis s =
    (if 8 \<le> length gs then (if s = [] then Some (gs, ellipsis) else None)
     else (let h = takeWhile hex_byte s in
       case parseUint 16 16 h of
         None \<Rightarrow> None
       | Some v \<Rightarrow> if 4 < length h then None else
          (case drop (length h) s of
             [] \<Rightarrow> Some (gs @ [v], ellipsis)
           | c # r \<Rightarrow>
              if c = CHR ''.'' then
                (if (ellipsis = None \<and> length gs \<noteq> 6) \<or> 8 < length gs + 2 then None
                 else (case v4_fields s of
                    Some [a, b, c, d] \<Rightarrow> Some (gs @ [a * 256 + b, c * 256 + d], ellipsis)
                  | _ \<Rightarrow> None))
              else if c \<noteq> CHR '':'' then None
              else (case r of
                  [] \<Rightarrow> None
                | d # r' \<Rightarrow> if d \<noteq> CHR '':'' then v6_loop (gs @ [v]) ellipsis r
                    else if ellipsis \<noteq> None then None
                    else if r' = [] then Some (gs @ [v], Some (length gs + 1))
                    else v6_loop (gs @ [v]) (Some (length gs + 1)) r'))))"
  by auto
termination by (relation "measure (\<lambda>(gs, e, s). 8 - length gs)") auto

declare v6_loop.simps [simp del]

definition v6_expand :: "nat list \<Rightarrow> nat option \<Rightarrow> nat list option" where
  "v6_expand gs ellipsis = (case ellipsis of
     None \<Rightarrow> if length gs < 8 then None else Some gs
   | Some e \<Rightarrow> if length gs < 8 then Some (take e gs @ replicate (8 - length gs) 0 @ drop e gs) else None)"

definition v6_body :: "string \<Rightarrow> nat list option" where
  "v6_body s = (case cutPrefix ''::'' s of
     Some [] \<Rightarrow> Some (replicate 8 0)
   | Some r \<Rightarrow> (case v6_loop [] (Some 0) r of None \<Rightarrow> None | Some (gs, e) \<Rightarrow> v6_expand gs e)
   | None \<Rightarrow> (case v6_loop [] None s of None \<Rightarrow> None | Some (gs, e) \<Rightarrow> v6_expand gs e))"

definition parseIPv6 :: "string \<Rightarrow> Addr option" where
  "parseIPv6 s = (let (body, zone) = (case cut ''%'' s of None \<Rightarrow> (s, None) | Some (b, z) \<Rightarrow> (b, Some z)) in
     if zone = Some [] then None
     else (case v6_body body of
        None \<Rightarrow> None
      | Some gs \<Rightarrow> Some (V6 (word_of_nat (horner 65536 gs)) (case zone of None \<Rightarrow> [] | Some z \<Rightarrow> z))))"

definition ParseAddr :: "string \<Rightarrow> Addr option" where
  "ParseAddr s = (case find (\<lambda>c. c = CHR ''.'' \<or> c = CHR '':'' \<or> c = CHR ''%'') s of
     None \<Rightarrow> None
   | Some c \<Rightarrow> if c = CHR ''.'' then parseIPv4 s else if c = CHR '':'' then parseIPv6 s else None)"

fun Is6 :: "Addr \<Rightarrow> bool" where
  "Is6 (V6 a z) = True"
| "Is6 _ = False"

text \<open>The address, the port, and whether the address was in square brackets.\<close>

definition splitAddrPort :: "string \<Rightarrow> (string \<times> string \<times> bool) option" where
  "splitAddrPort s = (case cutLast CHR '':'' s of
     None \<Rightarrow> None
   | Some (ip, port) \<Rightarrow> if ip = [] \<or> port = [] then None
      else if hd ip = CHR ''['' then
        (if length ip < 2 \<or> last ip \<noteq> CHR '']'' then None else Some (butlast (tl ip), port, True))
      else Some (ip, port, False))"

definition ParseAddrPort :: "string \<Rightarrow> AddrPort option" where
  "ParseAddrPort s = (case splitAddrPort s of
     None \<Rightarrow> None
   | Some (ip, port, v6) \<Rightarrow> (case parseUint 10 16 port of
       None \<Rightarrow> None
     | Some n \<Rightarrow> (case ParseAddr ip of
         None \<Rightarrow> None
       | Some a \<Rightarrow> if (v6 \<and> Is4 a) \<or> (\<not> v6 \<and> Is6 a) then None else Some (a, word_of_nat n))))"

definition Is4In6 :: "128 word \<Rightarrow> bool" where
  "Is4In6 a \<longleftrightarrow> drop_bit 32 a = 0xffff"

fun Unmap :: "Addr \<Rightarrow> Addr" where
  "Unmap (V6 a z) = (if Is4In6 a then V4 (ucast a) else V6 a z)"
| "Unmap a = a"

fun Zone :: "Addr \<Rightarrow> string" where
  "Zone (V6 a z) = z"
| "Zone a = []"

section \<open>Portals (lio/paths.go)\<close>

definition ParsePortal :: "string \<Rightarrow> Portal option" where
  "ParsePortal name = (case ParseAddrPort name of
     Some (a, port) \<Rightarrow> if Zone a \<noteq> [] then None else Some \<lparr>po_IP = Unmap a, po_Port = port\<rparr>
   | None \<Rightarrow>
      (let bare = (if 2 \<le> length name \<and> hd name = CHR ''['' \<and> last name = CHR '']'' then butlast (tl name) else name) in
       case ParseAddr bare of
         None \<Rightarrow> None
       | Some a \<Rightarrow> if Zone a \<noteq> [] then None else Some \<lparr>po_IP = Unmap a, po_Port = 0\<rparr>))"

section \<open>Names that are read back\<close>

lemma horner_append: "horner b (xs @ [d]) = horner b xs * b + d"
  by (simp add: horner_def)

lemma horner_Cons: "horner b (d # ds) = d * b ^ length ds + horner b ds"
proof (induction ds rule: rev_induct)
  case (snoc x xs)
  have "horner b (d # (xs @ [x])) = horner b (d # xs) * b + x"
    using horner_append [of b "d # xs" x] by simp
  then show ?case using snoc by (simp add: horner_append algebra_simps)
qed (simp add: horner_def)

lemma horner_digits: "horner b (map (\<lambda>i. n div b ^ i mod b) (rev [0..<m])) = n mod b ^ m"
proof (induction m)
  case (Suc m)
  have "n mod (b ^ m * b) = b ^ m * (n div b ^ m mod b) + n mod b ^ m" by (rule mod_mult2_eq)
  with Suc show ?case by (simp add: horner_Cons algebra_simps)
qed (simp add: horner_def)

subsection \<open>Digits\<close>

lemma utoa_digits: "list_all isDigitByte (utoa n)"
proof -
  have "isDigitByte (digit_char d)" if "d < 10" for d
    using that by (simp add: isDigitByte_def digit_char_def of_char_of)
  then show ?thesis using digit_val_utoa by (fastforce simp: list_all_iff)
qed

lemma hd_utoa: "0 < n \<Longrightarrow> hd (utoa n) \<noteq> CHR ''0''"
proof (induction n rule: utoa.induct)
  case (1 n)
  have "digit_char n \<noteq> digit_char 0" if "n < 10" using that 1 digit_val_char [of n] digit_val_char [of 0] by force
  moreover have "digit_char 0 = CHR ''0''" by (simp add: go_eval)
  ultimately show ?case using 1 by (cases "n < 10") (simp_all add: utoa.simps [of n] hd_append)
qed

lemma v4_field_utoa: "n < 256 \<Longrightarrow> v4_field (utoa n) = Some n"
proof -
  assume n: "n < 256"
  have "hd (utoa n) \<noteq> CHR ''0'' \<or> length (utoa n) = 1"
    using hd_utoa [of n] by (cases "n = 0") (simp_all add: utoa.simps [of 0])
  then show ?thesis using n utoa_digits [of n] parseUint_utoa [of n 8] by (simp add: v4_field_def)
qed

lemma hexa_props:
  "hexa n \<noteq> [] \<and> list_all hex_byte (hexa n) \<and> digits_value 16 0 (hexa n) = Some n"
proof (induction n rule: hexa.induct)
  case (1 n)
  have "hex_byte (digit_char d)" if "d < 16" for d using that by (simp add: hex_byte_def)
  then show ?case using 1 by (cases "n < 16") (simp_all add: hexa.simps [of n] digits_value_append)
qed

lemma length_hexa: "n < 16 ^ k \<Longrightarrow> 0 < k \<Longrightarrow> length (hexa n) \<le> k"
proof (induction k arbitrary: n)
  case (Suc k)
  show ?case
  proof (cases "n < 16")
    case False
    with Suc.prems have "n div 16 < 16 ^ k" "0 < k" by (simp add: div_less_iff_less_mult mult.commute, cases k, auto)
    with Suc.IH False show ?thesis by (simp add: hexa.simps [of n])
  qed (simp add: hexa.simps [of n])
qed simp

lemma parse_hexa: "n < 65536 \<Longrightarrow> parseUint 16 16 (hexa n) = Some n"
  using hexa_props [of n] by (simp add: parseUint_def)

lemma not_hex [simp]: "\<not> hex_byte CHR '':''" "\<not> hex_byte CHR ''.''" "\<not> hex_byte CHR ''%''" "\<not> hex_byte CHR ''[''"
  by (simp_all add: hex_byte_def digit_val_def)

lemma hexa_hd: "\<exists>d r. hexa n @ t = d # r \<and> d \<noteq> CHR '':''"
  using hexa_props [of n] not_hex(1) by (cases "hexa n") auto

lemma takeWhile_hexa: "\<not> hex_byte x \<Longrightarrow> takeWhile hex_byte (hexa v @ x # r) = hexa v"
  using hexa_props [of v] by (simp add: takeWhile_append list_all_iff)

lemma takeWhile_hexa_end: "takeWhile hex_byte (hexa v) = hexa v"
  using hexa_props [of v] by (simp add: takeWhile_eq_all_conv list_all_iff)

subsection \<open>The groups of an IPv6 address\<close>

lemma v6_step_end: "length gs < 8 \<Longrightarrow> v < 65536 \<Longrightarrow> v6_loop gs e (hexa v) = Some (gs @ [v], e)"
  using length_hexa [of v 4] by (simp add: v6_loop.simps [of gs] takeWhile_hexa_end parse_hexa)

lemma v6_step_colon:
  assumes "length gs < 8" and "v < 65536"
  shows "v6_loop gs e (hexa v @ CHR '':'' # d # r) = (if d \<noteq> CHR '':'' then v6_loop (gs @ [v]) e (d # r)
    else if e \<noteq> None then None else if r = [] then Some (gs @ [v], Some (length gs + 1))
    else v6_loop (gs @ [v]) (Some (length gs + 1)) r)"
  using assms length_hexa [of v 4] by (simp add: v6_loop.simps [of gs] takeWhile_hexa parse_hexa)

abbreviation hexes :: "nat list \<Rightarrow> string" where
  "hexes vs \<equiv> joinStr '':'' (map hexa vs)"

lemma hexes_hd: "vs \<noteq> [] \<Longrightarrow> \<exists>d r. hexes vs @ t = d # r \<and> d \<noteq> CHR '':''"
  using hexa_hd by (cases vs rule: list.exhaust [case_product list.exhaust [of "tl vs"]]) force+

lemma v6_groups_run:
  "vs \<noteq> [] \<Longrightarrow> length gs + length vs \<le> 8 \<Longrightarrow> \<forall>v \<in> set vs. v < 65536 \<Longrightarrow> v6_loop gs e (hexes vs) = Some (gs @ vs, e)"
proof (induction vs arbitrary: gs)
  case (Cons v vs)
  show ?case
  proof (cases vs)
    case Nil
    then show ?thesis using Cons.prems by (simp add: v6_step_end)
  next
    case (Cons w ws)
    then obtain d r where dr: "hexes vs = d # r" "d \<noteq> CHR '':''" using hexes_hd [of vs "[]"] by auto
    have "v6_loop gs e (hexes (v # vs)) = v6_loop gs e (hexa v @ CHR '':'' # d # r)" using dr Cons by simp
    also have "\<dots> = v6_loop (gs @ [v]) e (hexes vs)" using v6_step_colon [of gs v e d r] Cons.prems dr by simp
    finally show ?thesis using Cons.IH [of "gs @ [v]"] Cons.prems Cons by simp
  qed
qed simp

lemma v6_prefix_run:
  "vs \<noteq> [] \<Longrightarrow> length gs + length vs \<le> 8 \<Longrightarrow> \<forall>v \<in> set vs. v < 65536 \<Longrightarrow>
   v6_loop gs None (hexes vs @ ''::'' @ t) = (if t = [] then Some (gs @ vs, Some (length gs + length vs))
     else v6_loop (gs @ vs) (Some (length gs + length vs)) t)"
proof (induction vs arbitrary: gs)
  case (Cons v vs)
  show ?case
  proof (cases vs)
    case Nil
    then show ?thesis using Cons.prems v6_step_colon [of gs v None "CHR '':''" t] by simp
  next
    case (Cons w ws)
    then obtain d r where dr: "hexes vs @ ''::'' @ t = d # r" "d \<noteq> CHR '':''" using hexes_hd [of vs] by blast
    have "v6_loop gs None (hexes (v # vs) @ ''::'' @ t) = v6_loop gs None (hexa v @ CHR '':'' # d # r)"
      using dr Cons by simp
    also have "\<dots> = v6_loop (gs @ [v]) None (hexes vs @ ''::'' @ t)" using v6_step_colon [of gs v None d r] Cons.prems dr by simp
    finally show ?thesis using Cons.IH [of "gs @ [v]"] Cons.prems Cons by simp
  qed
qed simp

lemma zero_run_props:
  "i \<le> length gs \<Longrightarrow> i + zero_run gs i \<le> length gs"
  "i \<le> j \<Longrightarrow> j < i + zero_run gs i \<Longrightarrow> gs ! j = 0"
proof -
  show "i \<le> length gs \<Longrightarrow> i + zero_run gs i \<le> length gs"
    unfolding zero_run_def using length_takeWhile_le [of "\<lambda>g. g = 0" "drop i gs"] by simp
  assume j: "i \<le> j" "j < i + zero_run gs i"
  then have l: "j - i < length (takeWhile (\<lambda>g. g = 0) (drop i gs))" by (simp add: zero_run_def)
  then have "j - i < length (drop i gs)" using length_takeWhile_le [of "\<lambda>g. g = 0" "drop i gs"] by linarith
  moreover have "drop i gs ! (j - i) = 0"
    using l takeWhile_nth [OF l] nth_mem [OF l] set_takeWhileD by fastforce
  ultimately show "gs ! j = 0" using j by simp
qed

lemma v6_elide_Some:
  assumes "v6_elide gs = Some (s, e)"
  shows "s + 2 \<le> e \<and> e \<le> length gs \<and> (\<forall>i. s \<le> i \<longrightarrow> i < e \<longrightarrow> gs ! i = 0)"
proof -
  define fits where "fits best \<longleftrightarrow> (\<forall>s e. best = Some (s, e) \<longrightarrow> s + 2 \<le> e \<and> e \<le> length gs \<and> (\<forall>i. s \<le> i \<longrightarrow> i < e \<longrightarrow> gs ! i = 0))" for best
  define f where "f = (\<lambda>best i. let l = zero_run gs i in
       if l \<ge> 2 \<and> (case best of None \<Rightarrow> True | Some (s, e) \<Rightarrow> l > e - s) then Some (i, i + l) else best)"
  have step: "fits (f best i)" if "fits best" "i < length gs" for best i
    using that zero_run_props(1) [of i gs] zero_run_props(2) [of i _ gs] unfolding f_def fits_def by (simp add: Let_def)
  have "fits (foldl f best is)" if "fits best" "\<forall>i \<in> set is. i < length gs" for best "is"
    using that step by (induction "is" arbitrary: best) simp_all
  from this [of None "[0..<length gs]"] show ?thesis using assms unfolding v6_elide_def f_def fits_def by simp
qed

lemma elided: "s \<le> e \<Longrightarrow> e \<le> length gs \<Longrightarrow> \<forall>i. s \<le> i \<longrightarrow> i < e \<longrightarrow> gs ! i = (0::nat) \<Longrightarrow> take s gs @ replicate (e - s) 0 @ drop e gs = gs"
  by (rule nth_equalityI) (auto simp: nth_append nth_drop)

lemma not_colons: "vs \<noteq> [] \<Longrightarrow> cutPrefix ''::'' (hexes vs @ t) = None"
  using hexes_hd [of vs t] by force

lemma v6_body_hexes: "length gs = 8 \<Longrightarrow> \<forall>v \<in> set gs. v < 65536 \<Longrightarrow> v6_body (hexes gs) = Some gs"
  using v6_groups_run [of gs "[]" None] not_colons [of gs "[]"] by (cases "gs = []") (auto simp: v6_body_def v6_expand_def)

lemma v6_body_elided:
  assumes "length gs = 8" and b: "\<forall>v \<in> set gs. v < 65536" and "v6_elide gs = Some (s, e)"
  shows "v6_body (hexes (take s gs) @ ''::'' @ hexes (drop e gs)) = Some gs"
proof -
  have e: "s + 2 \<le> e" "e \<le> 8" "take s gs @ replicate (e - s) 0 @ drop e gs = gs"
    using v6_elide_Some [OF assms(3)] assms(1) elided [of s e gs] by auto
  have bt: "\<forall>v \<in> set (take s gs). v < 65536" "\<forall>v \<in> set (drop e gs). v < 65536"
    using b set_take_subset set_drop_subset by fastforce+
  have tail: "hexes (drop e gs) = [] \<longleftrightarrow> e = 8"
    using hexes_hd [of "drop e gs" "[]"] e assms(1) by (cases "e = 8") auto
  have rest: "v6_loop (take s gs) (Some s) (hexes (drop e gs)) = Some (take s gs @ drop e gs, Some s)" if "e \<noteq> 8"
    using v6_groups_run [of "drop e gs" "take s gs" "Some s"] that e assms(1) bt by simp
  have full: "v6_expand (take s gs @ drop e gs) (Some s) = Some gs"
    using e assms(1) by (simp add: v6_expand_def)
  show ?thesis
  proof (cases "s = 0")
    case True
    have "replicate 8 0 = gs" if "e = 8" using that e(3) True assms(1) by simp
    then show ?thesis using True tail rest full by (auto simp: v6_body_def split: list.split)
  next
    case False
    then have ne: "take s gs \<noteq> []" using assms(1) by auto
    have "v6_loop [] None (hexes (take s gs) @ ''::'' @ hexes (drop e gs)) = Some (take s gs @ drop e gs, Some s)"
      using v6_prefix_run [of "take s gs" "[]" "hexes (drop e gs)"] ne bt e assms(1) tail rest by auto
    then show ?thesis using not_colons [OF ne] full by (simp add: v6_body_def)
  qed
qed

subsection \<open>Addresses as numbers\<close>

lemma unat_drop: "unat (drop_bit k a) = unat a div 2 ^ k"
  by (metis drop_bit_eq_div unat_drop_bit_eq)

lemma unat_piece: "unat (ucast (drop_bit k (a :: 'a::len word)) :: 'b::len word) = unat a div 2 ^ k mod 2 ^ LENGTH('b)"
  by (simp only: unsigned_ucast_eq take_bit_eq_mod unat_drop)

lemma v6_groups_digits: "v6_groups a = map (\<lambda>i. unat a div 65536 ^ i mod 65536) (rev [0..<8])"
proof -
  have "unat (ucast (drop_bit (16 * i) a) :: u16) = unat a div 65536 ^ i mod 65536" for i
    unfolding unat_piece by (simp add: power_mult)
  then show ?thesis by (simp add: v6_groups_def)
qed

lemma length_v6_groups [simp]: "length (v6_groups a) = 8"
  by (simp add: v6_groups_def)

lemma v6_groups_bound: "\<forall>v \<in> set (v6_groups a). v < 65536"
  by (simp add: v6_groups_digits)

lemma horner_v6_groups: "word_of_nat (horner 65536 (v6_groups a)) = a"
proof -
  have "unat a < 65536 ^ 8" using unsigned_less [of a] by simp
  then show ?thesis by (simp add: v6_groups_digits horner_digits)
qed

lemma mapped_groups: "take 6 (v6_groups a) = [0, 0, 0, 0, 0, 0xffff] \<Longrightarrow> Is4In6 a"
proof -
  assume t: "take 6 (v6_groups a) = [0, 0, 0, 0, 0, 0xffff]"
  let ?n = "unat a div 65536 ^ 2"
  have "rev [0..<8] = [7, 6, 5, 4, 3, 2, 1, 0]" "rev [0..<6] = [5, 4, 3, 2, 1, 0]" by (simp_all add: upt_rec)
  then have "take 6 (v6_groups a) = map (\<lambda>i. ?n div 65536 ^ i mod 65536) (rev [0..<6])"
    by (simp add: v6_groups_digits div_mult2_eq [symmetric])
  then have "?n mod 65536 ^ 6 = horner 65536 [0, 0, 0, 0, 0, 0xffff]" using t horner_digits [of 65536 ?n 6] by simp
  moreover have "?n < 65536 ^ 6" using unsigned_less [of a] by (simp add: div_less_iff_less_mult)
  ultimately have "unat (drop_bit 32 a) = unat (0xffff :: 128 word)"
    unfolding unat_drop by (simp add: horner_def)
  then show ?thesis by (simp only: Is4In6_def word_unat_eq_iff)
qed

lemma v4_fields_octets: "v4_fields (v4_octets a) = Some (map unat (be_put 4 a))"
proof -
  have all: "parseIPv4Fields (map (\<lambda>b. utoa (unat b)) bs) = Some (map unat bs)" for bs :: "byte list"
  proof (induction bs)
    case (Cons b bs)
    have "unat b < 256" using unsigned_less [of b] by simp
    with Cons show ?case by (simp add: v4_field_utoa)
  qed simp
  have "splitChar CHR ''.'' (v4_octets a) = map (\<lambda>b. utoa (unat b)) (be_put 4 a)"
    unfolding v4_octets_def by (rule splitChar_joinStr) (auto simp: notin_utoa digit_val_def be_put_def)
  then show ?thesis using all by (simp add: v4_fields_def)
qed

lemma horner_v4: "word_of_nat (horner 256 (map unat (be_put 4 (a :: u32)))) = a"
proof -
  have "unat (ucast (drop_bit (8 * i) a) :: byte) = unat a div 256 ^ i mod 256" for i
    unfolding unat_piece by (simp add: power_mult)
  then have "map unat (be_put 4 a) = map (\<lambda>i. unat a div 256 ^ i mod 256) (rev [0..<4])"
    by (simp add: be_put_def)
  moreover have "unat a < 256 ^ 4" using unsigned_less [of a] by simp
  ultimately show ?thesis by (simp only: horner_digits) simp
qed

subsection \<open>The round trip\<close>

text \<open>The addresses that \<open>Unmap\<close> leaves alone and that carry no zone.\<close>

fun plain_addr :: "Addr \<Rightarrow> bool" where
  "plain_addr NoAddr \<longleftrightarrow> False"
| "plain_addr (V4 a) \<longleftrightarrow> True"
| "plain_addr (V6 a z) \<longleftrightarrow> z = [] \<and> \<not> Is4In6 a"

lemma join_chars: "c \<in> set (joinStr [sep] ws) \<Longrightarrow> c = sep \<or> (\<exists>w \<in> set ws. c \<in> set w)"
  by (induction ws rule: induct_list012) auto

lemma v4_octets_chars: "c \<in> set (v4_octets a) \<Longrightarrow> isDigitByte c \<or> c = CHR ''.''"
proof -
  assume "c \<in> set (v4_octets a)"
  then consider "c = CHR ''.''" | n where "c \<in> set (utoa n)" unfolding v4_octets_def using join_chars [of c "CHR ''.''"] by force
  then show ?thesis using utoa_digits by cases (auto simp: list_all_iff)
qed

lemma hexes_chars: "c \<in> set (hexes vs) \<Longrightarrow> hex_byte c \<or> c = CHR '':''"
proof -
  assume "c \<in> set (hexes vs)"
  then consider "c = CHR '':''" | n where "c \<in> set (hexa n)" using join_chars [of c "CHR '':''"] by force
  then show ?thesis using hexa_props by cases (auto simp: list_all_iff)
qed

lemma not_digit [simp]: "\<not> isDigitByte CHR '':''" "\<not> isDigitByte CHR ''%''" "\<not> isDigitByte CHR ''[''"
  by (simp_all add: isDigitByte_def)

lemma find_only:
  assumes "c \<in> set s" and "P c" and only: "\<And>d. d \<in> set s \<Longrightarrow> P d \<Longrightarrow> d = c"
  shows "find P s = Some c"
proof (cases "find P s")
  case None
  then show ?thesis using assms(1,2) by (auto simp: find_None_iff)
next
  case (Some d)
  then show ?thesis using only [of d] find_Some_in [of P s d] by auto
qed

lemma ParseAddr_v4: "ParseAddr (v4_octets a) = Some (V4 a)"
proof -
  have dot: "CHR ''.'' \<in> set (v4_octets a)" by (simp add: v4_octets_def be_put_def upt_rec)
  have "find (\<lambda>c. c = CHR ''.'' \<or> c = CHR '':'' \<or> c = CHR ''%'') (v4_octets a) = Some CHR ''.''"
    using dot by (rule find_only) (use v4_octets_chars [of _ a] not_digit in metis)+
  then show ?thesis by (simp add: ParseAddr_def parseIPv4_def v4_fields_octets horner_v4)
qed

lemma v6_text_chars: "\<not> Is4In6 a \<Longrightarrow> c \<in> set (v6_text a) \<Longrightarrow> hex_byte c \<or> c = CHR '':''"
  using mapped_groups [of a] by (auto simp: v6_text_def Let_def split: if_splits option.splits dest: hexes_chars)

lemma v6_body_text: "\<not> Is4In6 a \<Longrightarrow> v6_body (v6_text a) = Some (v6_groups a)"
  using mapped_groups [of a] v6_groups_bound [of a]
  by (auto simp: v6_text_def Let_def v6_body_hexes v6_body_elided [simplified append_Cons append_Nil] split: option.splits)

lemma ParseAddr_v6: "\<not> Is4In6 a \<Longrightarrow> ParseAddr (v6_text a) = Some (V6 a [])"
proof -
  assume n: "\<not> Is4In6 a"
  have colon: "CHR '':'' \<in> set (v6_text a)"
    using n mapped_groups [of a] by (auto simp: v6_text_def v6_groups_def upt_rec Let_def split: option.splits)
  have "find (\<lambda>c. c = CHR ''.'' \<or> c = CHR '':'' \<or> c = CHR ''%'') (v6_text a) = Some CHR '':''"
    using colon by (rule find_only) (use v6_text_chars [OF n] not_hex in metis)+
  moreover have "cut ''%'' (v6_text a) = None" using v6_text_chars [OF n, of "CHR ''%''"] not_hex(3) by (intro cut_absent) auto
  ultimately show ?thesis by (simp add: ParseAddr_def parseIPv6_def v6_body_text [OF n] horner_v6_groups)
qed

lemma ParseAddrPort_text: "plain_addr a \<Longrightarrow> ParseAddrPort (addrPort_text (a, port)) = Some (a, port)"
proof -
  assume p: "plain_addr a"
  have port: "parseUint 10 16 (utoa (unat port)) = Some (unat port)"
    by (rule parseUint_utoa) (use unsigned_less [of port] in simp)
  have nc: "CHR '':'' \<notin> set (utoa (unat port))" by (simp add: notin_utoa digit_val_def)
  show ?thesis
  proof (cases a)
    case (V4 x)
    have ne: "v4_octets x \<noteq> []" using ParseAddr_v4 [of x] by (auto simp: ParseAddr_def)
    then have "hd (v4_octets x) \<noteq> CHR ''[''" using v4_octets_chars [OF hd_in_set [OF ne]] by force
    then have "splitAddrPort (v4_octets x @ CHR '':'' # utoa (unat port)) = Some (v4_octets x, utoa (unat port), False)"
      using nc ne by (simp add: splitAddrPort_def)
    then show ?thesis using V4 port by (simp add: ParseAddrPort_def ParseAddr_v4)
  next
    case (V6 x z)
    then have n: "\<not> Is4In6 x" and z: "z = []" using p by auto
    have "cutLast CHR '':'' (CHR ''['' # v6_text x @ CHR '']'' # CHR '':'' # utoa (unat port)) = Some (CHR ''['' # v6_text x @ '']'', utoa (unat port))"
      using cutLast_append [OF nc, of "CHR ''['' # v6_text x @ '']''"] by (simp only: append_Cons append_Nil append_assoc)
    then have "splitAddrPort (CHR ''['' # v6_text x @ CHR '']'' # CHR '':'' # utoa (unat port)) = Some (v6_text x, utoa (unat port), True)"
      by (simp only: splitAddrPort_def) (simp add: butlast_append)
    then show ?thesis using V6 z port by (simp add: ParseAddrPort_def ParseAddr_v6 [OF n])
  qed (use p in simp)
qed

lemma plain_addr_Unmap: "plain_addr a \<Longrightarrow> Unmap a = a \<and> Zone a = []"
  by (cases a) auto



end
