(* ===== verification/Lio_Discover.thy ===== *)
theory Lio_Discover
  imports Netip Lio_Report
begin

text \<open>
  Reading the live tree back (lio/backstore.go, iscsi.go, config.go): \<open>Discover\<close> rebuilds a
  configuration from what the kernel shows, \<open>lunRefCounts\<close> counts what exports a device, and
  \<open>VerifyDrift\<close> compares the attributes of exported devices. An absent attribute is ordinary; one that
  cannot be read is an error.
\<close>

section \<open>Loops that collect\<close>

text \<open>A loop that appends to its result, or ends the function with an error.\<close>

fun collect :: "('a \<Rightarrow> 'e + 'b list) \<Rightarrow> 'a list \<Rightarrow> 'e + 'b list" where
  "collect f [] = Inr []"
| "collect f (x # xs) = and_then (f x) (\<lambda>ys. and_then (collect f xs) (\<lambda>zs. Inr (ys @ zs)))"

lemma collect_Inr: "collect f xs = Inr zs \<Longrightarrow> \<exists>g. (\<forall>x \<in> set xs. f x = Inr (g x)) \<and> zs = concat (map g xs)"
proof (induction xs arbitrary: zs)
  case (Cons x xs)
  then obtain ys rest where x: "f x = Inr ys" and r: "collect f xs = Inr rest" and z: "zs = ys @ rest" by auto
  from Cons.IH [OF r] obtain g where g: "\<forall>x \<in> set xs. f x = Inr (g x)" "rest = concat (map g xs)" by blast
  let ?g = "\<lambda>y. if f y = Inr ys then ys else g y"
  have "\<forall>y \<in> set (x # xs). f y = Inr (?g y)" using x g by auto
  moreover have "?g y = g y" if "y \<in> set xs" for y using g(1) that by auto
  then have "concat (map ?g (x # xs)) = zs" using x g z by (simp cong: map_cong)
  ultimately show ?case by (intro exI [of _ ?g] conjI) simp_all
qed simp

lemma collect_app: "collect f xs = Inr zs \<Longrightarrow> x \<in> set xs \<Longrightarrow> \<exists>ys. f x = Inr ys \<and> set ys \<subseteq> set zs"
  by (drule collect_Inr) auto

lemma collect_from: "collect f xs = Inr zs \<Longrightarrow> z \<in> set zs \<Longrightarrow> \<exists>x \<in> set xs. \<exists>ys. f x = Inr ys \<and> z \<in> set ys"
  by (drule collect_Inr) auto

section \<open>Readings\<close>

definition notADir :: "cause \<Rightarrow> bool" where
  "notADir err \<longleftrightarrow> IsNotExist err \<or> err = Errno ENOTDIR"

definition sortedKeys :: "string_map \<Rightarrow> string list" where
  "sortedKeys m = sort (keys_once (map fst m))"

text \<open>An attribute that may be absent; any other failure is the error of the object.\<close>

definition read_opt :: "view \<Rightarrow> string \<Rightarrow> path \<Rightarrow> Error + string option" where
  "read_opt fs obj p = (case ReadAttr fs p of
     Inl e \<Rightarrow> if IsNotExist e then Inr None else Inl (errf KindConfigfs ''discover'' obj e)
   | Inr v \<Rightarrow> Inr (Some v))"

definition value_or :: "string option \<Rightarrow> string" where
  "value_or v = (case v of None \<Rightarrow> '''' | Some s \<Rightarrow> s)"

definition read_dir :: "view \<Rightarrow> string \<Rightarrow> path \<Rightarrow> Error + string list" where
  "read_dir fs obj p = (case ReadDir fs p of Inl e \<Rightarrow> Inl (errf KindConfigfs ''discover'' obj e) | Inr ns \<Rightarrow> Inr ns)"

definition is_dir :: "view \<Rightarrow> string \<Rightarrow> path \<Rightarrow> Error + bool" where
  "is_dir fs obj p = (case IsDir fs p of Inl e \<Rightarrow> Inl (errf KindConfigfs ''discover'' obj e) | Inr d \<Rightarrow> Inr d)"

text \<open>The attributes among \<open>keys\<close> that the kernel exposes.\<close>

definition read_attrs :: "view \<Rightarrow> string \<Rightarrow> path \<Rightarrow> string list \<Rightarrow> Error + string_map" where
  "read_attrs fs obj p keys = collect (\<lambda>k. and_then (read_opt fs (obj @ '' attrib/'' @ k) (p @ [''attrib'', k]))
     (\<lambda>v. Inr (case v of None \<Rightarrow> [] | Some s \<Rightarrow> [(k, s)]))) keys"

section \<open>Backstores (backstore.go)\<close>

definition discoveredBackstoreAttrs :: "string list" where
  "discoveredBackstoreAttrs = [''block_size'', ''emulate_write_cache'', ''emulate_tpu'', ''emulate_tpws'', ''optimal_sectors'']"

text \<open>The size and the backing mode, which only the info line shows.\<close>

definition info_fields :: "string \<Rightarrow> string option \<Rightarrow> Error + int \<times> bool" where
  "info_fields obj info = (case info of
     None \<Rightarrow> Inr (0, False)
   | Some s \<Rightarrow> if parseInfoSize s < 0
       then Inl (errf KindConfigfs ''discover'' (obj @ '' info'') (Msg ''cannot read the size out of %q'' [trimSpace s]))
       else if parseInfoMode s = ''Buffered-WCE'' then Inr (parseInfoSize s, True)
       else if parseInfoMode s = ''O_DSYNC'' then Inr (parseInfoSize s, False)
       else Inl (errf KindConfigfs ''discover'' (obj @ '' info'') (Msg ''cannot read the backing mode out of %q'' [trimSpace s])))"

definition discover_object :: "view \<Rightarrow> string \<Rightarrow> string \<Rightarrow> int \<Rightarrow> string \<Rightarrow> Error + Backstore" where
  "discover_object fs hba plugin hbaIdx name =
    (let p = [''core'', hba, name]; id = ''core/'' @ hba @ ''/'' @ name in
     and_then (read_opt fs (id @ '' udev_path'') (p @ [''udev_path''])) (\<lambda>dev.
     and_then (read_opt fs (id @ '' vpd_unit_serial'') (p @ [''wwn'', ''vpd_unit_serial''])) (\<lambda>serial.
     and_then (read_opt fs (id @ '' vendor_id'') (p @ [''wwn'', ''vendor_id''])) (\<lambda>vendor.
     and_then (read_opt fs (id @ '' product_id'') (p @ [''wwn'', ''product_id''])) (\<lambda>product.
     and_then (read_opt fs (id @ '' revision'') (p @ [''wwn'', ''revision''])) (\<lambda>revision.
     and_then (read_opt fs (id @ '' info'') (p @ [''info''])) (\<lambda>info.
     and_then (info_fields id info) (\<lambda>(size, buffered).
     and_then (read_attrs fs id p discoveredBackstoreAttrs) (\<lambda>attrs.
     Inr \<lparr>bs_Type = plugin, bs_HBA = hbaIdx, bs_Name = name, bs_Dev = value_or dev, bs_BufferedIO = buffered,
       bs_Size = size, bs_WWN = (case serial of None \<Rightarrow> '''' | Some s \<Rightarrow> lastField s CHR '':''),
       bs_VendorID = value_or vendor, bs_ProductID = value_or product, bs_Revision = value_or revision,
       bs_Attributes = attrs\<rparr>)))))))))"

definition discover_hba :: "view \<Rightarrow> string \<Rightarrow> Error + Backstore list" where
  "discover_hba fs hba = (case splitLast hba CHR ''_'' of
     None \<Rightarrow> Inr []
   | Some (plugin, idx) \<Rightarrow> (case atoi_go idx of
       None \<Rightarrow> Inr []
     | Some hbaIdx \<Rightarrow>
        and_then (read_dir fs (''core/'' @ hba) [''core'', hba]) (collect (\<lambda>name.
          and_then (is_dir fs (''core/'' @ hba @ ''/'' @ name) [''core'', hba, name]) (\<lambda>d.
          if d then and_then (discover_object fs hba plugin hbaIdx name) (\<lambda>b. Inr [b]) else Inr [])))))"

definition discoverBackstores :: "view \<Rightarrow> Error + Backstore list" where
  "discoverBackstores fs = (case ReadDir fs [''core''] of
     Inl e \<Rightarrow> if IsNotExist e then Inr [] else Inl (errf KindConfigfs ''discover'' ''core'' e)
   | Inr hbas \<Rightarrow> collect (discover_hba fs) hbas)"

section \<open>Targets (iscsi.go)\<close>

definition discoveredTPGAttrs :: "string list" where
  "discoveredTPGAttrs = [''authentication'', ''cache_dynamic_acls'', ''default_cmdsn_depth'', ''default_erl'',
     ''demo_mode_discovery'', ''demo_mode_write_protect'', ''fabric_prot_type'', ''generate_node_acls'',
     ''login_keys_workaround'', ''login_timeout'', ''prod_mode_write_protect'', ''t10_pi'', ''tpg_enabled_sendtargets'']"

text \<open>The target of the first link of a directory, empty when there is none.\<close>

definition link_of :: "view \<Rightarrow> string \<Rightarrow> path \<Rightarrow> Error + string" where
  "link_of fs obj p = (case FindSymlink fs p of Inl e \<Rightarrow> Inl (errf KindConfigfs ''discover'' obj e) | Inr (n, t) \<Rightarrow> Inr t)"

definition discover_lun :: "view \<Rightarrow> string \<Rightarrow> int \<Rightarrow> string \<Rightarrow> Error + LUN list" where
  "discover_lun fs iqn tag ld = (case parseLUN ld of
     None \<Rightarrow> Inr []
   | Some idx \<Rightarrow>
      and_then (link_of fs (''iscsi/'' @ iqn @ ''/tpgt_'' @ itoa tag @ '' lun_'' @ itoa idx) (lunPath iqn tag idx)) (\<lambda>target.
      Inr [\<lparr>lun_Index = idx, lun_Backstore = (if target = '''' then '''' else lastPathSegment target)\<rparr>]))"

definition discover_mapped :: "view \<Rightarrow> string \<Rightarrow> int \<Rightarrow> string \<Rightarrow> string \<Rightarrow> Error + MappedLUN list" where
  "discover_mapped fs iqn tag aclName c = (case parseLUN c of
     None \<Rightarrow> Inr []
   | Some idx \<Rightarrow>
      and_then (link_of fs (''acls/'' @ aclName @ '' lun_'' @ itoa idx) (mappedLunPath iqn tag aclName idx)) (\<lambda>target.
      and_then (read_opt fs (''acls/'' @ aclName @ '' write_protect'') (mappedLunPath iqn tag aclName idx @ [''write_protect''])) (\<lambda>wp.
      Inr [\<lparr>ml_Index = idx, ml_TPGLUN = (if target = '''' then 0 else lunIndexFromPath target),
        ml_WriteProtect = (wp = Some ''1'')\<rparr>])))"

definition discover_acl :: "view \<Rightarrow> string \<Rightarrow> int \<Rightarrow> string \<Rightarrow> Error + ACL list" where
  "discover_acl fs iqn tag aclName =
    and_then (is_dir fs (''iscsi/'' @ iqn @ ''/tpgt_'' @ itoa tag @ '' acls/'' @ aclName) (aclPath iqn tag aclName)) (\<lambda>d.
     if \<not> d then Inr []
     else and_then (read_dir fs (''acls/'' @ aclName) (aclPath iqn tag aclName)) (\<lambda>children.
       and_then (collect (discover_mapped fs iqn tag aclName) children) (\<lambda>mls.
       Inr [\<lparr>acl_InitiatorIQN = aclName, acl_MappedLUNs = mls\<rparr>])))"

definition discoverTPG :: "view \<Rightarrow> string \<Rightarrow> int \<Rightarrow> Error + TPG" where
  "discoverTPG fs iqn tag =
    (let id = ''iscsi/'' @ iqn @ ''/tpgt_'' @ itoa tag; p = tpgPath iqn tag in
     and_then (read_opt fs (id @ '' enable'') (p @ [''enable''])) (\<lambda>en.
     and_then (read_attrs fs id p discoveredTPGAttrs) (\<lambda>attrs.
     and_then (read_dir fs (''iscsi/'' @ iqn @ '' np'') (p @ [''np''])) (\<lambda>nps.
     and_then (read_dir fs (''iscsi/'' @ iqn @ '' lun'') (p @ [''lun''])) (\<lambda>lds.
     and_then (collect (discover_lun fs iqn tag) lds) (\<lambda>luns.
     and_then (read_dir fs (''iscsi/'' @ iqn @ '' acls'') (p @ [''acls''])) (\<lambda>as.
     and_then (collect (discover_acl fs iqn tag) as) (\<lambda>acls.
     Inr \<lparr>tpg_Tag = tag, tpg_Enable = (en = Some ''1''), tpg_Portals = List.map_filter ParsePortal nps,
       tpg_LUNs = luns, tpg_ACLs = acls, tpg_Attributes = attrs\<rparr>))))))))"

definition discover_target :: "view \<Rightarrow> string \<Rightarrow> Error + Target list" where
  "discover_target fs iqn =
    (if iqn = ''discovery_auth'' \<or> iqn = ''lio_version'' then Inr []
     else and_then (is_dir fs (''iscsi/'' @ iqn) [''iscsi'', iqn]) (\<lambda>d.
       if \<not> d then Inr []
       else and_then (read_dir fs (''iscsi/'' @ iqn) [''iscsi'', iqn]) (\<lambda>tds.
         and_then (collect (\<lambda>td. case parseTPGT td of
             None \<Rightarrow> Inr []
           | Some tag \<Rightarrow> and_then (discoverTPG fs iqn tag) (\<lambda>g. Inr [g])) tds) (\<lambda>tpgs.
         Inr [\<lparr>tgt_IQN = iqn, tgt_TPGs = tpgs\<rparr>]))))"

definition discoverTargets :: "view \<Rightarrow> Error + Target list" where
  "discoverTargets fs = (case ReadDir fs [''iscsi''] of
     Inl e \<Rightarrow> if IsNotExist e then Inr [] else Inl (errf KindConfigfs ''discover'' ''iscsi'' e)
   | Inr iqns \<Rightarrow> collect (discover_target fs) iqns)"

section \<open>The whole tree (config.go)\<close>

definition Discover :: "view \<Rightarrow> Error + Config" where
  "Discover fs = (case IsDir fs [] of
     Inl e \<Rightarrow> Inl (errf KindConfigfs ''discover'' DefaultRoot e)
   | Inr d \<Rightarrow> if \<not> d then Inl (errf KindConfigfs ''discover'' DefaultRoot NoLIOTree)
      else and_then (discoverBackstores fs) (\<lambda>bs. and_then (discoverTargets fs) (\<lambda>ts.
        Inr \<lparr>cfg_Backstores = bs, cfg_Targets = ts\<rparr>)))"

definition DBRoot :: "view \<Rightarrow> Error + string" where
  "DBRoot fs = (case ReadAttr fs [''dbroot''] of
     Inl e \<Rightarrow> Inl (errf KindConfigfs ''read'' ''dbroot'' e)
   | Inr v \<Rightarrow> if hasPrefix ''/'' (trimSpace v) then Inr (trimSpace v)
      else Inl (errf KindKernelRejected ''read'' ''dbroot'' (Msg ''kernel reported a non-absolute db_root %q'' [trimSpace v])))"

section \<open>What exports a device (backstore.go)\<close>

text \<open>The listing of a directory in the walk: what is not a directory holds nothing.\<close>

definition walk_dir :: "view \<Rightarrow> path \<Rightarrow> cause + string list" where
  "walk_dir fs p = (case ReadDir fs p of Inl e \<Rightarrow> if notADir e then Inr [] else Inl e | Inr ns \<Rightarrow> Inr ns)"

text \<open>
  The walk over the fabric. The tally of a Go map is kept as the list of the link targets found, one
  entry for each link; the count of a backstore is how often its path occurs.
\<close>

definition lunRefCounts :: "view \<Rightarrow> cause + string list" where
  "lunRefCounts fs = (case ReadDir fs [''iscsi''] of
     Inl e \<Rightarrow> if IsNotExist e then Inr [] else Inl e
   | Inr iqns \<Rightarrow> collect (\<lambda>iqn. and_then (walk_dir fs [''iscsi'', iqn]) (collect (\<lambda>tpg.
       if \<not> hasPrefix ''tpgt_'' tpg then Inr []
       else and_then (walk_dir fs [''iscsi'', iqn, tpg, ''lun'']) (collect (\<lambda>lun.
         case FindSymlink fs [''iscsi'', iqn, tpg, ''lun'', lun] of
           Inl e \<Rightarrow> if notADir e then Inr [] else Inl e
         | Inr (n, target) \<Rightarrow> Inr (if target = '''' then [] else [target])))))) iqns)"

definition countLUNRefs :: "view \<Rightarrow> Backstore \<Rightarrow> cause + nat" where
  "countLUNRefs fs b = and_then (lunRefCounts fs) (\<lambda>ts. Inr (count_list ts (Path (objPath b))))"

definition driftNote :: "Backstore \<Rightarrow> string \<Rightarrow> string \<Rightarrow> string \<Rightarrow> AttrDrift" where
  "driftNote b key cur want = \<lparr>ad_Backstore = bs_Name b, ad_Type = bs_Type b, ad_Attr = key, ad_Live = cur,
     ad_Desired = want, ad_Err = None\<rparr>"

definition driftUnknown :: "Backstore \<Rightarrow> string \<Rightarrow> cause \<Rightarrow> AttrDrift" where
  "driftUnknown b key e = \<lparr>ad_Backstore = bs_Name b, ad_Type = bs_Type b, ad_Attr = key, ad_Live = '''',
     ad_Desired = '''', ad_Err = Some e\<rparr>"

definition attr_drift :: "view \<Rightarrow> Backstore \<Rightarrow> string \<Rightarrow> AttrDrift list" where
  "attr_drift fs b k = (case ReadAttr fs (objPath b @ [''attrib'', k]) of
     Inl e \<Rightarrow> [driftUnknown b k e]
   | Inr cur \<Rightarrow> if Some cur = map_of (bs_Attributes b) k then []
      else [driftNote b k cur (value_or (map_of (bs_Attributes b) k))])"

definition backstore_drift :: "view \<Rightarrow> cause + string list \<Rightarrow> Backstore \<Rightarrow> AttrDrift list" where
  "backstore_drift fs counts b = (case counts of
     Inl e \<Rightarrow> [driftUnknown b '''' e]
   | Inr ts \<Rightarrow> (case Configfs.Exists fs (objPath b) of
       Inl e \<Rightarrow> [driftUnknown b '''' e]
     | Inr there \<Rightarrow> if \<not> there \<or> count_list ts (Path (objPath b)) = 0 then []
        else concat (map (attr_drift fs b) (sortedKeys (bs_Attributes b)))))"

definition VerifyDrift :: "view \<Rightarrow> Config \<Rightarrow> AttrDrift list" where
  "VerifyDrift fs cfg = concat (map (backstore_drift fs (lunRefCounts fs)) (cfg_Backstores cfg))"

end
