(* ===== verification/Lio_Engine.thy ===== *)
theory Lio_Engine
  imports Lio_Discover
begin

text \<open>
  The engine of package \<open>lio\<close> (backstore.go, iscsi.go, removal.go, sync.go, delta.go, config.go): every
  function that changes the kernel's tree. A pass threads the state of the kernel, the log of changes
  and the drift through its steps, and stops at the first error.
\<close>

section \<open>Passes\<close>

record 'k Manager =
  m_fs :: "'k kernel"
  m_aptplRecords :: "(Backstore \<Rightarrow> 'k \<Rightarrow> cause + string list) option"

record 'k applyCtx =
  a_kern :: 'k
  a_changes :: "string list"
  a_drift :: "AttrDrift list"

type_synonym 'k step = "'k applyCtx \<Rightarrow> Error option \<times> 'k applyCtx"

definition fresh_ctx :: "'k \<Rightarrow> 'k applyCtx" where
  "fresh_ctx k = \<lparr>a_kern = k, a_changes = [], a_drift = []\<rparr>"

definition done_step :: "'k step" where
  "done_step a = (None, a)"

definition fail_step :: "Error \<Rightarrow> 'k step" where
  "fail_step e a = (Some e, a)"

definition add_note :: "string \<Rightarrow> 'k step" where
  "add_note s a = (None, a\<lparr>a_changes := a_changes a @ [s]\<rparr>)"

definition add_drift :: "AttrDrift list \<Rightarrow> 'k step" where
  "add_drift ds a = (None, a\<lparr>a_drift := a_drift a @ ds\<rparr>)"

definition then_step :: "'k step \<Rightarrow> 'k step \<Rightarrow> 'k step" where
  "then_step f g a = (case f a of (Some e, a1) \<Rightarrow> (Some e, a1) | (None, a1) \<Rightarrow> g a1)"

fun each_step :: "('x \<Rightarrow> 'k step) \<Rightarrow> 'x list \<Rightarrow> 'k step" where
  "each_step f [] = done_step"
| "each_step f (x # xs) = then_step (f x) (each_step f xs)"

text \<open>A reading of the tree as it now is, and a system call whose failure ends the pass.\<close>

definition read_step :: "'k Manager \<Rightarrow> (view \<Rightarrow> Error + 'x) \<Rightarrow> ('x \<Rightarrow> 'k step) \<Rightarrow> 'k step" where
  "read_step M r f a = (case r (k_view (m_fs M) (a_kern a)) of Inl e \<Rightarrow> (Some e, a) | Inr x \<Rightarrow> f x a)"

definition call_step :: "('k \<Rightarrow> cause option \<times> 'k) \<Rightarrow> (cause \<Rightarrow> Error) \<Rightarrow> 'k step" where
  "call_step op wrap a = (case op (a_kern a) of (r, k) \<Rightarrow> (map_option wrap r, a\<lparr>a_kern := k\<rparr>))"

definition kind_of_create :: "cause \<Rightarrow> Kind \<Rightarrow> Kind" where
  "kind_of_create c fallback = (case c of Errno e \<Rightarrow> classifyCreate e fallback | _ \<Rightarrow> fallback)"

definition kind_of_remove :: "cause \<Rightarrow> Kind \<Rightarrow> Kind" where
  "kind_of_remove c fallback = (case c of Errno e \<Rightarrow> classifyRemove e fallback | _ \<Rightarrow> fallback)"

definition wrap :: "Kind \<Rightarrow> string \<Rightarrow> string \<Rightarrow> cause + 'x \<Rightarrow> Error + 'x" where
  "wrap kind op obj r = (case r of Inl e \<Rightarrow> Inl (errf kind op obj e) | Inr x \<Rightarrow> Inr x)"

text \<open>The steps that recur: make a directory, write an attribute, remove a directory.\<close>

definition mkdir_step :: "'k Manager \<Rightarrow> Kind \<Rightarrow> string \<Rightarrow> path \<Rightarrow> 'k step" where
  "mkdir_step M fallback obj p = call_step (Mkdir (m_fs M) p) (\<lambda>e. errf (kind_of_create e fallback) ''apply'' obj e)"

definition write_step :: "'k Manager \<Rightarrow> string \<Rightarrow> string \<Rightarrow> path \<Rightarrow> 'k step" where
  "write_step M obj val p = call_step (WriteAttr (m_fs M) val p) (errf KindKernelRejected ''apply'' obj)"

definition rmdir_step :: "'k Manager \<Rightarrow> string \<Rightarrow> string \<Rightarrow> path \<Rightarrow> 'k step" where
  "rmdir_step M op obj p = call_step (Rmdir (m_fs M) p) (\<lambda>e. errf (kind_of_remove e KindBusy) op obj e)"

section \<open>Backstores (backstore.go)\<close>

definition backstore_id :: "Backstore \<Rightarrow> string" where
  "backstore_id b = ''backstore/'' @ bs_Type b @ ''/'' @ bs_Name b"

definition immutableWhileExported :: "view \<Rightarrow> Backstore \<Rightarrow> cause \<Rightarrow> bool" where
  "immutableWhileExported fs b err = (if err \<noteq> Errno EINVAL then False
     else (case countLUNRefs fs b of Inl e \<Rightarrow> False | Inr n \<Rightarrow> n > 0))"

definition wwnDirFields :: "Backstore \<Rightarrow> (string \<times> string) list" where
  "wwnDirFields b = [(''vendor_id'', bs_VendorID b), (''product_id'', bs_ProductID b), (''revision'', bs_Revision b)]"

text \<open>The attributes to apply, and the drift to report, given the info line of the live device.\<close>

definition constrainWriteCache :: "Backstore \<Rightarrow> string \<Rightarrow> string_map \<times> AttrDrift list" where
  "constrainWriteCache b info = (case map_of (bs_Attributes b) ''emulate_write_cache'' of
     None \<Rightarrow> (bs_Attributes b, [])
   | Some want \<Rightarrow>
      if bs_Type b \<noteq> FileIO \<or> info = '''' \<or> parseInfoMode info = '''' then (bs_Attributes b, [])
      else (let live = (if parseInfoMode info = ''Buffered-WCE'' then ''1'' else ''0'') in
        if live = want then (bs_Attributes b, [])
        else ((''emulate_write_cache'', live) # filter (\<lambda>(k, v). k \<noteq> ''emulate_write_cache'') (bs_Attributes b),
              [driftNote b ''emulate_write_cache'' live want])))"

definition validateAttr :: "view \<Rightarrow> Backstore \<Rightarrow> string \<Rightarrow> string \<Rightarrow> cause option" where
  "validateAttr fs b key val =
    (if key = ''block_size'' then
       (if val \<in> set [''512'', ''1024'', ''2048'', ''4096''] then None
        else Some (Msg ''block_size %q is not one of 512, 1024, 2048, 4096'' [val]))
     else if key = ''emulate_write_cache'' then
       (if val = ''0'' \<or> val = ''1'' then None else Some (Msg ''emulate_write_cache %q is not 0 or 1'' [val]))
     else if key = ''optimal_sectors'' then
       (case atoi_go val of
          None \<Rightarrow> Some (Msg ''optimal_sectors %q is not a non-negative integer'' [val])
        | Some n \<Rightarrow> if n < 0 then Some (Msg ''optimal_sectors %q is not a non-negative integer'' [val])
           else (case ReadAttr fs (objPath b @ [''attrib'', ''hw_max_sectors'']) of
              Inl e \<Rightarrow> None
            | Inr raw \<Rightarrow> (case atoi_go raw of
                None \<Rightarrow> None
              | Some maxSectors \<Rightarrow> if maxSectors \<le> 0 then None
                 else if n > maxSectors then Some (Msg ''optimal_sectors %d exceeds this device's hw_max_sectors (%d)'' [itoa n, itoa maxSectors])
                 else None)))
     else None)"

definition defaultBlockSize :: int where "defaultBlockSize = 512"

definition blockSize :: "Backstore \<Rightarrow> int" where
  "blockSize b = (case map_of (bs_Attributes b) ''block_size'' of
     None \<Rightarrow> defaultBlockSize
   | Some v \<Rightarrow> (case parseInt10 v of None \<Rightarrow> defaultBlockSize | Some n \<Rightarrow> if n > 0 then n else defaultBlockSize))"

definition bufferedOpt :: "Backstore \<Rightarrow> string" where
  "bufferedOpt b = (if bs_BufferedIO b then '',fd_buffered_io=1'' else '''')"

definition not_multiple :: "int \<Rightarrow> int \<Rightarrow> cause" where
  "not_multiple sz bs = Msg ''size %d is not a multiple of block_size %d; the kernel would truncate the trailing partial block'' [itoa sz, itoa bs]"

definition controlString :: "view \<Rightarrow> Backstore \<Rightarrow> cause + string" where
  "controlString fs b =
    (if bs_Type b = FileIO then
       and_then (if bs_Size b \<noteq> 0 then Inr (bs_Size b)
         else (case v_backing fs (bs_Dev b) of
             Inl e \<Rightarrow> Inl (Msg ''cannot stat backing file %q'' [bs_Dev b])
           | Inr regular \<Rightarrow> Inr (case regular of None \<Rightarrow> 0 | Some n \<Rightarrow> n))) (\<lambda>size.
       if size > 0 then
         (if size mod blockSize b \<noteq> 0 then Inl (not_multiple size (blockSize b))
          else Inr (''fd_dev_name='' @ bs_Dev b @ '',fd_dev_size='' @ itoa size @ bufferedOpt b))
       else Inr (''fd_dev_name='' @ bs_Dev b @ bufferedOpt b))
     else if bs_Type b = IBlock then Inr (''udev_path='' @ bs_Dev b)
     else Inl (Msg ''unsupported backstore type %q'' [bs_Type b]))"

definition load_record :: "'k Manager \<Rightarrow> Backstore \<Rightarrow> string \<Rightarrow> 'k step" where
  "load_record M b rec = (if trimSpace rec = '''' then done_step
     else then_step (write_step M (backstore_id b @ '' pr/res_aptpl_metadata'') rec (objPath b @ [''pr'', ''res_aptpl_metadata'']))
       (add_note (''restored PR registration on '' @ backstore_id b)))"

definition loadAPTPL :: "'k Manager \<Rightarrow> Backstore \<Rightarrow> 'k step" where
  "loadAPTPL M b = (case m_aptplRecords M of
     None \<Rightarrow> done_step
   | Some records \<Rightarrow> (\<lambda>a. case records b (a_kern a) of
       Inl e \<Rightarrow> (Some (errf KindInvalidSpec ''apply'' (backstore_id b @ '' pr/res_aptpl_metadata'') e), a)
     | Inr recs \<Rightarrow> each_step (load_record M b) recs a))"

text \<open>The live half of \<open>reconcileBackstoreMutable\<close>: identity, attributes, size.\<close>

definition reconcile_serial :: "'k Manager \<Rightarrow> Backstore \<Rightarrow> 'k step" where
  "reconcile_serial M b = (if bs_WWN b = '''' then done_step
     else (let p = objPath b @ [''wwn'', ''vpd_unit_serial''] in
       read_step M (\<lambda>fs. wrap KindConfigfs ''apply'' (backstore_id b) (ReadAttr fs p)) (\<lambda>raw.
         if lastField raw CHR '':'' = bs_WWN b then done_step
         else then_step (write_step M (backstore_id b @ '' wwn'') (bs_WWN b) p)
           (add_note (backstore_id b @ '' wwn='' @ bs_WWN b)))))"

definition reconcile_field :: "'k Manager \<Rightarrow> Backstore \<Rightarrow> string \<times> string \<Rightarrow> 'k step" where
  "reconcile_field M b f = (case f of (key, val) \<Rightarrow>
     if val = '''' then done_step
     else (let p = objPath b @ [''wwn'', key]; obj = backstore_id b @ '' wwn/'' @ key in
       read_step M (\<lambda>fs. wrap KindConfigfs ''apply'' obj (ReadAttr fs p)) (\<lambda>cur.
         if cur = val then done_step
         else then_step (write_step M obj val p) (add_note (obj @ ''='' @ val)))))"

definition write_attr :: "'k Manager \<Rightarrow> Backstore \<Rightarrow> string \<Rightarrow> string \<Rightarrow> string \<Rightarrow> 'k step" where
  "write_attr M b k cur want a =
    (let obj = backstore_id b @ '' attrib/'' @ k in
     case WriteAttr (m_fs M) want (objPath b @ [''attrib'', k]) (a_kern a) of
       (None, k1) \<Rightarrow> add_note (obj @ ''='' @ want) (a\<lparr>a_kern := k1\<rparr>)
     | (Some e, k1) \<Rightarrow> if \<not> immutableWhileExported (k_view (m_fs M) k1) b e
         then (Some (errf KindKernelRejected ''apply'' obj e), a\<lparr>a_kern := k1\<rparr>)
         else add_drift [driftNote b k cur want] (a\<lparr>a_kern := k1\<rparr>))"

definition reconcile_attr :: "'k Manager \<Rightarrow> Backstore \<Rightarrow> string_map \<Rightarrow> string \<Rightarrow> 'k step" where
  "reconcile_attr M b attrs k =
    (let want = value_or (map_of attrs k); obj = backstore_id b @ '' attrib/'' @ k in
     read_step M (\<lambda>fs. wrap KindConfigfs ''apply'' obj (ReadAttr fs (objPath b @ [''attrib'', k]))) (\<lambda>cur.
       if cur = want then done_step
       else read_step M (\<lambda>fs. case validateAttr fs b k want of
           Some e \<Rightarrow> Inl (errf KindKernelRejected ''apply'' obj e) | None \<Rightarrow> Inr ())
         (\<lambda>_. write_attr M b k cur want)))"

definition reconcile_size :: "'k Manager \<Rightarrow> Backstore \<Rightarrow> string \<Rightarrow> 'k step" where
  "reconcile_size M b info =
    (if bs_Size b \<le> 0 \<or> bs_Type b \<noteq> FileIO then done_step
     else (let cur = parseInfoSize info; bs = blockSize b; idb = backstore_id b in
       if cur < 0 then fail_step (errf KindConfigfs ''apply'' (idb @ '' size'') (Msg ''cannot parse size from fileio info %q'' [info]))
       else if bs_Size b - bs_Size b mod bs = cur - cur mod bs then done_step
       else if bs_Size b < cur
         then fail_step (errf KindIncompatible ''apply'' idb (Msg ''size %d < current %d (shrink unsupported)'' [itoa (bs_Size b), itoa cur]))
       else if bs_Size b mod bs \<noteq> 0 then fail_step (errf KindInvalidSpec ''apply'' idb (not_multiple (bs_Size b) bs))
       else then_step (write_step M (idb @ '' resize'') (''fd_dev_name='' @ bs_Dev b @ '',fd_dev_size='' @ itoa (bs_Size b)) (objPath b @ [''control'']))
         (add_note (idb @ '' size='' @ itoa (bs_Size b)))))"

definition read_info :: "Backstore \<Rightarrow> view \<Rightarrow> Error + string" where
  "read_info b fs = (if bs_Type b = FileIO then wrap KindConfigfs ''apply'' (backstore_id b @ '' info'') (ReadAttr fs (objPath b @ [''info'']))
     else Inr '''')"

definition reconcileBackstoreMutable :: "'k Manager \<Rightarrow> Backstore \<Rightarrow> 'k step" where
  "reconcileBackstoreMutable M b =
    then_step (reconcile_serial M b)
    (then_step (each_step (reconcile_field M b) (wwnDirFields b))
    (read_step M (read_info b) (\<lambda>info.
      case constrainWriteCache b info of (attrs, drift) \<Rightarrow>
      then_step (add_drift drift)
      (then_step (each_step (reconcile_attr M b attrs) (sortedKeys attrs))
      (reconcile_size M b info)))))"

text \<open>Whether the object is live: it exists, is enabled, and serves the wanted path.\<close>

definition live_backstore :: "Backstore \<Rightarrow> view \<Rightarrow> Error + bool" where
  "live_backstore b fs = (let idb = backstore_id b; p = objPath b in
     and_then (wrap KindConfigfs ''apply'' idb (Configfs.Exists fs p)) (\<lambda>there.
     if \<not> there then Inr False
     else (case ReadAttr fs (p @ [''enable'']) of
        Inl e \<Rightarrow> if IsNotExist e then Inr False
          else Inl (errf KindConfigfs ''apply'' idb (Msg ''the object exists but its enable state could not be read'' []))
      | Inr enabled \<Rightarrow> if enabled \<noteq> ''1'' then Inr False
         else and_then (wrap KindConfigfs ''apply'' idb (ReadAttr fs (p @ [''udev_path'']))) (\<lambda>cur.
           if cur \<noteq> bs_Dev b then Inl (errf KindIncompatible ''apply'' idb (Msg ''backing path is %q, want %q'' [cur, bs_Dev b]))
           else Inr True))))"

definition create_attr :: "'k Manager \<Rightarrow> Backstore \<Rightarrow> string \<Rightarrow> 'k step" where
  "create_attr M b k = write_step M (backstore_id b @ '' attrib/'' @ k) (value_or (map_of (bs_Attributes b) k)) (objPath b @ [''attrib'', k])"

definition create_field :: "'k Manager \<Rightarrow> Backstore \<Rightarrow> string \<times> string \<Rightarrow> 'k step" where
  "create_field M b f = (case f of (key, val) \<Rightarrow> if val = '''' then done_step
     else write_step M (backstore_id b @ '' wwn/'' @ key) val (objPath b @ [''wwn'', key]))"

definition create_backstore :: "'k Manager \<Rightarrow> Backstore \<Rightarrow> 'k step" where
  "create_backstore M b = (let idb = backstore_id b; p = objPath b in
     then_step (mkdir_step M KindConfigfs idb (hbaPath b))
    (then_step (mkdir_step M KindConfigfs idb p)
    (read_step M (\<lambda>fs. wrap KindInvalidSpec ''apply'' idb (controlString fs b)) (\<lambda>control.
     then_step (write_step M idb control (p @ [''control'']))
    (then_step (write_step M idb (bs_Dev b) (p @ [''udev_path'']))
    (then_step (loadAPTPL M b)
    (then_step (write_step M idb ''1'' (p @ [''enable'']))
    (then_step (each_step (create_attr M b) (sortedKeys (bs_Attributes b)))
    (then_step (each_step (create_field M b) (wwnDirFields b))
    (then_step (if bs_WWN b = '''' then done_step else write_step M idb (bs_WWN b) (p @ [''wwn'', ''vpd_unit_serial'']))
    (add_note (''created '' @ idb))))))))))))"

definition ensureBackstore :: "'k Manager \<Rightarrow> Backstore \<Rightarrow> 'k step" where
  "ensureBackstore M b = (case backstore_validate b of
     Some e \<Rightarrow> fail_step (errf KindInvalidSpec ''apply'' (backstore_id b) e)
   | None \<Rightarrow> read_step M (live_backstore b) (\<lambda>live.
       if live then reconcileBackstoreMutable M b else create_backstore M b))"

definition removeBackstore :: "'k Manager \<Rightarrow> Backstore \<Rightarrow> 'k step" where
  "removeBackstore M b =
     then_step (rmdir_step M ''remove'' (backstore_id b) (objPath b))
    (then_step (\<lambda>a. (None, a\<lparr>a_kern := snd (Rmdir (m_fs M) (hbaPath b) (a_kern a))\<rparr>))
    (add_note (''removed '' @ backstore_id b)))"

section \<open>Targets (iscsi.go)\<close>

definition exists_step :: "'k Manager \<Rightarrow> string \<Rightarrow> string \<Rightarrow> path \<Rightarrow> (bool \<Rightarrow> 'k step) \<Rightarrow> 'k step" where
  "exists_step M op obj p f = read_step M (\<lambda>fs. wrap KindConfigfs op obj (Configfs.Exists fs p)) f"

definition ensurePortal :: "'k Manager \<Rightarrow> string \<Rightarrow> int \<Rightarrow> Portal \<Rightarrow> 'k step" where
  "ensurePortal M iqn tag p = (let obj = ''portal/'' @ iqn @ ''/'' @ portal_String p in
     exists_step M ''apply'' obj (portalPath iqn tag p) (\<lambda>there. if there then done_step
       else then_step (mkdir_step M KindKernelRejected obj (portalPath iqn tag p)) (add_note (''created '' @ obj))))"

text \<open>\<open>unlinkAll\<close> returns its error unwrapped; the caller wraps it.\<close>

fun unlink_links :: "'k Manager \<Rightarrow> path \<Rightarrow> string list \<Rightarrow> 'k \<Rightarrow> cause option \<times> 'k" where
  "unlink_links M dir [] k = (None, k)"
| "unlink_links M dir (l # ls) k = (case Unlink (m_fs M) (dir @ [l]) k of
     (Some e, k1) \<Rightarrow> (Some e, k1) | (None, k1) \<Rightarrow> unlink_links M dir ls k1)"

definition unlinkAll :: "'k Manager \<Rightarrow> path \<Rightarrow> 'k \<Rightarrow> cause option \<times> 'k" where
  "unlinkAll M dir k = (case ListSymlinks (k_view (m_fs M) k) dir of
     Inl e \<Rightarrow> if IsNotExist e then (None, k) else (Some e, k)
   | Inr links \<Rightarrow> unlink_links M dir links k)"

text \<open>\<open>alias\<close>: five random bytes in hexadecimal.\<close>

definition alias_name :: "'k Manager \<Rightarrow> 'k \<Rightarrow> string \<times> 'k" where
  "alias_name M k = (case k_random (m_fs M) 5 k of (bytes, k1) \<Rightarrow> (concat (map hex2 bytes), k1))"

text \<open>Make the link from a new alias in \<open>dir\<close> to \<open>target\<close>.\<close>

definition link_step :: "'k Manager \<Rightarrow> string \<Rightarrow> string \<Rightarrow> path \<Rightarrow> 'k step" where
  "link_step M obj target dir = call_step (\<lambda>k. case alias_name M k of (name, k1) \<Rightarrow> Symlink (m_fs M) target (dir @ [name]) k1)
     (errf KindKernelRejected ''apply'' obj)"

text \<open>
  The wiring that a LUN and a mapped LUN share: leave a link that is right, re-point one that is wrong
  in place, link a directory that has none, and make the directory when it is absent.
\<close>

definition wire_step :: "'k Manager \<Rightarrow> string \<Rightarrow> string \<Rightarrow> path \<Rightarrow> (string \<Rightarrow> string) \<Rightarrow> string \<Rightarrow> 'k step \<Rightarrow> 'k step" where
  "wire_step M obj want dir repointed created after =
    (let link = then_step (link_step M obj want dir) (then_step (add_note created) after) in
     exists_step M ''apply'' obj dir (\<lambda>there.
       if \<not> there then then_step (mkdir_step M KindKernelRejected obj dir) link
       else read_step M (\<lambda>fs. wrap KindConfigfs ''apply'' obj (FindSymlink fs dir)) (\<lambda>(name, cur).
         if cur = want then after
         else if cur = '''' then link
         else then_step (call_step (unlinkAll M dir) (errf KindKernelRejected ''apply'' obj))
           (then_step (add_note (repointed cur)) link))))"

definition ensureLUN :: "'k Manager \<Rightarrow> (string \<Rightarrow> Backstore option) \<Rightarrow> string \<Rightarrow> int \<Rightarrow> LUN \<Rightarrow> 'k step" where
  "ensureLUN M backstoreByName iqn tag l = (let obj = ''lun/'' @ iqn @ ''/lun_'' @ itoa (lun_Index l) in
     case backstoreByName (lun_Backstore l) of
       None \<Rightarrow> fail_step (errf KindDependency ''apply'' obj (Msg ''references unknown backstore %q'' [lun_Backstore l]))
     | Some bs \<Rightarrow> wire_step M obj (Path (objPath bs)) (lunPath iqn tag (lun_Index l))
         (\<lambda>cur. ''re-pointing '' @ obj @ '' (was -> '' @ lastPathSegment cur @ '')'')
         (''created '' @ obj @ '' -> '' @ lun_Backstore l) done_step)"

definition ensureWriteProtect :: "'k Manager \<Rightarrow> string \<Rightarrow> int \<Rightarrow> string \<Rightarrow> MappedLUN \<Rightarrow> string \<Rightarrow> 'k step" where
  "ensureWriteProtect M iqn tag initiator m obj =
    (let want = (if ml_WriteProtect m then ''1'' else ''0'');
         p = mappedLunPath iqn tag initiator (ml_Index m) @ [''write_protect'']; o2 = obj @ '' write_protect'' in
     read_step M (\<lambda>fs. wrap KindConfigfs ''apply'' o2 (ReadAttr fs p)) (\<lambda>cur.
       if cur = want then done_step else then_step (write_step M o2 want p) (add_note (o2 @ ''='' @ want))))"

definition ensureMappedLUN :: "'k Manager \<Rightarrow> string \<Rightarrow> int \<Rightarrow> string \<Rightarrow> MappedLUN \<Rightarrow> 'k step" where
  "ensureMappedLUN M iqn tag initiator m = (let obj = ''mappedlun/'' @ initiator @ ''/lun_'' @ itoa (ml_Index m) in
     wire_step M obj (Path (lunPath iqn tag (ml_TPGLUN m))) (mappedLunPath iqn tag initiator (ml_Index m))
       (\<lambda>cur. ''re-pointing '' @ obj) (''created '' @ obj @ '' -> lun_'' @ itoa (ml_TPGLUN m))
       (ensureWriteProtect M iqn tag initiator m obj))"

text \<open>Make the directory of an object that is absent, and note it.\<close>

definition make_absent :: "'k Manager \<Rightarrow> string \<Rightarrow> path \<Rightarrow> 'k step" where
  "make_absent M obj p = exists_step M ''apply'' obj p (\<lambda>there. if there then done_step
     else then_step (mkdir_step M KindKernelRejected obj p) (add_note (''created '' @ obj)))"

definition ensureACL :: "'k Manager \<Rightarrow> string \<Rightarrow> int \<Rightarrow> ACL \<Rightarrow> 'k step" where
  "ensureACL M iqn tag acl =
     then_step (make_absent M (''acl/'' @ iqn @ ''/'' @ acl_InitiatorIQN acl) (aclPath iqn tag (acl_InitiatorIQN acl)))
       (each_step (ensureMappedLUN M iqn tag (acl_InitiatorIQN acl)) (acl_MappedLUNs acl))"

text \<open>One attribute of a TPG: absent ones are skipped, and a write is read back.\<close>

definition tpg_attr :: "'k Manager \<Rightarrow> string \<Rightarrow> path \<Rightarrow> string_map \<Rightarrow> string \<Rightarrow> 'k step" where
  "tpg_attr M obj p attrs k =
    (let want = value_or (map_of attrs k); q = p @ [''attrib'', k]; o2 = obj @ '' attrib/'' @ k in
     read_step M (\<lambda>fs. Inr (ReadAttr fs q)) (\<lambda>r. case r of
         Inl e \<Rightarrow> if IsNotExist e then add_note (o2 @ '' not supported by this kernel, skipped'')
           else fail_step (errf KindConfigfs ''apply'' o2 e)
       | Inr cur \<Rightarrow> if cur = want then done_step
           else then_step (write_step M o2 want q) (read_step M (\<lambda>fs. Inr (ReadAttr fs q)) (\<lambda>after.
             case after of
               Inr v \<Rightarrow> if v \<noteq> want then add_note (o2 @ ''='' @ want @ '' NOT APPLIED (kernel kept '' @ v @ '')'')
                 else add_note (o2 @ ''='' @ want)
             | Inl e \<Rightarrow> add_note (o2 @ ''='' @ want)))))"

definition tpg_enable :: "'k Manager \<Rightarrow> string \<Rightarrow> path \<Rightarrow> bool \<Rightarrow> 'k step" where
  "tpg_enable M obj p enable = (let want = (if enable then ''1'' else ''0''); q = p @ [''enable'']; o2 = obj @ '' enable'' in
     read_step M (\<lambda>fs. wrap KindConfigfs ''apply'' o2 (ReadAttr fs q)) (\<lambda>cur.
       if cur = want then done_step else then_step (write_step M o2 want q) (add_note (o2 @ ''='' @ want))))"

definition ensureTPG :: "'k Manager \<Rightarrow> (string \<Rightarrow> Backstore option) \<Rightarrow> string \<Rightarrow> TPG \<Rightarrow> 'k step" where
  "ensureTPG M backstoreByName iqn tpg =
    (let tag = tpg_Tag tpg; obj = ''tpg/'' @ iqn @ ''/tpgt_'' @ itoa tag; p = tpgPath iqn tag in
     then_step (make_absent M obj p)
    (then_step (each_step (tpg_attr M obj p (tpg_Attributes tpg)) (sortedKeys (tpg_Attributes tpg)))
    (then_step (each_step (ensurePortal M iqn tag) (portalApplyOrder (tpg_Portals tpg)))
    (then_step (each_step (ensureLUN M backstoreByName iqn tag) (tpg_LUNs tpg))
    (then_step (each_step (ensureACL M iqn tag) (tpg_ACLs tpg))
    (tpg_enable M obj p (tpg_Enable tpg)))))))"

definition ensureTarget :: "'k Manager \<Rightarrow> (string \<Rightarrow> Backstore option) \<Rightarrow> Target \<Rightarrow> 'k step" where
  "ensureTarget M backstoreByName t = (let obj = ''target/'' @ tgt_IQN t in
     then_step (mkdir_step M KindConfigfs obj [''iscsi''])
    (then_step (make_absent M obj (targetPath (tgt_IQN t)))
    (each_step (ensureTPG M backstoreByName (tgt_IQN t)) (tgt_TPGs t))))"

section \<open>Removal (removal.go, iscsi.go)\<close>

definition unlink_step :: "'k Manager \<Rightarrow> string \<Rightarrow> path \<Rightarrow> 'k step" where
  "unlink_step M obj p = call_step (unlinkAll M p) (\<lambda>e. errf (kind_of_remove e KindConfigfs) ''remove'' obj e)"

definition removeLUN :: "'k Manager \<Rightarrow> string \<Rightarrow> int \<Rightarrow> int \<Rightarrow> 'k step" where
  "removeLUN M iqn tag index = (let obj = ''lun/'' @ iqn @ ''/lun_'' @ itoa index in
     then_step (unlink_step M obj (lunPath iqn tag index)) (rmdir_step M ''remove'' obj (lunPath iqn tag index)))"

definition removeMappedLUN :: "'k Manager \<Rightarrow> string \<Rightarrow> int \<Rightarrow> string \<Rightarrow> int \<Rightarrow> 'k step" where
  "removeMappedLUN M iqn tag initiator index = (let obj = ''mappedlun/'' @ initiator @ ''/lun_'' @ itoa index;
       p = mappedLunPath iqn tag initiator index in
     then_step (unlink_step M obj p) (rmdir_step M ''remove'' obj p))"

text \<open>The children of a directory; an absent directory has none.\<close>

definition children_or_none :: "(cause \<Rightarrow> bool) \<Rightarrow> string \<Rightarrow> string \<Rightarrow> path \<Rightarrow> view \<Rightarrow> Error + string list" where
  "children_or_none absent op obj p fs = (case ReadDir fs p of
     Inl e \<Rightarrow> if absent e then Inr [] else Inl (errf KindConfigfs op obj e) | Inr ns \<Rightarrow> Inr ns)"

definition removeACL :: "'k Manager \<Rightarrow> string \<Rightarrow> int \<Rightarrow> string \<Rightarrow> 'k step" where
  "removeACL M iqn tag initiator = (let p = aclPath iqn tag initiator in
     read_step M (children_or_none IsNotExist ''list'' (''acl/'' @ initiator) p) (\<lambda>children.
     then_step (each_step (\<lambda>c. case parseLUN c of None \<Rightarrow> done_step | Some idx \<Rightarrow> removeMappedLUN M iqn tag initiator idx) children)
       (rmdir_step M ''remove'' (''acl/'' @ iqn @ ''/'' @ initiator) p)))"

definition remove_acl_entry :: "'k Manager \<Rightarrow> string \<Rightarrow> int \<Rightarrow> string \<Rightarrow> 'k step" where
  "remove_acl_entry M iqn tag aclName =
     read_step M (\<lambda>fs. case IsDir fs (aclPath iqn tag aclName) of
         Inl e \<Rightarrow> if notADir e then Inr False else Inl (errf KindConfigfs ''remove'' (''acl/'' @ iqn @ ''/'' @ aclName) e)
       | Inr d \<Rightarrow> Inr d)
     (\<lambda>d. if d then removeACL M iqn tag aclName else done_step)"

definition removeTPG :: "'k Manager \<Rightarrow> string \<Rightarrow> int \<Rightarrow> 'k step" where
  "removeTPG M iqn tag =
    (let obj = ''tpg/'' @ iqn @ ''/tpgt_'' @ itoa tag; p = tpgPath iqn tag;
         children = (\<lambda>group. children_or_none notADir ''remove'' (obj @ ''/'' @ group) (p @ [group])) in
     read_step M (children ''acls'') (\<lambda>acls.
     then_step (each_step (remove_acl_entry M iqn tag) acls)
    (read_step M (children ''lun'') (\<lambda>luns.
     then_step (each_step (\<lambda>ln. case parseLUN ln of None \<Rightarrow> done_step | Some idx \<Rightarrow> removeLUN M iqn tag idx) luns)
    (read_step M (children ''np'') (\<lambda>nps.
     then_step (each_step (\<lambda>np. rmdir_step M ''remove'' (''portal/'' @ iqn @ ''/'' @ np) (p @ [''np'', np])) nps)
    (rmdir_step M ''remove'' obj p)))))))"

definition removeTarget :: "'k Manager \<Rightarrow> string \<Rightarrow> 'k step" where
  "removeTarget M iqn = (let obj = ''target/'' @ iqn in
     exists_step M ''remove'' obj (targetPath iqn) (\<lambda>there. if \<not> there then done_step
       else read_step M (\<lambda>fs. wrap KindConfigfs ''remove'' obj (ReadDir fs (targetPath iqn))) (\<lambda>tpgs.
         then_step (each_step (\<lambda>td. case parseTPGT td of None \<Rightarrow> done_step | Some tag \<Rightarrow> removeTPG M iqn tag) tpgs)
        (then_step (rmdir_step M ''remove'' obj (targetPath iqn)) (add_note (''removed '' @ obj))))))"

section \<open>Pruning (sync.go)\<close>

definition prunePortals :: "'k Manager \<Rightarrow> string \<Rightarrow> TPG \<Rightarrow> TPG \<Rightarrow> 'k step" where
  "prunePortals M iqn actual desired =
     each_step (\<lambda>p. let obj = ''portal/'' @ iqn @ ''/'' @ portal_String p in
       if portal_key p \<in> set (map portal_key (tpg_Portals desired)) then done_step
       else then_step (rmdir_step M ''prune'' obj (portalPath iqn (tpg_Tag actual) p)) (add_note (''pruned '' @ obj)))
     (tpg_Portals actual)"

definition pruneLUNs :: "'k Manager \<Rightarrow> string \<Rightarrow> TPG \<Rightarrow> TPG \<Rightarrow> 'k step" where
  "pruneLUNs M iqn actual desired =
     each_step (\<lambda>l. if lun_Index l \<in> set (map lun_Index (tpg_LUNs desired)) then done_step
       else then_step (removeLUN M iqn (tpg_Tag actual) (lun_Index l)) (add_note (''pruned lun/'' @ iqn @ ''/lun_'' @ itoa (lun_Index l))))
     (tpg_LUNs actual)"

definition prune_mapped :: "'k Manager \<Rightarrow> string \<Rightarrow> int \<Rightarrow> ACL \<Rightarrow> ACL \<Rightarrow> 'k step" where
  "prune_mapped M iqn tag acl da =
     each_step (\<lambda>ml. if ml_Index ml \<in> set (map ml_Index (acl_MappedLUNs da)) then done_step
       else then_step (removeMappedLUN M iqn tag (acl_InitiatorIQN acl) (ml_Index ml))
         (add_note (''pruned mappedlun/'' @ acl_InitiatorIQN acl @ ''/lun_'' @ itoa (ml_Index ml))))
     (acl_MappedLUNs acl)"

definition pruneACLs :: "'k Manager \<Rightarrow> string \<Rightarrow> TPG \<Rightarrow> TPG \<Rightarrow> 'k step" where
  "pruneACLs M iqn actual desired =
     each_step (\<lambda>acl. case index_by acl_InitiatorIQN (tpg_ACLs desired) (acl_InitiatorIQN acl) of
         None \<Rightarrow> then_step (removeACL M iqn (tpg_Tag actual) (acl_InitiatorIQN acl))
           (add_note (''pruned acl/'' @ iqn @ ''/'' @ acl_InitiatorIQN acl))
       | Some da \<Rightarrow> prune_mapped M iqn (tpg_Tag actual) acl da)
     (tpg_ACLs actual)"

definition prune_tpg :: "'k Manager \<Rightarrow> Target \<Rightarrow> string \<Rightarrow> TPG \<Rightarrow> 'k step" where
  "prune_tpg M dt iqn g = (case index_by tpg_Tag (tgt_TPGs dt) (tpg_Tag g) of
     None \<Rightarrow> removeTPG M iqn (tpg_Tag g)
   | Some dg \<Rightarrow> then_step (prunePortals M iqn g dg) (then_step (pruneACLs M iqn g dg) (pruneLUNs M iqn g dg)))"

definition prune_target :: "'k Manager \<Rightarrow> Config \<Rightarrow> Target \<Rightarrow> 'k step" where
  "prune_target M desired t = (case index_by tgt_IQN (cfg_Targets desired) (tgt_IQN t) of
     None \<Rightarrow> removeTarget M (tgt_IQN t)
   | Some dt \<Rightarrow> each_step (prune_tpg M dt (tgt_IQN t)) (tgt_TPGs t))"

definition prune :: "'k Manager \<Rightarrow> Config \<Rightarrow> Config \<Rightarrow> 'k step" where
  "prune M desired actual =
     then_step (each_step (prune_target M desired) (cfg_Targets actual))
       (each_step (\<lambda>b. if backstoreKey b \<in> set (map backstoreKey (cfg_Backstores desired)) then done_step else removeBackstore M b)
          (cfg_Backstores actual))"

definition desiredTPG :: "Config \<Rightarrow> string \<Rightarrow> int \<Rightarrow> TPG option" where
  "desiredTPG cfg iqn tag = find (\<lambda>g. tpg_Tag g = tag) (concat (map tgt_TPGs (filter (\<lambda>t. tgt_IQN t = iqn) (cfg_Targets cfg))))"

definition prune_conflicts :: "'k Manager \<Rightarrow> Config \<Rightarrow> Target \<Rightarrow> TPG \<Rightarrow> 'k step" where
  "prune_conflicts M desired at ag = (case desiredTPG desired (tgt_IQN at) (tpg_Tag ag) of
     None \<Rightarrow> done_step
   | Some dg \<Rightarrow> each_step (\<lambda>live. if portalConflictsWithAny live (tpg_Portals dg) (tpg_Portals ag)
         then rmdir_step M ''prune'' (''portal/'' @ tgt_IQN at @ ''/'' @ portal_String live) (portalPath (tgt_IQN at) (tpg_Tag ag) live)
         else done_step) (tpg_Portals ag))"

definition pruneConflictingPortals :: "'k Manager \<Rightarrow> Config \<Rightarrow> 'k step" where
  "pruneConflictingPortals M desired = read_step M Discover (\<lambda>actual.
     each_step (\<lambda>at. each_step (prune_conflicts M desired at) (tgt_TPGs at)) (cfg_Targets actual))"

section \<open>The entry points (config.go, sync.go, delta.go)\<close>

definition report :: "'k applyCtx \<Rightarrow> (Backstore \<times> aptpl_warning) list \<Rightarrow> Report" where
  "report a unbound = \<lparr>rep_Changes = a_changes a, rep_Drift = a_drift a, rep_APTPLUnbound = unbound\<rparr>"

definition no_report :: Report where
  "no_report = \<lparr>rep_Changes = [], rep_Drift = [], rep_APTPLUnbound = []\<rparr>"

definition unbound_now :: "'k Manager \<Rightarrow> Config \<Rightarrow> 'k \<Rightarrow> (Backstore \<times> aptpl_warning) list" where
  "unbound_now M cfg k = verifyAPTPL (k_view (m_fs M) k) (map_option (\<lambda>records b. records b k) (m_aptplRecords M)) cfg"

definition apply_pass :: "'k Manager \<Rightarrow> Config \<Rightarrow> 'k step" where
  "apply_pass M cfg = then_step (each_step (ensureBackstore M) (cfg_Backstores cfg))
     (each_step (ensureTarget M (index_by bs_Name (cfg_Backstores cfg))) (cfg_Targets cfg))"

definition Apply :: "'k Manager \<Rightarrow> Config \<Rightarrow> 'k \<Rightarrow> (Report \<times> Error option) \<times> 'k" where
  "Apply M cfg k = (case Validate cfg of
     Some e \<Rightarrow> ((no_report, Some e), k)
   | None \<Rightarrow> (case apply_pass M cfg (fresh_ctx k) of
       (Some e, a) \<Rightarrow> ((report a [], Some e), a_kern a)
     | (None, a) \<Rightarrow> ((report a (unbound_now M cfg (a_kern a)), None), a_kern a)))"

definition Remove :: "'k Manager \<Rightarrow> Config \<Rightarrow> 'k \<Rightarrow> (Report \<times> Error option) \<times> 'k" where
  "Remove M cfg k = (case then_step (each_step (\<lambda>t. removeTarget M (tgt_IQN t)) (cfg_Targets cfg))
      (each_step (removeBackstore M) (cfg_Backstores cfg)) (fresh_ctx k) of
     (r, a) \<Rightarrow> ((report a [], r), a_kern a))"

definition Sync :: "'k Manager \<Rightarrow> Config \<Rightarrow> 'k \<Rightarrow> (Report \<times> Error option) \<times> 'k" where
  "Sync M desired k = (case Validate desired of
     Some e \<Rightarrow> ((no_report, Some e), k)
   | None \<Rightarrow> (case pruneConflictingPortals M desired (fresh_ctx k) of
       (Some e, a0) \<Rightarrow> ((no_report, Some e), a_kern a0)
     | (None, a0) \<Rightarrow> (case Apply M desired (a_kern a0) of
         ((rep, Some e), k1) \<Rightarrow> ((rep, Some e), k1)
       | ((rep, None), k1) \<Rightarrow> (case Discover (k_view (m_fs M) k1) of
           Inl e \<Rightarrow> ((rep, Some e), k1)
         | Inr actual \<Rightarrow>
            (case prune M desired actual \<lparr>a_kern = k1, a_changes = rep_Changes rep, a_drift = rep_Drift rep\<rparr> of
               (Some e, a) \<Rightarrow> ((report a (rep_APTPLUnbound rep), Some e), a_kern a)
             | (None, a) \<Rightarrow> ((report a (unbound_now M desired (a_kern a)), None), a_kern a))))))"

definition Clear :: "'k Manager \<Rightarrow> 'k \<Rightarrow> (Report \<times> Error option) \<times> 'k" where
  "Clear M k = Sync M \<lparr>cfg_Backstores = [], cfg_Targets = []\<rparr> k"

definition checkScope :: "view \<Rightarrow> Config \<Rightarrow> engine_error option" where
  "checkScope fs desired = (case collect (\<lambda>t. collect (\<lambda>g.
       case Configfs.Exists fs (tpgPath (tgt_IQN t) (tpg_Tag g)) of
         Inl e \<Rightarrow> Inl (EngineFailed (errf KindConfigfs ''apply-delta'' (''tpg/'' @ tgt_IQN t) e))
       | Inr there \<Rightarrow> if there then Inr [()] else Inl StaleScope) (tgt_TPGs t)) (cfg_Targets desired) of
     Inl e \<Rightarrow> Some e | Inr _ \<Rightarrow> None)"

definition applyRemovals :: "'k Manager \<Rightarrow> RemoveSet \<Rightarrow> 'k step" where
  "applyRemovals M rm =
     then_step (each_step (\<lambda>r. then_step (removeMappedLUN M (mr_IQN r) (mr_Tag r) (mr_Initiator r) (mr_Index r))
       (add_note (''removed mappedlun/'' @ mr_Initiator r @ ''/lun_'' @ itoa (mr_Index r)))) (rm_MappedLUNs rm))
    (then_step (each_step (\<lambda>r. then_step (removeACL M (ar_IQN r) (ar_Tag r) (ar_Initiator r))
       (add_note (''removed acl/'' @ ar_IQN r @ ''/'' @ ar_Initiator r))) (rm_ACLs rm))
    (then_step (each_step (\<lambda>r. then_step (removeLUN M (lr_IQN r) (lr_Tag r) (lr_Index r))
       (add_note (''removed lun/'' @ lr_IQN r @ ''/lun_'' @ itoa (lr_Index r)))) (rm_LUNs rm))
    (each_step (removeBackstore M) (rm_Backstores rm))))"

definition ApplyDelta :: "'k Manager \<Rightarrow> Config \<Rightarrow> Delta \<Rightarrow> 'k \<Rightarrow> (Report \<times> engine_error option) \<times> 'k" where
  "ApplyDelta M desired d k = (case checkScope (k_view (m_fs M) k) desired of
     Some e \<Rightarrow> ((no_report, Some e), k)
   | None \<Rightarrow> (case then_step (apply_pass M (d_Add d)) (applyRemovals M (d_Remove d)) (fresh_ctx k) of
       (r, a) \<Rightarrow> ((report a [], map_option EngineFailed r), a_kern a)))"

definition VerifyAPTPL :: "'k Manager \<Rightarrow> Config \<Rightarrow> 'k \<Rightarrow> (Backstore \<times> aptpl_warning) list" where
  "VerifyAPTPL M cfg k = unbound_now M cfg k"

end
