(* ===== verification/Lio_Delta_Refine.thy ===== *)
theory Lio_Delta_Refine
  imports Lio_Delta
begin

text \<open>
  What a delta means and that \<open>Diff\<close> computes the right one. The tree of a configuration maps the
  identity of every configfs object to its content; applying a delta creates or updates what it adds
  and removes what it names, an ACL together with its mapped LUNs.
\<close>

section \<open>The tree of a configuration\<close>

definition tpg_at :: "Config \<Rightarrow> string \<Rightarrow> int \<Rightarrow> TPG option" where
  "tpg_at c iqn tag = (case index_by tgt_IQN (cfg_Targets c) iqn of
     None \<Rightarrow> None | Some t \<Rightarrow> index_by tpg_Tag (tgt_TPGs t) tag)"

record tpg_view =
  tv_enable :: bool
  tv_attributes :: "string \<Rightarrow> string option"
  tv_portals :: "AddrPort set"

definition view_tpg :: "TPG \<Rightarrow> tpg_view" where
  "view_tpg g = \<lparr>tv_enable = tpg_Enable g, tv_attributes = map_of (tpg_Attributes g),
     tv_portals = portal_key ` set (tpg_Portals g)\<rparr>"

definition lun_in :: "TPG option \<Rightarrow> int \<Rightarrow> LUN option" where
  "lun_in g i = (case g of None \<Rightarrow> None | Some g \<Rightarrow> index_by lun_Index (tpg_LUNs g) i)"

definition acl_in :: "TPG option \<Rightarrow> string \<Rightarrow> ACL option" where
  "acl_in g a = (case g of None \<Rightarrow> None | Some g \<Rightarrow> index_by acl_InitiatorIQN (tpg_ACLs g) a)"

definition mapped_in :: "TPG option \<Rightarrow> string \<Rightarrow> int \<Rightarrow> MappedLUN option" where
  "mapped_in g a i = (case acl_in g a of None \<Rightarrow> None | Some x \<Rightarrow> index_by ml_Index (acl_MappedLUNs x) i)"

record tree =
  tr_backstores :: "string \<Rightarrow> (Backstore \<times> (string \<Rightarrow> string option)) option"
  tr_tpgs :: "string \<Rightarrow> int \<Rightarrow> tpg_view option"
  tr_luns :: "string \<Rightarrow> int \<Rightarrow> int \<Rightarrow> LUN option"
  tr_acls :: "string \<Rightarrow> int \<Rightarrow> string \<Rightarrow> bool"
  tr_mapped :: "string \<Rightarrow> int \<Rightarrow> string \<Rightarrow> int \<Rightarrow> MappedLUN option"

definition tree_of :: "Config \<Rightarrow> tree" where
  "tree_of c = \<lparr>tr_backstores = content backstoreKey backstore_view (cfg_Backstores c),
     tr_tpgs = (\<lambda>iqn tag. map_option view_tpg (tpg_at c iqn tag)),
     tr_luns = (\<lambda>iqn tag. lun_in (tpg_at c iqn tag)),
     tr_acls = (\<lambda>iqn tag a. acl_in (tpg_at c iqn tag) a \<noteq> None),
     tr_mapped = (\<lambda>iqn tag. mapped_in (tpg_at c iqn tag))\<rparr>"

definition lun_gone :: "RemoveSet \<Rightarrow> string \<Rightarrow> int \<Rightarrow> int \<Rightarrow> bool" where
  "lun_gone rm iqn tag i \<longleftrightarrow> \<lparr>lr_IQN = iqn, lr_Tag = tag, lr_Index = i\<rparr> \<in> set (rm_LUNs rm)"

definition acl_gone :: "RemoveSet \<Rightarrow> string \<Rightarrow> int \<Rightarrow> string \<Rightarrow> bool" where
  "acl_gone rm iqn tag a \<longleftrightarrow> \<lparr>ar_IQN = iqn, ar_Tag = tag, ar_Initiator = a\<rparr> \<in> set (rm_ACLs rm)"

definition mapped_gone :: "RemoveSet \<Rightarrow> string \<Rightarrow> int \<Rightarrow> string \<Rightarrow> int \<Rightarrow> bool" where
  "mapped_gone rm iqn tag a i \<longleftrightarrow>
     \<lparr>mr_IQN = iqn, mr_Tag = tag, mr_Initiator = a, mr_Index = i\<rparr> \<in> set (rm_MappedLUNs rm)"

text \<open>
  A TPG of the added part carries its enable flag, which is always written, and only the attributes
  and portals to touch.
\<close>

definition update_tpg :: "tpg_view option \<Rightarrow> TPG option \<Rightarrow> tpg_view option" where
  "update_tpg old new = (case new of
     None \<Rightarrow> old
   | Some g \<Rightarrow> (case old of
       None \<Rightarrow> Some (view_tpg g)
     | Some v \<Rightarrow> Some \<lparr>tv_enable = tpg_Enable g, tv_attributes = tv_attributes v ++ map_of (tpg_Attributes g),
         tv_portals = tv_portals v \<union> portal_key ` set (tpg_Portals g)\<rparr>))"

definition apply_delta_spec :: "Delta \<Rightarrow> tree \<Rightarrow> tree" where
  "apply_delta_spec d T = (let add = d_Add d; rm = d_Remove d in
    \<lparr>tr_backstores = override (tr_backstores T) (content backstoreKey backstore_view (cfg_Backstores add))
       (backstoreKey ` set (rm_Backstores rm)),
     tr_tpgs = (\<lambda>iqn tag. update_tpg (tr_tpgs T iqn tag) (tpg_at add iqn tag)),
     tr_luns = (\<lambda>iqn tag. override (tr_luns T iqn tag) (lun_in (tpg_at add iqn tag)) {i. lun_gone rm iqn tag i}),
     tr_acls = (\<lambda>iqn tag a. (tr_acls T iqn tag a \<or> acl_in (tpg_at add iqn tag) a \<noteq> None) \<and> \<not> acl_gone rm iqn tag a),
     tr_mapped = (\<lambda>iqn tag a. override (tr_mapped T iqn tag a) (mapped_in (tpg_at add iqn tag) a)
       {i. mapped_gone rm iqn tag a i \<or> acl_gone rm iqn tag a})\<rparr>)"

section \<open>The differences within a TPG\<close>

definition acl_diff :: "TPG \<Rightarrow> TPG \<Rightarrow> string \<Rightarrow> ACL option" where
  "acl_diff pg ng a = (case acl_in (Some ng) a of
     None \<Rightarrow> None
   | Some na \<Rightarrow> (case acl_in (Some pg) a of
       None \<Rightarrow> Some na
     | Some pa \<Rightarrow> (let ml = added ml_Index (=) (acl_MappedLUNs pa) (acl_MappedLUNs na) in
         if ml = [] then None else Some \<lparr>acl_InitiatorIQN = a, acl_MappedLUNs = ml\<rparr>)))"

definition mapped_diff_gone :: "TPG \<Rightarrow> TPG \<Rightarrow> string \<Rightarrow> int set" where
  "mapped_diff_gone pg ng a = (case (acl_in (Some pg) a, acl_in (Some ng) a) of
     (Some pa, Some na) \<Rightarrow> set (removed_keys ml_Index (acl_MappedLUNs pa) (acl_MappedLUNs na))
   | _ \<Rightarrow> {})"

lemma fst_diff_acls_keys:
  "x \<in> set (fst (diff_acls iqn tag prevACLs nas)) \<Longrightarrow> acl_InitiatorIQN x \<in> acl_InitiatorIQN ` set nas"
  by (induction nas arbitrary: x) (auto simp: Let_def split: prod.splits option.splits if_splits)

lemma diff_acls_index:
  assumes "distinct (map acl_InitiatorIQN nas)"
  shows "index_by acl_InitiatorIQN (fst (diff_acls iqn tag (tpg_ACLs pg) nas)) a
    = acl_diff pg (ng\<lparr>tpg_ACLs := nas\<rparr>) a"
  using assms
proof (induction nas)
  case (Cons na nas)
  let ?r = "fst (diff_acls iqn tag (tpg_ACLs pg) nas)"
  have IH: "index_by acl_InitiatorIQN ?r a = acl_diff pg (ng\<lparr>tpg_ACLs := nas\<rparr>) a" using Cons by simp
  show ?case
  proof (cases "acl_InitiatorIQN na = a")
    case True
    then have no: "index_by acl_InitiatorIQN nas a = None" using Cons.prems by (auto simp: index_by_None)
    then have "index_by acl_InitiatorIQN ?r a = None"
      using fst_diff_acls_keys [of _ iqn tag "tpg_ACLs pg" nas] by (auto simp: index_by_None)
    with no True show ?thesis
      by (auto simp: acl_diff_def acl_in_def index_by_Cons Let_def
          split: prod.splits option.splits)
  next
    case False
    then have "acl_diff pg (ng\<lparr>tpg_ACLs := na # nas\<rparr>) a = acl_diff pg (ng\<lparr>tpg_ACLs := nas\<rparr>) a"
      by (auto simp: acl_diff_def acl_in_def index_by_Cons split: option.splits)
    with False IH show ?thesis
      by (auto simp: index_by_Cons Let_def split: prod.splits option.splits)
  qed
qed (simp add: acl_diff_def acl_in_def)

lemma diff_acls_gone:
  assumes "distinct (map acl_InitiatorIQN nas)"
  shows "\<lparr>mr_IQN = iqn', mr_Tag = tag', mr_Initiator = a, mr_Index = i\<rparr> \<in> set (snd (diff_acls iqn tag (tpg_ACLs pg) nas))
    \<longleftrightarrow> iqn' = iqn \<and> tag' = tag \<and> i \<in> mapped_diff_gone pg (ng\<lparr>tpg_ACLs := nas\<rparr>) a"
  using assms
proof (induction nas)
  case (Cons na nas)
  show ?case
  proof (cases "acl_InitiatorIQN na = a")
    case True
    then have "index_by acl_InitiatorIQN nas a = None" using Cons.prems by (auto simp: index_by_None)
    with True Cons show ?thesis
      by (auto simp: mapped_diff_gone_def acl_in_def index_by_Cons Let_def
          split: prod.splits option.splits)
  next
    case False
    then have "mapped_diff_gone pg (ng\<lparr>tpg_ACLs := na # nas\<rparr>) a = mapped_diff_gone pg (ng\<lparr>tpg_ACLs := nas\<rparr>) a"
      by (auto simp: mapped_diff_gone_def acl_in_def index_by_Cons split: option.splits)
    with False Cons show ?thesis
      by (auto simp: Let_def split: prod.splits option.splits)
  qed
qed (simp add: mapped_diff_gone_def acl_in_def split: option.splits)


text \<open>The part of \<open>diffTPG\<close> that does not depend on what was collected before.\<close>

definition tpg_diff :: "TPG \<Rightarrow> TPG \<Rightarrow> TPG option" where
  "tpg_diff pg ng = (case diffTPG [] pg ng undefined of (ag, _, changed) \<Rightarrow> if changed then Some ag else None)"

lemma fst_diff_acls_iqn: "fst (diff_acls iqn tag prev nas) = fst (diff_acls iqn' tag' prev nas)"
  by (induction nas) (auto simp: Let_def split: prod.splits option.splits)

lemma diffTPG_tpg_diff:
  "diffTPG iqn pg ng rm = (ag, rm', changed) \<Longrightarrow> (if changed then Some ag else None) = tpg_diff pg ng"
  using fst_diff_acls_iqn [of iqn "tpg_Tag pg" "tpg_ACLs pg" "tpg_ACLs ng" "[]" "tpg_Tag pg"]
  by (auto simp: tpg_diff_def diffTPG_def Let_def split: prod.splits)

lemma tpg_diff_Tag: "tpg_diff pg ng = Some ag \<Longrightarrow> tpg_Tag ag = tpg_Tag ng"
  by (auto simp: tpg_diff_def diffTPG_def Let_def split: prod.splits if_splits)

lemma tpg_diff_view:
  "tpg_diff pg ng = Some ag \<Longrightarrow> tpg_Enable ag = tpg_Enable ng \<and> tpg_Portals ag = [] \<and> tpg_Attributes ag = []"
  by (auto simp: tpg_diff_def diffTPG_def Let_def split: prod.splits if_splits)

lemma tpg_diff_LUNs:
  "tpg_diff pg ng = Some ag \<Longrightarrow> tpg_LUNs ag = added lun_Index (=) (tpg_LUNs pg) (tpg_LUNs ng)"
  by (auto simp: tpg_diff_def diffTPG_def Let_def split: prod.splits if_splits)

lemma lun_in_tpg_diff:
  "lun_in (tpg_diff pg ng) = index_by lun_Index (added lun_Index (=) (tpg_LUNs pg) (tpg_LUNs ng))"
  by (rule ext) (auto simp: tpg_diff_def diffTPG_def lun_in_def Let_def split: prod.splits)

lemma acl_in_tpg_diff:
  assumes "distinct (map acl_InitiatorIQN (tpg_ACLs ng))"
  shows "acl_in (tpg_diff pg ng) a = acl_diff pg ng a"
  using diff_acls_index [OF assms, of "[]" "tpg_Tag pg" pg a ng]
  by (auto simp: tpg_diff_def diffTPG_def acl_in_def Let_def split: prod.splits)

lemma diffTPG_gone:
  assumes "distinct (map acl_InitiatorIQN (tpg_ACLs ng))" and "diffTPG iqn pg ng rm = (ag, rm', changed)"
  shows "lun_gone rm' iqn' tag i \<longleftrightarrow> lun_gone rm iqn' tag i \<or> iqn' = iqn \<and> tag = tpg_Tag pg
      \<and> i \<in> set (removed_keys lun_Index (tpg_LUNs pg) (tpg_LUNs ng))"
    and "acl_gone rm' iqn' tag a \<longleftrightarrow> acl_gone rm iqn' tag a \<or> iqn' = iqn \<and> tag = tpg_Tag pg
      \<and> a \<in> set (removed_keys acl_InitiatorIQN (tpg_ACLs pg) (tpg_ACLs ng))"
    and "mapped_gone rm' iqn' tag a i \<longleftrightarrow> mapped_gone rm iqn' tag a i \<or> iqn' = iqn \<and> tag = tpg_Tag pg
      \<and> i \<in> mapped_diff_gone pg ng a"
    and "rm_Backstores rm' = rm_Backstores rm"
  using assms(2) diff_acls_gone [OF assms(1), of iqn' tag a i iqn "tpg_Tag pg" pg ng]
  by (auto simp: diffTPG_def lun_gone_def acl_gone_def mapped_gone_def Let_def split: prod.splits)

text \<open>Applied to the content of the previous TPG, the difference gives the content of the next one.\<close>

lemma content_id: "content key id xs = index_by key xs"
  by (simp add: content_def fun_eq_iff option.map_id)

lemma lun_in_Some: "lun_in (Some g) = index_by lun_Index (tpg_LUNs g)"
  by (simp add: lun_in_def fun_eq_iff)

lemma override_luns:
  assumes "distinct (map lun_Index (tpg_LUNs ng))"
  shows "override (lun_in (Some pg)) (lun_in (tpg_diff pg ng))
    (set (removed_keys lun_Index (tpg_LUNs pg) (tpg_LUNs ng))) = lun_in (Some ng)"
  using lun_diff.diff_content [OF assms, of "tpg_LUNs pg"]
  by (simp add: lun_in_tpg_diff content_id lun_in_Some)

lemma override_acls:
  assumes "distinct (map acl_InitiatorIQN (tpg_ACLs ng))"
  shows "(acl_in (Some pg) a \<noteq> None \<or> acl_in (tpg_diff pg ng) a \<noteq> None)
      \<and> a \<notin> set (removed_keys acl_InitiatorIQN (tpg_ACLs pg) (tpg_ACLs ng)) \<longleftrightarrow> acl_in (Some ng) a \<noteq> None"
proof -
  have "a \<in> acl_InitiatorIQN ` set (tpg_ACLs g) \<longleftrightarrow> acl_in (Some g) a \<noteq> None" for g
    by (simp add: acl_in_def index_by_None)
  then show ?thesis
    unfolding acl_in_tpg_diff [OF assms] set_removed_keys
    by (auto simp: acl_diff_def Let_def split: option.splits)
qed

lemma override_mapped:
  assumes "distinct (map acl_InitiatorIQN (tpg_ACLs ng))"
    and "\<forall>a \<in> set (tpg_ACLs ng). distinct (map ml_Index (acl_MappedLUNs a))"
  shows "override (mapped_in (Some pg) a) (mapped_in (tpg_diff pg ng) a)
    {i. i \<in> mapped_diff_gone pg ng a \<or> a \<in> set (removed_keys acl_InitiatorIQN (tpg_ACLs pg) (tpg_ACLs ng))}
    = mapped_in (Some ng) a"
proof (cases "acl_in (Some ng) a")
  case None
  then have no: "a \<notin> acl_InitiatorIQN ` set (tpg_ACLs ng)" by (simp add: acl_in_def index_by_None)
  have "acl_in (tpg_diff pg ng) a = None" using None by (simp add: acl_in_tpg_diff [OF assms(1)] acl_diff_def)
  moreover have "acl_in (Some pg) a = None \<or> a \<in> set (removed_keys acl_InitiatorIQN (tpg_ACLs pg) (tpg_ACLs ng))"
    using no by (auto simp: acl_in_def index_by_None set_removed_keys)
  ultimately show ?thesis using None by (auto simp: mapped_in_def override_def fun_eq_iff)
next
  case (Some na)
  then have na: "na \<in> set (tpg_ACLs ng)" "acl_InitiatorIQN na = a" by (auto simp: acl_in_def dest: index_by_Some)
  then have kept: "a \<notin> set (removed_keys acl_InitiatorIQN (tpg_ACLs pg) (tpg_ACLs ng))"
    by (auto simp: set_removed_keys)
  note eqs = Some kept acl_in_tpg_diff [OF assms(1)]
  show ?thesis
  proof (cases "acl_in (Some pg) a")
    case None
    then show ?thesis using eqs
      by (auto simp: mapped_in_def mapped_diff_gone_def acl_diff_def override_def fun_eq_iff split: option.splits)
  next
    case prev: (Some pa)
    have "override (index_by ml_Index (acl_MappedLUNs pa))
        (index_by ml_Index (added ml_Index (=) (acl_MappedLUNs pa) (acl_MappedLUNs na)))
        (set (removed_keys ml_Index (acl_MappedLUNs pa) (acl_MappedLUNs na))) = index_by ml_Index (acl_MappedLUNs na)"
      using mapped_diff.diff_content [of "acl_MappedLUNs na" "acl_MappedLUNs pa"] na assms(2)
      by (simp add: content_id)
    moreover have "mapped_in (Some pg) a = index_by ml_Index (acl_MappedLUNs pa)"
      "mapped_in (Some ng) a = index_by ml_Index (acl_MappedLUNs na)"
      using eqs prev by (auto simp: mapped_in_def fun_eq_iff)
    moreover have "mapped_in (tpg_diff pg ng) a = index_by ml_Index (added ml_Index (=) (acl_MappedLUNs pa) (acl_MappedLUNs na))"
      using eqs prev by (auto simp: mapped_in_def acl_diff_def Let_def fun_eq_iff)
    ultimately show ?thesis using eqs prev by (simp add: mapped_diff_gone_def)
  qed
qed

section \<open>The differences across targets\<close>

definition same_tpg :: "TPG \<Rightarrow> TPG \<Rightarrow> bool" where
  "same_tpg pg ng \<longleftrightarrow> tpg_Enable pg = tpg_Enable ng \<and> sameStringMap (tpg_Attributes pg) (tpg_Attributes ng)
     \<and> samePortals (tpg_Portals pg) (tpg_Portals ng)"

lemma same_tpg_view: "same_tpg pg ng \<Longrightarrow> view_tpg pg = view_tpg ng"
proof -
  assume s: "same_tpg pg ng"
  then have "set (map portal_key (tpg_Portals pg)) = set (map portal_key (tpg_Portals ng))"
    unfolding same_tpg_def samePortals_mset by (metis mset_eq_setD)
  with s show ?thesis by (simp add: same_tpg_def view_tpg_def sameStringMap_iff)
qed

lemma diff_tpgs_Cons:
  assumes "diff_tpgs iqn pgs (ng # ngs) rm = Some (ags, rm'')"
  obtains pg ag rm' changed rest where "index_by tpg_Tag pgs (tpg_Tag ng) = Some pg" and "same_tpg pg ng"
    and "diffTPG iqn pg ng rm = (ag, rm', changed)" and "diff_tpgs iqn pgs ngs rm' = Some (rest, rm'')"
    and "ags = (case tpg_diff pg ng of None \<Rightarrow> rest | Some g \<Rightarrow> g # rest)"
proof -
  obtain pg where pg: "index_by tpg_Tag pgs (tpg_Tag ng) = Some pg" and same: "same_tpg pg ng"
    using assms by (auto simp: same_tpg_def split: option.splits if_splits)
  obtain ag rm' changed where d: "diffTPG iqn pg ng rm = (ag, rm', changed)" by (cases "diffTPG iqn pg ng rm")
  obtain rest where r: "diff_tpgs iqn pgs ngs rm' = Some (rest, rm'')" and
    ags: "ags = (if changed then ag # rest else rest)"
    using assms pg same d by (auto simp: same_tpg_def split: option.splits prod.splits)
  have "ags = (case tpg_diff pg ng of None \<Rightarrow> rest | Some g \<Rightarrow> g # rest)"
    using ags diffTPG_tpg_diff [OF d, symmetric] by (cases changed) auto
  then show thesis using that pg same d r by blast
qed

lemma diff_tpgs_index:
  assumes "diff_tpgs iqn pgs ngs rm = Some (ags, rm')" and "distinct (map tpg_Tag ngs)"
  shows "(\<forall>ng \<in> set ngs. \<exists>pg. index_by tpg_Tag pgs (tpg_Tag ng) = Some pg \<and> same_tpg pg ng)
    \<and> index_by tpg_Tag ags tag = (case index_by tpg_Tag ngs tag of None \<Rightarrow> None
       | Some ng \<Rightarrow> (case index_by tpg_Tag pgs tag of None \<Rightarrow> None | Some pg \<Rightarrow> tpg_diff pg ng))"
  using assms
proof (induction ngs arbitrary: ags rm)
  case (Cons ng ngs)
  from Cons.prems(1) obtain pg ag rm1 changed rest where pg: "index_by tpg_Tag pgs (tpg_Tag ng) = Some pg"
    and same: "same_tpg pg ng" and r: "diff_tpgs iqn pgs ngs rm1 = Some (rest, rm')"
    and ags: "ags = (case tpg_diff pg ng of None \<Rightarrow> rest | Some g \<Rightarrow> g # rest)" by (rule diff_tpgs_Cons)
  note IH = Cons.IH [OF r]
  show ?case
  proof (cases "tpg_Tag ng = tag")
    case True
    then have "index_by tpg_Tag ngs tag = None" using Cons.prems(2) by (auto simp: index_by_None)
    then show ?thesis using IH Cons.prems(2) pg same ags True
      by (auto simp: index_by_Cons dest: tpg_diff_Tag split: option.splits)
  next
    case False
    then show ?thesis using IH Cons.prems(2) pg same ags
      by (auto simp: index_by_Cons dest: tpg_diff_Tag split: option.splits)
  qed
qed simp

lemma ex_tpg_Cons:
  assumes "index_by tpg_Tag pgs (tpg_Tag ng) = Some pg"
  shows "(\<exists>ng' pg'. ng' \<in> set (ng # ngs) \<and> tpg_Tag ng' = tag \<and> index_by tpg_Tag pgs tag = Some pg' \<and> Q pg' ng')
    \<longleftrightarrow> tpg_Tag ng = tag \<and> Q pg ng
      \<or> (\<exists>ng' pg'. ng' \<in> set ngs \<and> tpg_Tag ng' = tag \<and> index_by tpg_Tag pgs tag = Some pg' \<and> Q pg' ng')"
  using assms by auto

lemma diff_tpgs_gone:
  assumes "diff_tpgs iqn pgs ngs rm = Some (ags, rm')"
    and "\<forall>ng \<in> set ngs. distinct (map acl_InitiatorIQN (tpg_ACLs ng))"
  shows "(lun_gone rm' iqn' tag i \<longleftrightarrow> lun_gone rm iqn' tag i \<or> iqn' = iqn \<and>
      (\<exists>ng pg. ng \<in> set ngs \<and> tpg_Tag ng = tag \<and> index_by tpg_Tag pgs tag = Some pg
        \<and> i \<in> set (removed_keys lun_Index (tpg_LUNs pg) (tpg_LUNs ng))))
    \<and> (acl_gone rm' iqn' tag a \<longleftrightarrow> acl_gone rm iqn' tag a \<or> iqn' = iqn \<and>
      (\<exists>ng pg. ng \<in> set ngs \<and> tpg_Tag ng = tag \<and> index_by tpg_Tag pgs tag = Some pg
        \<and> a \<in> set (removed_keys acl_InitiatorIQN (tpg_ACLs pg) (tpg_ACLs ng))))
    \<and> (mapped_gone rm' iqn' tag a i \<longleftrightarrow> mapped_gone rm iqn' tag a i \<or> iqn' = iqn \<and>
      (\<exists>ng pg. ng \<in> set ngs \<and> tpg_Tag ng = tag \<and> index_by tpg_Tag pgs tag = Some pg
        \<and> i \<in> mapped_diff_gone pg ng a))
    \<and> rm_Backstores rm' = rm_Backstores rm"
  using assms
proof (induction ngs arbitrary: ags rm)
  case (Cons ng ngs)
  from Cons.prems(1) obtain pg ag rm1 changed rest where pg: "index_by tpg_Tag pgs (tpg_Tag ng) = Some pg"
    and d: "diffTPG iqn pg ng rm = (ag, rm1, changed)" and r: "diff_tpgs iqn pgs ngs rm1 = Some (rest, rm')"
    by (rule diff_tpgs_Cons)
  have tag: "tpg_Tag pg = tpg_Tag ng" using pg by (auto dest: index_by_Some)
  have "distinct (map acl_InitiatorIQN (tpg_ACLs ng))" using Cons.prems(2) by simp
  note g = diffTPG_gone [OF this d, unfolded tag]
  have IH: "\<forall>ng \<in> set ngs. distinct (map acl_InitiatorIQN (tpg_ACLs ng))" using Cons.prems(2) by simp
  note IHg = Cons.IH [OF r IH, unfolded g]
  show ?case unfolding ex_tpg_Cons [OF pg]
  proof (intro conjI, goal_cases)
    case 1
    show ?case using IHg [THEN conjunct1] by blast
  next
    case 2
    show ?case using IHg [THEN conjunct2, THEN conjunct1] by blast
  next
    case 3
    show ?case using IHg [THEN conjunct2, THEN conjunct2, THEN conjunct1] by blast
  next
    case 4
    show ?case using IHg by blast
  qed
qed simp

text \<open>The previous and the next TPG of an identity.\<close>

definition tpg_pair :: "Target list \<Rightarrow> Target list \<Rightarrow> string \<Rightarrow> int \<Rightarrow> TPG \<Rightarrow> TPG \<Rightarrow> bool" where
  "tpg_pair pts nts iqn tag pg ng \<longleftrightarrow> (\<exists>nt pt. nt \<in> set nts \<and> tgt_IQN nt = iqn
     \<and> index_by tgt_IQN pts iqn = Some pt \<and> ng \<in> set (tgt_TPGs nt) \<and> tpg_Tag ng = tag
     \<and> index_by tpg_Tag (tgt_TPGs pt) tag = Some pg)"

lemma ex_pair_Cons:
  assumes "index_by tgt_IQN pts (tgt_IQN nt) = Some pt"
  shows "(\<exists>pg ng. tpg_pair pts (nt # nts) iqn tag pg ng \<and> Q pg ng)
    \<longleftrightarrow> iqn = tgt_IQN nt \<and> (\<exists>ng pg. ng \<in> set (tgt_TPGs nt) \<and> tpg_Tag ng = tag
          \<and> index_by tpg_Tag (tgt_TPGs pt) tag = Some pg \<and> Q pg ng)
      \<or> (\<exists>pg ng. tpg_pair pts nts iqn tag pg ng \<and> Q pg ng)"
proof -
  have "tpg_pair pts (nt # nts) iqn tag pg ng \<longleftrightarrow> iqn = tgt_IQN nt \<and> ng \<in> set (tgt_TPGs nt) \<and> tpg_Tag ng = tag
      \<and> index_by tpg_Tag (tgt_TPGs pt) tag = Some pg \<or> tpg_pair pts nts iqn tag pg ng" for pg ng
    using assms unfolding tpg_pair_def by force
  then show ?thesis by blast
qed

lemma diff_targets_Cons:
  assumes "diff_targets pts (nt # nts) rm = Some (ts, rm'')"
  obtains pt addTPGs rm' rest where "index_by tgt_IQN pts (tgt_IQN nt) = Some pt"
    and "length (tgt_TPGs pt) = length (tgt_TPGs nt)"
    and "diff_tpgs (tgt_IQN nt) (tgt_TPGs pt) (tgt_TPGs nt) rm = Some (addTPGs, rm')"
    and "diff_targets pts nts rm' = Some (rest, rm'')"
    and "ts = (if addTPGs = [] then rest else \<lparr>tgt_IQN = tgt_IQN nt, tgt_TPGs = addTPGs\<rparr> # rest)"
  using assms by (auto split: option.splits if_splits prod.splits)

abbreviation wf_targets :: "Target list \<Rightarrow> bool" where
  "wf_targets ts \<equiv> distinct (map tgt_IQN ts) \<and> (\<forall>t \<in> set ts. distinct (map tpg_Tag (tgt_TPGs t))
     \<and> (\<forall>g \<in> set (tgt_TPGs t). distinct (map acl_InitiatorIQN (tpg_ACLs g)) \<and> distinct (map lun_Index (tpg_LUNs g))
        \<and> (\<forall>a \<in> set (tpg_ACLs g). distinct (map ml_Index (acl_MappedLUNs a)))))"

lemma diff_targets_gone:
  assumes "diff_targets pts nts rm = Some (ts, rm')" and "wf_targets nts"
  shows "(lun_gone rm' iqn tag i \<longleftrightarrow> lun_gone rm iqn tag i \<or> (\<exists>pg ng. tpg_pair pts nts iqn tag pg ng
        \<and> i \<in> set (removed_keys lun_Index (tpg_LUNs pg) (tpg_LUNs ng))))
    \<and> (acl_gone rm' iqn tag a \<longleftrightarrow> acl_gone rm iqn tag a \<or> (\<exists>pg ng. tpg_pair pts nts iqn tag pg ng
        \<and> a \<in> set (removed_keys acl_InitiatorIQN (tpg_ACLs pg) (tpg_ACLs ng))))
    \<and> (mapped_gone rm' iqn tag a i \<longleftrightarrow> mapped_gone rm iqn tag a i \<or> (\<exists>pg ng. tpg_pair pts nts iqn tag pg ng
        \<and> i \<in> mapped_diff_gone pg ng a))
    \<and> rm_Backstores rm' = rm_Backstores rm"
  using assms
proof (induction nts arbitrary: ts rm)
  case Nil
  then show ?case by (simp add: tpg_pair_def)
next
  case (Cons nt nts)
  from Cons.prems(1) obtain pt addTPGs rm1 rest where pt: "index_by tgt_IQN pts (tgt_IQN nt) = Some pt"
    and d: "diff_tpgs (tgt_IQN nt) (tgt_TPGs pt) (tgt_TPGs nt) rm = Some (addTPGs, rm1)"
    and r: "diff_targets pts nts rm1 = Some (rest, rm')" by (rule diff_targets_Cons)
  have "\<forall>ng \<in> set (tgt_TPGs nt). distinct (map acl_InitiatorIQN (tpg_ACLs ng))" using Cons.prems(2) by simp
  note g = diff_tpgs_gone [OF d this]
  have "wf_targets nts" using Cons.prems(2) by simp
  note IH = Cons.IH [OF r this]
  show ?case unfolding ex_pair_Cons [OF pt]
  proof (intro conjI, goal_cases)
    case 1
    show ?case using IH [THEN conjunct1] g [THEN conjunct1, of iqn tag i] by blast
  next
    case 2
    show ?case using IH [THEN conjunct2, THEN conjunct1] g [THEN conjunct2, THEN conjunct1, of iqn tag a] by blast
  next
    case 3
    show ?case using IH [THEN conjunct2, THEN conjunct2, THEN conjunct1]
      g [THEN conjunct2, THEN conjunct2, THEN conjunct1, of iqn tag a i] by blast
  next
    case 4
    show ?case using IH g by metis
  qed
qed

lemma diff_targets_keys:
  "diff_targets pts nts rm = Some (ts, rm') \<Longrightarrow> t \<in> set ts \<Longrightarrow> tgt_IQN t \<in> tgt_IQN ` set nts"
proof (induction nts arbitrary: ts rm)
  case (Cons nt nts)
  from Cons.prems(1) obtain rm1 rest addTPGs where "diff_targets pts nts rm1 = Some (rest, rm')"
    and "ts = (if addTPGs = [] then rest else \<lparr>tgt_IQN = tgt_IQN nt, tgt_TPGs = addTPGs\<rparr> # rest)"
    by (rule diff_targets_Cons)
  then show ?case using Cons.IH [of rm1 rest] Cons.prems(2) by (auto split: if_splits)
qed simp

abbreviation tpg_of :: "Target list \<Rightarrow> string \<Rightarrow> int \<Rightarrow> TPG option" where
  "tpg_of ts iqn tag \<equiv> tpg_at \<lparr>cfg_Backstores = [], cfg_Targets = ts\<rparr> iqn tag"

lemma tpg_of_Cons:
  "tgt_IQN t \<notin> tgt_IQN ` set ts \<Longrightarrow> tpg_of (t # ts) iqn tag =
     (if tgt_IQN t = iqn then index_by tpg_Tag (tgt_TPGs t) tag else tpg_of ts iqn tag)"
  by (auto simp: tpg_at_def index_by_Cons index_by_None split: option.splits dest!: index_by_Some)

lemma tpg_of_absent: "iqn \<notin> tgt_IQN ` set ts \<Longrightarrow> tpg_of ts iqn tag = None"
  using index_by_None [of tgt_IQN ts iqn] by (simp add: tpg_at_def)

lemma diff_targets_index:
  assumes "diff_targets pts nts rm = Some (ts, rm')" and "wf_targets nts"
  shows "(\<forall>nt \<in> set nts. \<exists>pt. index_by tgt_IQN pts (tgt_IQN nt) = Some pt
      \<and> length (tgt_TPGs pt) = length (tgt_TPGs nt)
      \<and> (\<forall>ng \<in> set (tgt_TPGs nt). \<exists>pg. index_by tpg_Tag (tgt_TPGs pt) (tpg_Tag ng) = Some pg \<and> same_tpg pg ng))
    \<and> tpg_of ts iqn tag = (case tpg_of nts iqn tag of None \<Rightarrow> None
       | Some ng \<Rightarrow> (case tpg_of pts iqn tag of None \<Rightarrow> None | Some pg \<Rightarrow> tpg_diff pg ng))"
  using assms
proof (induction nts arbitrary: ts rm)
  case Nil
  then show ?case by (simp add: tpg_at_def)
next
  case (Cons nt nts)
  from Cons.prems(1) obtain pt addTPGs rm1 rest where pt: "index_by tgt_IQN pts (tgt_IQN nt) = Some pt"
    and len: "length (tgt_TPGs pt) = length (tgt_TPGs nt)"
    and d: "diff_tpgs (tgt_IQN nt) (tgt_TPGs pt) (tgt_TPGs nt) rm = Some (addTPGs, rm1)"
    and r: "diff_targets pts nts rm1 = Some (rest, rm')"
    and ts: "ts = (if addTPGs = [] then rest else \<lparr>tgt_IQN = tgt_IQN nt, tgt_TPGs = addTPGs\<rparr> # rest)"
    by (rule diff_targets_Cons)
  have dis: "distinct (map tpg_Tag (tgt_TPGs nt))" and nts: "wf_targets nts"
    and new: "tgt_IQN nt \<notin> tgt_IQN ` set nts" using Cons.prems(2) by auto
  note IH = Cons.IH [OF r nts] and D = diff_tpgs_index [OF d dis]
  have "tgt_IQN nt \<notin> tgt_IQN ` set rest" using new diff_targets_keys [OF r] by auto
  then have ts': "tpg_of ts iqn tag = (if tgt_IQN nt = iqn then index_by tpg_Tag addTPGs tag else tpg_of rest iqn tag)"
    using ts tpg_of_absent [of "tgt_IQN nt" rest tag] by (cases "addTPGs = []") (auto simp: tpg_of_Cons)
  have "tpg_of pts (tgt_IQN nt) tag = index_by tpg_Tag (tgt_TPGs pt) tag" using pt by (simp add: tpg_at_def)
  then have "tpg_of ts iqn tag = (case tpg_of (nt # nts) iqn tag of None \<Rightarrow> None
       | Some ng \<Rightarrow> (case tpg_of pts iqn tag of None \<Rightarrow> None | Some pg \<Rightarrow> tpg_diff pg ng))"
    unfolding ts' tpg_of_Cons [OF new] using D [of tag] IH by (auto split: option.split)
  moreover have "\<forall>x \<in> set (nt # nts). \<exists>pt. index_by tgt_IQN pts (tgt_IQN x) = Some pt
      \<and> length (tgt_TPGs pt) = length (tgt_TPGs x)
      \<and> (\<forall>ng \<in> set (tgt_TPGs x). \<exists>pg. index_by tpg_Tag (tgt_TPGs pt) (tpg_Tag ng) = Some pg \<and> same_tpg pg ng)"
    using IH D pt len by simp
  ultimately show ?case by blast
qed

section \<open>Refinement\<close>

lemma valid_config_wf: "valid_config c \<Longrightarrow> wf_targets (cfg_Targets c)"
  by (auto simp: valid_config_def valid_target_def valid_tpg_def valid_acls_def valid_luns_def valid_mapped_def)

lemma tpg_at_of: "tpg_at c iqn tag = tpg_of (cfg_Targets c) iqn tag"
  by (simp add: tpg_at_def)

lemma keys_equal_by_length:
  assumes "distinct (map f xs)" "distinct (map f ys)" "length xs = length ys" "f ` set ys \<subseteq> f ` set xs"
  shows "f ` set ys = f ` set xs"
proof (rule card_subset_eq [OF _ assms(4)])
  show "card (f ` set ys) = card (f ` set xs)"
    using assms(1-3) distinct_card by (metis length_map set_map)
qed simp

lemma indexed_keys_subset:
  assumes "\<And>y. y \<in> set ys \<Longrightarrow> index_by f xs (f y) \<noteq> None"
  shows "f ` set ys \<subseteq> f ` set xs"
proof
  fix k
  assume "k \<in> f ` set ys"
  then obtain y where "y \<in> set ys" "k = f y" by auto
  then show "k \<in> f ` set xs" using assms [of y] index_by_None [of f xs "f y"] by simp
qed

lemma Diff_Some:
  assumes "Diff prev next = Some d"
  obtains ts rm rm0 addBS where
    "rm0 = \<lparr>rm_MappedLUNs = [], rm_ACLs = [], rm_LUNs = [],
       rm_Backstores = List.map_filter (index_by backstoreKey (cfg_Backstores prev))
         (removed_keys backstoreKey (cfg_Backstores prev) (cfg_Backstores next))\<rparr>"
    and "addBS = added backstoreKey backstoreEqual (cfg_Backstores prev) (cfg_Backstores next)"
    and "length (cfg_Targets prev) = length (cfg_Targets next)"
    and "diff_targets (cfg_Targets prev) (cfg_Targets next) rm0 = Some (ts, rm)"
    and "d = \<lparr>d_Add = addReferencedBackstores \<lparr>cfg_Backstores = addBS, cfg_Targets = ts\<rparr> next, d_Remove = rm\<rparr>"
  using assms by (auto simp: Diff_def Let_def split: if_splits option.splits prod.splits)

text \<open>Both configurations have the same TPGs, with the same enable flag, attributes and portals.\<close>

lemma same_tpgs:
  assumes d: "diff_targets pts nts rm = Some (ts, rm')" and wf: "wf_targets pts" "wf_targets nts"
    and len: "length pts = length nts"
  shows "(tpg_of pts iqn tag = None \<and> tpg_of nts iqn tag = None) \<or>
    (\<exists>pg ng. tpg_of pts iqn tag = Some pg \<and> tpg_of nts iqn tag = Some ng \<and> same_tpg pg ng)"
proof -
  note I = diff_targets_index [OF d wf(2)]
  have "tgt_IQN ` set nts \<subseteq> tgt_IQN ` set pts"
    by (rule indexed_keys_subset) (use I in force)
  then have iqns: "tgt_IQN ` set nts = tgt_IQN ` set pts"
    using keys_equal_by_length [of tgt_IQN pts nts] wf len by auto
  show ?thesis
  proof (cases "iqn \<in> tgt_IQN ` set nts")
    case False
    then show ?thesis using iqns tpg_of_absent by metis
  next
    case True
    then obtain nt where nt: "nt \<in> set nts" "tgt_IQN nt = iqn" by auto
    then obtain pt where pt: "index_by tgt_IQN pts iqn = Some pt"
      and l: "length (tgt_TPGs pt) = length (tgt_TPGs nt)"
      and same: "\<forall>ng \<in> set (tgt_TPGs nt). \<exists>pg. index_by tpg_Tag (tgt_TPGs pt) (tpg_Tag ng) = Some pg \<and> same_tpg pg ng"
      using I by blast
    have "index_by tgt_IQN nts iqn = Some nt" using nt wf(2) index_by_distinct by metis
    then have at: "tpg_of nts iqn tag = index_by tpg_Tag (tgt_TPGs nt) tag"
      "tpg_of pts iqn tag = index_by tpg_Tag (tgt_TPGs pt) tag" using pt by (simp_all add: tpg_at_def)
    have "pt \<in> set pts" using pt by (auto dest: index_by_Some)
    then have tags: "tpg_Tag ` set (tgt_TPGs nt) = tpg_Tag ` set (tgt_TPGs pt)"
    proof (intro keys_equal_by_length)
      show "tpg_Tag ` set (tgt_TPGs nt) \<subseteq> tpg_Tag ` set (tgt_TPGs pt)"
        by (rule indexed_keys_subset) (use same in force)
    qed (use wf nt l in auto)
    show ?thesis
    proof (cases "index_by tpg_Tag (tgt_TPGs nt) tag")
      case None
      then show ?thesis using at tags by (metis index_by_None)
    next
      case (Some ng)
      then show ?thesis using at same by (auto dest!: index_by_Some)
    qed
  qed
qed

lemma pair_of_tpgs:
  assumes "wf_targets nts"
  shows "tpg_pair pts nts iqn tag pg ng \<longleftrightarrow> tpg_of pts iqn tag = Some pg \<and> tpg_of nts iqn tag = Some ng"
proof
  assume "tpg_pair pts nts iqn tag pg ng"
  then obtain nt pt where *: "nt \<in> set nts" "tgt_IQN nt = iqn" "index_by tgt_IQN pts iqn = Some pt"
      "ng \<in> set (tgt_TPGs nt)" "tpg_Tag ng = tag" "index_by tpg_Tag (tgt_TPGs pt) tag = Some pg"
    by (auto simp: tpg_pair_def)
  then have "index_by tgt_IQN nts iqn = Some nt" "index_by tpg_Tag (tgt_TPGs nt) tag = Some ng"
    using assms index_by_distinct by metis+
  then show "tpg_of pts iqn tag = Some pg \<and> tpg_of nts iqn tag = Some ng" using * by (simp add: tpg_at_def)
next
  assume "tpg_of pts iqn tag = Some pg \<and> tpg_of nts iqn tag = Some ng"
  then show "tpg_pair pts nts iqn tag pg ng"
    by (auto simp: tpg_pair_def tpg_at_def split: option.splits dest!: index_by_Some)
qed

lemma backstoreKey_inj_on: "valid_config c \<Longrightarrow> distinct (map backstoreKey (cfg_Backstores c))"
proof -
  assume v: "valid_config c"
  have name: "CHR ''/'' \<notin> set (bs_Name b)" if "b \<in> set (cfg_Backstores c)" for b
    using v that by (simp add: valid_config_def backstore_name_no_slash)
  have "bs_Name a = bs_Name b"
    if "a \<in> set (cfg_Backstores c)" "b \<in> set (cfg_Backstores c)" "backstoreKey a = backstoreKey b" for a b
  proof -
    have "cutLast CHR ''/'' ((bs_Type x @ ''_'' @ itoa (bs_HBA x)) @ CHR ''/'' # bs_Name x)
        = Some (bs_Type x @ ''_'' @ itoa (bs_HBA x), bs_Name x)" if "x \<in> set (cfg_Backstores c)" for x
      by (rule cutLast_append) (rule name [OF that])
    then have "cutLast CHR ''/'' (backstoreKey x) = Some (bs_Type x @ ''_'' @ itoa (bs_HBA x), bs_Name x)"
      if "x \<in> set (cfg_Backstores c)" for x using that by (simp add: backstoreKey_def)
    then show ?thesis using that by (metis Pair_inject option.inject)
  qed
  moreover have "inj_on bs_Name (set (cfg_Backstores c))" "distinct (cfg_Backstores c)"
    using v by (auto simp: valid_config_def distinct_map)
  ultimately have "inj_on backstoreKey (set (cfg_Backstores c))" unfolding inj_on_def by blast
  then show ?thesis using \<open>distinct (cfg_Backstores c)\<close> by (simp add: distinct_map)
qed

lemma add_referenced_subset: "set (add_referenced next have ls) \<subseteq> set next"
  by (induction ls arbitrary: "have") (auto split: option.splits dest: index_by_Some)

lemma removed_backstores:
  "backstoreKey ` set (List.map_filter (index_by backstoreKey prev) (removed_keys backstoreKey prev next))
    = set (removed_keys backstoreKey prev next)"
proof -
  have "\<exists>b. index_by backstoreKey prev k = Some b \<and> backstoreKey b = k"
    if "k \<in> set (removed_keys backstoreKey prev next)" for k
    using that index_by_None [of backstoreKey prev k] index_by_Some [of backstoreKey prev k]
    by (cases "index_by backstoreKey prev k") (auto simp: set_removed_keys)
  then show ?thesis by (force simp: set_map_filter)
qed

lemma override_backstores:
  assumes "distinct (map backstoreKey next)" and "set extra \<subseteq> set next"
  shows "override (content backstoreKey backstore_view prev)
      (content backstoreKey backstore_view (added backstoreKey backstoreEqual prev next @ extra))
      (set (removed_keys backstoreKey prev next)) = content backstoreKey backstore_view next"
proof
  fix k
  let ?add = "added backstoreKey backstoreEqual prev next"
  note base = backstore_diff.diff_content [OF assms(1), of prev, THEN fun_cong, of k]
  show "override (content backstoreKey backstore_view prev) (content backstoreKey backstore_view (?add @ extra))
      (set (removed_keys backstoreKey prev next)) k = content backstoreKey backstore_view next k"
  proof (cases "index_by backstoreKey (?add @ extra) k")
    case None
    then have "index_by backstoreKey ?add k = None" by (auto simp: index_by_None)
    then have "content backstoreKey backstore_view (?add @ extra) k = content backstoreKey backstore_view ?add k"
      using None by (simp add: content_def)
    then show ?thesis using base by (simp only: override_def)
  next
    case (Some y)
    then have y: "y \<in> set next" "backstoreKey y = k"
      using index_by_Some [OF Some] assms(2) set_added [of backstoreKey backstoreEqual prev "next"] by auto
    then have "index_by backstoreKey next k = Some y" using index_by_distinct [OF assms(1)] by metis
    moreover have "k \<notin> set (removed_keys backstoreKey prev next)" using y by (auto simp: set_removed_keys)
    ultimately show ?thesis using Some by (simp add: override_def content_def)
  qed
qed

lemma tpg_refines:
  assumes dt: "diff_targets pts nts rm0 = Some (ts, rm)" and wf: "wf_targets pts" "wf_targets nts"
    and len: "length pts = length nts"
    and rm0: "rm_MappedLUNs rm0 = []" "rm_ACLs rm0 = []" "rm_LUNs rm0 = []"
  shows "update_tpg (map_option view_tpg (tpg_of pts iqn tag)) (tpg_of ts iqn tag)
        = map_option view_tpg (tpg_of nts iqn tag)
    \<and> override (lun_in (tpg_of pts iqn tag)) (lun_in (tpg_of ts iqn tag)) {i. lun_gone rm iqn tag i}
        = lun_in (tpg_of nts iqn tag)
    \<and> (\<lambda>a. (acl_in (tpg_of pts iqn tag) a \<noteq> None \<or> acl_in (tpg_of ts iqn tag) a \<noteq> None) \<and> \<not> acl_gone rm iqn tag a)
        = (\<lambda>a. acl_in (tpg_of nts iqn tag) a \<noteq> None)
    \<and> (\<lambda>a. override (mapped_in (tpg_of pts iqn tag) a) (mapped_in (tpg_of ts iqn tag) a)
         {i. mapped_gone rm iqn tag a i \<or> acl_gone rm iqn tag a}) = mapped_in (tpg_of nts iqn tag)"
proof (cases "tpg_of nts iqn tag")
  case None
  then have "tpg_of pts iqn tag = None" "tpg_of ts iqn tag = None"
    using same_tpgs [OF dt wf len, of iqn tag] diff_targets_index [OF dt wf(2), of iqn tag] by auto
  then show ?thesis using None
    by (auto simp: update_tpg_def override_def lun_in_def acl_in_def mapped_in_def fun_eq_iff)
next
  case (Some ng)
  then obtain pg where pg: "tpg_of pts iqn tag = Some pg" and same: "same_tpg pg ng"
    using same_tpgs [OF dt wf len, of iqn tag] by auto
  have ag: "tpg_of ts iqn tag = tpg_diff pg ng"
    using diff_targets_index [OF dt wf(2), of iqn tag] Some pg by simp
  have pair: "tpg_pair pts nts iqn tag p n \<longleftrightarrow> p = pg \<and> n = ng" for p n
    using pair_of_tpgs [OF wf(2), of pts iqn tag p n] Some pg by auto
  have "lun_gone rm0 iqn tag i = False" "acl_gone rm0 iqn tag a = False" "mapped_gone rm0 iqn tag a i = False" for a i
    using rm0 by (simp_all add: lun_gone_def acl_gone_def mapped_gone_def)
  then have gone: "lun_gone rm iqn tag i = (i \<in> set (removed_keys lun_Index (tpg_LUNs pg) (tpg_LUNs ng)))"
    "acl_gone rm iqn tag a = (a \<in> set (removed_keys acl_InitiatorIQN (tpg_ACLs pg) (tpg_ACLs ng)))"
    "mapped_gone rm iqn tag a i = (i \<in> mapped_diff_gone pg ng a)" for a i
    using diff_targets_gone [OF dt wf(2), of iqn tag i a] by (simp_all add: pair)
  obtain nt where "nt \<in> set nts" "ng \<in> set (tgt_TPGs nt)"
    using Some by (auto simp: tpg_at_def split: option.splits dest!: index_by_Some)
  then have dis: "distinct (map acl_InitiatorIQN (tpg_ACLs ng))" "distinct (map lun_Index (tpg_LUNs ng))"
    "\<forall>a \<in> set (tpg_ACLs ng). distinct (map ml_Index (acl_MappedLUNs a))" using wf(2) by auto
  have "update_tpg (Some (view_tpg pg)) (tpg_diff pg ng) = Some (view_tpg ng)"
    using same_tpg_view [OF same] tpg_diff_view [of pg ng]
    by (auto simp: update_tpg_def view_tpg_def split: option.splits)
  then show ?thesis
    unfolding Some pg ag gone
    using override_luns [OF dis(2)] override_acls [OF dis(1)] override_mapped [OF dis(1,3)] by simp
qed

lemma tree_eqI:
  "tr_backstores s = tr_backstores t \<Longrightarrow> (\<And>iqn tag. tr_tpgs s iqn tag = tr_tpgs t iqn tag
     \<and> tr_luns s iqn tag = tr_luns t iqn tag \<and> tr_acls s iqn tag = tr_acls t iqn tag
     \<and> tr_mapped s iqn tag = tr_mapped t iqn tag) \<Longrightarrow> (s :: tree) = t"
  by (cases s; cases t) (auto simp: fun_eq_iff)

lemma Diff_refines:
  assumes vp: "valid_config prev" and vn: "valid_config next" and D: "Diff prev next = Some d"
  shows "apply_delta_spec d (tree_of prev) = tree_of next"
proof -
  note wf = valid_config_wf [OF vp] valid_config_wf [OF vn]
  from D obtain ts rm rm0 addBS where
    rm0: "rm0 = \<lparr>rm_MappedLUNs = [], rm_ACLs = [], rm_LUNs = [],
       rm_Backstores = List.map_filter (index_by backstoreKey (cfg_Backstores prev))
         (removed_keys backstoreKey (cfg_Backstores prev) (cfg_Backstores next))\<rparr>"
    and addBS: "addBS = added backstoreKey backstoreEqual (cfg_Backstores prev) (cfg_Backstores next)"
    and len: "length (cfg_Targets prev) = length (cfg_Targets next)"
    and dt: "diff_targets (cfg_Targets prev) (cfg_Targets next) rm0 = Some (ts, rm)"
    and d: "d = \<lparr>d_Add = addReferencedBackstores \<lparr>cfg_Backstores = addBS, cfg_Targets = ts\<rparr> next, d_Remove = rm\<rparr>"
    by (rule Diff_Some)
  have add: "tpg_at (d_Add d) iqn tag = tpg_of ts iqn tag" for iqn tag
    using d by (simp add: addReferencedBackstores_def tpg_at_def)
  have rm: "d_Remove d = rm" using d by simp
  obtain extra where extra: "cfg_Backstores (d_Add d) = addBS @ extra" "set extra \<subseteq> set (cfg_Backstores next)"
    using d add_referenced_subset by (auto simp: addReferencedBackstores_def)
  have "rm_Backstores rm = rm_Backstores rm0" using diff_targets_gone [OF dt wf(2)] by blast
  then have rmB: "backstoreKey ` set (rm_Backstores rm)
      = set (removed_keys backstoreKey (cfg_Backstores prev) (cfg_Backstores next))"
    using rm0 by (simp add: removed_backstores)
  have "tr_backstores (apply_delta_spec d (tree_of prev)) = tr_backstores (tree_of next)"
    using override_backstores [OF backstoreKey_inj_on [OF vn] extra(2)] rmB addBS extra(1) rm
    by (simp add: apply_delta_spec_def tree_of_def Let_def)
  moreover have "tr_tpgs (apply_delta_spec d (tree_of prev)) iqn tag = tr_tpgs (tree_of next) iqn tag
      \<and> tr_luns (apply_delta_spec d (tree_of prev)) iqn tag = tr_luns (tree_of next) iqn tag
      \<and> tr_acls (apply_delta_spec d (tree_of prev)) iqn tag = tr_acls (tree_of next) iqn tag
      \<and> tr_mapped (apply_delta_spec d (tree_of prev)) iqn tag = tr_mapped (tree_of next) iqn tag" for iqn tag
    using tpg_refines [OF dt wf len, of iqn tag] rm0
    by (simp add: apply_delta_spec_def tree_of_def add rm tpg_at_of [of prev] tpg_at_of [of "next"] Let_def)
  ultimately show ?thesis by (simp add: tree_eqI)
qed

text \<open>C6. \<open>Diff\<close> is correct: for two configurations that \<open>Validate\<close> accepts, whenever the change is
  expressible as a delta, applying that delta to the tree of the previous configuration gives exactly
  the tree of the next one: backstores with all their settings, TPGs with enable flag, attributes and
  portals, LUNs, ACLs and mapped LUNs, nothing missing and nothing left behind.\<close>

theorem Diff_applied_gives_next:
  assumes "Validate prev = None" and "Validate next = None" and "Diff prev next = Some d"
  shows "apply_delta_spec d (tree_of prev) = tree_of next"
  using Diff_refines assms by (simp only: Validate_ok_iff)

lemma Diff_applied_gives_next_witness:
  "\<exists>d. Diff (example_config 1024 [\<lparr>ml_Index = 5, ml_TPGLUN = 0, ml_WriteProtect = False\<rparr>]) (example_config 2048 [])
       = Some d
     \<and> rm_MappedLUNs (d_Remove d) = [\<lparr>mr_IQN = ''iqn.t'', mr_Tag = 1, mr_Initiator = ''iqn.h'', mr_Index = 5\<rparr>]
     \<and> apply_delta_spec d (tree_of (example_config 1024 [\<lparr>ml_Index = 5, ml_TPGLUN = 0, ml_WriteProtect = False\<rparr>]))
       = tree_of (example_config 2048 [])"
proof -
  let ?p = "example_config 1024 [\<lparr>ml_Index = 5, ml_TPGLUN = 0, ml_WriteProtect = False\<rparr>]"
  obtain d where d: "Diff ?p (example_config 2048 []) = Some d"
    and r: "rm_MappedLUNs (d_Remove d) = [\<lparr>mr_IQN = ''iqn.t'', mr_Tag = 1, mr_Initiator = ''iqn.h'', mr_Index = 5\<rparr>]"
    by (simp add: Diff_def example_config_def added_def removed_keys_def index_by_def movedIdentity_def backstoreKey_def
        backstoreEqual_def sameStringMap_def samePortals_def diffTPG_def addReferencedBackstores_def Let_def)
  show ?thesis using Diff_applied_gives_next [OF example_valid(2) example_valid(1) d] d r by blast
qed

section \<open>Further properties of the delta\<close>

lemma diff_acls_same:
  assumes "distinct (map acl_InitiatorIQN as)" "\<forall>a \<in> set as. distinct (map ml_Index (acl_MappedLUNs a))"
    and "set nas \<subseteq> set as"
  shows "diff_acls iqn tag as nas = ([], [])"
  using assms(3)
proof (induction nas)
  case (Cons na nas)
  then have "index_by acl_InitiatorIQN as (acl_InitiatorIQN na) = Some na"
    using assms(1) by (simp add: index_by_distinct)
  moreover have "added ml_Index (=) (acl_MappedLUNs na) (acl_MappedLUNs na) = []
      \<and> removed_keys ml_Index (acl_MappedLUNs na) (acl_MappedLUNs na) = []"
    using Cons.prems assms(2) by (intro mapped_diff.diff_same_nil) auto
  ultimately show ?case using Cons by simp
qed simp

lemma diffTPG_same:
  assumes "distinct (map acl_InitiatorIQN (tpg_ACLs g))" "distinct (map lun_Index (tpg_LUNs g))"
    "\<forall>a \<in> set (tpg_ACLs g). distinct (map ml_Index (acl_MappedLUNs a))"
  shows "\<exists>ag. diffTPG iqn g g rm = (ag, rm, False)"
proof -
  have "removed_keys acl_InitiatorIQN (tpg_ACLs g) (tpg_ACLs g) = []" by (simp add: removed_keys_def)
  then show ?thesis
    using lun_diff.diff_same_nil [OF assms(2)] diff_acls_same [OF assms(1,3) order_refl]
    by (simp add: diffTPG_def)
qed

lemma same_refl [simp]: "sameStringMap m m" "samePortals ps ps"
  by (simp_all add: sameStringMap_iff samePortals_mset)

lemma diff_tpgs_same:
  assumes "distinct (map tpg_Tag gs)" and "set ngs \<subseteq> set gs"
    and "\<forall>g \<in> set gs. distinct (map acl_InitiatorIQN (tpg_ACLs g)) \<and> distinct (map lun_Index (tpg_LUNs g))
        \<and> (\<forall>a \<in> set (tpg_ACLs g). distinct (map ml_Index (acl_MappedLUNs a)))"
  shows "diff_tpgs iqn gs ngs rm = Some ([], rm)"
  using assms(2)
proof (induction ngs)
  case (Cons g ngs)
  then have "index_by tpg_Tag gs (tpg_Tag g) = Some g" using assms(1) by (simp add: index_by_distinct)
  moreover obtain ag where "diffTPG iqn g g rm = (ag, rm, False)"
    using diffTPG_same [of g iqn rm] assms(3) Cons.prems by auto
  ultimately show ?case using Cons by simp
qed simp

lemma diff_targets_same:
  assumes "wf_targets ts" and "set nts \<subseteq> set ts"
  shows "diff_targets ts nts rm = Some ([], rm)"
  using assms(2)
proof (induction nts)
  case (Cons t nts)
  then have "index_by tgt_IQN ts (tgt_IQN t) = Some t" using assms(1) by (simp add: index_by_distinct)
  moreover have "diff_tpgs (tgt_IQN t) (tgt_TPGs t) (tgt_TPGs t) rm = Some ([], rm)"
    using assms(1) Cons.prems by (intro diff_tpgs_same) auto
  ultimately show ?case using Cons by simp
qed simp

lemma valid_not_moved:
  assumes "valid_config c" "b \<in> set (cfg_Backstores c)"
  shows "\<not> movedIdentity (cfg_Backstores c) b"
proof -
  have "p = b" if "p \<in> set (cfg_Backstores c)" "bs_Name p = bs_Name b" for p
    using that assms by (auto simp: valid_config_def distinct_map inj_on_def)
  then show ?thesis
    by (auto simp: movedIdentity_def list_ex_iff split: option.splits dest!: index_by_Some) metis
qed

text \<open>A mutation that changes nothing costs nothing: the delta from a valid configuration to itself
  is expressible and empty.\<close>

lemma Diff_self_empty:
  assumes "Validate c = None"
  shows "\<exists>d. Diff c c = Some d \<and> Delta_Empty d"
proof -
  have v: "valid_config c" using assms by (simp add: Validate_ok_iff)
  have "diff_targets (cfg_Targets c) (cfg_Targets c) rm = Some ([], rm)" for rm
    using diff_targets_same [OF valid_config_wf [OF v] order_refl] .
  then show ?thesis
    using backstore_diff.diff_same_nil [OF backstoreKey_inj_on [OF v]] valid_not_moved [OF v]
    by (auto simp: Diff_def list_ex_iff Let_def addReferencedBackstores_def Delta_Empty_def RemoveSet_Empty_def
        List.map_filter_simps)
qed

lemma add_referenced_covers:
  assumes "l \<in> set ls" "lun_Backstore l \<in> bs_Name ` set next"
  shows "lun_Backstore l \<in> set have \<union> bs_Name ` set (add_referenced next have ls)"
  using assms(1)
proof (induction ls arbitrary: "have")
  case (Cons x xs)
  show ?case
  proof (cases "x = l")
    case True
    obtain b where "index_by bs_Name next (lun_Backstore l) = Some b"
      using assms(2) index_by_None [of bs_Name "next" "lun_Backstore l"] by fastforce
    then show ?thesis using True by (auto dest: index_by_Some)
  next
    case False
    then have "l \<in> set xs" using Cons.prems by simp
    then have IH: "lun_Backstore l \<in> set h \<union> bs_Name ` set (add_referenced next h xs)" for h
      by (rule Cons.IH)
    show ?thesis
      using IH [of "have"] IH [of "lun_Backstore x # have"]
      by (auto split: option.splits dest!: index_by_Some)
  qed
qed simp

text \<open>Every TPG of the added part comes from a TPG of the next configuration.\<close>

lemma diff_tpgs_from:
  "diff_tpgs iqn pgs ngs rm = Some (ags, rm') \<Longrightarrow> ag \<in> set ags \<Longrightarrow>
     \<exists>ng \<in> set ngs. tpg_Tag ag = tpg_Tag ng \<and> tpg_Enable ag = tpg_Enable ng \<and> set (tpg_LUNs ag) \<subseteq> set (tpg_LUNs ng)"
proof (induction ngs arbitrary: ags rm)
  case (Cons ng ngs)
  from Cons.prems(1) obtain pg ag' rm1 changed rest where
    r: "diff_tpgs iqn pgs ngs rm1 = Some (rest, rm')" and
    ags: "ags = (case tpg_diff pg ng of None \<Rightarrow> rest | Some g \<Rightarrow> g # rest)" by (rule diff_tpgs_Cons)
  have new: "tpg_diff pg ng = Some ag \<Longrightarrow> tpg_Tag ag = tpg_Tag ng \<and> tpg_Enable ag = tpg_Enable ng
      \<and> set (tpg_LUNs ag) \<subseteq> set (tpg_LUNs ng)"
    using set_added [of lun_Index "(=)" "tpg_LUNs pg" "tpg_LUNs ng"] tpg_diff_LUNs [of pg ng ag]
      tpg_diff_view [of pg ng ag] tpg_diff_Tag [of pg ng ag] by metis
  have "tpg_diff pg ng = Some ag \<or> ag \<in> set rest" using ags Cons.prems(2) by (auto split: option.splits)
  then show ?case using new Cons.IH [OF r] by (metis list.set_intros)
qed simp

lemma diff_targets_from:
  "diff_targets pts nts rm = Some (ts, rm') \<Longrightarrow> t \<in> set ts \<Longrightarrow> ag \<in> set (tgt_TPGs t) \<Longrightarrow>
     \<exists>nt \<in> set nts. \<exists>ng \<in> set (tgt_TPGs nt). tgt_IQN t = tgt_IQN nt \<and> tpg_Tag ag = tpg_Tag ng
       \<and> tpg_Enable ag = tpg_Enable ng \<and> set (tpg_LUNs ag) \<subseteq> set (tpg_LUNs ng)"
proof (induction nts arbitrary: ts rm)
  case (Cons nt nts)
  from Cons.prems(1) obtain pt addTPGs rm1 rest where "index_by tgt_IQN pts (tgt_IQN nt) = Some pt"
    and d: "diff_tpgs (tgt_IQN nt) (tgt_TPGs pt) (tgt_TPGs nt) rm = Some (addTPGs, rm1)"
    and r: "diff_targets pts nts rm1 = Some (rest, rm')"
    and ts: "ts = (if addTPGs = [] then rest else \<lparr>tgt_IQN = tgt_IQN nt, tgt_TPGs = addTPGs\<rparr> # rest)"
    by (rule diff_targets_Cons)
  then show ?case using Cons.IH [OF r _ Cons.prems(3)] diff_tpgs_from [OF d, of ag] Cons.prems(2,3)
    by (auto split: if_splits)
qed simp

text \<open>A delta is self-contained and never touches the enable flag: every LUN it adds names a
  backstore that it adds too, changed or not, and every TPG it adds carries the enable flag that the
  next configuration has for the TPG of that target and tag.\<close>

lemma delta_self_contained:
  assumes "Validate next = None" and "Diff prev next = Some d"
    and "t \<in> set (cfg_Targets (d_Add d))" and "g \<in> set (tgt_TPGs t)"
  shows "(\<forall>l \<in> set (tpg_LUNs g). lun_Backstore l \<in> bs_Name ` set (cfg_Backstores (d_Add d)))
    \<and> (\<exists>nt \<in> set (cfg_Targets next). \<exists>ng \<in> set (tgt_TPGs nt). tgt_IQN nt = tgt_IQN t
         \<and> tpg_Tag ng = tpg_Tag g \<and> tpg_Enable ng = tpg_Enable g)"
proof -
  from assms(2) obtain ts rm rm0 addBS where
    dt: "diff_targets (cfg_Targets prev) (cfg_Targets next) rm0 = Some (ts, rm)"
    and d: "d = \<lparr>d_Add = addReferencedBackstores \<lparr>cfg_Backstores = addBS, cfg_Targets = ts\<rparr> next, d_Remove = rm\<rparr>"
    by (rule Diff_Some)
  have t: "t \<in> set ts" using assms(3) d by (simp add: addReferencedBackstores_def)
  from diff_targets_from [OF dt t assms(4)] obtain nt ng where
    n: "nt \<in> set (cfg_Targets next)" "ng \<in> set (tgt_TPGs nt)" "tgt_IQN t = tgt_IQN nt" "tpg_Tag g = tpg_Tag ng"
      "tpg_Enable g = tpg_Enable ng" "set (tpg_LUNs g) \<subseteq> set (tpg_LUNs ng)" by auto
  have "lun_Backstore l \<in> bs_Name ` set (cfg_Backstores (d_Add d))" if l: "l \<in> set (tpg_LUNs g)" for l
  proof -
    have "lun_Backstore l \<in> bs_Name ` set (cfg_Backstores next)"
      using l n assms(1) by (auto simp: Validate_ok_iff valid_config_def valid_target_def valid_tpg_def valid_luns_def)
    moreover have "l \<in> set (concat (map tpg_LUNs (concat (map tgt_TPGs ts))))" using l t assms(4) by auto
    ultimately have "lun_Backstore l \<in> set (map bs_Name addBS) \<union> bs_Name ` set (add_referenced (cfg_Backstores next)
        (map bs_Name addBS) (concat (map tpg_LUNs (concat (map tgt_TPGs ts)))))"
      by (intro add_referenced_covers)
    then show ?thesis using d by (simp add: addReferencedBackstores_def image_Un)
  qed
  then show ?thesis using n by metis
qed

end
