(* ===== verification/Lio_Guard.thy ===== *)
theory Lio_Guard
  imports Lio_Engine Lio_Delta_Refine
begin

text \<open>
  What the engine never does, for every kernel: a locale states that the system calls it may make keep an
  invariant of the kernel state, and its lemmas carry the invariant through every function of the
  engine. The interpretation is on a kernel that records its calls, so the invariant becomes a fact
  about the calls that were made, whatever they returned.
\<close>

section \<open>Steps that keep an invariant\<close>

named_theorems keeps

definition preserving :: "('k \<Rightarrow> bool) \<Rightarrow> 'k step \<Rightarrow> bool" where
  "preserving I f \<longleftrightarrow> (\<forall>a. I (a_kern a) \<longrightarrow> I (a_kern (snd (f a))))"

lemma preservingD: "preserving I f \<Longrightarrow> f a = (r, a') \<Longrightarrow> I (a_kern a) \<Longrightarrow> I (a_kern a')"
  unfolding preserving_def by (metis snd_conv)

lemma preserving_simple [keeps]: "preserving I done_step" "preserving I (fail_step e)" "preserving I (add_note s)" "preserving I (add_drift ds)"
  by (simp_all add: preserving_def done_step_def fail_step_def add_note_def add_drift_def)

lemma preserving_then [keeps]: "preserving I f \<Longrightarrow> preserving I g \<Longrightarrow> preserving I (then_step f g)"
  by (auto simp: preserving_def then_step_def split: prod.splits option.splits)

lemma preserving_each [keeps]: "(\<And>x. x \<in> set xs \<Longrightarrow> preserving I (f x)) \<Longrightarrow> preserving I (each_step f xs)"
  by (induction xs) (auto intro: keeps)

lemma preserving_read [keeps]: "(\<And>x. preserving I (f x)) \<Longrightarrow> preserving I (read_step M r f)"
  by (simp add: preserving_def read_step_def split: sum.splits)

lemma preserving_read_result:
  "(\<And>k x. I k \<Longrightarrow> r (k_view (m_fs M) k) = Inr x \<Longrightarrow> preserving I (f x)) \<Longrightarrow> preserving I (read_step M r f)"
  by (auto simp: preserving_def read_step_def split: sum.splits)

lemma preserving_call [keeps]: "(\<And>k. I k \<Longrightarrow> I (snd (op k))) \<Longrightarrow> preserving I (call_step op w)"
  by (simp add: preserving_def call_step_def split: prod.splits) (metis snd_conv)

lemma preserving_if [keeps]: "(c \<Longrightarrow> preserving I f) \<Longrightarrow> (\<not> c \<Longrightarrow> preserving I g) \<Longrightarrow> preserving I (if c then f else g)"
  by simp

lemma preserving_option [keeps]:
  "(x = None \<Longrightarrow> preserving I f) \<Longrightarrow> (\<And>y. x = Some y \<Longrightarrow> preserving I (g y)) \<Longrightarrow> preserving I (case x of None \<Rightarrow> f | Some y \<Rightarrow> g y)"
  by (cases x) simp_all

lemma preserving_pair [keeps]: "(\<And>x y. p = (x, y) \<Longrightarrow> preserving I (f x y)) \<Longrightarrow> preserving I (case p of (x, y) \<Rightarrow> f x y)"
  by (cases p) simp

lemma preserving_sum [keeps]:
  "(\<And>e. x = Inl e \<Longrightarrow> preserving I (f e)) \<Longrightarrow> (\<And>y. x = Inr y \<Longrightarrow> preserving I (g y)) \<Longrightarrow> preserving I (case x of Inl e \<Rightarrow> f e | Inr y \<Rightarrow> g y)"
  by (cases x) simp_all

section \<open>The interface: what a system call keeps\<close>

locale removing_kernel =
  fixes M :: "'k Manager" and I :: "'k \<Rightarrow> bool" and may_rmdir :: "path \<Rightarrow> bool"
  assumes unlink_keeps: "I k \<Longrightarrow> I (snd (k_unlink (m_fs M) p k))"
    and rmdir_keeps: "may_rmdir p \<Longrightarrow> I k \<Longrightarrow> I (snd (k_rmdir (m_fs M) p k))"
begin

lemma Rmdir_keeps: "may_rmdir p \<Longrightarrow> I k \<Longrightarrow> I (snd (Rmdir (m_fs M) p k))"
  using rmdir_keeps [of p k] by (auto simp: Rmdir_def split: prod.splits option.splits)

lemma Unlink_keeps: "I k \<Longrightarrow> I (snd (Unlink (m_fs M) p k))"
  using unlink_keeps [of k p] by (auto simp: Unlink_def split: prod.splits option.splits)

lemma unlink_links_keeps: "I k \<Longrightarrow> I (snd (unlink_links M dir ls k))"
proof (induction ls arbitrary: k)
  case (Cons l ls)
  obtain r k1 where "Unlink (m_fs M) (dir @ [l]) k = (r, k1)" by fastforce
  with Unlink_keeps [OF Cons.prems, of "dir @ [l]"] Cons.IH [of k1] show ?case by (cases r) simp_all
qed simp

lemma unlinkAll_keeps: "I k \<Longrightarrow> I (snd (unlinkAll M dir k))"
  using unlink_links_keeps by (simp add: unlinkAll_def split: sum.splits)

lemma rmdir_step_keeps [keeps]: "may_rmdir p \<Longrightarrow> preserving I (rmdir_step M op obj p)"
  unfolding rmdir_step_def by (intro keeps) (rule Rmdir_keeps)

lemma unlink_step_keeps [keeps]: "preserving I (call_step (unlinkAll M dir) w)" "preserving I (unlink_step M obj dir)"
  unfolding unlink_step_def by (intro keeps unlinkAll_keeps, assumption)+

lemma exists_step_keeps [keeps]: "(\<And>x. preserving I (f x)) \<Longrightarrow> preserving I (exists_step M op obj p f)"
  unfolding exists_step_def by (intro keeps) simp

lemma removeMappedLUN_keeps [keeps]: "may_rmdir (mappedLunPath iqn tag i n) \<Longrightarrow> preserving I (removeMappedLUN M iqn tag i n)"
  unfolding removeMappedLUN_def Let_def by (intro keeps)

lemma removeLUN_keeps [keeps]: "may_rmdir (lunPath iqn tag n) \<Longrightarrow> preserving I (removeLUN M iqn tag n)"
  unfolding removeLUN_def Let_def by (intro keeps)

lemma removeACL_keeps [keeps]:
  "may_rmdir (aclPath iqn tag i) \<Longrightarrow> (\<And>n. may_rmdir (mappedLunPath iqn tag i n)) \<Longrightarrow> preserving I (removeACL M iqn tag i)"
  unfolding removeACL_def Let_def by (intro keeps)

lemma removeBackstore_keeps [keeps]:
  assumes "may_rmdir (objPath b)" and "may_rmdir (hbaPath b)"
  shows "preserving I (removeBackstore M b)"
proof -
  have "preserving I (\<lambda>a. (None, a\<lparr>a_kern := snd (Rmdir (m_fs M) (hbaPath b) (a_kern a))\<rparr>))"
    using Rmdir_keeps [OF assms(2)] by (simp add: preserving_def)
  then show ?thesis using assms(1) unfolding removeBackstore_def by (intro keeps)
qed

lemma remove_acl_entry_keeps [keeps]:
  "(\<And>q. may_rmdir (tpgPath iqn tag @ q)) \<Longrightarrow> preserving I (remove_acl_entry M iqn tag i)"
  unfolding remove_acl_entry_def by (intro keeps) (simp_all add: aclPath_def mappedLunPath_def)

lemma removeTPG_keeps [keeps]: "(\<And>q. may_rmdir (tpgPath iqn tag @ q)) \<Longrightarrow> preserving I (removeTPG M iqn tag)"
proof -
  assume all: "\<And>q. may_rmdir (tpgPath iqn tag @ q)"
  then have "may_rmdir (tpgPath iqn tag)" "\<And>n. may_rmdir (lunPath iqn tag n)" "\<And>np. may_rmdir (tpgPath iqn tag @ [''np'', np])"
    using all [of "[]"] by (simp_all add: lunPath_def)
  with all show ?thesis unfolding removeTPG_def Let_def by (intro keeps)
qed

lemma removeTarget_keeps [keeps]: "(\<And>q. may_rmdir (targetPath iqn @ q)) \<Longrightarrow> preserving I (removeTarget M iqn)"
proof -
  assume all: "\<And>q. may_rmdir (targetPath iqn @ q)"
  have "may_rmdir (targetPath iqn)" "\<And>tag q. may_rmdir (tpgPath iqn tag @ q)"
    using all [of "[]"] all by (simp_all add: targetPath_def tpgPath_def)
  then show ?thesis unfolding removeTarget_def Let_def by (intro keeps)
qed

end

text \<open>The calls that create.\<close>

locale guarded_kernel = removing_kernel +
  fixes may_write :: "string \<Rightarrow> path \<Rightarrow> bool"
  assumes mkdir_keeps: "I k \<Longrightarrow> I (snd (k_mkdir (m_fs M) p k))"
    and symlink_keeps: "I k \<Longrightarrow> I (snd (k_symlink (m_fs M) t p k))"
    and random_keeps: "I k \<Longrightarrow> I (snd (k_random (m_fs M) n k))"
    and write_keeps: "may_write s p \<Longrightarrow> I k \<Longrightarrow> I (snd (k_write (m_fs M) s p k))"
begin

lemma Mkdir_keeps: "I k \<Longrightarrow> I (snd (Mkdir (m_fs M) p k))"
  using mkdir_keeps [of k p] by (auto simp: Mkdir_def split: prod.splits option.splits)

lemma WriteAttr_keeps: "may_write (s @ [newline]) p \<Longrightarrow> I k \<Longrightarrow> I (snd (WriteAttr (m_fs M) s p k))"
  using write_keeps [of "s @ [newline]" p k] by (auto simp: WriteAttr_def split: prod.splits option.splits)

lemma Symlink_keeps: "I k \<Longrightarrow> I (snd (Symlink (m_fs M) t p k))"
  using symlink_keeps [of k t p] by (auto simp: Symlink_def split: prod.splits option.splits)

lemma mkdir_step_keeps [keeps]: "preserving I (mkdir_step M kind obj p)"
  unfolding mkdir_step_def by (intro keeps) (rule Mkdir_keeps)

lemma write_step_keeps [keeps]: "may_write (s @ [newline]) p \<Longrightarrow> preserving I (write_step M obj s p)"
  unfolding write_step_def by (intro keeps) (rule WriteAttr_keeps)

lemma link_step_keeps [keeps]: "preserving I (link_step M obj t dir)"
  unfolding link_step_def
proof (rule preserving_call)
  fix k
  assume "I k"
  then show "I (snd (case alias_name M k of (name, k1) \<Rightarrow> Symlink (m_fs M) t (dir @ [name]) k1))"
    using random_keeps [of k 5] Symlink_keeps by (auto simp: alias_name_def split: prod.splits)
qed

lemma make_absent_keeps [keeps]: "preserving I (make_absent M obj p)"
  unfolding make_absent_def by (intro keeps)

lemma wire_step_keeps [keeps]: "preserving I after \<Longrightarrow> preserving I (wire_step M obj want dir rp cr after)"
  unfolding wire_step_def Let_def by (intro keeps)

lemma ensurePortal_keeps [keeps]: "preserving I (ensurePortal M iqn tag p)"
  unfolding ensurePortal_def Let_def by (intro keeps)

lemma ensureLUN_keeps [keeps]: "preserving I (ensureLUN M bsn iqn tag l)"
  unfolding ensureLUN_def Let_def by (intro keeps)

end

text \<open>When every write is harmless, every creating function is.\<close>

locale removal_guard = guarded_kernel +
  assumes any_write: "may_write s p"
begin

lemmas writes_keep [keeps] = write_step_keeps [OF any_write]

lemma load_record_keeps [keeps]: "preserving I (load_record M b s)"
  unfolding load_record_def by (intro keeps)

lemma loadAPTPL_keeps [keeps]: "preserving I (loadAPTPL M b)"
proof (cases "m_aptplRecords M")
  case (Some records)
  have "preserving I (each_step (load_record M b) recs)" for recs by (intro keeps)
  with Some show ?thesis by (simp add: loadAPTPL_def preserving_def split: sum.splits)
qed (simp add: loadAPTPL_def keeps)

lemma write_attr_keeps [keeps]: "preserving I (write_attr M b k cur want)"
proof -
  have "I (snd (WriteAttr (m_fs M) want p k1))" if "I k1" for k1 p using that WriteAttr_keeps any_write by blast
  then show ?thesis
    unfolding preserving_def write_attr_def Let_def add_note_def add_drift_def
    by (auto split: prod.splits option.splits) (metis snd_conv)+
qed

lemma reconcileBackstoreMutable_keeps [keeps]: "preserving I (reconcileBackstoreMutable M b)"
  unfolding reconcileBackstoreMutable_def reconcile_serial_def reconcile_field_def reconcile_attr_def reconcile_size_def Let_def
  by (intro keeps)

lemma create_backstore_keeps [keeps]: "preserving I (create_backstore M b)"
  unfolding create_backstore_def create_attr_def create_field_def Let_def by (intro keeps)

lemma ensureBackstore_keeps [keeps]: "preserving I (ensureBackstore M b)"
  unfolding ensureBackstore_def by (intro keeps)

lemma ensureACL_keeps [keeps]: "preserving I (ensureACL M iqn tag acl)"
  unfolding ensureACL_def ensureMappedLUN_def ensureWriteProtect_def Let_def by (intro keeps)

lemma ensureTPG_keeps [keeps]: "preserving I (ensureTPG M bsn iqn g)"
  unfolding ensureTPG_def tpg_attr_def tpg_enable_def Let_def by (intro keeps)

lemma ensureTarget_keeps [keeps]: "preserving I (ensureTarget M bsn t)"
  unfolding ensureTarget_def Let_def by (intro keeps)

lemma apply_pass_keeps [keeps]: "preserving I (apply_pass M cfg)"
  unfolding apply_pass_def by (intro keeps)

end

end
