(* ===== verification/Lio_Spare.thy ===== *)
theory Lio_Spare
  imports Lio_Guard "HOL-Library.Code_Target_Numeral"
begin

text \<open>
  A reconcile removes nothing that is desired: for every kernel, and whatever its calls return, no call
  of \<open>Sync\<close>, and no call of \<open>ApplyDelta\<close> with a delta that \<open>Diff\<close> computed, removes the directory of
  an object of the desired configuration.
\<close>

section \<open>The objects of a configuration\<close>

definition acl_paths :: "string \<Rightarrow> int \<Rightarrow> ACL \<Rightarrow> path list" where
  "acl_paths iqn tag acl = aclPath iqn tag (acl_InitiatorIQN acl)
     # map (\<lambda>m. mappedLunPath iqn tag (acl_InitiatorIQN acl) (ml_Index m)) (acl_MappedLUNs acl)"

definition tpg_paths :: "string \<Rightarrow> TPG \<Rightarrow> path list" where
  "tpg_paths iqn g = tpgPath iqn (tpg_Tag g) # map (\<lambda>l. lunPath iqn (tpg_Tag g) (lun_Index l)) (tpg_LUNs g)
     @ concat (map (acl_paths iqn (tpg_Tag g)) (tpg_ACLs g))"

definition target_paths :: "Target \<Rightarrow> path list" where
  "target_paths t = targetPath (tgt_IQN t) # concat (map (tpg_paths (tgt_IQN t)) (tgt_TPGs t))"

text \<open>The directories of the objects: backstores, targets, TPGs, LUNs, ACLs and mapped LUNs.\<close>

definition object_paths :: "Config \<Rightarrow> path list" where
  "object_paths c = map objPath (cfg_Backstores c) @ concat (map target_paths (cfg_Targets c))"

lemma tpg_at_mem: "valid_config c \<Longrightarrow> t \<in> set (cfg_Targets c) \<Longrightarrow> g \<in> set (tgt_TPGs t) \<Longrightarrow> tpg_at c (tgt_IQN t) (tpg_Tag g) = Some g"
  by (auto simp: tpg_at_def valid_config_def valid_target_def index_by_distinct)

lemma acl_in_mem: "distinct (map acl_InitiatorIQN (tpg_ACLs g)) \<Longrightarrow> acl \<in> set (tpg_ACLs g) \<Longrightarrow> acl_in (Some g) (acl_InitiatorIQN acl) = Some acl"
  by (simp add: acl_in_def index_by_distinct)

lemma tpgPath_inj: "tpgPath iqn tag = tpgPath iqn' tag' \<longleftrightarrow> iqn = iqn' \<and> tag = tag'"
  by (auto simp: tpgPath_def dest: itoa_inj)

lemma spared_backstore: "backstoreKey b \<notin> backstoreKey ` set (cfg_Backstores c) \<Longrightarrow> objPath b \<notin> set (object_paths c)"
  by (force simp: object_paths_def target_paths_def tpg_paths_def acl_paths_def path_defs backstoreKey_def dirName_def image_iff)

lemma spared_hba: "hbaPath b \<notin> set (object_paths c)"
  by (auto simp: object_paths_def target_paths_def tpg_paths_def acl_paths_def path_defs)

lemma spared_target: "iqn \<notin> tgt_IQN ` set (cfg_Targets c) \<Longrightarrow> targetPath iqn @ q \<notin> set (object_paths c)"
  by (auto simp: object_paths_def target_paths_def tpg_paths_def acl_paths_def path_defs)

lemma spared_np: "tpgPath iqn tag @ [''np'', x] \<notin> set (object_paths c)"
  by (auto simp: object_paths_def target_paths_def tpg_paths_def acl_paths_def path_defs)

text \<open>An object below a TPG is one of the TPG of that name and tag.\<close>

lemma object_below:
  assumes "valid_config c" and "tpgPath iqn tag @ q \<in> set (object_paths c)"
  obtains g where "tpg_at c iqn tag = Some g" and "q = [] \<or> (\<exists>l \<in> set (tpg_LUNs g). q = [''lun'', ''lun_'' @ itoa (lun_Index l)])
    \<or> (\<exists>acl \<in> set (tpg_ACLs g). q = [''acls'', acl_InitiatorIQN acl]
        \<or> (\<exists>m \<in> set (acl_MappedLUNs acl). q = [''acls'', acl_InitiatorIQN acl, ''lun_'' @ itoa (ml_Index m)]))"
proof -
  obtain t g where t: "t \<in> set (cfg_Targets c)" "g \<in> set (tgt_TPGs t)" "tgt_IQN t = iqn" "tpg_Tag g = tag"
    and "q = [] \<or> (\<exists>l \<in> set (tpg_LUNs g). q = [''lun'', ''lun_'' @ itoa (lun_Index l)])
    \<or> (\<exists>acl \<in> set (tpg_ACLs g). q = [''acls'', acl_InitiatorIQN acl]
        \<or> (\<exists>m \<in> set (acl_MappedLUNs acl). q = [''acls'', acl_InitiatorIQN acl, ''lun_'' @ itoa (ml_Index m)]))"
    using assms(2) unfolding object_paths_def target_paths_def tpg_paths_def acl_paths_def path_defs
    by (auto dest!: itoa_inj) blast+
  with that tpg_at_mem [OF assms(1)] show thesis by blast
qed

lemma spared_tpg: "valid_config c \<Longrightarrow> tpg_at c iqn tag = None \<Longrightarrow> tpgPath iqn tag @ q \<notin> set (object_paths c)"
  by (metis object_below option.distinct(1))

lemma spared_lun:
  assumes "valid_config c" and "\<And>g. tpg_at c iqn tag = Some g \<Longrightarrow> n \<notin> lun_Index ` set (tpg_LUNs g)"
  shows "lunPath iqn tag n \<notin> set (object_paths c)"
proof
  assume "lunPath iqn tag n \<in> set (object_paths c)"
  then obtain g l where "tpg_at c iqn tag = Some g" "l \<in> set (tpg_LUNs g)" "itoa n = itoa (lun_Index l)"
    unfolding lunPath_def by (auto elim!: object_below [OF assms(1)])
  then show False using assms(2) itoa_inj by blast
qed

lemma spared_acl:
  assumes "valid_config c" and "\<And>g. tpg_at c iqn tag = Some g \<Longrightarrow> i \<notin> acl_InitiatorIQN ` set (tpg_ACLs g)"
  shows "aclPath iqn tag i \<notin> set (object_paths c)" "mappedLunPath iqn tag i n \<notin> set (object_paths c)"
  using assms(2) unfolding mappedLunPath_def aclPath_def
  by (auto elim!: object_below [OF assms(1)])

lemma spared_mapped:
  assumes "valid_config c" and "\<And>g acl. tpg_at c iqn tag = Some g \<Longrightarrow> acl_in (Some g) i = Some acl \<Longrightarrow> n \<notin> ml_Index ` set (acl_MappedLUNs acl)"
  shows "mappedLunPath iqn tag i n \<notin> set (object_paths c)"
proof
  assume "mappedLunPath iqn tag i n \<in> set (object_paths c)"
  then obtain g acl m where g: "tpg_at c iqn tag = Some g" and acl: "acl \<in> set (tpg_ACLs g)" "acl_InitiatorIQN acl = i"
    and m: "m \<in> set (acl_MappedLUNs acl)" "itoa n = itoa (ml_Index m)"
    unfolding mappedLunPath_def aclPath_def by (auto elim!: object_below [OF assms(1)])
  have "distinct (map acl_InitiatorIQN (tpg_ACLs g))"
    using valid_config_wf [OF assms(1)] g by (auto simp: tpg_at_def split: option.splits dest!: index_by_Some)
  then show False using assms(2) [OF g] acl_in_mem acl m itoa_inj by blast
qed

section \<open>The engine spares them\<close>

locale spare_guard = removal_guard +
  fixes desired :: Config
  assumes may_spare: "p \<notin> set (object_paths desired) \<Longrightarrow> may_rmdir p"
begin

lemma prunePortals_keeps [keeps]: "preserving I (prunePortals M iqn g dg)"
  unfolding prunePortals_def Let_def by (intro keeps may_spare) (simp add: portalPath_def spared_np)

lemma conflicts_keeps [keeps]: "preserving I (pruneConflictingPortals M desired)"
  unfolding pruneConflictingPortals_def prune_conflicts_def
  by (intro keeps may_spare) (simp add: portalPath_def spared_np)

lemma pruneLUNs_keeps:
  assumes "valid_config desired" and "tpg_at desired iqn (tpg_Tag g) = Some dg"
  shows "preserving I (pruneLUNs M iqn g dg)"
  unfolding pruneLUNs_def by (intro keeps may_spare spared_lun [OF assms(1)]) (use assms(2) in auto)

lemma pruneACLs_keeps:
  assumes v: "valid_config desired" and at: "tpg_at desired iqn (tpg_Tag g) = Some dg"
  shows "preserving I (pruneACLs M iqn g dg)"
proof -
  have acl: "preserving I (removeACL M iqn (tpg_Tag g) i)" if "index_by acl_InitiatorIQN (tpg_ACLs dg) i = None" for i
    using that at by (intro keeps may_spare spared_acl [OF v]) (auto simp: index_by_None)
  have mapped: "preserving I (prune_mapped M iqn (tpg_Tag g) acl da)"
    if "index_by acl_InitiatorIQN (tpg_ACLs dg) (acl_InitiatorIQN acl) = Some da" for acl da
    unfolding prune_mapped_def using that at by (intro keeps may_spare spared_mapped [OF v]) (auto simp: acl_in_def)
  show ?thesis unfolding pruneACLs_def
    by (intro preserving_each preserving_option preserving_then preserving_simple acl mapped)
qed

lemma prune_keeps:
  assumes v: "valid_config desired"
  shows "preserving I (prune M desired actual)"
proof -
  have tpg: "preserving I (prune_tpg M dt iqn g)" if "index_by tgt_IQN (cfg_Targets desired) iqn = Some dt" for dt iqn g
  proof (cases "index_by tpg_Tag (tgt_TPGs dt) (tpg_Tag g)")
    case None
    then have "tpg_at desired iqn (tpg_Tag g) = None" using that by (simp add: tpg_at_def)
    then show ?thesis using None may_spare spared_tpg [OF v] by (simp add: prune_tpg_def keeps)
  next
    case (Some dg)
    then have "tpg_at desired iqn (tpg_Tag g) = Some dg" using that by (simp add: tpg_at_def)
    with Some show ?thesis
      by (simp add: prune_tpg_def keeps pruneACLs_keeps [OF v] pruneLUNs_keeps [OF v])
  qed
  have target: "preserving I (prune_target M desired t)" for t
    unfolding prune_target_def using tpg may_spare spared_target by (intro keeps) (auto simp: index_by_None)
  have backstore: "preserving I (removeBackstore M b)" if "backstoreKey b \<notin> set (map backstoreKey (cfg_Backstores desired))" for b
    using that by (intro keeps may_spare spared_backstore spared_hba) auto
  show ?thesis unfolding prune_def
    by (intro preserving_then preserving_each preserving_if preserving_simple target backstore)
qed

lemma Apply_keeps: "I k \<Longrightarrow> I (snd (Apply M cfg k))"
  using preservingD [OF apply_pass_keeps [of cfg], of "fresh_ctx k"]
  by (auto simp: Apply_def fresh_ctx_def split: option.splits prod.splits)

lemma Sync_keeps:
  assumes "I k"
  shows "I (snd (Sync M desired k))"
proof (cases "Validate desired")
  case None
  then have v: "valid_config desired" by (simp add: Validate_ok_iff)
  obtain r0 a0 where c: "pruneConflictingPortals M desired (fresh_ctx k) = (r0, a0)" by fastforce
  then have i0: "I (a_kern a0)" using preservingD [OF conflicts_keeps c] assms by (simp add: fresh_ctx_def)
  obtain rep r1 k1 where ap: "Apply M desired (a_kern a0) = ((rep, r1), k1)" by (metis prod.exhaust)
  then have i1: "I k1" using Apply_keeps [OF i0, of desired] by simp
  have pr: "I (a_kern a)" if "prune M desired actual \<lparr>a_kern = k1, a_changes = x, a_drift = y\<rparr> = (r, a)" for actual x y r a
    using preservingD [OF prune_keeps [OF v] that] i1 by simp
  show ?thesis
    using None c i0 ap i1 by (auto simp: Sync_def split: option.splits sum.splits prod.splits dest: pr)
qed (simp add: Sync_def assms)

lemma removals_keep:
  assumes v: "valid_config desired" and d: "Diff prev desired = Some d"
  shows "preserving I (applyRemovals M (d_Remove d))"
proof -
  obtain ts rm where t: "diff_targets (cfg_Targets prev) (cfg_Targets desired) rm = Some (ts, d_Remove d)"
    and e: "rm_MappedLUNs rm = []" "rm_ACLs rm = []" "rm_LUNs rm = []"
      "rm_Backstores rm = List.map_filter (index_by backstoreKey (cfg_Backstores prev)) (removed_keys backstoreKey (cfg_Backstores prev) (cfg_Backstores desired))"
    using d by (auto simp: Diff_def Let_def split: if_splits option.splits)
  note gone = diff_targets_gone [OF t valid_config_wf [OF v]]
  have at: "tpg_at desired iqn tag = Some ng" if "tpg_pair (cfg_Targets prev) (cfg_Targets desired) iqn tag pg ng" for iqn tag pg ng
    using that tpg_at_mem [OF v] by (auto simp: tpg_pair_def)
  have lun: "lunPath (lr_IQN r) (lr_Tag r) (lr_Index r) \<notin> set (object_paths desired)" if "r \<in> set (rm_LUNs (d_Remove d))" for r
  proof -
    have "lun_gone (d_Remove d) (lr_IQN r) (lr_Tag r) (lr_Index r)" by (cases r) (use that in \<open>simp add: lun_gone_def\<close>)
    then obtain pg ng where "tpg_pair (cfg_Targets prev) (cfg_Targets desired) (lr_IQN r) (lr_Tag r) pg ng"
      "lr_Index r \<in> set (removed_keys lun_Index (tpg_LUNs pg) (tpg_LUNs ng))" using gone e by (auto simp: lun_gone_def)
    then show ?thesis using at by (intro spared_lun [OF v]) (auto simp: set_removed_keys)
  qed
  have acl: "aclPath (ar_IQN r) (ar_Tag r) (ar_Initiator r) \<notin> set (object_paths desired)
      \<and> mappedLunPath (ar_IQN r) (ar_Tag r) (ar_Initiator r) n \<notin> set (object_paths desired)" if "r \<in> set (rm_ACLs (d_Remove d))" for r n
  proof -
    have "acl_gone (d_Remove d) (ar_IQN r) (ar_Tag r) (ar_Initiator r)" by (cases r) (use that in \<open>simp add: acl_gone_def\<close>)
    then obtain pg ng where "tpg_pair (cfg_Targets prev) (cfg_Targets desired) (ar_IQN r) (ar_Tag r) pg ng"
      "ar_Initiator r \<in> set (removed_keys acl_InitiatorIQN (tpg_ACLs pg) (tpg_ACLs ng))" using gone e by (auto simp: acl_gone_def)
    then show ?thesis using at by (intro conjI spared_acl [OF v]) (auto simp: set_removed_keys)
  qed
  have mapped: "mappedLunPath (mr_IQN r) (mr_Tag r) (mr_Initiator r) (mr_Index r) \<notin> set (object_paths desired)"
    if "r \<in> set (rm_MappedLUNs (d_Remove d))" for r
  proof -
    have "mapped_gone (d_Remove d) (mr_IQN r) (mr_Tag r) (mr_Initiator r) (mr_Index r)" by (cases r) (use that in \<open>simp add: mapped_gone_def\<close>)
    then obtain pg ng where "tpg_pair (cfg_Targets prev) (cfg_Targets desired) (mr_IQN r) (mr_Tag r) pg ng"
      "mr_Index r \<in> mapped_diff_gone pg ng (mr_Initiator r)" using gone e by (auto simp: mapped_gone_def)
    then show ?thesis using at
      by (intro spared_mapped [OF v]) (auto simp: mapped_diff_gone_def set_removed_keys split: option.splits)
  qed
  have bs: "backstoreKey b \<notin> backstoreKey ` set (cfg_Backstores desired)" if mem: "b \<in> set (rm_Backstores (d_Remove d))" for b
  proof -
    have "rm_Backstores (d_Remove d) = rm_Backstores rm" using gone by blast
    then obtain k where k: "k \<in> set (removed_keys backstoreKey (cfg_Backstores prev) (cfg_Backstores desired))"
      "index_by backstoreKey (cfg_Backstores prev) k = Some b" using mem e(4) by (auto simp: List.map_filter_def)
    then show ?thesis using index_by_Some [OF k(2)] by (simp add: set_removed_keys)
  qed
  show ?thesis unfolding applyRemovals_def
    by (intro keeps may_spare spared_hba spared_backstore) (use lun acl mapped bs in auto)
qed

lemma ApplyDelta_keeps:
  assumes "valid_config desired" and "Diff prev desired = Some d" and "I k"
  shows "I (snd (ApplyDelta M desired d k))"
proof -
  have "preserving I (then_step (apply_pass M (d_Add d)) (applyRemovals M (d_Remove d)))"
    by (intro keeps removals_keep [OF assms(1,2)])
  from preservingD [OF this, of "fresh_ctx k"] assms(3) show ?thesis
    by (auto simp: ApplyDelta_def fresh_ctx_def split: option.splits prod.splits)
qed

end

section \<open>A kernel that records its calls\<close>

datatype call = MkdirCall path | RmdirCall path | UnlinkCall path | WriteCall string path | SymlinkCall string path

type_synonym call_log = "(call \<times> errno option) list"

definition logged :: "call \<Rightarrow> ('k \<Rightarrow> errno option \<times> 'k) \<Rightarrow> 'k \<times> call_log \<Rightarrow> errno option \<times> ('k \<times> call_log)" where
  "logged c op s = (case op (fst s) of (r, k) \<Rightarrow> (r, (k, snd s @ [(c, r)])))"

definition recording :: "'k kernel \<Rightarrow> ('k \<times> call_log) kernel" where
  "recording K = \<lparr>k_view = k_view K \<circ> fst,
     k_mkdir = (\<lambda>p. logged (MkdirCall p) (k_mkdir K p)), k_rmdir = (\<lambda>p. logged (RmdirCall p) (k_rmdir K p)),
     k_unlink = (\<lambda>p. logged (UnlinkCall p) (k_unlink K p)), k_write = (\<lambda>s p. logged (WriteCall s p) (k_write K s p)),
     k_symlink = (\<lambda>t p. logged (SymlinkCall t p) (k_symlink K t p)),
     k_random = (\<lambda>n s. case k_random K n (fst s) of (bs, k) \<Rightarrow> (bs, (k, snd s)))\<rparr>"

definition recorded :: "'k Manager \<Rightarrow> ('k \<times> call_log) Manager" where
  "recorded M = \<lparr>m_fs = recording (m_fs M), m_aptplRecords = map_option (\<lambda>f b s. f b (fst s)) (m_aptplRecords M)\<rparr>"

lemma snd_logged [simp]: "snd (snd (logged c op s)) = snd s @ [(c, fst (op (fst s)))]"
  by (simp add: logged_def split: prod.splits)

lemma recorded_calls:
  "k_view (m_fs (recorded M)) s = k_view (m_fs M) (fst s)"
  "k_mkdir (m_fs (recorded M)) p s = logged (MkdirCall p) (k_mkdir (m_fs M) p) s"
  "k_rmdir (m_fs (recorded M)) p s = logged (RmdirCall p) (k_rmdir (m_fs M) p) s"
  "k_unlink (m_fs (recorded M)) p s = logged (UnlinkCall p) (k_unlink (m_fs M) p) s"
  "k_write (m_fs (recorded M)) t p s = logged (WriteCall t p) (k_write (m_fs M) t p) s"
  "k_symlink (m_fs (recorded M)) t p s = logged (SymlinkCall t p) (k_symlink (m_fs M) t p) s"
  "snd (snd (k_random (m_fs (recorded M)) n s)) = snd s"
  by (simp_all add: recorded_def recording_def split: prod.splits)

definition spares :: "Config \<Rightarrow> call_log \<Rightarrow> bool" where
  "spares c log \<longleftrightarrow> list_all (\<lambda>(call, r). case call of RmdirCall p \<Rightarrow> p \<notin> set (object_paths c) | _ \<Rightarrow> True) log"

lemma spares_append [simp]: "spares c (xs @ ys) \<longleftrightarrow> spares c xs \<and> spares c ys"
  by (simp add: spares_def)

interpretation rec: spare_guard "recorded M" "spares desired \<circ> snd" "\<lambda>p. p \<notin> set (object_paths desired)" "\<lambda>s p. True" desired
  for M :: "'k Manager" and desired
  by unfold_locales (simp_all add: recorded_calls spares_def)

lemma spares_iff: "spares c log \<longleftrightarrow> (\<forall>p r. (RmdirCall p, r) \<in> set log \<longrightarrow> p \<notin> set (object_paths c))"
  unfolding spares_def list_all_iff by (fastforce split: call.splits)

lemma Sync_spares: "spares desired (snd s) \<Longrightarrow> spares desired (snd (snd (Sync (recorded M) desired s)))"
  using rec.Sync_keeps [of desired s M] by simp

lemma ApplyDelta_spares:
  "Validate next = None \<Longrightarrow> Diff prev next = Some d \<Longrightarrow> spares next (snd s) \<Longrightarrow> spares next (snd (snd (ApplyDelta (recorded M) next d s)))"
  using rec.ApplyDelta_keeps [of "next" prev d s M] by (simp add: Validate_ok_iff)

section \<open>The property\<close>

text \<open>A full reconcile never removes an object that is desired: on every kernel, over every branch and every
  failure, no directory that \<open>Sync\<close> asks the kernel to remove is that of a backstore, target, TPG, LUN,
  ACL or mapped LUN of the desired configuration, nor, therefore, is one re-created underneath an
  initiator that uses it.\<close>

lemma sync_spares_desired:
  assumes "Sync (recorded M) desired (k, []) = (res, (k', log))" and "(RmdirCall p, r) \<in> set log"
  shows "p \<notin> set (object_paths desired)"
proof -
  have "spares desired log" using Sync_spares [of desired "(k, [])" M] assms(1) by (simp add: spares_def)
  then show ?thesis using assms(2) by (auto simp: spares_iff)
qed

text \<open>A tree with a backstore that is not desired, and a desired one that is not there.\<close>

definition demo_tree :: view where
  "demo_tree = empty_view\<lparr>
     v_stat := (\<lambda>p. if p \<in> set [[], [''core'', ''fileio_0'', ''old'']] then Inr Dir else Inl ENOENT),
     v_dir := (\<lambda>p. if p = [''core''] then Inr [(''fileio_0'', Dir)]
        else if p = [''core'', ''fileio_0''] then Inr [(''old'', Dir)] else Inl ENOENT)\<rparr>"

definition demo_kernel :: "unit kernel" where
  "demo_kernel = \<lparr>k_view = (\<lambda>k. demo_tree), k_mkdir = (\<lambda>p k. (None, k)), k_rmdir = (\<lambda>p k. (None, k)), k_unlink = (\<lambda>p k. (None, k)),
     k_write = (\<lambda>s p k. (None, k)), k_symlink = (\<lambda>t p k. (None, k)), k_random = (\<lambda>n k. (replicate n 0, k))\<rparr>"

definition demo_manager :: "unit Manager" where
  "demo_manager = \<lparr>m_fs = demo_kernel, m_aptplRecords = None\<rparr>"

definition demo_desired :: Config where
  "demo_desired = (example_config 4096 [])\<lparr>cfg_Targets := []\<rparr>"

lemma demo_sync_prunes:
  "(RmdirCall [''core'', ''fileio_0'', ''old''], None) \<in> set (snd (snd (Sync (recorded demo_manager) demo_desired ((), []))))
   \<and> snd (fst (Sync (recorded demo_manager) demo_desired ((), []))) = None"
  by code_simp

end
