(* ===== verification/Lio_Live.thy ===== *)
theory Lio_Live
  imports Lio_Spare
begin

text \<open>
  Two orders that protect data. A device is enabled only after every saved reservation has been handed
  to the kernel; and on a live device the engine never writes a cache setting that contradicts the
  backing mode, and never a smaller size.
\<close>

section \<open>What a run appends to the log\<close>

abbreviation ctx_log :: "('k \<times> call_log) applyCtx \<Rightarrow> call_log" where
  "ctx_log a \<equiv> snd (a_kern a)"

text \<open>The log only grows: the invariant that it starts with what it held.\<close>

interpretation grows: removal_guard "recorded M" "\<lambda>s. \<exists>more. snd s = old @ more" "\<lambda>p. True" "\<lambda>s p. True"
  for M :: "'k Manager" and old
  by unfold_locales (auto simp: recorded_calls)

lemma log_grows: "(\<And>old. preserving (\<lambda>s. \<exists>more. snd s = old @ more) f) \<Longrightarrow> f a = (r, a') \<Longrightarrow> \<exists>more. ctx_log a' = ctx_log a @ more"
  using preservingD [of "\<lambda>s. \<exists>more. snd s = ctx_log a @ more" f a r a'] by auto

text \<open>The steps that write nothing where \<open>p\<close> is.\<close>

definition untouched :: "path \<Rightarrow> call_log \<Rightarrow> bool" where
  "untouched p log \<longleftrightarrow> (\<forall>s r. (WriteCall s p, r) \<notin> set log)"

lemma untouched_append [simp]: "untouched p (xs @ ys) \<longleftrightarrow> untouched p xs \<and> untouched p ys"
  by (auto simp: untouched_def)

interpretation avoids: guarded_kernel "recorded M" "\<lambda>s. untouched q (snd s)" "\<lambda>p. True" "\<lambda>s p. p \<noteq> q"
  for M :: "'k Manager" and q
  by unfold_locales (auto simp: recorded_calls untouched_def)

lemma write_step_recorded:
  assumes "write_step (recorded M) obj s p a = (None, a')"
  shows "ctx_log a' = ctx_log a @ [(WriteCall (s @ [newline]) p, None)]"
  using assms by (auto simp: write_step_def call_step_def WriteAttr_def recorded_calls logged_def split: option.splits if_splits prod.splits)

lemma write_step_logged:
  assumes "write_step (recorded M) obj s p a = (r, a')"
  shows "ctx_log a' = ctx_log a \<or> (\<exists>e. ctx_log a' = ctx_log a @ [(WriteCall (s @ [newline]) p, e)])"
  using assms by (auto simp: write_step_def call_step_def WriteAttr_def recorded_calls logged_def split: option.splits if_splits prod.splits)

text \<open>A step that takes an invariant to a weaker one.\<close>

definition leads :: "('k \<Rightarrow> bool) \<Rightarrow> ('k \<Rightarrow> bool) \<Rightarrow> 'k step \<Rightarrow> bool" where
  "leads I J f \<longleftrightarrow> (\<forall>a. I (a_kern a) \<longrightarrow> J (a_kern (snd (f a))))"

lemma leadsD: "leads I J f \<Longrightarrow> f a = (r, a') \<Longrightarrow> I (a_kern a) \<Longrightarrow> J (a_kern a')"
  unfolding leads_def by (metis snd_conv)

lemma leads_then: "preserving I f \<Longrightarrow> leads I J g \<Longrightarrow> (\<And>k. I k \<Longrightarrow> J k) \<Longrightarrow> leads I J (then_step f g)"
  unfolding preserving_def leads_def then_step_def by (auto split: prod.splits option.splits)

lemma leads_read:
  "(\<And>k x. I k \<Longrightarrow> r (k_view (m_fs M) k) = Inr x \<Longrightarrow> leads I J (f x)) \<Longrightarrow> (\<And>k. I k \<Longrightarrow> J k) \<Longrightarrow> leads I J (read_step M r f)"
  by (auto simp: leads_def read_step_def split: sum.splits)

section \<open>Saved reservations before the device is enabled\<close>

abbreviation metadata :: "Backstore \<Rightarrow> path" where "metadata b \<equiv> objPath b @ [''pr'', ''res_aptpl_metadata'']"
abbreviation enable_file :: "Backstore \<Rightarrow> path" where "enable_file b \<equiv> objPath b @ [''enable'']"

definition restored :: "Backstore \<Rightarrow> string list \<Rightarrow> call_log" where
  "restored b recs = map (\<lambda>s. (WriteCall (s @ [newline]) (metadata b), None)) (filter (\<lambda>s. trimSpace s \<noteq> []) recs)"

lemma then_step_None: "then_step f g a = (None, a') \<Longrightarrow> \<exists>a1. f a = (None, a1) \<and> g a1 = (None, a')"
  by (auto simp: then_step_def split: prod.splits option.splits)

lemma then_step_cases: "then_step f g a = (r, a') \<Longrightarrow> (\<exists>e. f a = (Some e, a') \<and> r = Some e) \<or> (\<exists>a1. f a = (None, a1) \<and> g a1 = (r, a'))"
  by (auto simp: then_step_def split: prod.splits option.splits)

lemma load_records_done:
  "each_step (load_record (recorded M) b) recs a = (None, a') \<Longrightarrow> ctx_log a' = ctx_log a @ restored b recs"
proof (induction recs arbitrary: a)
  case (Cons s recs)
  then obtain a1 where s: "load_record (recorded M) b s a = (None, a1)" and r: "each_step (load_record (recorded M) b) recs a1 = (None, a')"
    using then_step_None [of "load_record (recorded M) b s" "each_step (load_record (recorded M) b) recs" a a'] by auto
  have "ctx_log a1 = ctx_log a @ (if trimSpace s = [] then [] else [(WriteCall (s @ [newline]) (metadata b), None)])"
    using s by (auto simp: load_record_def done_step_def add_note_def dest!: then_step_None write_step_recorded)
  then show ?case using Cons.IH [OF r] by (auto simp: restored_def)
qed (simp add: done_step_def restored_def)

lemma loadAPTPL_done:
  assumes "m_aptplRecords M = Some records" and "loadAPTPL (recorded M) b a = (None, a')"
  shows "\<exists>recs. records b (fst (a_kern a)) = Inr recs \<and> ctx_log a' = ctx_log a @ restored b recs"
  using assms load_records_done [of M b _ a a'] by (auto simp: loadAPTPL_def recorded_def split: sum.splits)

context guarded_kernel begin

lemma loadAPTPL_guarded [keeps]: "(\<And>s. may_write s (metadata b)) \<Longrightarrow> preserving I (loadAPTPL M b)"
proof -
  assume w: "\<And>s. may_write s (metadata b)"
  have "preserving I (each_step (load_record M b) recs)" for recs unfolding load_record_def by (intro keeps w)
  then show ?thesis by (cases "m_aptplRecords M") (simp_all add: loadAPTPL_def done_step_def preserving_def split: sum.splits)
qed

lemma write_attr_guarded:
  assumes "may_write (v @ [newline]) (objPath b @ [''attrib'', k])"
  shows "preserving I (write_attr M b k cur v)"
proof -
  have "I (snd (WriteAttr (m_fs M) v (objPath b @ [''attrib'', k]) k1))" if "I k1" for k1
    using WriteAttr_keeps [OF assms that] .
  then show ?thesis
    unfolding preserving_def write_attr_def Let_def add_note_def add_drift_def
    by (auto split: prod.splits option.splits) (metis snd_conv)+
qed

lemma reconcile_guarded:
  assumes w: "\<And>s k. may_write s (objPath b @ [''wwn'', k])" and info: "\<And>k x. I k \<Longrightarrow> read_info b (k_view (m_fs M) k) = Inr x \<Longrightarrow> x = info"
    and attr: "\<And>k v. map_of (fst (constrainWriteCache b info)) k = Some v \<Longrightarrow> may_write (v @ [newline]) (objPath b @ [''attrib'', k])"
    and size: "leads I J (reconcile_size M b info)" and weaker: "\<And>k. I k \<Longrightarrow> J k"
  shows "leads I J (reconcileBackstoreMutable M b)"
proof -
  let ?attrs = "fst (constrainWriteCache b info)"
  have at: "preserving I (reconcile_attr M b ?attrs k)" if mem: "k \<in> set (sortedKeys ?attrs)" for k
  proof -
    obtain v where "map_of ?attrs k = Some v"
      using mem by (cases "map_of ?attrs k") (auto simp: sortedKeys_def map_of_eq_None_iff)
    then show ?thesis unfolding reconcile_attr_def Let_def by (intro keeps write_attr_guarded) (simp add: value_or_def attr)
  qed
  have "preserving I (reconcile_serial M b)" unfolding reconcile_serial_def Let_def by (intro keeps w)
  moreover have "preserving I (reconcile_field M b f)" for f unfolding reconcile_field_def Let_def by (intro keeps w)
  moreover have "leads I J (read_step M (read_info b) (\<lambda>i. case constrainWriteCache b i of (attrs, drift) \<Rightarrow>
      then_step (add_drift drift) (then_step (each_step (reconcile_attr M b attrs) (sortedKeys attrs)) (reconcile_size M b i))))"
  proof (rule leads_read)
    fix k x
    assume "I k" "read_info b (k_view (m_fs M) k) = Inr x"
    then have "x = info" by (rule info)
    then show "leads I J (case constrainWriteCache b x of (attrs, drift) \<Rightarrow>
        then_step (add_drift drift) (then_step (each_step (reconcile_attr M b attrs) (sortedKeys attrs)) (reconcile_size M b x)))"
      using at size weaker by (cases "constrainWriteCache b info") (auto intro!: leads_then preserving_each preserving_simple)
  qed (rule weaker)
  ultimately show ?thesis unfolding reconcileBackstoreMutable_def by (intro leads_then preserving_each weaker)
qed

end

section \<open>The restore property\<close>

lemma path_neq: "objPath b @ q = objPath b @ r \<longleftrightarrow> q = r"
  by simp

lemma enable_untouched:
  "preserving (\<lambda>s. untouched (enable_file b) (snd s)) (mkdir_step (recorded M) kind obj p)"
  "preserving (\<lambda>s. untouched (enable_file b) (snd s)) (loadAPTPL (recorded M) b)"
  "preserving (\<lambda>s. untouched (enable_file b) (snd s)) (write_step (recorded M) obj s (objPath b @ [''control'']))"
  "preserving (\<lambda>s. untouched (enable_file b) (snd s)) (write_step (recorded M) obj s (objPath b @ [''udev_path'']))"
  by (intro keeps avoids.mkdir_step_keeps avoids.loadAPTPL_guarded avoids.write_step_keeps; simp)+

lemma live_never_enables: "preserving (\<lambda>s. untouched (enable_file b) (snd s)) (reconcileBackstoreMutable (recorded M) b)"
proof -
  have w: "preserving (\<lambda>s. untouched (enable_file b) (snd s)) (write_step (recorded M) obj s (objPath b @ q))" if "q \<noteq> [''enable'']" for obj s q
    using that by (intro avoids.write_step_keeps) simp
  show ?thesis
    unfolding reconcileBackstoreMutable_def reconcile_serial_def reconcile_field_def reconcile_attr_def reconcile_size_def Let_def
    by (intro preserving_then preserving_each preserving_read preserving_simple preserving_if preserving_pair w avoids.write_attr_guarded; simp)
qed

text \<open>Peeling the steps of a run off, as long as they keep what the whole run breaks.\<close>

lemma peel_then:
  assumes "then_step f g a = (r, a')" and "preserving I f" and "I (a_kern a)" and "\<not> I (a_kern a')"
  shows "\<exists>a1. f a = (None, a1) \<and> I (a_kern a1) \<and> g a1 = (r, a')"
  using then_step_cases [OF assms(1)] assms(2-4) preservingD by metis

lemma peel_read: "read_step M rd f a = (r, a') \<Longrightarrow> I (a_kern a) \<Longrightarrow> \<not> I (a_kern a') \<Longrightarrow> \<exists>x. f x a = (r, a')"
  by (auto simp: read_step_def split: sum.splits)

lemma enable_then:
  assumes "then_step (write_step (recorded M) obj ''1'' q) g a = (r, a')" and "\<And>old. preserving (\<lambda>s. \<exists>more. snd s = old @ more) g"
    and "untouched q (ctx_log a)" and "\<not> untouched q (ctx_log a')"
  shows "\<exists>e post. ctx_log a' = ctx_log a @ (WriteCall (''1'' @ [newline]) q, e) # post"
proof -
  obtain w a1 where w: "write_step (recorded M) obj ''1'' q a = (w, a1)" by fastforce
  from then_step_cases [OF assms(1)] w consider "a' = a1" | "w = None" "g a1 = (r, a')" by fastforce
  then show ?thesis
  proof cases
    case 1
    then show ?thesis using write_step_logged [OF w] assms(3,4) by auto
  next
    case 2
    then have "ctx_log a1 = ctx_log a @ [(WriteCall (''1'' @ [newline]) q, None)]" using w write_step_recorded by blast
    then show ?thesis using log_grows [OF assms(2) 2(2)] by auto
  qed
qed

lemma create_enables_after_restore:
  assumes records: "m_aptplRecords M = Some records"
    and run: "create_backstore (recorded M) b a = (r, a')" and start: "untouched (enable_file b) (ctx_log a)"
    and seen: "\<not> untouched (enable_file b) (ctx_log a')"
  shows "\<exists>pre k0 recs e post. records b k0 = Inr recs
    \<and> ctx_log a' = pre @ restored b recs @ (WriteCall (''1'' @ [newline]) (enable_file b), e) # post"
proof -
  let ?I = "\<lambda>s. untouched (enable_file b) (snd s)" and ?M = "recorded M" and ?idb = "backstore_id b"
  let ?finish = "then_step (each_step (create_attr ?M b) (sortedKeys (bs_Attributes b)))
    (then_step (each_step (create_field ?M b) (wwnDirFields b))
    (then_step (if bs_WWN b = '''' then done_step else write_step ?M ?idb (bs_WWN b) (objPath b @ [''wwn'', ''vpd_unit_serial'']))
    (add_note (''created '' @ ?idb))))"
  let ?load = "then_step (loadAPTPL ?M b) (then_step (write_step ?M ?idb ''1'' (enable_file b)) ?finish)"
  let ?conf = "\<lambda>control. then_step (write_step ?M ?idb control (objPath b @ [''control'']))
    (then_step (write_step ?M ?idb (bs_Dev b) (objPath b @ [''udev_path''])) ?load)"
  let ?read = "read_step ?M (\<lambda>fs. wrap KindInvalidSpec ''apply'' ?idb (controlString fs b)) ?conf"
  note peel = peel_then [where I = ?I]
  note run = run [unfolded create_backstore_def Let_def]
  from peel [OF run enable_untouched(1) start seen] obtain a1 where a1: "?I (a_kern a1)"
    and r1: "then_step (mkdir_step ?M KindConfigfs ?idb (objPath b)) ?read a1 = (r, a')" by blast
  from peel [OF r1 enable_untouched(1) a1 seen] obtain a2 where a2: "?I (a_kern a2)" and r2: "?read a2 = (r, a')" by blast
  from peel_read [where I = ?I, OF r2 a2 seen] obtain control where r3: "?conf control a2 = (r, a')" by blast
  from peel [OF r3 enable_untouched(3) a2 seen] obtain a3 where a3: "?I (a_kern a3)"
    and r4: "then_step (write_step ?M ?idb (bs_Dev b) (objPath b @ [''udev_path''])) ?load a3 = (r, a')" by blast
  from peel [OF r4 enable_untouched(4) a3 seen] obtain a4 where a4: "?I (a_kern a4)" and r5: "?load a4 = (r, a')" by blast
  from peel [OF r5 enable_untouched(2) a4 seen] obtain a5 where load: "loadAPTPL ?M b a4 = (None, a5)"
    and a5: "?I (a_kern a5)" and r6: "then_step (write_step ?M ?idb ''1'' (enable_file b)) ?finish a5 = (r, a')" by blast
  from loadAPTPL_done [OF records load] obtain recs where load': "records b (fst (a_kern a4)) = Inr recs" "ctx_log a5 = ctx_log a4 @ restored b recs" by blast
  have grow: "preserving (\<lambda>s. \<exists>more. snd s = old @ more) ?finish" for old
    unfolding create_attr_def create_field_def by (intro preserving_then preserving_each preserving_pair preserving_if preserving_simple grows.writes_keep)
  from enable_then [OF r6 grow a5 seen] obtain e post where
    "ctx_log a' = ctx_log a5 @ (WriteCall (''1'' @ [newline]) (enable_file b), e) # post" by blast
  with load' show ?thesis by (metis append.assoc)
qed

text \<open>C11. A device comes up with its fences: whenever the engine enables a backstore for which a provider of saved
  reservations is installed, the provider had answered, and every record it gave had been written to
  the kernel, in order, and accepted, right before the enable. A record that cannot be read or is
  refused means that the device is never enabled.\<close>

theorem restored_before_enabled:
  assumes "m_aptplRecords M = Some records" and "ensureBackstore (recorded M) b (fresh_ctx (k, [])) = (r, a')"
    and "(WriteCall s (objPath b @ [''enable'']), e) \<in> set (ctx_log a')"
  shows "\<exists>pre k0 recs e post. records b k0 = Inr recs
    \<and> ctx_log a' = pre @ restored b recs @ (WriteCall (''1'' @ [newline]) (objPath b @ [''enable'']), e) # post"
proof -
  let ?I = "\<lambda>s. untouched (enable_file b) (snd s)"
  have start: "?I (a_kern (fresh_ctx (k, [])))" by (simp add: fresh_ctx_def untouched_def)
  have seen: "\<not> ?I (a_kern a')" using assms(3) by (auto simp: untouched_def)
  have "backstore_validate b = None" using assms(2) start seen by (auto simp: ensureBackstore_def fail_step_def split: option.splits)
  then have "read_step (recorded M) (live_backstore b) (\<lambda>live. if live then reconcileBackstoreMutable (recorded M) b
      else create_backstore (recorded M) b) (fresh_ctx (k, [])) = (r, a')"
    using assms(2) by (simp add: ensureBackstore_def)
  from peel_read [where I = ?I, OF this start seen] obtain live where
    "(if live then reconcileBackstoreMutable (recorded M) b else create_backstore (recorded M) b) (fresh_ctx (k, [])) = (r, a')" by blast
  moreover have "reconcileBackstoreMutable (recorded M) b (fresh_ctx (k, [])) \<noteq> (r, a')"
    using preservingD [OF live_never_enables] start seen by blast
  ultimately have "create_backstore (recorded M) b (fresh_ctx (k, [])) = (r, a')" by (auto split: if_splits)
  from create_enables_after_restore [OF assms(1) this start seen] show ?thesis .
qed

section \<open>A live device\<close>

abbreviation info_file :: "Backstore \<Rightarrow> path" where "info_file b \<equiv> objPath b @ [''info'']"
abbreviation control_file :: "Backstore \<Rightarrow> path" where "control_file b \<equiv> objPath b @ [''control'']"
abbreviation cache_file :: "Backstore \<Rightarrow> path" where "cache_file b \<equiv> objPath b @ [''attrib'', ''emulate_write_cache'']"

text \<open>
  What the kernel documents of the info line: the backing mode is fixed when the object is created and
  the size is set through the control file, so no other call changes it.
\<close>

definition steady_info :: "'k kernel \<Rightarrow> Backstore \<Rightarrow> bool" where
  "steady_info K b \<longleftrightarrow> (let inf = (\<lambda>k. ReadAttr (k_view K k) (info_file b)) in
     (\<forall>k p. inf (snd (k_mkdir K p k)) = inf k) \<and> (\<forall>k p. inf (snd (k_unlink K p k)) = inf k)
     \<and> (\<forall>k t p. inf (snd (k_symlink K t p k)) = inf k) \<and> (\<forall>k n. inf (snd (k_random K n k)) = inf k)
     \<and> (\<forall>k s p. p \<noteq> control_file b \<longrightarrow> inf (snd (k_write K s p k)) = inf k))"

text \<open>The setting of the cache that is true of a backing mode.\<close>

definition true_claim :: "string \<Rightarrow> string" where
  "true_claim info = (if parseInfoMode info = ''Buffered-WCE'' then ''1'' else ''0'')"

definition honest_write :: "Backstore \<Rightarrow> string \<Rightarrow> string \<Rightarrow> path \<Rightarrow> bool" where
  "honest_write b info s p \<longleftrightarrow> (p = cache_file b \<longrightarrow> parseInfoMode info \<noteq> '''' \<longrightarrow> s = true_claim info @ [newline])"

definition growing_write :: "Backstore \<Rightarrow> string \<Rightarrow> string \<Rightarrow> path \<Rightarrow> bool" where
  "growing_write b info s p \<longleftrightarrow> (p = control_file b \<longrightarrow>
     s = ''fd_dev_name='' @ bs_Dev b @ '',fd_dev_size='' @ itoa (bs_Size b) @ [newline]
     \<and> 0 \<le> parseInfoSize info \<and> parseInfoSize info < bs_Size b \<and> bs_Size b mod blockSize b = 0)"

definition all_writes :: "(string \<Rightarrow> path \<Rightarrow> bool) \<Rightarrow> call_log \<Rightarrow> bool" where
  "all_writes P log \<longleftrightarrow> (\<forall>s p r. (WriteCall s p, r) \<in> set log \<longrightarrow> P s p)"

lemma all_writes_append [simp]: "all_writes P (xs @ ys) \<longleftrightarrow> all_writes P xs \<and> all_writes P ys"
  unfolding all_writes_def set_append by blast

lemma all_writes_one [simp]:
  "all_writes P [(WriteCall s p, r)] \<longleftrightarrow> P s p" "all_writes P [(MkdirCall p, r)]" "all_writes P [(RmdirCall p, r)]"
  "all_writes P [(UnlinkCall p, r)]" "all_writes P [(SymlinkCall s p, r)]" "all_writes P []"
  by (auto simp: all_writes_def)

text \<open>Until the size is set, the info line stays and every write is honest and off the control file.\<close>

definition info_kept :: "'k kernel \<Rightarrow> Backstore \<Rightarrow> string \<Rightarrow> 'k \<times> call_log \<Rightarrow> bool" where
  "info_kept K b info s \<longleftrightarrow> (steady_info K b \<longrightarrow> ReadAttr (k_view K (fst s)) (info_file b) = Inr info)
     \<and> all_writes (\<lambda>t p. honest_write b info t p \<and> p \<noteq> control_file b) (snd s)"

lemma fst_snd_logged [simp]: "fst (snd (logged c op s)) = snd (op (fst s))"
  by (simp add: logged_def split: prod.splits)

lemma fst_snd_random [simp]: "fst (snd (k_random (m_fs (recorded M)) n s)) = snd (k_random (m_fs M) n (fst s))"
  by (simp add: recorded_def recording_def split: prod.splits)

interpretation live: guarded_kernel "recorded M" "info_kept (m_fs M) b info" "\<lambda>p. False"
  "\<lambda>s p. honest_write b info s p \<and> p \<noteq> control_file b"
  for M :: "'k Manager" and b info
  by unfold_locales (auto simp: recorded_calls info_kept_def steady_info_def Let_def)

lemma constrained_claim:
  assumes "bs_Type b = FileIO" and "parseInfoMode info \<noteq> ''''" and "map_of (fst (constrainWriteCache b info)) ''emulate_write_cache'' = Some v"
  shows "v = true_claim info"
proof -
  have "info \<noteq> ''''" using assms(2) by (auto simp: parseInfoMode_def)
  with assms show ?thesis
    by (cases "map_of (bs_Attributes b) ''emulate_write_cache''")
       (auto simp: constrainWriteCache_def true_claim_def Let_def split: if_splits)
qed

lemma kept_weaker: "info_kept K b info s \<Longrightarrow> all_writes (\<lambda>t p. honest_write b info t p \<and> growing_write b info t p) (snd s)"
  unfolding info_kept_def all_writes_def growing_write_def by blast

lemma size_only_grows:
  fixes M :: "'k Manager"
  shows "leads (info_kept (m_fs M) b info) (\<lambda>s. all_writes (\<lambda>t p. honest_write b info t p \<and> growing_write b info t p) (snd s)) (reconcile_size (recorded M) b info)"
  unfolding leads_def
proof (intro allI impI)
  fix a :: "('k \<times> call_log) applyCtx"
  assume i: "info_kept (m_fs M) b info (a_kern a)"
  then have old: "all_writes (\<lambda>t p. honest_write b info t p \<and> growing_write b info t p) (ctx_log a)"
    by (rule kept_weaker)
  let ?ctl = "''fd_dev_name='' @ bs_Dev b @ '',fd_dev_size='' @ itoa (bs_Size b)"
  obtain r a' where run: "reconcile_size (recorded M) b info a = (r, a')" by fastforce
  show "all_writes (\<lambda>t p. honest_write b info t p \<and> growing_write b info t p) (ctx_log (snd (reconcile_size (recorded M) b info a)))"
  proof (cases "ctx_log a' = ctx_log a")
    case True
    then show ?thesis using run old by simp
  next
    case False
    let ?cur = "parseInfoSize info" and ?bs = "blockSize b"
    have c: "0 < bs_Size b" "0 \<le> ?cur" "bs_Size b - bs_Size b mod ?bs \<noteq> ?cur - ?cur mod ?bs" "\<not> bs_Size b < ?cur" "bs_Size b mod ?bs = 0"
      and w: "then_step (write_step (recorded M) (backstore_id b @ '' resize'') ?ctl (control_file b)) (add_note (backstore_id b @ '' size='' @ itoa (bs_Size b))) a = (r, a')"
      using run False by (auto simp: reconcile_size_def done_step_def fail_step_def Let_def split: if_splits)
    then have "?cur < bs_Size b" by (cases "?cur = bs_Size b") auto
    then have g: "honest_write b info (?ctl @ [newline]) (control_file b) \<and> growing_write b info (?ctl @ [newline]) (control_file b)"
      using c by (simp add: honest_write_def growing_write_def)
    obtain x a1 where "write_step (recorded M) (backstore_id b @ '' resize'') ?ctl (control_file b) a = (x, a1)" "ctx_log a' = ctx_log a1"
      using w by (auto simp: then_step_def add_note_def split: prod.splits option.splits)
    then show ?thesis using write_step_logged old g run by fastforce
  qed
qed

text \<open>On a live device the engine never makes the advertised cache contradict the backing mode, and never
  shrinks it: for a kernel that changes the info line only through the control file, every value
  that a reconcile writes to the cache setting is the one that is true of the mode shown, whatever the
  configuration asks for; and every write of the size is larger than the size shown, is a whole number of
  blocks, and names the device's own file.\<close>

lemma live_device_honest:
  assumes "steady_info (m_fs M) b" and "bs_Type b = FileIO" and "ReadAttr (k_view (m_fs M) k) (objPath b @ [''info'']) = Inr info"
    and "reconcileBackstoreMutable (recorded M) b (fresh_ctx (k, [])) = (r, a')" and "(WriteCall s p, e) \<in> set (ctx_log a')"
  shows "honest_write b info s p \<and> growing_write b info s p"
proof -
  have start: "info_kept (m_fs M) b info (k, [])" using assms(3) by (simp add: info_kept_def)
  have "leads (info_kept (m_fs M) b info) (\<lambda>s. all_writes (\<lambda>t p. honest_write b info t p \<and> growing_write b info t p) (snd s))
      (reconcileBackstoreMutable (recorded M) b)"
  proof (rule live.reconcile_guarded [where info = info])
    fix st x
    assume "info_kept (m_fs M) b info st" "read_info b (k_view (m_fs (recorded M)) st) = Inr x"
    then show "x = info" using assms(1,2) by (simp add: info_kept_def read_info_def recorded_calls wrap_def)
  next
    fix k v
    assume "map_of (fst (constrainWriteCache b info)) k = Some v"
    then show "honest_write b info (v @ [newline]) (objPath b @ [''attrib'', k]) \<and> objPath b @ [''attrib'', k] \<noteq> control_file b"
      using constrained_claim [OF assms(2)] by (auto simp: honest_write_def)
  qed (rule size_only_grows | erule kept_weaker | simp add: honest_write_def)+
  from leadsD [OF this assms(4)] start have "all_writes (\<lambda>t p. honest_write b info t p \<and> growing_write b info t p) (ctx_log a')"
    by (simp add: fresh_ctx_def)
  then show ?thesis using assms(5) by (auto simp: all_writes_def)
qed

section \<open>Examples\<close>

text \<open>A device with a buffered backing, of one block less than is wanted, that claims to have no cache.\<close>

definition cached_bs :: Backstore where
  "cached_bs = \<lparr>bs_Type = FileIO, bs_HBA = 0, bs_Name = ''v'', bs_Dev = ''/d'', bs_BufferedIO = False, bs_Size = 1024,
     bs_WWN = [], bs_VendorID = [], bs_ProductID = [], bs_Revision = [], bs_Attributes = [(''emulate_write_cache'', ''0'')]\<rparr>"

definition cached_info :: string where
  "cached_info = ''File: /d  Size: 512  Mode: Buffered-WCE''"

definition file_view :: "(path \<times> string) list \<Rightarrow> view" where
  "file_view fs = empty_view\<lparr>v_file := (\<lambda>p. case map_of fs p of None \<Rightarrow> Inl ENOENT | Some s \<Rightarrow> Inr s)\<rparr>"

text \<open>A kernel that accepts every call and whose files do not change.\<close>

definition still_kernel :: "view \<Rightarrow> unit kernel" where
  "still_kernel v = \<lparr>k_view = (\<lambda>k. v), k_mkdir = (\<lambda>p k. (None, k)), k_rmdir = (\<lambda>p k. (None, k)), k_unlink = (\<lambda>p k. (None, k)),
     k_write = (\<lambda>s p k. (None, k)), k_symlink = (\<lambda>t p k. (None, k)), k_random = (\<lambda>n k. (replicate n 0, k))\<rparr>"

definition cached_manager :: "unit Manager" where
  "cached_manager = \<lparr>m_fs = still_kernel (file_view [(info_file cached_bs, cached_info), (cache_file cached_bs, ''0'')]), m_aptplRecords = None\<rparr>"

lemma cached_run:
  "(WriteCall (''1'' @ [newline]) (cache_file cached_bs), None) \<in> set (ctx_log (snd (reconcileBackstoreMutable (recorded cached_manager) cached_bs (fresh_ctx ((), [])))))"
  by code_simp

definition saved_manager :: "unit Manager" where
  "saved_manager = \<lparr>m_fs = still_kernel (file_view []), m_aptplRecords = Some (\<lambda>b k. Inr [''sa_res_key=1''])\<rparr>"

lemma saved_run:
  "(WriteCall (''1'' @ [newline]) (objPath cached_bs @ [''enable'']), None) \<in> set (ctx_log (snd (ensureBackstore (recorded saved_manager) cached_bs (fresh_ctx ((), [])))))"
  by code_simp

lemma restored_before_enabled_witness:
  "\<exists>a' pre e post. ensureBackstore (recorded saved_manager) cached_bs (fresh_ctx ((), [])) = (None, a') \<and>
     ctx_log a' = pre @ restored cached_bs [''sa_res_key=1''] @ (WriteCall (''1'' @ [newline]) (objPath cached_bs @ [''enable'']), e) # post"
proof -
  obtain r a' where run: "ensureBackstore (recorded saved_manager) cached_bs (fresh_ctx ((), [])) = (r, a')" by fastforce
  have "fst (ensureBackstore (recorded saved_manager) cached_bs (fresh_ctx ((), []))) = None" by code_simp
  moreover have "m_aptplRecords saved_manager = Some (\<lambda>b k. Inr [''sa_res_key=1''])" by (simp add: saved_manager_def)
  moreover have "(WriteCall (''1'' @ [newline]) (objPath cached_bs @ [''enable'']), None) \<in> set (ctx_log a')" using saved_run run by simp
  ultimately show ?thesis using restored_before_enabled [OF _ run] run by fastforce
qed

end
