(* ===== verification/Appliance_Engine.thy ===== *)
theory Appliance_Engine
  imports Appliance_API Lio_Live
begin

text \<open>
  The coordinator on the engine of package \<open>lio\<close>: the environment of the coordinator whose engine and
  readers are the modelled ones, over an arbitrary kernel.
\<close>

definition engine_env :: "('k \<Rightarrow> string list \<Rightarrow> string list) \<Rightarrow> nat \<Rightarrow> 'k Manager \<Rightarrow> 'k env" where
  "engine_env rng page M = \<lparr>e_range = rng,
     e_Sync = (\<lambda>cfg k. case Sync M cfg k of ((rep, err), k1) \<Rightarrow> ((rep, map_option EngineFailed err), k1)),
     e_ApplyDelta = ApplyDelta M, e_VerifyAPTPL = VerifyAPTPL M,
     e_StrandedReservations = (\<lambda>cfg k. StrandedReservations (k_view (m_fs M) k) cfg),
     e_VerifyDrift = (\<lambda>cfg k. VerifyDrift (k_view (m_fs M) k) cfg),
     e_ReservationHolder = (\<lambda>b k. ReservationHolder (k_view (m_fs M) k) b),
     e_PRState = (\<lambda>b k. read_PRState page (k_view (m_fs M) k) b),
     e_Discover = (\<lambda>k. Discover (k_view (m_fs M) k))\<rparr>"

lemma engine_env_sel [simp]:
  "e_range (engine_env rng page M) = rng" "e_ApplyDelta (engine_env rng page M) = ApplyDelta M"
  "e_Sync (engine_env rng page M) cfg k = (case Sync M cfg k of ((rep, err), k1) \<Rightarrow> ((rep, map_option EngineFailed err), k1))"
  "e_PRState (engine_env rng page M) b k = read_PRState page (k_view (m_fs M) k) b"
  by (simp_all add: engine_env_def)

section \<open>What a reconcile spares\<close>

lemma c_kern_set [simp]: "c_kern (setReconcileErr e c) = c_kern c" "c_kern (setReconcileOK u s d f c) = c_kern c"
  by (simp_all add: setReconcileErr_def setReconcileOK_def publishReconcile_def publishReconcileFailure_def publishWithheld_def with_health_def)

lemma reconcileFull_spares:
  assumes "reconcileFull (engine_env rng page (recorded M)) desired c = (r, c')" and "spares desired (snd (c_kern c))"
  shows "spares desired (snd (c_kern c'))"
proof -
  obtain rep err k where s: "Sync (recorded M) desired (c_kern c) = ((rep, err), k)" by (metis prod.exhaust)
  then have "spares desired (snd k)" using Sync_spares [OF assms(2), of M] by simp
  moreover have "c_kern c' = k" using assms(1) s by (cases err) (auto simp: reconcileFull_def)
  ultimately show ?thesis by simp
qed

lemma reconcileDelta_spares:
  assumes "reconcileDelta (engine_env rng page (recorded M)) desired delta c = (r, c')" and "spares desired (snd (c_kern c))"
    and "Validate desired = None" and "Diff prev desired = Some delta"
  shows "spares desired (snd (c_kern c'))"
proof -
  obtain rep err k where s: "ApplyDelta (recorded M) desired delta (c_kern c) = ((rep, err), k)" by (metis prod.exhaust)
  then have k: "spares desired (snd k)" using ApplyDelta_spares [OF assms(3,4,2), of M] by simp
  consider "err = None" | "err = Some StaleScope" | e where "err = Some (EngineFailed e)"
    by (metis engine_error.exhaust not_Some_eq)
  then show ?thesis
  proof cases
    case 2
    then have "reconcileFull (engine_env rng page (recorded M)) desired (c\<lparr>c_kern := k, c_applied := None\<rparr>) = (r, c')"
      using assms(1) s by (simp add: reconcileDelta_def)
    from reconcileFull_spares [OF this] k show ?thesis by simp
  qed (use assms(1) s k in \<open>auto simp: reconcileDelta_def Let_def\<close>)
qed

lemma desiredLIO_kern: "desiredLIO env c = (d, c1) \<Longrightarrow> range_ok env \<Longrightarrow> c_kern c1 = c_kern c"
  by (drule (1) desiredLIO_settled) simp

lemma reconcile_spares:
  assumes "reconcile (engine_env rng page (recorded M)) c = (r, c')" and "desiredLIO (engine_env rng page (recorded M)) c = (Some desired, c1)"
    and "Validate desired = None" and "range_ok (engine_env rng page (recorded M))" and "spares desired (snd (c_kern c))"
  shows "spares desired (snd (c_kern c'))"
proof -
  have c1: "spares desired (snd (c_kern c1))" using desiredLIO_kern [OF assms(2,4)] assms(5) by simp
  from assms(1,2) consider "reconcileFull (engine_env rng page (recorded M)) desired c1 = (r, c')"
    | prev delta where "Diff prev desired = Some delta" "reconcileDelta (engine_env rng page (recorded M)) desired delta c1 = (r, c')"
    by (auto simp: reconcile_def split: option.splits)
  then show ?thesis using c1 assms(3) by cases (auto intro: reconcileFull_spares reconcileDelta_spares)
qed


lemma mapped_is_object:
  assumes "t \<in> set (cfg_Targets c)" and "g \<in> set (tgt_TPGs t)" and "acl \<in> set (tpg_ACLs g)" and "m \<in> set (acl_MappedLUNs acl)"
  shows "mappedLunPath (tgt_IQN t) (tpg_Tag g) (acl_InitiatorIQN acl) (ml_Index m) \<in> set (object_paths c)"
proof -
  have "mappedLunPath (tgt_IQN t) (tpg_Tag g) (acl_InitiatorIQN acl) (ml_Index m) \<in> set (tpg_paths (tgt_IQN t) g)"
    using assms(3,4) by (force simp: tpg_paths_def acl_paths_def)
  then show ?thesis using assms(1,2) by (force simp: object_paths_def target_paths_def)
qed

lemma connected_in_desired:
  assumes "desiredLIO env c = (Some desired, c1)" and "range_ok env" and "h \<in> set (db_Hosts (c_st c))" and "iqn \<in> set (h_IQNs h)"
    and "cn \<in> set (db_Connections (c_st c))" and "cn_HostUUID cn = h_UUID h" and "cn_ObjectUUID cn \<in> set (exported c)"
  shows "mappedLunPath (ac_TargetIQN (c_cfg c)) 1 iqn (cn_LUN cn) \<in> set (object_paths desired)"
proof -
  have u: "c1 = c\<lparr>c_st := c_st c1\<rparr>" and gr: "grown (c_st c) (c_st c1)" using desiredLIO_grown [OF assms(1,2)] by auto
  have "c_cfg c1 = c_cfg (c\<lparr>c_st := c_st c1\<rparr>)" by (rule arg_cong [OF u])
  then have g: "c_cfg c1 = c_cfg c" "db_Hosts (c_st c1) = db_Hosts (c_st c)" "db_Connections (c_st c1) = db_Connections (c_st c)"
    using grown_sel [OF gr] by simp_all
  obtain bs ls where d: "desired = \<lparr>cfg_Backstores = bs, cfg_Targets = [\<lparr>tgt_IQN = ac_TargetIQN (c_cfg c1),
        tgt_TPGs = [\<lparr>tpg_Tag = 1, tpg_Enable = True, tpg_Portals = portals c1, tpg_LUNs = ls,
          tpg_ACLs = desired_acls (c_st c1) (exported c),
          tpg_Attributes = [(''generate_node_acls'', ''0''), (''authentication'', ''0''), (''demo_mode_write_protect'', ''0'')]\<rparr>]\<rparr>]\<rparr>"
    using assms(1) by (auto simp: desiredLIO_def Let_def split: option.splits prod.splits)
  have m: "\<exists>m \<in> set (desired_mapped (c_st c1) (exported c) (h_UUID h)). ml_Index m = cn_LUN cn"
    using assms(5-7) g by (auto simp: bex_desired_mapped)
  obtain a m where a: "a \<in> set (desired_acls (c_st c1) (exported c))" "acl_InitiatorIQN a = iqn" "m \<in> set (acl_MappedLUNs a)" "ml_Index m = cn_LUN cn"
  proof -
    have "\<exists>a \<in> set (desired_acls (c_st c1) (exported c)). acl_InitiatorIQN a = iqn \<and> (\<exists>m \<in> set (acl_MappedLUNs a). ml_Index m = cn_LUN cn)"
      unfolding bex_desired_acls using m assms(3,4) g by auto
    then show thesis using that by blast
  qed
  then show ?thesis
    using mapped_is_object [of "hd (cfg_Targets desired)" desired "hd (tgt_TPGs (hd (cfg_Targets desired)))" a m] by (simp add: d g)
qed

text \<open>C9. A change for one initiator never disturbs another: whatever the coordinator has cached, whether it takes
  the incremental or the full path, and whatever fails, no directory that a reconcile removes from the
  kernel is one of the desired configuration; in particular, none is the mapping of a host that is
  connected to an exported object, for any of its initiator names.\<close>

theorem reconcile_spares_connected:
  assumes "reconcile (engine_env rng page (recorded M)) c = (r, c')" and "desiredLIO (engine_env rng page (recorded M)) c = (Some desired, c1)"
    and "Validate desired = None" and "range_ok (engine_env rng page (recorded M))" and "c_kern c = (k, [])"
    and "(RmdirCall p, e) \<in> set (snd (c_kern c'))"
  shows "p \<notin> set (object_paths desired)
    \<and> (\<forall>h \<in> set (db_Hosts (c_st c)). \<forall>iqn \<in> set (h_IQNs h). \<forall>cn \<in> set (db_Connections (c_st c)).
        cn_HostUUID cn = h_UUID h \<and> cn_ObjectUUID cn \<in> set (exported c) \<longrightarrow> p \<noteq> mappedLunPath (ac_TargetIQN (c_cfg c)) 1 iqn (cn_LUN cn))"
proof -
  have "spares desired (snd (c_kern c'))" using reconcile_spares [OF assms(1-4)] assms(5) by (simp add: spares_def)
  then have "p \<notin> set (object_paths desired)" using assms(6) by (auto simp: spares_iff)
  with connected_in_desired [OF assms(2,4)] show ?thesis by metis
qed

section \<open>An example\<close>

text \<open>An appliance whose last connection was removed, on a kernel that still has the backstore: the cached
  configuration has it, the desired one does not.\<close>

definition traced_cfg :: "Backstore list \<Rightarrow> Config" where
  "traced_cfg bs = \<lparr>cfg_Backstores = bs, cfg_Targets = [\<lparr>tgt_IQN = ''iqn.2003-01.org.example:t'',
     tgt_TPGs = [\<lparr>tpg_Tag = 1, tpg_Enable = True, tpg_Portals = [\<lparr>po_IP = V4 0x0a000001, po_Port = 3260\<rparr>], tpg_LUNs = [], tpg_ACLs = [],
       tpg_Attributes = [(''generate_node_acls'', ''0''), (''authentication'', ''0''), (''demo_mode_write_protect'', ''0'')]\<rparr>]\<rparr>]\<rparr>"

definition traced_demo :: "(unit \<times> call_log) coord" where
  "traced_demo = \<lparr>c_cfg = c_cfg demo, c_dbPath = c_dbPath demo,
     c_st = demo_db\<lparr>db_Objects := [], db_Hosts := [], db_Connections := [], db_Exports := []\<rparr>,
     c_applied = Some (traced_cfg (cfg_Backstores (example_config 4096 []))), c_withheld = [], c_prClearing = '''',
     c_lastReconcileErr = None, c_health = demo_health, c_store = c_store demo, c_disk = c_disk demo, c_backups = [], c_prfiles = [],
     c_os = c_os demo, c_kern = ((), [])\<rparr>"

definition traced_manager :: "unit Manager" where
  "traced_manager = \<lparr>m_fs = still_kernel (empty_view\<lparr>v_lstat := (\<lambda>p. Inr Dir)\<rparr>), m_aptplRecords = None\<rparr>"

definition traced_delta :: Delta where
  "traced_delta = \<lparr>d_Add = \<lparr>cfg_Backstores = [], cfg_Targets = []\<rparr>, d_Remove = \<lparr>rm_MappedLUNs = [], rm_ACLs = [], rm_LUNs = [],
     rm_Backstores = cfg_Backstores (example_config 4096 [])\<rparr>\<rparr>"

abbreviation traced_env :: "(unit \<times> call_log) env" where
  "traced_env \<equiv> engine_env (\<lambda>k xs. xs) 4096 (recorded traced_manager)"

lemma traced_desired: "desiredLIO traced_env traced_demo = (Some (traced_cfg []), traced_demo)"
  by (simp add: desiredLIO_def exported_def traced_demo_def demo_def portals_def demo_db_def traced_cfg_def desired_acls_def)

lemma traced_diff: "Diff (traced_cfg (cfg_Backstores (example_config 4096 []))) (traced_cfg []) = Some traced_delta"
  by code_simp

lemma traced_removes:
  "(RmdirCall [''core'', ''fileio_0'', ''v''], None) \<in> set (snd (snd (ApplyDelta (recorded traced_manager) (traced_cfg []) traced_delta ((), []))))"
  "snd (fst (ApplyDelta (recorded traced_manager) (traced_cfg []) traced_delta ((), []))) = None"
  by code_simp+

lemma traced_valid: "Validate (traced_cfg []) = None"
  by code_simp

lemma reconcile_spares_connected_witness:
  "\<exists>r c'. reconcile traced_env traced_demo = (r, c') \<and> (RmdirCall [''core'', ''fileio_0'', ''v''], None) \<in> set (snd (c_kern c'))
     \<and> [''core'', ''fileio_0'', ''v''] \<notin> set (object_paths (traced_cfg []))"
proof -
  obtain rep k where d: "ApplyDelta (recorded traced_manager) (traced_cfg []) traced_delta ((), []) = ((rep, None), k)"
    using traced_removes(2) by (metis prod.collapse)
  obtain r c' where run: "reconcile traced_env traced_demo = (r, c')" by fastforce
  have kern: "c_kern traced_demo = ((), [])" and applied: "c_applied traced_demo = Some (traced_cfg (cfg_Backstores (example_config 4096 [])))"
    by (simp_all add: traced_demo_def)
  have "c_kern c' = k" using run d kern applied
    by (auto simp: reconcile_def traced_desired traced_diff reconcileDelta_def Let_def)
  then have rm: "(RmdirCall [''core'', ''fileio_0'', ''v''], None) \<in> set (snd (c_kern c'))" using traced_removes(1) d by simp
  have "range_ok traced_env" by (simp add: range_ok_def)
  from reconcile_spares_connected [OF run traced_desired traced_valid this kern rm] run rm show ?thesis by blast
qed

end
