(* ===== verification/Appliance_Events.thy ===== *)
theory Appliance_Events
  imports Appliance_API
begin

text \<open>
  The events that the appliance logs (appliance/events.go): the outcome of an operation, the edges of the
  reconcile and of the backups, and the changes of the published health. An event is its level, its name
  and its attributes; the message, which repeats them in words, is not kept, nor is the text of an error.
\<close>

section \<open>Events\<close>

datatype log_level = LevelInfo | LevelWarn | LevelError

datatype attr = AText string | ATexts "string list" | AFlag bool | ACount nat

record log_event =
  ev_level :: log_level
  ev_name :: string
  ev_attrs :: "(string \<times> attr) list"

abbreviation StatusInternalServerError :: int where "StatusInternalServerError \<equiv> 500"

text \<open>The status and the code that an error carries.\<close>

fun status :: "op_error \<Rightarrow> int" where
  "status (StatusError code reason) = code"
| "status _ = StatusInternalServerError"

definition errorCode :: "op_error \<Rightarrow> string" where
  "errorCode e = ErrorCode e"

definition objectEvent :: "string \<Rightarrow> string \<Rightarrow> string" where
  "objectEvent kind verb = kind @ ''.'' @ verb"

section \<open>The event of an operation\<close>

datatype reconcile_outcome = reconcileNotRequired | reconcileSucceeded | reconcileFailed

fun reconcile_text :: "reconcile_outcome \<Rightarrow> string" where
  "reconcile_text reconcileNotRequired = ''not-required''"
| "reconcile_text reconcileSucceeded = ''succeeded''"
| "reconcile_text reconcileFailed = ''failed''"

record opLog =
  op_event :: string
  op_attrs :: "(string \<times> attr) list"
  op_persisted :: bool
  op_proven :: bool
  op_reconcile :: reconcile_outcome

definition beginOp :: "string \<Rightarrow> (string \<times> attr) list \<Rightarrow> opLog" where
  "beginOp event attrs = \<lparr>op_event = event, op_attrs = attrs, op_persisted = False, op_proven = False, op_reconcile = reconcileNotRequired\<rparr>"

definition op_set :: "(string \<times> attr) list \<Rightarrow> opLog \<Rightarrow> opLog" where
  "op_set attrs l = l\<lparr>op_attrs := op_attrs l @ attrs\<rparr>"

definition noteCommit :: "bool \<Rightarrow> bool \<Rightarrow> opLog \<Rightarrow> opLog" where
  "noteCommit persisted proven l = l\<lparr>op_persisted := persisted, op_proven := proven\<rparr>"

definition noteReconcile :: "reconcile_outcome \<Rightarrow> opLog \<Rightarrow> opLog" where
  "noteReconcile outcome l = l\<lparr>op_reconcile := outcome\<rparr>"

definition finish :: "op_error option \<Rightarrow> opLog \<Rightarrow> log_event" where
  "finish err l = (case (case err of
       None \<Rightarrow> (''succeeded'', LevelInfo)
     | Some e \<Rightarrow> if op_persisted l then (''partial'', LevelWarn)
         else (''failed'', if status e \<ge> StatusInternalServerError then LevelError else LevelInfo)) of (outcome, level) \<Rightarrow>
     \<lparr>ev_level = level, ev_name = op_event l,
      ev_attrs = [(''outcome'', AText outcome), (''durable'', AFlag (op_persisted l)), (''durable_proven'', AFlag (op_proven l)),
          (''reconciled'', AFlag (op_reconcile l = reconcileSucceeded)), (''reconcile_outcome'', AText (reconcile_text (op_reconcile l)))]
        @ op_attrs l @ (case err of None \<Rightarrow> [] | Some e \<Rightarrow> [(''error_code'', AText (errorCode e))])\<rparr>)"

section \<open>The edges of the reconcile and of the backups\<close>

definition logReconcileOutcome :: "op_error option \<Rightarrow> op_error option \<Rightarrow> string \<Rightarrow> nat \<Rightarrow> log_event list" where
  "logReconcileOutcome prev err kind changes =
    (if err \<noteq> None then
       (if prev \<noteq> None then [] else [\<lparr>ev_level = LevelError, ev_name = ''reconcile.failed'', ev_attrs = [(''kind'', AText kind), (''changes_applied'', ACount changes)]\<rparr>])
     else if prev \<noteq> None then [\<lparr>ev_level = LevelInfo, ev_name = ''reconcile.recovered'', ev_attrs = [(''kind'', AText kind), (''changes_applied'', ACount changes)]\<rparr>]
     else [])"

definition logBackupPosture :: "errno option \<Rightarrow> errno option \<Rightarrow> log_event list" where
  "logBackupPosture prev now =
    (if now \<noteq> None \<and> prev = None then [\<lparr>ev_level = LevelWarn, ev_name = ''storage.backup_failed'', ev_attrs = []\<rparr>]
     else if now = None \<and> prev \<noteq> None then [\<lparr>ev_level = LevelInfo, ev_name = ''storage.backup_recovered'', ev_attrs = []\<rparr>]
     else [])"

definition logFenceReleased :: "string \<Rightarrow> string \<Rightarrow> string \<Rightarrow> log_event" where
  "logFenceReleased kind name uuid = \<lparr>ev_level = LevelWarn, ev_name = ''pr.released'',
     ev_attrs = [(''resource_kind'', AText kind), (''resource_name'', AText name), (''resource_id'', AText uuid)]\<rparr>"

section \<open>Health transitions\<close>

abbreviation healthOK :: string where "healthOK \<equiv> ''ok''"
abbreviation healthWarning :: string where "healthWarning \<equiv> ''warning''"
abbreviation healthDegraded :: string where "healthDegraded \<equiv> ''degraded''"

definition Status :: "Health \<Rightarrow> string" where
  "Status h = (if H_Degraded h then healthDegraded
     else if H_Withheld h \<noteq> [] \<or> H_ClearInProgress h \<noteq> '''' \<or> H_PRUnbound h \<noteq> [] \<or> H_PRStranded h \<noteq> [] then healthWarning
     else healthOK)"

definition present :: "(string \<times> bool) list \<Rightarrow> string list" where
  "present conds = map fst (filter snd conds)"

definition standing :: "Health \<Rightarrow> (string \<times> bool) list" where
  "standing h =
     [(''pr_unbound'', H_PRUnbound h \<noteq> []), (''pr_stranded'', H_PRStranded h \<noteq> []),
      (''pr_strand_undecided'', H_PRStrandUndecided h \<noteq> []), (''clear_in_progress'', H_ClearInProgress h \<noteq> ''''),
      (''withheld_after_failed_clear'', H_Withheld h \<noteq> []), (''attribute_drift'', H_Drift h \<noteq> []),
      (''db_backup_failing'', H_BackupErr h \<noteq> None), (''quarantined_volume_dirs'', H_Quarantined h \<noteq> []),
      (''portal_flag_ignored'', H_PortalFlagIgnored h), (''iqn_flag_ignored'', H_IQNFlagIgnored h)]"

definition Conditions :: "Health \<Rightarrow> string list" where
  "Conditions h = sort (present (standing h))"

definition healthRank :: "string \<Rightarrow> nat" where
  "healthRank s = (if s = healthDegraded then 2 else if s = healthWarning then 1 else 0)"

definition diffConditions :: "string list \<Rightarrow> string list \<Rightarrow> string list \<times> string list" where
  "diffConditions prev now = (filter (\<lambda>n. n \<notin> set prev) now, filter (\<lambda>p. p \<notin> set now) prev)"

text \<open>What the coordinator last announced: the verdict, empty before the first, and the conditions.\<close>

type_synonym noted = "string \<times> string list"

definition noteHealth :: "Health \<Rightarrow> noted \<Rightarrow> log_event option \<times> noted" where
  "noteHealth h = (\<lambda>(prevStatus, prevConds). (let st = Status h; conds = Conditions h in
     (if prevStatus = '''' then None
      else (case diffConditions prevConds conds of (arrived, ended) \<Rightarrow>
        if st = prevStatus \<and> arrived = [] \<and> ended = [] then None
        else Some \<lparr>ev_level = (if healthRank st > healthRank prevStatus then LevelWarn else LevelInfo), ev_name = ''health.status_changed'',
           ev_attrs = [(''from'', AText prevStatus), (''to'', AText st)]
             @ (if arrived = [] then [] else [(''fields_added'', ATexts arrived)])
             @ (if ended = [] then [] else [(''fields_cleared'', ATexts ended)])\<rparr>), (st, conds))))"

text \<open>The events over a sequence of snapshots.\<close>

fun health_log :: "Health list \<Rightarrow> noted \<Rightarrow> log_event list \<times> noted" where
  "health_log [] n = ([], n)"
| "health_log (h # hs) n = (case noteHealth h n of (e, n1) \<Rightarrow> (case health_log hs n1 of
     (es, n2) \<Rightarrow> ((case e of None \<Rightarrow> [] | Some x \<Rightarrow> [x]) @ es, n2)))"

section \<open>A reader of the log\<close>

text \<open>
  A reader that knows only how the appliance came up follows the events: it takes the new verdict, drops
  the conditions that ended and adds those that arrived.
\<close>

definition text_of :: "string \<Rightarrow> log_event \<Rightarrow> string" where
  "text_of k e = (case map_of (ev_attrs e) k of Some (AText t) \<Rightarrow> t | _ \<Rightarrow> '''')"

definition texts_of :: "string \<Rightarrow> log_event \<Rightarrow> string list" where
  "texts_of k e = (case map_of (ev_attrs e) k of Some (ATexts ts) \<Rightarrow> ts | _ \<Rightarrow> [])"

definition follow :: "log_event \<Rightarrow> string \<times> string set \<Rightarrow> string \<times> string set" where
  "follow e = (\<lambda>(st, conds). (text_of ''to'' e, (conds - set (texts_of ''fields_cleared'' e)) \<union> set (texts_of ''fields_added'' e)))"

lemma Status_known: "Status h \<in> {healthOK, healthWarning, healthDegraded}"
  by (simp add: Status_def)

lemma Status_nonempty [simp]: "Status h \<noteq> ''''"
  using Status_known [of h] by auto

lemma noteHealth_noted: "snd (noteHealth h n) = (Status h, Conditions h)"
  by (simp add: noteHealth_def Let_def split: prod.splits)

lemma noteHealth_followed:
  assumes "noteHealth h (Status h0, Conditions h0) = (e, n)"
  shows "foldr follow (case e of None \<Rightarrow> [] | Some x \<Rightarrow> [x]) (Status h0, set (Conditions h0)) = (Status h, set (Conditions h))"
proof -
  obtain arrived ended where d: "diffConditions (Conditions h0) (Conditions h) = (arrived, ended)" by fastforce
  then have sets: "set arrived = set (Conditions h) - set (Conditions h0)" "set ended = set (Conditions h0) - set (Conditions h)"
    by (auto simp: diffConditions_def)
  show ?thesis
  proof (cases e)
    case None
    then have "Status h = Status h0" "arrived = []" "ended = []" using assms d by (auto simp: noteHealth_def Let_def split: if_splits)
    then show ?thesis using None sets by auto
  next
    case (Some x)
    then have x: "x = \<lparr>ev_level = (if healthRank (Status h) > healthRank (Status h0) then LevelWarn else LevelInfo), ev_name = ''health.status_changed'',
        ev_attrs = [(''from'', AText (Status h0)), (''to'', AText (Status h))]
          @ (if arrived = [] then [] else [(''fields_added'', ATexts arrived)]) @ (if ended = [] then [] else [(''fields_cleared'', ATexts ended)])\<rparr>"
      using assms d by (auto simp: noteHealth_def Let_def split: if_splits)
    have "text_of ''to'' x = Status h" "texts_of ''fields_added'' x = arrived" "texts_of ''fields_cleared'' x = ended"
      unfolding x by (auto simp: text_of_def texts_of_def)
    then show ?thesis using Some sets by (auto simp: follow_def)
  qed
qed

lemma health_log_followed:
  "health_log hs (Status h0, Conditions h0) = (es, n) \<Longrightarrow>
     fold follow es (Status h0, set (Conditions h0)) = (fst n, set (snd n)) \<and> n = (Status (last (h0 # hs)), Conditions (last (h0 # hs)))"
proof (induction hs arbitrary: h0 es)
  case (Cons h hs)
  obtain e n1 where e: "noteHealth h (Status h0, Conditions h0) = (e, n1)" by (metis prod.exhaust)
  have n1: "n1 = (Status h, Conditions h)" using noteHealth_noted [of h "(Status h0, Conditions h0)"] e by simp
  obtain es1 where es1: "health_log hs (Status h, Conditions h) = (es1, n)" "es = (case e of None \<Rightarrow> [] | Some x \<Rightarrow> [x]) @ es1"
    using Cons.prems e n1 by (auto split: prod.splits)
  have "fold follow (case e of None \<Rightarrow> [] | Some x \<Rightarrow> [x]) (Status h0, set (Conditions h0)) = (Status h, set (Conditions h))"
    using noteHealth_followed [OF e] by (cases e) simp_all
  with Cons.IH [OF es1(1)] es1(2) show ?case by (auto split: option.splits)
qed auto

text \<open>C38. The health events lose no edge: a reader that starts from how the appliance came up and follows the events
  of any sequence of published snapshots has, at the end, the verdict and the conditions that are then
  published, whatever came and went in between.\<close>

theorem health_log_complete:
  "fold follow (fst (health_log (h0 # hs) ('''', []))) (Status h0, set (Conditions h0))
     = (Status (last (h0 # hs)), set (Conditions (last (h0 # hs))))"
proof -
  have first: "noteHealth h0 ('''', []) = (None, (Status h0, Conditions h0))" by (simp add: noteHealth_def Let_def)
  obtain es n where es: "health_log hs (Status h0, Conditions h0) = (es, n)" by (metis prod.exhaust)
  with first have "fst (health_log (h0 # hs) ('''', [])) = es" by simp
  with health_log_followed [OF es] show ?thesis by simp
qed

text \<open>An event says that a change failed without trace only when nothing was recorded.\<close>

lemma finish_outcome:
  "text_of ''outcome'' (finish err l) = ''failed'' \<longleftrightarrow> err \<noteq> None \<and> \<not> op_persisted l"
  by (auto simp: finish_def text_of_def split: option.splits)

end
