(* ===== verification/Json.thy ===== *)
theory Json
  imports Lio_Discover
begin

text \<open>
  JSON values as package \<open>encoding/json\<close> writes and reads them: numbers are kept as their literal, and
  objects as their members in order. A reader fills in a value that is already there, which is how the
  members of one object, or a repeated member, accumulate. The layout of the text, its escapes and its
  indentation are not modelled: a text is the sequence of the values in it, and whether something that is
  no value follows them.
\<close>

section \<open>Values\<close>

datatype json = JNull | JBool bool | JNum string | JStr string | JArr "json list" | JObj "(string \<times> json) list"

record json_text =
  jt_values :: "json list"
  jt_broken :: bool

text \<open>A string is written as valid UTF-8: a byte that belongs to no character becomes U+FFFD.\<close>

definition byte_in :: "nat \<Rightarrow> nat \<Rightarrow> char \<Rightarrow> bool" where
  "byte_in lo hi c = (let n = of_char c in lo \<le> n \<and> n \<le> hi)"

definition utf8_ranges :: "((nat \<times> nat) \<times> (nat \<times> nat) list) list" where
  "utf8_ranges = [((0x00, 0x7F), []), ((0xC2, 0xDF), [(0x80, 0xBF)]), ((0xE0, 0xE0), [(0xA0, 0xBF), (0x80, 0xBF)]),
     ((0xE1, 0xEC), [(0x80, 0xBF), (0x80, 0xBF)]), ((0xED, 0xED), [(0x80, 0x9F), (0x80, 0xBF)]),
     ((0xEE, 0xEF), [(0x80, 0xBF), (0x80, 0xBF)]), ((0xF0, 0xF0), [(0x90, 0xBF), (0x80, 0xBF), (0x80, 0xBF)]),
     ((0xF1, 0xF3), [(0x80, 0xBF), (0x80, 0xBF), (0x80, 0xBF)]), ((0xF4, 0xF4), [(0x80, 0x8F), (0x80, 0xBF), (0x80, 0xBF)])]"

definition rune_length :: "string \<Rightarrow> nat" where
  "rune_length s = (case s of [] \<Rightarrow> 0 | c # rest \<Rightarrow>
     (case find (\<lambda>((lo, hi), tails). byte_in lo hi c \<and> length tails \<le> length rest
         \<and> list_all (\<lambda>((l, h), d). byte_in l h d) (zip tails rest)) utf8_ranges of
        None \<Rightarrow> 0 | Some (_, tails) \<Rightarrow> Suc (length tails)))"

function toValidUTF8 :: "string \<Rightarrow> string" where
  "toValidUTF8 s = (if s = [] then []
     else if rune_length s = 0 then [CHR 0xEF, CHR 0xBF, CHR 0xBD] @ toValidUTF8 (tl s)
     else take (rune_length s) s @ toValidUTF8 (drop (rune_length s) s))"
  by auto
termination by (relation "measure length") auto

declare toValidUTF8.simps [simp del]

definition ascii :: "string \<Rightarrow> bool" where
  "ascii s \<longleftrightarrow> list_all (byte_in 0 0x7F) s"

lemma toValidUTF8_ascii: "ascii s \<Longrightarrow> toValidUTF8 s = s"
proof (induction s)
  case (Cons c s)
  then have "rune_length (c # s) = 1" by (simp add: ascii_def rune_length_def utf8_ranges_def)
  with Cons show ?case by (subst toValidUTF8.simps) (simp add: ascii_def)
qed (simp add: toValidUTF8.simps)

section \<open>Writing\<close>

definition put_str :: "string \<Rightarrow> json" where "put_str s = JStr (toValidUTF8 s)"
definition put_int :: "int \<Rightarrow> json" where "put_int n = JNum (itoa n)"

text \<open>A member, and one that is left out when it is empty (\<open>omitempty\<close>).\<close>

definition member :: "string \<Rightarrow> json \<Rightarrow> (string \<times> json) list" where
  "member k v = [(k, v)]"

definition member_unless :: "bool \<Rightarrow> string \<Rightarrow> json \<Rightarrow> (string \<times> json) list" where
  "member_unless absent k v = (if absent then [] else [(k, v)])"

definition put_map :: "string_map \<Rightarrow> json" where
  "put_map m = JObj (map (\<lambda>k. (toValidUTF8 k, put_str (value_or (map_of m k)))) (sortedKeys m))"

definition put_list :: "('a \<Rightarrow> json) \<Rightarrow> 'a list \<Rightarrow> json" where
  "put_list f xs = JArr (map f xs)"

section \<open>Reading\<close>

text \<open>A reader takes a value and what is there already; \<open>null\<close> leaves a scalar as it is, and empties a list or a map.\<close>

type_synonym 'a reader = "json \<Rightarrow> 'a \<Rightarrow> 'a option"

fun get_str :: "string reader" where
  "get_str (JStr s) x = Some s"
| "get_str JNull x = Some x"
| "get_str _ x = None"

fun get_bool :: "bool reader" where
  "get_bool (JBool b) x = Some b"
| "get_bool JNull x = Some x"
| "get_bool _ x = None"

fun get_int :: "int reader" where
  "get_int (JNum lit) x = parseInt10 lit"
| "get_int JNull x = Some x"
| "get_int _ x = None"

fun get_u16 :: "u16 reader" where
  "get_u16 (JNum lit) x = Option.map_option of_nat (parseUint 10 16 lit)"
| "get_u16 JNull x = Some x"
| "get_u16 _ x = None"

text \<open>\<open>netip.Addr\<close> is read by \<open>UnmarshalText\<close>: the empty text is the zero address.\<close>

fun get_addr :: "Addr reader" where
  "get_addr (JStr s) x = (if s = '''' then Some NoAddr else ParseAddr s)"
| "get_addr JNull x = Some x"
| "get_addr _ x = None"

definition put_addr :: "Addr \<Rightarrow> json" where
  "put_addr a = put_str (if a = NoAddr then '''' else addr_text a)"

fun get_items :: "'a \<Rightarrow> 'a reader \<Rightarrow> json list \<Rightarrow> 'a list \<Rightarrow> 'a list option" where
  "get_items zero d [] xs = Some []"
| "get_items zero d (j # js) xs = (case d j (case xs of [] \<Rightarrow> zero | x # _ \<Rightarrow> x) of
     None \<Rightarrow> None
   | Some y \<Rightarrow> Option.map_option (Cons y) (get_items zero d js (tl xs)))"

fun get_list :: "'a \<Rightarrow> 'a reader \<Rightarrow> 'a list reader" where
  "get_list zero d (JArr js) xs = get_items zero d js xs"
| "get_list zero d JNull xs = Some []"
| "get_list zero d _ xs = None"

definition map_set :: "string \<Rightarrow> string \<Rightarrow> string_map \<Rightarrow> string_map" where
  "map_set k v m = filter (\<lambda>(k', v'). k' \<noteq> k) m @ [(k, v)]"

fun get_entries :: "(string \<times> json) list \<Rightarrow> string_map \<Rightarrow> string_map option" where
  "get_entries [] m = Some m"
| "get_entries ((k, j) # kvs) m = (case get_str j '''' of None \<Rightarrow> None | Some v \<Rightarrow> get_entries kvs (map_set k v m))"

fun get_map :: "string_map reader" where
  "get_map (JObj kvs) m = get_entries kvs m"
| "get_map JNull m = Some []"
| "get_map _ m = None"

text \<open>
  The members of an object: a member is that of the field whose name agrees up to case, the characters
  U+017F and U+212A counting as s and k. A strict reader refuses a member that no field has.
\<close>

fun fold_name :: "string \<Rightarrow> string" where
  "fold_name [] = []"
| "fold_name (c # s) = (case cutPrefix [CHR 0xC5, CHR 0xBF] (c # s) of
     Some r \<Rightarrow> CHR ''s'' # fold_name (tl s)
   | None \<Rightarrow> (case cutPrefix [CHR 0xE2, CHR 0x84, CHR 0xAA] (c # s) of
       Some r \<Rightarrow> CHR ''k'' # fold_name (tl (tl s))
     | None \<Rightarrow> lower_char c # fold_name s))"

declare fold_name.simps [simp del]

fun get_members :: "bool \<Rightarrow> (string \<times> 'a reader) list \<Rightarrow> (string \<times> json) list \<Rightarrow> 'a \<Rightarrow> 'a option" where
  "get_members strict fs [] x = Some x"
| "get_members strict fs ((k, j) # kvs) x = (case map_of fs (fold_name k) of
     None \<Rightarrow> if strict then None else get_members strict fs kvs x
   | Some d \<Rightarrow> (case d j x of None \<Rightarrow> None | Some y \<Rightarrow> get_members strict fs kvs y))"

fun get_obj :: "bool \<Rightarrow> (string \<times> 'a reader) list \<Rightarrow> 'a reader" where
  "get_obj strict fs (JObj kvs) x = get_members strict fs kvs x"
| "get_obj strict fs JNull x = Some x"
| "get_obj strict fs _ x = None"

text \<open>A field of a struct: read into the field, and put back.\<close>

definition field :: "('b reader) \<Rightarrow> ('a \<Rightarrow> 'b) \<Rightarrow> ('b \<Rightarrow> 'a \<Rightarrow> 'a) \<Rightarrow> 'a reader" where
  "field d sel upd j x = Option.map_option (\<lambda>y. upd y x) (d j (sel x))"

section \<open>Round trips of the parts\<close>

text \<open>Text that is valid UTF-8 is written as it is.\<close>

definition clean_text :: "string \<Rightarrow> bool" where
  "clean_text s \<longleftrightarrow> toValidUTF8 s = s"

lemma clean_ascii: "ascii s \<Longrightarrow> clean_text s"
  by (simp add: clean_text_def toValidUTF8_ascii)

lemma clean_empty [simp]: "clean_text []"
  by (simp add: clean_text_def toValidUTF8.simps)

lemma get_put_str [simp]: "clean_text s \<Longrightarrow> get_str (put_str s) x = Some s"
  by (simp add: put_str_def clean_text_def)

lemma get_put_int [simp]: "- (2 ^ 63) \<le> n \<Longrightarrow> n < 2 ^ 63 \<Longrightarrow> get_int (put_int n) x = Some n"
  by (simp add: put_int_def parseInt10_itoa)

lemma get_put_list:
  assumes "\<And>y. y \<in> set xs \<Longrightarrow> d (f y) zero = Some (g y)"
  shows "get_list zero d (put_list f xs) [] = Some (map g xs)"
proof -
  have "get_items zero d (map f xs) [] = Some (map g xs)" using assms by (induction xs) auto
  then show ?thesis by (simp add: put_list_def)
qed

lemma get_members_append:
  "get_members strict fs (as @ bs) x = Option.bind (get_members strict fs as x) (get_members strict fs bs)"
  by (induction strict fs as x rule: get_members.induct) (auto split: option.splits)

lemma get_put_u16 [simp]: "get_u16 (put_int (uint p)) x = Some p"
proof -
  have "parseUint 10 16 (utoa (unat p)) = Some (unat p)" by (rule parseUint_utoa) (use unsigned_less [of p] in simp)
  moreover have "itoa (uint p) = utoa (unat p)" by (simp add: itoa_def)
  ultimately show ?thesis by (simp add: put_int_def)
qed

lemma get_put_addr:
  assumes "plain_addr a" and "clean_text (addr_text a)"
  shows "get_addr (put_addr a) x = Some a"
proof -
  have p: "ParseAddr (addr_text a) = Some a" using assms(1) by (cases a) (auto simp: ParseAddr_v4 ParseAddr_v6)
  then have "addr_text a \<noteq> []" by (auto simp: ParseAddr_def)
  moreover have "a \<noteq> NoAddr" using assms(1) by auto
  ultimately show ?thesis using p assms(2) by (simp add: put_addr_def put_str_def clean_text_def)
qed

text \<open>A map is read back with its keys in order.\<close>

definition in_order :: "string_map \<Rightarrow> string_map" where
  "in_order m = map (\<lambda>k. (k, value_or (map_of m k))) (sortedKeys m)"

definition clean_map :: "string_map \<Rightarrow> bool" where
  "clean_map m \<longleftrightarrow> (\<forall>(k, v) \<in> set m. clean_text k \<and> clean_text v)"

lemma get_entries_fresh:
  assumes "distinct (map fst kvs)" and "fst ` set kvs \<inter> fst ` set m = {}" and "\<And>k v. (k, v) \<in> set kvs \<Longrightarrow> clean_text v"
  shows "get_entries (map (\<lambda>(k, v). (k, put_str v)) kvs) m = Some (m @ kvs)"
  using assms
proof (induction kvs arbitrary: m)
  case (Cons kv kvs)
  obtain k v where kv: "kv = (k, v)" by fastforce
  have "map_set k v m = m @ [(k, v)]" using Cons.prems(2) kv by (auto simp: map_set_def filter_id_conv image_iff)
  moreover have "get_entries (map (\<lambda>(k, v). (k, put_str v)) kvs) (m @ [(k, v)]) = Some ((m @ [(k, v)]) @ kvs)"
    using Cons.prems kv by (intro Cons.IH) auto
  moreover have "get_str (put_str v) [] = Some v" using Cons.prems(3) [of k v] kv by simp
  ultimately show ?case by (simp add: kv)
qed simp

lemma get_put_map: "clean_map m \<Longrightarrow> get_map (put_map m) [] = Some (in_order m)"
proof -
  assume clean: "clean_map m"
  have key: "\<exists>v. map_of m k = Some v \<and> clean_text k \<and> clean_text v" if "k \<in> set (sortedKeys m)" for k
  proof -
    have "k \<in> fst ` set m" using that by (simp add: sortedKeys_def)
    then obtain v where "map_of m k = Some v" by (metis map_of_eq_None_iff not_None_eq)
    then show ?thesis using clean by (auto simp: clean_map_def dest!: map_of_SomeD)
  qed
  have "put_map m = JObj (map (\<lambda>(k, v). (k, put_str v)) (in_order m))"
    using key by (auto simp: put_map_def in_order_def clean_text_def)
  moreover have "map fst (in_order m) = sortedKeys m" by (simp add: in_order_def comp_def)
  moreover have "distinct (sortedKeys m)" by (simp add: sortedKeys_def)
  moreover have "clean_text v" if "(k, v) \<in> set (in_order m)" for k v
    using that key by (fastforce simp: in_order_def value_or_def)
  ultimately show ?thesis using get_entries_fresh [of "in_order m" "[]"] by simp
qed

text \<open>A member of a known field, and one that may be left out because reading it changes nothing.\<close>

lemma get_member: "get_members strict fs (member k v) x =
    (case map_of fs (fold_name k) of None \<Rightarrow> if strict then None else Some x | Some d \<Rightarrow> d v x)"
  by (simp add: member_def split: option.splits)

lemma get_member_unless:
  assumes "absent \<Longrightarrow> (case map_of fs (fold_name k) of None \<Rightarrow> False | Some d \<Rightarrow> d v x = Some x)"
  shows "get_members strict fs (member_unless absent k v) x = get_members strict fs (member k v) x"
  using assms by (auto simp: member_unless_def member_def split: option.splits)

end
