(* ===== verification/Appliance_Rest.thy ===== *)
theory Appliance_Rest
  imports Appliance_Events Json
begin

text \<open>
  The REST interface (appliance/rest.go, and \<open>ParsePortals\<close> of appliance.go): a request is routed by its method and path,
  its body is read, one method of the coordinator is called, and the result becomes a status and a value.
  The path is given as its segments, after the multiplexer of the standard library has cleaned it: only
  the last one can be empty. The body is given as the JSON values in its first mebibyte. The access log and the
  encoding of the reply are not modelled.
\<close>

section \<open>Requests and replies\<close>

record http_request =
  rq_method :: string
  rq_path :: "string list"
  rq_query :: "(string \<times> string) list"
  rq_body :: json_text

datatype health_value = HUnbound "(Backstore \<times> aptpl_warning) list" | HStranded "StrandedReservation list"
  | HUndecided "UndecidedStrand list" | HText string | HTexts "string list" | HDrift "AttrDrift list" | HErrno errno
  | HFlag | HError | HTime int

datatype reply_value =
    VHealth "(string \<times> health_value) list"
  | VTarget string "Portal list"
  | VPortals "Portal list"
  | VObject Object
  | VObjects "Object list"
  | VDeleted string
  | VRescan bool
  | VCleared ClearedReservation
  | VConnection ConnInfo
  | VConnections "ConnectionView list"
  | VDisconnected string
  | VHost Host
  | VHosts "Host list"
  | VBindings Host

record reply =
  re_status :: int
  re_code :: "string option"
  re_value :: "reply_value option"
  re_warning :: "fence_warning list"

text \<open>
  What the client sees: a reply, a redirect to the path with a slash, or a connection that is cut because the
  handler panicked.
\<close>

datatype outcome = Reply reply | Redirect | Aborted

abbreviation StatusOK :: int where "StatusOK \<equiv> 200"
abbreviation StatusCreated :: int where "StatusCreated \<equiv> 201"
abbreviation StatusMethodNotAllowed :: int where "StatusMethodNotAllowed \<equiv> 405"

definition APIPrefix :: string where "APIPrefix = ''/v1''"

definition writeJSON :: "int \<Rightarrow> reply_value \<Rightarrow> outcome" where
  "writeJSON code v = Reply \<lparr>re_status = code, re_code = None, re_value = Some v, re_warning = []\<rparr>"

definition bare :: "int \<Rightarrow> outcome" where
  "bare code = Reply \<lparr>re_status = code, re_code = None, re_value = None, re_warning = []\<rparr>"

definition errResp :: "int \<Rightarrow> outcome" where
  "errResp code = Reply \<lparr>re_status = code, re_code = Some (codeForStatus code), re_value = None, re_warning = []\<rparr>"

definition errRespFor :: "op_error \<Rightarrow> outcome" where
  "errRespFor e = (if e = Panicked then Aborted
     else Reply \<lparr>re_status = status e, re_code = Some (errorCode e), re_value = None, re_warning = []\<rparr>)"

definition createdCode :: "bool \<Rightarrow> int" where
  "createdCode created = (if created then StatusCreated else StatusOK)"

definition respond :: "int \<Rightarrow> op_error + reply_value \<Rightarrow> outcome" where
  "respond okCode r = (case r of Inl e \<Rightarrow> errRespFor e | Inr v \<Rightarrow> writeJSON okCode v)"

definition respondWithWarning :: "fence_warning list \<Rightarrow> op_error + reply_value \<Rightarrow> outcome" where
  "respondWithWarning ws r = (case r of
     Inl e \<Rightarrow> if e = Panicked then Aborted
       else Reply \<lparr>re_status = status e, re_code = Some (errorCode e), re_value = None, re_warning = ws\<rparr>
   | Inr v \<Rightarrow> Reply \<lparr>re_status = StatusOK, re_code = None, re_value = Some v, re_warning = ws\<rparr>)"

definition respondCleared :: "clear_result \<Rightarrow> outcome" where
  "respondCleared = (\<lambda>(out, err). case err of
     Some e \<Rightarrow> if e = Panicked then Aborted
       else Reply \<lparr>re_status = status e, re_code = Some (errorCode e), re_value = Some (VCleared out), re_warning = []\<rparr>
   | None \<Rightarrow> writeJSON StatusOK (VCleared out))"

definition collectionOf :: "string \<Rightarrow> string" where
  "collectionOf k = (if k = KindSnapshot then ''snapshots'' else ''volumes'')"

definition sourceKind :: "string \<Rightarrow> string \<Rightarrow> string" where
  "sourceKind target given = (if given = KindVolume \<or> given = KindSnapshot then given
     else if target = KindSnapshot then KindVolume else KindSnapshot)"

section \<open>Reading a body\<close>

text \<open>A pointer: \<open>null\<close> makes it nil, and another value is read into what it points to.\<close>

definition get_ptr :: "'a \<Rightarrow> 'a reader \<Rightarrow> 'a option reader" where
  "get_ptr zero d j x = (if j = JNull then Some None else Option.map_option Some (d j (case x of None \<Rightarrow> zero | Some y \<Rightarrow> y)))"

definition readJSON :: "(string \<times> 'a reader) list \<Rightarrow> 'a \<Rightarrow> ('a \<Rightarrow> 'k coord \<Rightarrow> outcome \<times> 'k coord) \<Rightarrow> http_request \<Rightarrow> 'k coord \<Rightarrow> outcome \<times> 'k coord" where
  "readJSON fs zero f rq c = (case jt_values (rq_body rq) of
     [] \<Rightarrow> (errResp StatusBadRequest, c)
   | v # _ \<Rightarrow> (case get_obj False fs v zero of None \<Rightarrow> (errResp StatusBadRequest, c) | Some x \<Rightarrow> f x c))"

definition create_body :: "(string \<times> CreateRequest reader) list" where
  "create_body =
    [(''name'', field get_str cr_Name (\<lambda>v. cr_Name_update (\<lambda>_. v))), (''size'', field get_int cr_Size (\<lambda>v. cr_Size_update (\<lambda>_. v))),
     (''block_size'', field get_int cr_BlockSize (\<lambda>v. cr_BlockSize_update (\<lambda>_. v))),
     (''source'', field get_str cr_Source (\<lambda>v. cr_Source_update (\<lambda>_. v))),
     (''source_kind'', field get_str cr_SourceKind (\<lambda>v. cr_SourceKind_update (\<lambda>_. v)))]"

definition zero_create :: CreateRequest where
  "zero_create = \<lparr>cr_Name = '''', cr_Size = 0, cr_BlockSize = 0, cr_Source = '''', cr_SourceKind = ''''\<rparr>"

definition pair_body :: "string \<Rightarrow> 'a reader \<Rightarrow> string \<Rightarrow> 'b reader \<Rightarrow> (string \<times> ('a \<times> 'b) reader) list" where
  "pair_body k1 d1 k2 d2 = [(k1, field d1 fst (\<lambda>v p. (v, snd p))), (k2, field d2 snd (\<lambda>v p. (fst p, v)))]"

abbreviation get_texts :: "string list reader" where "get_texts \<equiv> get_list '''' get_str"

section \<open>Handlers\<close>

type_synonym 'k handler = "http_request \<Rightarrow> 'k coord \<Rightarrow> outcome \<times> 'k coord"

text \<open>The body of \<open>/health\<close>: a field for each condition that is present, the time of the check, and the verdict.\<close>

definition health_fields :: "Health \<Rightarrow> (string \<times> health_value) list" where
  "health_fields h =
      (if H_PRUnbound h = [] then [] else [(''pr_unbound'', HUnbound (H_PRUnbound h))])
    @ (if H_PRStranded h = [] then [] else [(''pr_stranded'', HStranded (H_PRStranded h))])
    @ (if H_PRStrandUndecided h = [] then [] else [(''pr_strand_undecided'', HUndecided (H_PRStrandUndecided h))])
    @ (if H_ClearInProgress h = '''' then [] else [(''clear_in_progress'', HText (H_ClearInProgress h))])
    @ (if H_Withheld h = [] then [] else [(''withheld_after_failed_clear'', HTexts (H_Withheld h))])
    @ (if H_Drift h = [] then [] else [(''attribute_drift'', HDrift (H_Drift h))])
    @ (case H_BackupErr h of None \<Rightarrow> [] | Some e \<Rightarrow> [(''db_backup_failing'', HErrno e)])
    @ (if H_Quarantined h = [] then [] else [(''quarantined_volume_dirs'', HTexts (H_Quarantined h))])
    @ (if H_PortalFlagIgnored h then [(''portal_flag_ignored'', HFlag)] else [])
    @ (if H_IQNFlagIgnored h then [(''iqn_flag_ignored'', HFlag)] else [])
    @ (if H_CheckedAt h = 0 then [] else [(''pr_checked_at'', HTime (H_CheckedAt h))])"

definition get_health :: "'k handler" where
  "get_health rq c = (let h = HealthSnapshot c; body = health_fields h @ [(''status'', HText (Status h))] in
     (if Status h = healthDegraded then writeJSON StatusServiceUnavailable (VHealth (body @ [(''error'', HError)]))
      else writeJSON StatusOK (VHealth body), c))"

definition get_target :: "'k handler" where
  "get_target rq c = (case Target c of (iqn, ps) \<Rightarrow> (writeJSON StatusOK (VTarget iqn ps), c))"

fun parse_portals :: "u16 \<Rightarrow> string list \<Rightarrow> Portal list option" where
  "parse_portals defaultPort [] = Some []"
| "parse_portals defaultPort (entry # entries) = (case ParsePortal entry of
     None \<Rightarrow> None
   | Some p \<Rightarrow> Option.map_option (Cons (if po_Port p = 0 then p\<lparr>po_Port := defaultPort\<rparr> else p)) (parse_portals defaultPort entries))"

definition ParsePortals :: "string \<Rightarrow> u16 \<Rightarrow> Portal list option" where
  "ParsePortals spec defaultPort = parse_portals defaultPort (splitChar CHR '','' spec)"

definition as_value :: "('a \<Rightarrow> reply_value) \<Rightarrow> op_error + 'a \<Rightarrow> op_error + reply_value" where
  "as_value v r = (case r of Inl e \<Rightarrow> Inl e | Inr x \<Rightarrow> Inr (v x))"

definition replace_portals :: "'k env \<Rightarrow> Portal list \<Rightarrow> 'k coord \<Rightarrow> outcome \<times> 'k coord" where
  "replace_portals env ps c = (case SetPortals env ps c of (r, c1) \<Rightarrow> (respond StatusOK (as_value VPortals r), c1))"

definition portals_asked :: "'k env \<Rightarrow> string list \<times> u16 \<Rightarrow> 'k coord \<Rightarrow> outcome \<times> 'k coord" where
  "portals_asked env = (\<lambda>(ps, port) c. if ps = [] then replace_portals env [] c
     else (case ParsePortals (joinStr '','' ps) (if port = 0 then DefaultPortalPort else port) of
       None \<Rightarrow> (errResp StatusBadRequest, c) | Some parsed \<Rightarrow> replace_portals env parsed c))"

definition put_portals :: "'k env \<Rightarrow> 'k handler" where
  "put_portals env = readJSON (pair_body ''portals'' get_texts ''port'' get_u16) ([], 0) (portals_asked env)"

text \<open>Volumes and snapshots.\<close>

definition post_object :: "string \<Rightarrow> 'k handler" where
  "post_object kind = readJSON create_body zero_create (\<lambda>req c.
     case Create kind (req\<lparr>cr_SourceKind := sourceKind kind (cr_SourceKind req)\<rparr>) c of ((ob, err), c1) \<Rightarrow>
       (case (ob, err) of
          (_, Some e) \<Rightarrow> errRespFor e
        | (Some (x, created), None) \<Rightarrow> writeJSON (createdCode created) (VObject x)
        | (None, None) \<Rightarrow> bare StatusOK, c1))"

definition list_objects :: "string \<Rightarrow> 'k handler" where
  "list_objects kind rq c = (writeJSON StatusOK (VObjects (List_objects kind c)), c)"

definition get_object :: "string \<Rightarrow> string \<Rightarrow> 'k handler" where
  "get_object kind name rq c = (case Get kind name c of
     None \<Rightarrow> (errRespFor notFound, c) | Some x \<Rightarrow> (writeJSON StatusOK (VObject x), c))"

definition patch_object :: "string \<Rightarrow> string \<Rightarrow> 'k handler" where
  "patch_object kind name = readJSON [(''name'', get_str)] '''' (\<lambda>newName c.
     case Rename kind name newName c of (r, c1) \<Rightarrow> (respond StatusOK (as_value VObject r), c1))"

definition done_or :: "reply_value \<Rightarrow> op_error option \<Rightarrow> op_error + reply_value" where
  "done_or v err = (case err of Some e \<Rightarrow> Inl e | None \<Rightarrow> Inr v)"

definition delete_object :: "'k env \<Rightarrow> string \<Rightarrow> string \<Rightarrow> 'k handler" where
  "delete_object env kind name rq c = (case Delete env kind name c of (err, c1) \<Rightarrow> (respond StatusOK (done_or (VDeleted name) err), c1))"

definition post_resize :: "'k env \<Rightarrow> string \<Rightarrow> string \<Rightarrow> 'k handler" where
  "post_resize env kind name = readJSON [(''size'', get_int)] 0 (\<lambda>sz c.
     case Resize env kind name sz c of ((rescan, err), c1) \<Rightarrow> (respond StatusOK (done_or (VRescan rescan) err), c1))"

definition post_clear :: "'k env \<Rightarrow> string \<Rightarrow> string \<Rightarrow> 'k handler" where
  "post_clear env kind name = readJSON [(''confirm'', get_str)] '''' (\<lambda>confirm c.
     case ClearReservation env kind name confirm c of (r, c1) \<Rightarrow> (respondCleared r, c1))"

definition post_connection :: "'k env \<Rightarrow> string \<Rightarrow> string \<Rightarrow> 'k handler" where
  "post_connection env kind name = readJSON (pair_body ''host'' get_str ''lun'' (get_ptr 0 get_int)) ('''', None) (\<lambda>(hostRef, lun) c.
     case Connect env kind name hostRef (case lun of None \<Rightarrow> 0 | Some n \<Rightarrow> n) (lun \<noteq> None) c of
       (Inl e, c1) \<Rightarrow> (errRespFor e, c1)
     | (Inr (info, created), c1) \<Rightarrow> (writeJSON (createdCode created) (VConnection info), c1))"

definition delete_connection :: "'k env \<Rightarrow> string \<Rightarrow> string \<Rightarrow> string \<Rightarrow> 'k handler" where
  "delete_connection env kind name hostRef rq c = (case Disconnect env kind name hostRef c of ((err, w), c1) \<Rightarrow>
     (respondWithWarning (case w of None \<Rightarrow> [] | Some x \<Rightarrow> [x]) (done_or (VDisconnected name) err), c1))"

definition list_connections :: "string \<Rightarrow> string \<Rightarrow> string \<Rightarrow> 'k handler" where
  "list_connections ref kind hostRef rq c = (respond StatusOK (as_value VConnections (ListConnections ref kind hostRef c)), c)"

definition query :: "string \<Rightarrow> http_request \<Rightarrow> string" where
  "query k rq = value_or (map_of (rq_query rq) k)"

definition get_connections :: "'k handler" where
  "get_connections rq = list_connections (query ''object'' rq) (query ''object_kind'' rq) (query ''host'' rq) rq"

text \<open>Hosts.\<close>

definition post_host :: "'k env \<Rightarrow> 'k handler" where
  "post_host env = readJSON (pair_body ''name'' get_str ''iqns'' get_texts) ('''', []) (\<lambda>(name, iqns) c.
     case CreateHost env name iqns c of
       (Inl e, c1) \<Rightarrow> (errRespFor e, c1)
     | (Inr (h, created), c1) \<Rightarrow> (writeJSON (createdCode created) (VHost h), c1))"

definition list_hosts :: "'k handler" where
  "list_hosts rq c = (writeJSON StatusOK (VHosts (ListHosts c)), c)"

definition get_host :: "string \<Rightarrow> 'k handler" where
  "get_host name rq c = (case GetHost name c of
     None \<Rightarrow> (errRespFor notFound, c) | Some h \<Rightarrow> (writeJSON StatusOK (VHost h), c))"

definition patch_host :: "string \<Rightarrow> 'k handler" where
  "patch_host name = readJSON [(''name'', get_str)] '''' (\<lambda>newName c.
     case RenameHost name newName c of (r, c1) \<Rightarrow> (respond StatusOK (as_value VHost r), c1))"

definition bindings_reply :: "((op_error + Host) \<times> fence_warning list) \<times> 'k coord \<Rightarrow> outcome \<times> 'k coord" where
  "bindings_reply = (\<lambda>((r, ws), c1). (respondWithWarning ws (as_value VBindings r), c1))"

definition put_iqns :: "'k env \<Rightarrow> string \<Rightarrow> 'k handler" where
  "put_iqns env name = readJSON [(''iqns'', get_texts)] [] (\<lambda>iqns c. bindings_reply (SetBindings env name (Some iqns) [] [] c))"

definition patch_iqns :: "'k env \<Rightarrow> string \<Rightarrow> 'k handler" where
  "patch_iqns env name = readJSON (pair_body ''add'' get_texts ''remove'' get_texts) ([], []) (\<lambda>(add, remove) c.
     bindings_reply (SetBindings env name None add remove c))"

definition delete_host :: "'k env \<Rightarrow> string \<Rightarrow> 'k handler" where
  "delete_host env name rq c = (case DeleteHost env name c of (err, c1) \<Rightarrow> (respond StatusOK (done_or (VDeleted name) err), c1))"

section \<open>Routes\<close>

text \<open>A pattern is a method and segments, a \<open>None\<close> standing for a segment that is captured; it is never empty.\<close>

fun match_path :: "string option list \<Rightarrow> string list \<Rightarrow> string list option" where
  "match_path [] [] = Some []"
| "match_path (Some lit # ps) (seg # segs) = (if seg = lit then match_path ps segs else None)"
| "match_path (None # ps) (seg # segs) = (if seg = '''' then None else Option.map_option (Cons seg) (match_path ps segs))"
| "match_path _ _ = None"

type_synonym 'k route = "(string \<times> string option list) \<times> (string list \<Rightarrow> 'k handler)"

definition object_routes :: "'k env \<Rightarrow> string \<Rightarrow> 'k route list" where
  "object_routes env kind = (let coll = Some (collectionOf kind) in
    [((''POST'', [coll]), \<lambda>_. post_object kind),
     ((''GET'', [coll]), \<lambda>_. list_objects kind),
     ((''GET'', [coll, None]), \<lambda>p. get_object kind (hd p)),
     ((''PATCH'', [coll, None]), \<lambda>p. patch_object kind (hd p)),
     ((''DELETE'', [coll, None]), \<lambda>p. delete_object env kind (hd p)),
     ((''POST'', [coll, None, Some ''resize'']), \<lambda>p. post_resize env kind (hd p)),
     ((''POST'', [coll, None, Some ''clear-reservation'']), \<lambda>p. post_clear env kind (hd p)),
     ((''POST'', [coll, None, Some ''connections'']), \<lambda>p. post_connection env kind (hd p)),
     ((''DELETE'', [coll, None, Some ''connections'', None]), \<lambda>p. delete_connection env kind (hd p) (p ! 1)),
     ((''GET'', [coll, None, Some ''connections'']), \<lambda>p. list_connections (hd p) kind '''')])"

definition routes :: "'k env \<Rightarrow> 'k route list" where
  "routes env =
    [((''GET'', [Some ''health'']), \<lambda>_. get_health),
     ((''GET'', [Some ''target'']), \<lambda>_. get_target),
     ((''PUT'', [Some ''target'', Some ''portals'']), \<lambda>_. put_portals env)]
    @ object_routes env KindVolume @ object_routes env KindSnapshot @
    [((''GET'', [Some ''connections'']), \<lambda>_. get_connections),
     ((''POST'', [Some ''hosts'']), \<lambda>_. post_host env),
     ((''GET'', [Some ''hosts'']), \<lambda>_. list_hosts),
     ((''GET'', [Some ''hosts'', None]), \<lambda>p. get_host (hd p)),
     ((''PATCH'', [Some ''hosts'', None]), \<lambda>p. patch_host (hd p)),
     ((''PUT'', [Some ''hosts'', None, Some ''iqns'']), \<lambda>p. put_iqns env (hd p)),
     ((''PATCH'', [Some ''hosts'', None, Some ''iqns'']), \<lambda>p. patch_iqns env (hd p)),
     ((''DELETE'', [Some ''hosts'', None]), \<lambda>p. delete_host env (hd p)),
     ((''GET'', [Some ''hosts'', None, Some ''connections'']), \<lambda>p. list_connections '''' '''' (hd p))]"

text \<open>A pattern with GET serves HEAD too. The multiplexer's own answers carry no code.\<close>

definition method_serves :: "string \<Rightarrow> string \<Rightarrow> bool" where
  "method_serves pat m \<longleftrightarrow> m = pat \<or> pat = ''GET'' \<and> m = ''HEAD''"

definition mux :: "'k route list \<Rightarrow> string list \<Rightarrow> 'k handler" where
  "mux rs segs rq c = (case find (\<lambda>((m, pat), h). method_serves m (rq_method rq) \<and> match_path pat segs \<noteq> None) rs of
     Some ((m, pat), h) \<Rightarrow> h (case match_path pat segs of Some p \<Rightarrow> p | None \<Rightarrow> []) rq c
   | None \<Rightarrow> (if list_ex (\<lambda>((m, pat), h). match_path pat segs \<noteq> None) rs then bare StatusMethodNotAllowed else bare StatusNotFound, c))"

definition Handler :: "'k env \<Rightarrow> 'k handler" where
  "Handler env rq c = (case rq_path rq of
     [] \<Rightarrow> (errResp StatusNotFound, c)
   | s # segs \<Rightarrow> if CHR ''/'' # s \<noteq> APIPrefix then (errResp StatusNotFound, c)
       else if segs = [] then (Redirect, c)
       else mux (routes env) segs rq c)"

section \<open>What a handler does to the appliance\<close>

text \<open>
  Three contracts of handlers: one that only reads, one that calls one method of the coordinator at most, with a
  kind that the routes name, and one that refuses a request without a body.
\<close>

fun routed :: "request \<Rightarrow> bool" where
  "routed (ReqCreate kind req) = known_kind kind"
| "routed _ = True"

definition reading :: "'k handler \<Rightarrow> bool" where
  "reading h \<longleftrightarrow> (\<forall>rq c. snd (h rq c) = c)"

definition calling :: "'k env \<Rightarrow> 'k handler \<Rightarrow> bool" where
  "calling env h \<longleftrightarrow> (\<forall>rq c. snd (h rq c) = c \<or> (\<exists>req. routed req \<and> snd (h rq c) = perform env req c))"

definition needs_body :: "'k handler \<Rightarrow> bool" where
  "needs_body h \<longleftrightarrow> (\<forall>rq c. jt_values (rq_body rq) = [] \<longrightarrow> h rq c = (errResp StatusBadRequest, c))"

lemma reading_calling [intro]: "reading h \<Longrightarrow> calling env h"
  by (simp add: reading_def calling_def)

lemma calling_one: "(\<And>rq c. \<exists>req. routed req \<and> snd (h rq c) = perform env req c) \<Longrightarrow> calling env h"
  by (simp add: calling_def)

lemma readJSON_calling:
  "(\<And>x c. snd (f x c) = c \<or> (\<exists>req. routed req \<and> snd (f x c) = perform env req c)) \<Longrightarrow> calling env (readJSON fs zero f)"
  by (auto simp: calling_def readJSON_def split: list.splits option.splits)

lemma readJSON_calls:
  "(\<And>x. routed (g x)) \<Longrightarrow> (\<And>x c. snd (f x c) = perform env (g x) c) \<Longrightarrow> calling env (readJSON fs zero f)"
  by (rule readJSON_calling) blast

lemma readJSON_needs_body: "needs_body (readJSON fs zero f)"
  by (simp add: needs_body_def readJSON_def)

lemma readers: "reading get_health" "reading get_target" "reading (list_objects kind)" "reading (get_object kind name)"
  "reading (list_connections ref kind hostRef)" "reading get_connections" "reading list_hosts" "reading (get_host name)"
  by (simp_all add: reading_def get_health_def get_target_def list_objects_def get_object_def list_connections_def get_connections_def
      list_hosts_def get_host_def Let_def split: prod.splits option.splits)

lemma bodied: "needs_body (put_portals env)" "needs_body (post_object kind)" "needs_body (patch_object kind name)" "needs_body (post_resize env kind name)"
  "needs_body (post_clear env kind name)" "needs_body (post_connection env kind name)" "needs_body (post_host env)" "needs_body (patch_host name)"
  "needs_body (put_iqns env name)" "needs_body (patch_iqns env name)"
  by (simp_all add: put_portals_def post_object_def patch_object_def post_resize_def post_clear_def post_connection_def post_host_def
      patch_host_def put_iqns_def patch_iqns_def readJSON_needs_body)

lemma object_callers:
  "known_kind kind \<Longrightarrow> calling env (post_object kind)" "calling env (patch_object kind name)" "calling env (delete_object env kind name)"
  "calling env (post_resize env kind name)" "calling env (post_clear env kind name)" "calling env (post_connection env kind name)"
  "calling env (delete_connection env kind name hostRef)"
proof -
  show "calling env (post_object kind)" if "known_kind kind" unfolding post_object_def
    by (rule readJSON_calls [where g = "\<lambda>req. ReqCreate kind (req\<lparr>cr_SourceKind := sourceKind kind (cr_SourceKind req)\<rparr>)"]) (simp_all add: that split: prod.splits)
  show "calling env (patch_object kind name)" unfolding patch_object_def
    by (rule readJSON_calls [where g = "ReqRename kind name"]) (simp_all split: prod.splits)
  show "calling env (delete_object env kind name)"
    by (intro calling_one exI [of _ "ReqDelete kind name"]) (simp add: delete_object_def split: prod.splits)
  show "calling env (post_resize env kind name)" unfolding post_resize_def
    by (rule readJSON_calls [where g = "ReqResize kind name"]) (simp_all split: prod.splits)
  show "calling env (post_clear env kind name)" unfolding post_clear_def
    by (rule readJSON_calls [where g = "ReqClear kind name"]) (simp_all split: prod.splits)
  show "calling env (post_connection env kind name)" unfolding post_connection_def
    by (rule readJSON_calls [where g = "\<lambda>(hostRef, lun). ReqConnect kind name hostRef (case lun of None \<Rightarrow> 0 | Some n \<Rightarrow> n) (lun \<noteq> None)"]) (auto split: prod.splits sum.splits)
  show "calling env (delete_connection env kind name hostRef)"
    by (intro calling_one exI [of _ "ReqDisconnect kind name hostRef"]) (simp add: delete_connection_def split: prod.splits)
qed

lemma other_callers:
  "calling env (put_portals env)" "calling env (post_host env)" "calling env (patch_host name)" "calling env (put_iqns env name)"
  "calling env (patch_iqns env name)" "calling env (delete_host env name)"
proof -
  have "snd (replace_portals env ps c) = perform env (ReqSetPortals ps) c" for ps c
    by (simp add: replace_portals_def split: prod.splits)
  then have "snd (portals_asked env x c) = c \<or> (\<exists>ps. snd (portals_asked env x c) = perform env (ReqSetPortals ps) c)" for x c
    by (cases x) (auto simp: portals_asked_def split: option.splits)
  then show "calling env (put_portals env)" unfolding put_portals_def by (intro readJSON_calling) (metis routed.simps(11))
  show "calling env (post_host env)" unfolding post_host_def
    by (rule readJSON_calls [where g = "\<lambda>(name, iqns). ReqCreateHost name iqns"]) (auto split: prod.splits sum.splits)
  show "calling env (patch_host name)" unfolding patch_host_def
    by (rule readJSON_calls [where g = "ReqRenameHost name"]) (simp_all split: prod.splits)
  show "calling env (put_iqns env name)" unfolding put_iqns_def
    by (rule readJSON_calls [where g = "\<lambda>iqns. ReqSetBindings name (Some iqns) [] []"]) (simp_all add: bindings_reply_def split: prod.splits)
  show "calling env (patch_iqns env name)" unfolding patch_iqns_def
    by (rule readJSON_calls [where g = "\<lambda>(add, remove). ReqSetBindings name None add remove"]) (auto simp: bindings_reply_def split: prod.splits)
  show "calling env (delete_host env name)"
    by (intro calling_one exI [of _ "ReqDeleteHost name"]) (simp add: delete_host_def split: prod.splits)
qed

text \<open>The contract of a route, and that every route keeps it.\<close>

definition route_ok :: "'k env \<Rightarrow> 'k route \<Rightarrow> bool" where
  "route_ok env = (\<lambda>((m, pat), h). m \<in> set [''GET'', ''POST'', ''PUT'', ''PATCH'', ''DELETE''] \<and> (\<forall>p. calling env (h p)
     \<and> (m = ''GET'' \<longrightarrow> reading (h p)) \<and> (m \<noteq> ''GET'' \<and> m \<noteq> ''DELETE'' \<longrightarrow> needs_body (h p))))"

lemmas route_contracts = readers bodied object_callers other_callers readers [THEN reading_calling]

lemma object_routes_ok: "known_kind kind \<Longrightarrow> list_all (route_ok env) (object_routes env kind)"
  by (simp add: object_routes_def Let_def route_ok_def route_contracts)

lemma routes_ok: "list_all (route_ok env) (routes env)"
  by (simp add: routes_def object_routes_ok known_kind_def) (simp add: route_ok_def route_contracts)

lemma mux_step:
  assumes "mux rs segs rq c = (a, c')" and "list_all (route_ok env) rs" and "c' \<noteq> c"
  shows "(\<exists>req. routed req \<and> c' = perform env req c) \<and> rq_method rq \<in> {''POST'', ''PUT'', ''PATCH'', ''DELETE''}
    \<and> (rq_method rq \<noteq> ''DELETE'' \<longrightarrow> jt_values (rq_body rq) \<noteq> [])"
proof -
  obtain m pat h where f: "find (\<lambda>((m, pat), h). method_serves m (rq_method rq) \<and> match_path pat segs \<noteq> None) rs = Some ((m, pat), h)"
    using assms(1,3) by (auto simp: mux_def split: option.splits)
  then have "((m, pat), h) \<in> set rs" and ms: "method_serves m (rq_method rq)" by (auto simp: find_Some_iff in_set_conv_nth)
  with assms(2) have ok: "route_ok env ((m, pat), h)" by (auto simp: list_all_iff)
  define p where "p = (case match_path pat segs of Some p \<Rightarrow> p | None \<Rightarrow> [])"
  have run: "h p rq c = (a, c')" using assms(1) f by (simp add: mux_def p_def)
  have "m \<noteq> ''GET''" using ok run assms(3) by (auto simp: route_ok_def reading_def) (metis snd_conv)
  with ok run ms assms(3) show ?thesis
    by (auto simp: route_ok_def method_serves_def calling_def needs_body_def) (metis snd_conv)+
qed

lemma Handler_step:
  assumes "Handler env rq c = (a, c')" and "c' \<noteq> c"
  shows "rq_method rq \<in> {''POST'', ''PUT'', ''PATCH'', ''DELETE''} \<and> (\<exists>segs. rq_path rq = ''v1'' # segs)
    \<and> (rq_method rq \<noteq> ''DELETE'' \<longrightarrow> jt_values (rq_body rq) \<noteq> []) \<and> (\<exists>req. routed req \<and> c' = perform env req c)"
proof -
  obtain s segs where s: "rq_path rq = s # segs" "CHR ''/'' # s = APIPrefix" "mux (routes env) segs rq c = (a, c')"
    using assms by (auto simp: Handler_def split: list.splits if_splits)
  with mux_step [OF s(3) routes_ok assms(2)] show ?thesis by (auto simp: APIPrefix_def)
qed

text \<open>C21. The HTTP interface changes the appliance only as asked: when a request changed anything, its method is one
  that changes, its path is under the API prefix, it had a readable body unless it deletes, and what
  happened is one call of one method of the coordinator.\<close>

theorem rest_changes_only_as_asked:
  assumes "Handler env rq c = (a, c')" and "c' \<noteq> c"
  shows "rq_method rq \<in> {''POST'', ''PUT'', ''PATCH'', ''DELETE''} \<and> (\<exists>segs. rq_path rq = ''v1'' # segs)
    \<and> (rq_method rq \<noteq> ''DELETE'' \<longrightarrow> jt_values (rq_body rq) \<noteq> []) \<and> (\<exists>req. routed req \<and> c' = perform env req c)"
  using assms by (rule Handler_step)

definition rename_request :: http_request where
  "rename_request = \<lparr>rq_method = ''PATCH'', rq_path = [''v1'', ''volumes'', ''data''], rq_query = [],
     rq_body = \<lparr>jt_values = [JObj [(''name'', JStr ''archive'')]], jt_broken = False\<rparr>\<rparr>"

lemma renamed: "map ob_Name (db_Objects (c_st (snd (Handler idle_env rename_request demo)))) = [''archive'']"
  by code_simp

lemma rest_changes_only_as_asked_witness:
  "\<exists>req. routed req \<and> map ob_Name (db_Objects (c_st (perform idle_env req demo))) = [''archive'']"
proof -
  obtain a c' where run: "Handler idle_env rename_request demo = (a, c')" by fastforce
  have "map ob_Name (db_Objects (c_st demo)) \<noteq> [''archive'']" by code_simp
  with renamed run have "c' \<noteq> demo" by auto
  from rest_changes_only_as_asked [OF run this] renamed run show ?thesis by auto
qed

section \<open>The interface runs the appliance\<close>


lemma demo_room_for: "export_room st = export_room demo_db \<Longrightarrow> room_for u st"
proof -
  assume "export_room st = export_room demo_db"
  also have "\<dots> = {ob_UUID demo_volume}" by (simp add: export_room_def demo_db_def)
  finally have "card (insert u (export_room st)) \<le> 2" using card_insert_le_m1 [of 2 "export_room st" u] by simp
  then show ?thesis by (simp add: room_for_def)
qed


section \<open>The status of a create\<close>

lemma Create_recorded:
  assumes "Create kind req c = ((Some (x, created), None), c1)"
  shows "ob_Kind x = kind \<and> ob_Name x = cr_Name req \<and> objectByName (c_st c1) kind (cr_Name req) = Some x
    \<and> (if created then objectByName (c_st c) kind (cr_Name req) = None else c1 = c)"
proof (cases "objectByName (c_st c) kind (cr_Name req)")
  case (Some y)
  have n: "cr_Name (with_default req) = cr_Name req" by (simp add: with_default_def)
  have "y = x" "c1 = c" "\<not> created" using assms Some n by (auto simp: Create_def Let_def split: option.splits if_splits)
  moreover have "ob_Kind y = kind" "ob_Name y = cr_Name req" using Some by (auto simp: objectByName_def find_Some_iff)
  ultimately show ?thesis using Some by simp
next
  case None
  have n: "cr_Name (with_default req) = cr_Name req" by (simp add: with_default_def)
  have "create_new kind (with_default req) c = ((Some (x, created), None), c1)"
    using assms None n by (auto simp: Create_def Let_def split: option.splits if_splits)
  then obtain "c_st c1 = (c_st c)\<lparr>db_Objects := db_Objects (c_st c) @ [x]\<rparr>" "ob_Kind x = kind" "ob_Name x = cr_Name req" "created"
    by (rule create_new_recorded) (simp add: n)
  then show ?thesis using None by (simp add: objectByName_append)
qed

lemma route_post_object:
  assumes "known_kind kind" and "rq_method rq = ''POST''" and "rq_path rq = [''v1'', collectionOf kind]"
  shows "Handler env rq c = post_object kind rq c"
  using assms by (auto simp: known_kind_def Handler_def APIPrefix_def mux_def routes_def object_routes_def method_serves_def collectionOf_def Let_def)

text \<open>C27. The status of a create tells what happened: when the reply carries no error, it holds the object of that kind and
  name as it is now recorded; 201 means that none was recorded before, and 200 that one was there and nothing
  changed.\<close>

theorem create_status_exact:
  assumes "known_kind kind" and "rq_method rq = ''POST''" and "rq_path rq = [''v1'', collectionOf kind]"
    and "Handler env rq c = (Reply r, c')" and "re_code r = None"
  shows "\<exists>x. re_value r = Some (VObject x) \<and> ob_Kind x = kind \<and> objectByName (c_st c') kind (ob_Name x) = Some x
    \<and> (re_status r = StatusCreated \<and> objectByName (c_st c) kind (ob_Name x) = None \<or> re_status r = StatusOK \<and> c' = c)"
proof -
  have run: "post_object kind rq c = (Reply r, c')" using assms(4) unfolding route_post_object [OF assms(1-3)] .
  obtain req where run: "(case Create kind req c of ((ob, err), c1) \<Rightarrow> (case (ob, err) of (_, Some e) \<Rightarrow> errRespFor e
      | (Some (x, created), None) \<Rightarrow> writeJSON (createdCode created) (VObject x) | (None, None) \<Rightarrow> bare StatusOK, c1)) = (Reply r, c')"
    using run assms(5) by (auto simp: post_object_def readJSON_def errResp_def split: list.splits option.splits)
  obtain ob err c1 where cr: "Create kind req c = ((ob, err), c1)" by (metis prod.exhaust)
  have "err = None" using run cr assms(5) by (cases err) (auto simp: errRespFor_def split: if_splits option.splits)
  moreover have "ob \<noteq> None" using cr calculation
    by (auto simp: Create_def Let_def split: option.splits if_splits) (erule create_new_cases, auto split: if_splits)
  ultimately obtain x created where "ob = Some (x, created)" by auto
  with cr run \<open>err = None\<close> Create_recorded [of kind req c x created c1] show ?thesis
    by (auto simp: writeJSON_def createdCode_def split: if_splits)
qed

definition create_request :: http_request where
  "create_request = \<lparr>rq_method = ''POST'', rq_path = [''v1'', ''volumes''], rq_query = [],
     rq_body = \<lparr>jt_values = [JObj [(''name'', JStr ''copy''), (''source'', JStr ''data''), (''source_kind'', JStr ''volume'')]], jt_broken = False\<rparr>\<rparr>"

lemma create_status_exact_witness:
  "\<exists>r c'. Handler idle_env create_request (demo\<lparr>c_os := quiet_os\<lparr>os_rand := [Some (replicate 16 0)]\<rparr>\<rparr>) = (Reply r, c')
     \<and> re_status r = StatusCreated \<and> (\<exists>x. objectByName (c_st c') KindVolume (ob_Name x) = Some x \<and> re_value r = Some (VObject x))"
proof -
  let ?c = "demo\<lparr>c_os := quiet_os\<lparr>os_rand := [Some (replicate 16 0)]\<rparr>\<rparr>"
  have k: "known_kind KindVolume" by (simp add: known_kind_def)
  have m: "rq_method create_request = ''POST''" "rq_path create_request = [''v1'', collectionOf KindVolume]"
    by (simp_all add: create_request_def collectionOf_def)
  have "get_obj False create_body (JObj [(''name'', JStr ''copy''), (''source'', JStr ''data''), (''source_kind'', JStr ''volume'')]) zero_create = Some demo_copy"
    by code_simp
  moreover have "demo_copy\<lparr>cr_SourceKind := sourceKind KindVolume (cr_SourceKind demo_copy)\<rparr> = demo_copy" by code_simp
  moreover obtain x c1 where "Create KindVolume demo_copy ?c = ((Some (x, True), None), c1)" using demo_copies by blast
  ultimately have "post_object KindVolume create_request ?c = (writeJSON StatusCreated (VObject x), c1)"
    by (simp add: post_object_def readJSON_def create_request_def createdCode_def)
  then obtain r where run: "Handler idle_env create_request ?c = (Reply r, c1)" and r: "re_status r = StatusCreated" "re_code r = None"
    unfolding route_post_object [OF k m] by (simp add: writeJSON_def)
  from create_status_exact [OF k m run r(2)] run r(1) show ?thesis by auto
qed

section \<open>The health report\<close>

lemma present_split: "present (x # y # xs) = present [x] @ present (y # xs)"
  by (simp add: present_def)

lemma present_named: "set (present cs) \<subseteq> set (map fst cs)"
  by (auto simp: present_def)

lemma key_of: "map fst (if P then [] else [(k, v)]) = present [(k, \<not> P)]" "map fst (if P then [(k, v)] else []) = present [(k, P)]"
  "map fst (case x of None \<Rightarrow> [] | Some e \<Rightarrow> [(k, f e)]) = present [(k, x \<noteq> None)]"
  by (simp_all add: present_def split: option.splits)

lemma health_keys: "map fst (health_fields h) = present (standing h) @ (if H_CheckedAt h = 0 then [] else [''pr_checked_at''])"
  unfolding health_fields_def standing_def present_split map_append key_of by (simp add: present_def)

text \<open>C31. The health report and the health events name the same conditions: beside the time of the check, the verdict and
  the error, the fields of the report are exactly the conditions that the events announce, and the report
  is served with status 503 exactly when the verdict is degraded.\<close>

theorem health_report_agrees:
  "\<exists>body r. get_health rq c = (Reply r, c) \<and> re_value r = Some (VHealth body)
     \<and> set (map fst body) - {''pr_checked_at'', ''status'', ''error''} = set (Conditions (HealthSnapshot c))
     \<and> map_of body ''status'' = Some (HText (Status (HealthSnapshot c)))
     \<and> re_status r = (if Status (HealthSnapshot c) = healthDegraded then StatusServiceUnavailable else StatusOK)"
proof -
  let ?h = "HealthSnapshot c" and ?others = "{''pr_checked_at'', ''status'', ''error''}"
  have none: "set (present (standing ?h)) \<inter> ?others = {}" using present_named [of "standing ?h"] by (auto simp: standing_def)
  have keys: "fst ` set (health_fields ?h) \<subseteq> set (present (standing ?h)) \<union> {''pr_checked_at''}" "set (present (standing ?h)) \<subseteq> fst ` set (health_fields ?h)"
    unfolding list.set_map [symmetric] health_keys by auto
  have "''status'' \<notin> fst ` set (health_fields ?h)" using keys(1) none by blast
  then have "map_of (health_fields ?h) ''status'' = None" by (simp add: map_of_eq_None_iff)
  moreover have "fst ` set (health_fields ?h) - ?others = set (Conditions ?h)" using keys none by (auto simp: Conditions_def)
  ultimately show ?thesis by (auto simp: get_health_def Let_def writeJSON_def image_Un Un_Diff map_add_def)
qed

end
