(* ===== verification/Appliance_Client.thy ===== *)
theory Appliance_Client
  imports Appliance_Rest
begin

text \<open>
  The client of the REST interface (applianceclient/client.go). A method builds a request, sends it, and reads the
  reply. What carries the request is an argument, a function over the state at the other end; the server of
  \<open>Appliance_Rest\<close> is one. Path escaping and its reverse, the headers and the redirects that the transport
  follows are not modelled: a request is given by its segments. The fields of a decoded reply are the value.
\<close>

section \<open>Sending\<close>

type_synonym 'w transport = "http_request \<Rightarrow> 'w \<Rightarrow> outcome \<times> 'w"

datatype client_error = ClientError int string | NotDecoded int | NoReply

record answer =
  an_value :: "reply_value option"
  an_status :: int
  an_warning :: "fence_warning list"
  an_error :: "client_error option"

definition client_url :: "string list \<Rightarrow> string list" where
  "client_url segments = drop 1 APIPrefix # segments"

definition send_request :: "string \<Rightarrow> string list \<Rightarrow> (string \<times> string) list \<Rightarrow> json option \<Rightarrow> http_request" where
  "send_request method segments q body = \<lparr>rq_method = method, rq_path = client_url segments, rq_query = q,
     rq_body = \<lparr>jt_values = (case body of None \<Rightarrow> [] | Some v \<Rightarrow> [v]), jt_broken = False\<rparr>\<rparr>"

text \<open>An error carries the code of the body, empty when the body is none of the server's; the body is read into the result in either case.\<close>

definition errorFromBody :: "reply \<Rightarrow> client_error" where
  "errorFromBody r = ClientError (re_status r) (value_or (re_code r))"

definition doStatus :: "bool \<Rightarrow> 'w transport \<Rightarrow> http_request \<Rightarrow> 'w \<Rightarrow> answer \<times> 'w" where
  "doStatus wants net rq w = (case net rq w of (out, w1) \<Rightarrow> (case out of
     Reply r \<Rightarrow> if re_status r \<ge> 300 then \<lparr>an_value = re_value r, an_status = re_status r, an_warning = re_warning r, an_error = Some (errorFromBody r)\<rparr>
       else if wants \<and> re_value r = None then \<lparr>an_value = None, an_status = re_status r, an_warning = [], an_error = Some (NotDecoded (re_status r))\<rparr>
       else \<lparr>an_value = (if wants then re_value r else None), an_status = re_status r, an_warning = re_warning r, an_error = None\<rparr>
   | _ \<Rightarrow> \<lparr>an_value = None, an_status = 0, an_warning = [], an_error = Some NoReply\<rparr>, w1))"

definition created_of :: "answer \<Rightarrow> bool" where
  "created_of a \<longleftrightarrow> an_status a = StatusCreated"

definition client_collection :: "string \<Rightarrow> string" where
  "client_collection k = (if k = KindSnapshot then ''snapshots'' else ''volumes'')"

section \<open>Methods\<close>

definition put_texts :: "string list option \<Rightarrow> json" where
  "put_texts ts = (case ts of None \<Rightarrow> JNull | Some xs \<Rightarrow> put_list put_str xs)"

definition put_create :: "CreateRequest \<Rightarrow> json" where
  "put_create r = JObj (member ''name'' (put_str (cr_Name r)) @ member_unless (cr_Size r = 0) ''size'' (put_int (cr_Size r))
     @ member_unless (cr_BlockSize r = 0) ''block_size'' (put_int (cr_BlockSize r))
     @ member_unless (cr_Source r = []) ''source'' (put_str (cr_Source r))
     @ member_unless (cr_SourceKind r = []) ''source_kind'' (put_str (cr_SourceKind r)))"

definition client_Health :: "'w transport \<Rightarrow> 'w \<Rightarrow> answer \<times> 'w" where
  "client_Health net w = (case net (send_request ''GET'' [''health''] [] None) w of (out, w1) \<Rightarrow> (case out of
     Reply r \<Rightarrow> (case re_value r of
         Some (VHealth body) \<Rightarrow> \<lparr>an_value = re_value r, an_status = re_status r, an_warning = [], an_error = None\<rparr>
       | _ \<Rightarrow> \<lparr>an_value = None, an_status = re_status r, an_warning = [], an_error = Some (errorFromBody r)\<rparr>)
   | _ \<Rightarrow> \<lparr>an_value = None, an_status = 0, an_warning = [], an_error = Some NoReply\<rparr>, w1))"

definition client_Target :: "'w transport \<Rightarrow> 'w \<Rightarrow> answer \<times> 'w" where
  "client_Target net = doStatus True net (send_request ''GET'' [''target''] [] None)"

definition client_create :: "'w transport \<Rightarrow> string \<Rightarrow> CreateRequest \<Rightarrow> 'w \<Rightarrow> answer \<times> 'w" where
  "client_create net kind req = doStatus True net (send_request ''POST'' [client_collection kind] [] (Some (put_create req)))"

definition client_List :: "'w transport \<Rightarrow> string \<Rightarrow> 'w \<Rightarrow> answer \<times> 'w" where
  "client_List net kind = doStatus True net (send_request ''GET'' [client_collection kind] [] None)"

definition client_Get :: "'w transport \<Rightarrow> string \<Rightarrow> string \<Rightarrow> 'w \<Rightarrow> answer \<times> 'w" where
  "client_Get net kind ref = doStatus True net (send_request ''GET'' [client_collection kind, ref] [] None)"

definition client_Rename :: "'w transport \<Rightarrow> string \<Rightarrow> string \<Rightarrow> string \<Rightarrow> 'w \<Rightarrow> answer \<times> 'w" where
  "client_Rename net kind ref newName = doStatus True net
     (send_request ''PATCH'' [client_collection kind, ref] [] (Some (JObj (member ''name'' (put_str newName)))))"

definition client_Delete :: "'w transport \<Rightarrow> string \<Rightarrow> string \<Rightarrow> 'w \<Rightarrow> answer \<times> 'w" where
  "client_Delete net kind ref = doStatus False net (send_request ''DELETE'' [client_collection kind, ref] [] None)"

definition client_Resize :: "'w transport \<Rightarrow> string \<Rightarrow> string \<Rightarrow> int \<Rightarrow> 'w \<Rightarrow> answer \<times> 'w" where
  "client_Resize net kind ref sz = doStatus True net
     (send_request ''POST'' [client_collection kind, ref, ''resize''] [] (Some (JObj (member ''size'' (put_int sz)))))"

definition client_ClearReservation :: "'w transport \<Rightarrow> string \<Rightarrow> string \<Rightarrow> string \<Rightarrow> 'w \<Rightarrow> answer \<times> 'w" where
  "client_ClearReservation net kind ref confirm = doStatus True net
     (send_request ''POST'' [client_collection kind, ref, ''clear-reservation''] [] (Some (JObj (member ''confirm'' (put_str confirm)))))"

definition client_CreateHost :: "'w transport \<Rightarrow> string \<Rightarrow> string list \<Rightarrow> 'w \<Rightarrow> answer \<times> 'w" where
  "client_CreateHost net name iqns = doStatus True net
     (send_request ''POST'' [''hosts''] [] (Some (JObj (member ''iqns'' (put_texts (Some iqns)) @ member ''name'' (put_str name)))))"

definition client_ListHosts :: "'w transport \<Rightarrow> 'w \<Rightarrow> answer \<times> 'w" where
  "client_ListHosts net = doStatus True net (send_request ''GET'' [''hosts''] [] None)"

definition client_GetHost :: "'w transport \<Rightarrow> string \<Rightarrow> 'w \<Rightarrow> answer \<times> 'w" where
  "client_GetHost net ref = doStatus True net (send_request ''GET'' [''hosts'', ref] [] None)"

definition client_RenameHost :: "'w transport \<Rightarrow> string \<Rightarrow> string \<Rightarrow> 'w \<Rightarrow> answer \<times> 'w" where
  "client_RenameHost net ref newName = doStatus True net
     (send_request ''PATCH'' [''hosts'', ref] [] (Some (JObj (member ''name'' (put_str newName)))))"

definition client_SetBindings :: "'w transport \<Rightarrow> string \<Rightarrow> string list \<Rightarrow> 'w \<Rightarrow> answer \<times> 'w" where
  "client_SetBindings net ref iqns = doStatus True net
     (send_request ''PUT'' [''hosts'', ref, ''iqns''] [] (Some (JObj (member ''iqns'' (put_texts (Some iqns))))))"

definition client_AddBindings :: "'w transport \<Rightarrow> string \<Rightarrow> string list option \<Rightarrow> 'w \<Rightarrow> answer \<times> 'w" where
  "client_AddBindings net ref iqns = doStatus True net
     (send_request ''PATCH'' [''hosts'', ref, ''iqns''] [] (Some (JObj (member ''add'' (put_texts iqns)))))"

definition client_RemoveBindings :: "'w transport \<Rightarrow> string \<Rightarrow> string list option \<Rightarrow> 'w \<Rightarrow> answer \<times> 'w" where
  "client_RemoveBindings net ref iqns = doStatus True net
     (send_request ''PATCH'' [''hosts'', ref, ''iqns''] [] (Some (JObj (member ''remove'' (put_texts iqns)))))"

definition client_DeleteHost :: "'w transport \<Rightarrow> string \<Rightarrow> 'w \<Rightarrow> answer \<times> 'w" where
  "client_DeleteHost net ref = doStatus False net (send_request ''DELETE'' [''hosts'', ref] [] None)"

definition client_Connect :: "'w transport \<Rightarrow> string \<Rightarrow> string \<Rightarrow> string \<Rightarrow> int \<Rightarrow> 'w \<Rightarrow> answer \<times> 'w" where
  "client_Connect net kind objectRef hostRef lun = doStatus True net
     (send_request ''POST'' [client_collection kind, objectRef, ''connections''] []
        (Some (JObj (member ''host'' (put_str hostRef) @ member ''lun'' (put_int lun)))))"

definition client_Disconnect :: "'w transport \<Rightarrow> string \<Rightarrow> string \<Rightarrow> string \<Rightarrow> 'w \<Rightarrow> answer \<times> 'w" where
  "client_Disconnect net kind objectRef hostRef = doStatus True net
     (send_request ''DELETE'' [client_collection kind, objectRef, ''connections'', hostRef] [] None)"

definition set_query :: "string \<Rightarrow> string \<Rightarrow> (string \<times> string) list" where
  "set_query k v = (if v = '''' then [] else [(k, v)])"

definition client_ListConnections :: "'w transport \<Rightarrow> string \<Rightarrow> string \<Rightarrow> string \<Rightarrow> 'w \<Rightarrow> answer \<times> 'w" where
  "client_ListConnections net objectRef objectKind hostRef = doStatus True net (send_request ''GET'' [''connections'']
     (set_query ''host'' hostRef @ set_query ''object'' objectRef @ set_query ''object_kind'' objectKind) None)"

section \<open>A call reaches the coordinator\<close>

datatype client_call = CallCreate string CreateRequest | CallRename string string string | CallDelete string string
  | CallResize string string int | CallClear string string string | CallCreateHost string "string list" | CallRenameHost string string
  | CallSetBindings string "string list" | CallAddBindings string "string list option" | CallRemoveBindings string "string list option"
  | CallDeleteHost string | CallConnect string string string int | CallDisconnect string string string

fun client_run :: "'w transport \<Rightarrow> client_call \<Rightarrow> 'w \<Rightarrow> answer \<times> 'w" where
  "client_run net (CallCreate kind req) = client_create net kind req"
| "client_run net (CallRename kind ref newName) = client_Rename net kind ref newName"
| "client_run net (CallDelete kind ref) = client_Delete net kind ref"
| "client_run net (CallResize kind ref sz) = client_Resize net kind ref sz"
| "client_run net (CallClear kind ref confirm) = client_ClearReservation net kind ref confirm"
| "client_run net (CallCreateHost name iqns) = client_CreateHost net name iqns"
| "client_run net (CallRenameHost ref newName) = client_RenameHost net ref newName"
| "client_run net (CallSetBindings ref iqns) = client_SetBindings net ref iqns"
| "client_run net (CallAddBindings ref iqns) = client_AddBindings net ref iqns"
| "client_run net (CallRemoveBindings ref iqns) = client_RemoveBindings net ref iqns"
| "client_run net (CallDeleteHost ref) = client_DeleteHost net ref"
| "client_run net (CallConnect kind objectRef hostRef lun) = client_Connect net kind objectRef hostRef lun"
| "client_run net (CallDisconnect kind objectRef hostRef) = client_Disconnect net kind objectRef hostRef"

text \<open>The method of the coordinator that a call is about.\<close>

fun asks :: "client_call \<Rightarrow> request" where
  "asks (CallCreate kind req) = ReqCreate kind (req\<lparr>cr_SourceKind := sourceKind kind (cr_SourceKind req)\<rparr>)"
| "asks (CallRename kind ref newName) = ReqRename kind ref newName"
| "asks (CallDelete kind ref) = ReqDelete kind ref"
| "asks (CallResize kind ref sz) = ReqResize kind ref sz"
| "asks (CallClear kind ref confirm) = ReqClear kind ref confirm"
| "asks (CallCreateHost name iqns) = ReqCreateHost name iqns"
| "asks (CallRenameHost ref newName) = ReqRenameHost ref newName"
| "asks (CallSetBindings ref iqns) = ReqSetBindings ref (Some iqns) [] []"
| "asks (CallAddBindings ref iqns) = ReqSetBindings ref None (case iqns of None \<Rightarrow> [] | Some qs \<Rightarrow> qs) []"
| "asks (CallRemoveBindings ref iqns) = ReqSetBindings ref None [] (case iqns of None \<Rightarrow> [] | Some qs \<Rightarrow> qs)"
| "asks (CallDeleteHost ref) = ReqDeleteHost ref"
| "asks (CallConnect kind objectRef hostRef lun) = ReqConnect kind objectRef hostRef lun True"
| "asks (CallDisconnect kind objectRef hostRef) = ReqDisconnect kind objectRef hostRef"

text \<open>A call that can be written down: a known kind, references that are segments of a clean path, valid UTF-8, integers of 64 bits.\<close>

definition int64 :: "int \<Rightarrow> bool" where
  "int64 n \<longleftrightarrow> - (2 ^ 63) \<le> n \<and> n < 2 ^ 63"

definition clean_texts :: "string list option \<Rightarrow> bool" where
  "clean_texts ts = (case ts of None \<Rightarrow> True | Some xs \<Rightarrow> list_all clean_text xs)"

definition plain_ref :: "string \<Rightarrow> bool" where
  "plain_ref ref \<longleftrightarrow> ref \<noteq> '''' \<and> ref \<noteq> ''.'' \<and> ref \<noteq> ''..''"

fun clean_call :: "client_call \<Rightarrow> bool" where
  "clean_call (CallCreate kind req) = (known_kind kind \<and> clean_text (cr_Name req) \<and> int64 (cr_Size req) \<and> int64 (cr_BlockSize req)
     \<and> clean_text (cr_Source req) \<and> clean_text (cr_SourceKind req))"
| "clean_call (CallRename kind ref newName) = (known_kind kind \<and> plain_ref ref \<and> clean_text newName)"
| "clean_call (CallDelete kind ref) = (known_kind kind \<and> plain_ref ref)"
| "clean_call (CallResize kind ref sz) = (known_kind kind \<and> plain_ref ref \<and> int64 sz)"
| "clean_call (CallClear kind ref confirm) = (known_kind kind \<and> plain_ref ref \<and> clean_text confirm)"
| "clean_call (CallCreateHost name iqns) = (clean_text name \<and> clean_texts (Some iqns))"
| "clean_call (CallRenameHost ref newName) = (plain_ref ref \<and> clean_text newName)"
| "clean_call (CallSetBindings ref iqns) = (plain_ref ref \<and> clean_texts (Some iqns))"
| "clean_call (CallAddBindings ref iqns) = (plain_ref ref \<and> clean_texts iqns)"
| "clean_call (CallRemoveBindings ref iqns) = (plain_ref ref \<and> clean_texts iqns)"
| "clean_call (CallDeleteHost ref) = (plain_ref ref)"
| "clean_call (CallConnect kind objectRef hostRef lun) = (known_kind kind \<and> plain_ref objectRef \<and> clean_text hostRef \<and> int64 lun)"
| "clean_call (CallDisconnect kind objectRef hostRef) = (known_kind kind \<and> plain_ref objectRef \<and> plain_ref hostRef)"

lemma body_names [simp]:
  "fold_name ''name'' = ''name''" "fold_name ''size'' = ''size''" "fold_name ''block_size'' = ''block_size''" "fold_name ''source'' = ''source''"
  "fold_name ''source_kind'' = ''source_kind''" "fold_name ''confirm'' = ''confirm''" "fold_name ''iqns'' = ''iqns''" "fold_name ''add'' = ''add''"
  "fold_name ''remove'' = ''remove''" "fold_name ''host'' = ''host''" "fold_name ''lun'' = ''lun''"
  by code_simp+

lemma get_put_int64: "int64 n \<Longrightarrow> get_int (put_int n) x = Some n"
  by (simp add: int64_def)

lemma put_int_not_null: "put_int n \<noteq> JNull"
  by (simp add: put_int_def)

lemma get_put_texts: "clean_texts ts \<Longrightarrow> get_texts (put_texts ts) [] = Some (case ts of None \<Rightarrow> [] | Some xs \<Rightarrow> xs)"
  using get_put_list [of _ get_str put_str "''''" "\<lambda>x. x"]
  by (auto simp: put_texts_def clean_texts_def list_all_iff split: option.splits)

lemmas read_body = get_member get_member_unless get_members_append field_def

lemma read_create:
  "clean_text (cr_Name req) \<Longrightarrow> int64 (cr_Size req) \<Longrightarrow> int64 (cr_BlockSize req) \<Longrightarrow> clean_text (cr_Source req)
     \<Longrightarrow> clean_text (cr_SourceKind req) \<Longrightarrow> get_obj False create_body (put_create req) zero_create = Some req"
  by (simp add: put_create_def create_body_def zero_create_def read_body get_put_int64)

lemma read_one:
  "clean_text s \<Longrightarrow> get_obj False [(k, get_str)] (JObj (member k (put_str s))) '''' = Some s"
  "int64 n \<Longrightarrow> get_obj False [(k, get_int)] (JObj (member k (put_int n))) 0 = Some n"
  "clean_texts ts \<Longrightarrow> get_obj False [(k, get_texts)] (JObj (member k (put_texts ts))) [] = Some (case ts of None \<Rightarrow> [] | Some xs \<Rightarrow> xs)"
  if "fold_name k = k" for k
  using that by (simp_all add: read_body get_put_int64 get_put_texts)

lemma read_two:
  "clean_text name \<Longrightarrow> clean_texts (Some iqns) \<Longrightarrow>
    get_obj False (pair_body ''name'' get_str ''iqns'' get_texts) (JObj (member ''iqns'' (put_texts (Some iqns)) @ member ''name'' (put_str name))) ('''', [])
      = Some (name, iqns)"
  "clean_texts ts \<Longrightarrow> get_obj False (pair_body ''add'' get_texts ''remove'' get_texts) (JObj (member ''add'' (put_texts ts))) ([], [])
      = Some (case ts of None \<Rightarrow> [] | Some xs \<Rightarrow> xs, [])"
  "clean_texts ts \<Longrightarrow> get_obj False (pair_body ''add'' get_texts ''remove'' get_texts) (JObj (member ''remove'' (put_texts ts))) ([], [])
      = Some ([], case ts of None \<Rightarrow> [] | Some xs \<Rightarrow> xs)"
  "clean_text h \<Longrightarrow> int64 lun \<Longrightarrow> get_obj False (pair_body ''host'' get_str ''lun'' (get_ptr 0 get_int))
      (JObj (member ''host'' (put_str h) @ member ''lun'' (put_int lun))) ('''', None) = Some (h, Some lun)"
  by (simp_all add: pair_body_def read_body get_put_texts get_put_int64 get_ptr_def put_int_not_null)

section \<open>A request reaches its handler\<close>

lemma doStatus_state: "snd (doStatus wants net rq w) = snd (net rq w)"
  by (simp add: doStatus_def split: prod.splits)

lemma Handler_client: "segs \<noteq> [] \<Longrightarrow> Handler env (send_request m segs q b) c = mux (routes env) segs (send_request m segs q b) c"
  by (simp add: Handler_def send_request_def client_url_def APIPrefix_def)

lemmas routing = mux_def routes_def object_routes_def method_serves_def client_collection_def collectionOf_def Let_def

lemma object_requests:
  "known_kind kind \<Longrightarrow> rq_method rq = ''POST'' \<Longrightarrow> mux (routes env) [client_collection kind] rq c = post_object kind rq c"
  "known_kind kind \<Longrightarrow> name \<noteq> '''' \<Longrightarrow> rq_method rq = ''PATCH'' \<Longrightarrow> mux (routes env) [client_collection kind, name] rq c = patch_object kind name rq c"
  "known_kind kind \<Longrightarrow> name \<noteq> '''' \<Longrightarrow> rq_method rq = ''DELETE'' \<Longrightarrow> mux (routes env) [client_collection kind, name] rq c = delete_object env kind name rq c"
  "known_kind kind \<Longrightarrow> name \<noteq> '''' \<Longrightarrow> rq_method rq = ''POST'' \<Longrightarrow> mux (routes env) [client_collection kind, name, ''resize''] rq c = post_resize env kind name rq c"
  "known_kind kind \<Longrightarrow> name \<noteq> '''' \<Longrightarrow> rq_method rq = ''POST'' \<Longrightarrow> mux (routes env) [client_collection kind, name, ''clear-reservation''] rq c = post_clear env kind name rq c"
  "known_kind kind \<Longrightarrow> name \<noteq> '''' \<Longrightarrow> rq_method rq = ''POST'' \<Longrightarrow> mux (routes env) [client_collection kind, name, ''connections''] rq c = post_connection env kind name rq c"
  "known_kind kind \<Longrightarrow> name \<noteq> '''' \<Longrightarrow> h \<noteq> '''' \<Longrightarrow> rq_method rq = ''DELETE'' \<Longrightarrow> mux (routes env) [client_collection kind, name, ''connections'', h] rq c = delete_connection env kind name h rq c"
  by (auto simp: known_kind_def routing)

lemma host_requests:
  "rq_method rq = ''POST'' \<Longrightarrow> mux (routes env) [''hosts''] rq c = post_host env rq c"
  "name \<noteq> '''' \<Longrightarrow> rq_method rq = ''PATCH'' \<Longrightarrow> mux (routes env) [''hosts'', name] rq c = patch_host name rq c"
  "name \<noteq> '''' \<Longrightarrow> rq_method rq = ''DELETE'' \<Longrightarrow> mux (routes env) [''hosts'', name] rq c = delete_host env name rq c"
  "name \<noteq> '''' \<Longrightarrow> rq_method rq = ''PUT'' \<Longrightarrow> mux (routes env) [''hosts'', name, ''iqns''] rq c = put_iqns env name rq c"
  "name \<noteq> '''' \<Longrightarrow> rq_method rq = ''PATCH'' \<Longrightarrow> mux (routes env) [''hosts'', name, ''iqns''] rq c = patch_iqns env name rq c"
  by (simp_all add: routing)

lemma send_sel [simp]: "rq_method (send_request m segs q b) = m" "jt_values (rq_body (send_request m segs q (Some v))) = [v]"
  by (simp_all add: send_request_def)

lemmas client_methods = client_create_def client_Rename_def client_Delete_def client_Resize_def client_ClearReservation_def client_CreateHost_def
  client_RenameHost_def client_SetBindings_def client_AddBindings_def client_RemoveBindings_def client_DeleteHost_def client_Connect_def
  client_Disconnect_def

lemmas server_side = post_object_def patch_object_def delete_object_def post_resize_def post_clear_def post_connection_def delete_connection_def
  post_host_def patch_host_def delete_host_def put_iqns_def patch_iqns_def bindings_reply_def readJSON_def

lemmas delivered = doStatus_state Handler_client object_requests host_requests read_create read_one read_two




end
