(* ===== verification/Lio_Exact.thy ===== *)
theory Lio_Exact
  imports Lio_Spare "HOL-Library.Sublist"
begin

text \<open>
  What a successful reconcile leaves behind. On a kernel whose directories behave as those of configfs
  do, the directories of objects that are present after \<open>Sync\<close> reports success are those of the desired
  configuration, no more and no fewer: \<open>Apply\<close> makes each of them, \<open>Discover\<close> finds every one that is
  there, and \<open>prune\<close> removes the ones that are not desired.
\<close>

section \<open>Steps that reach a state when they succeed\<close>

named_theorems reach

definition reaches :: "('k \<Rightarrow> bool) \<Rightarrow> 'k step \<Rightarrow> bool" where
  "reaches P f \<longleftrightarrow> (\<forall>a a'. f a = (None, a') \<longrightarrow> P (a_kern a'))"

lemma reachesD: "reaches P f \<Longrightarrow> f a = (None, a') \<Longrightarrow> P (a_kern a')"
  unfolding reaches_def by blast

lemma then_success: "then_step f g a = (None, a') \<longleftrightarrow> (\<exists>a1. f a = (None, a1) \<and> g a1 = (None, a'))"
  by (auto simp: then_step_def split: prod.splits option.splits)

lemma reaches_fail [reach]: "reaches P (fail_step e)"
  by (simp add: reaches_def fail_step_def)

lemma reaches_first: "reaches P f \<Longrightarrow> preserving P g \<Longrightarrow> reaches P (then_step f g)"
  by (auto simp: reaches_def then_success dest: preservingD)

lemma reaches_second: "reaches P g \<Longrightarrow> reaches P (then_step f g)"
  by (auto simp: reaches_def then_success)

lemma reaches_each:
  assumes "x \<in> set xs" and "reaches P (f x)" and "\<And>y. y \<in> set xs \<Longrightarrow> preserving P (f y)"
  shows "reaches P (each_step f xs)"
  using assms
proof (induction xs)
  case (Cons y ys)
  then show ?case
    using reaches_first [of P "f x" "each_step f ys"] preserving_each [of ys P f] reaches_second [of P "each_step f ys"]
    by (cases "x = y") auto
qed simp

lemma reaches_read: "(\<And>x. reaches P (f x)) \<Longrightarrow> reaches P (read_step M r f)"
  by (auto simp: reaches_def read_step_def split: sum.splits)

text \<open>What a reading shows may already be the state wanted, when the rest keeps it.\<close>

lemma reaches_seen:
  assumes "\<And>k x. r (k_view (m_fs M) k) = Inr x \<Longrightarrow> P k \<and> preserving P (f x) \<or> reaches P (f x)"
  shows "reaches P (read_step M r f)"
  unfolding reaches_def
proof (intro allI impI)
  fix a a'
  assume run: "read_step M r f a = (None, a')"
  then obtain x where x: "r (k_view (m_fs M) (a_kern a)) = Inr x" "f x a = (None, a')"
    by (auto simp: read_step_def split: sum.splits)
  with assms [OF x(1)] show "P (a_kern a')" by (auto dest: reachesD preservingD)
qed

lemma reaches_call: "(\<And>k k'. op k = (None, k') \<Longrightarrow> P k') \<Longrightarrow> reaches P (call_step op w)"
  by (auto simp: reaches_def call_step_def split: prod.splits)

lemma reaches_option [reach]:
  "(x = None \<Longrightarrow> reaches P f) \<Longrightarrow> (\<And>y. x = Some y \<Longrightarrow> reaches P (g y)) \<Longrightarrow> reaches P (case x of None \<Rightarrow> f | Some y \<Rightarrow> g y)"
  by (cases x) simp_all

lemma reaches_if: "(c \<Longrightarrow> reaches P f) \<Longrightarrow> (\<not> c \<Longrightarrow> reaches P g) \<Longrightarrow> reaches P (if c then f else g)"
  by simp

section \<open>The interface: a kernel in which a directory can be made\<close>

text \<open>
  \<open>I\<close> says that the directory \<open>q\<close> is there. A directory that was made is there, and so is one that
  the engine found, by a look at it or by reading a file in it.
\<close>

locale making_kernel = removal_guard +
  fixes q :: path
  assumes made: "Mkdir (m_fs M) q k = (None, k') \<Longrightarrow> I k'"
    and found: "hd q = ''iscsi'' \<Longrightarrow> Configfs.Exists (k_view (m_fs M) k) q = Inr True \<Longrightarrow> I k"
    and holds_file: "ReadAttr (k_view (m_fs M) k) (q @ [x]) = Inr s \<Longrightarrow> I k"
begin

lemma mkdir_reaches: "reaches I (mkdir_step M kind obj q)"
  unfolding mkdir_step_def by (intro reaches_call) (rule made)

lemma make_absent_reaches: "hd q = ''iscsi'' \<Longrightarrow> reaches I (make_absent M obj q)"
  unfolding make_absent_def exists_step_def
  using found by (intro reaches_seen) (auto simp: wrap_def split: sum.splits intro: keeps reaches_first mkdir_reaches)

lemma wire_reaches:
  assumes "hd q = ''iscsi''" and "preserving I after"
  shows "reaches I (wire_step M obj want q rp cr after)"
proof -
  let ?link = "then_step (link_step M obj want q) (then_step (add_note cr) after)"
  have link: "preserving I ?link" using assms(2) by (intro keeps)
  have "preserving I (read_step M (\<lambda>fs. wrap KindConfigfs ''apply'' obj (FindSymlink fs q)) (\<lambda>(name, cur).
      if cur = want then after else if cur = '''' then ?link
      else then_step (call_step (unlinkAll M q) (errf KindKernelRejected ''apply'' obj)) (then_step (add_note (rp cur)) ?link)))"
    using assms(2) by (intro keeps)
  moreover have "reaches I (then_step (mkdir_step M KindKernelRejected obj q) ?link)"
    by (intro reaches_first mkdir_reaches link)
  ultimately show ?thesis unfolding wire_step_def Let_def exists_step_def
    using found [OF assms(1)] by (intro reaches_seen) (auto simp: wrap_def split: sum.splits)
qed

lemma ensureLUN_reaches: "q = lunPath iqn tag (lun_Index l) \<Longrightarrow> reaches I (ensureLUN M bsn iqn tag l)"
proof -
  assume q: "q = lunPath iqn tag (lun_Index l)"
  then have "hd q = ''iscsi''" by (simp add: path_defs)
  then show ?thesis unfolding ensureLUN_def Let_def q [symmetric] by (intro reach wire_reaches keeps)
qed

lemma ensureMappedLUN_keeps: "preserving I (ensureMappedLUN M iqn tag i m)"
  unfolding ensureMappedLUN_def ensureWriteProtect_def Let_def by (intro keeps)

lemma ensureACL_reaches: "q \<in> set (acl_paths iqn tag acl) \<Longrightarrow> reaches I (ensureACL M iqn tag acl)"
proof -
  assume "q \<in> set (acl_paths iqn tag acl)"
  then consider "q = aclPath iqn tag (acl_InitiatorIQN acl)"
    | m where "m \<in> set (acl_MappedLUNs acl)" "q = mappedLunPath iqn tag (acl_InitiatorIQN acl) (ml_Index m)"
    by (auto simp: acl_paths_def)
  then show ?thesis
  proof cases
    case 1
    then show ?thesis unfolding ensureACL_def
      using make_absent_reaches by (intro reaches_first) (auto simp: path_defs intro: keeps ensureMappedLUN_keeps)
  next
    case 2
    have "reaches I (ensureMappedLUN M iqn tag (acl_InitiatorIQN acl) m)"
      unfolding ensureMappedLUN_def Let_def 2(2) [symmetric]
      by (intro wire_reaches) (simp add: 2(2) path_defs, simp add: ensureWriteProtect_def Let_def keeps)
    then show ?thesis unfolding ensureACL_def
      by (intro reaches_second reaches_each [OF 2(1)] ensureMappedLUN_keeps)
  qed
qed

lemma ensureTPG_reaches: "q \<in> set (tpg_paths iqn g) \<Longrightarrow> reaches I (ensureTPG M bsn iqn g)"
proof -
  assume "q \<in> set (tpg_paths iqn g)"
  then consider "q = tpgPath iqn (tpg_Tag g)" | l where "l \<in> set (tpg_LUNs g)" "q = lunPath iqn (tpg_Tag g) (lun_Index l)"
    | acl where "acl \<in> set (tpg_ACLs g)" "q \<in> set (acl_paths iqn (tpg_Tag g) acl)"
    by (auto simp: tpg_paths_def)
  moreover have rest: "preserving I (tpg_enable M obj p en)" "preserving I (tpg_attr M obj p as k)" for obj p en as k
    unfolding tpg_enable_def tpg_attr_def Let_def by (intro keeps)+
  ultimately show ?thesis
  proof cases
    case 1
    then have "hd q = ''iscsi''" by (simp add: path_defs)
    then show ?thesis unfolding ensureTPG_def Let_def 1 [symmetric]
      by (intro reaches_first make_absent_reaches keeps rest)
  next
    case 2
    then show ?thesis unfolding ensureTPG_def Let_def
      by (intro reaches_second [OF reaches_second [OF reaches_second [OF reaches_first]]] reaches_each [OF 2(1)] ensureLUN_reaches keeps rest)
  next
    case 3
    then show ?thesis unfolding ensureTPG_def Let_def
      by (intro reaches_second [OF reaches_second [OF reaches_second [OF reaches_second [OF reaches_first]]]] reaches_each [OF 3(1)] ensureACL_reaches keeps rest)
  qed
qed

lemma ensureTarget_reaches: "q \<in> set (target_paths t) \<Longrightarrow> reaches I (ensureTarget M bsn t)"
proof -
  assume "q \<in> set (target_paths t)"
  then consider "q = targetPath (tgt_IQN t)" | g where "g \<in> set (tgt_TPGs t)" "q \<in> set (tpg_paths (tgt_IQN t) g)"
    by (auto simp: target_paths_def)
  then show ?thesis
  proof cases
    case 1
    then have "hd q = ''iscsi''" by (simp add: path_defs)
    then show ?thesis unfolding ensureTarget_def Let_def 1 [symmetric]
      by (intro reaches_second [OF reaches_first] make_absent_reaches keeps)
  next
    case 2
    then show ?thesis unfolding ensureTarget_def Let_def
      by (intro reaches_second reaches_each [OF 2(1)] ensureTPG_reaches keeps)
  qed
qed

lemma ensureBackstore_reaches: "q = objPath b \<Longrightarrow> reaches I (ensureBackstore M b)"
proof -
  assume q: "q = objPath b"
  have live: "I k" if "live_backstore b (k_view (m_fs M) k) = Inr True" for k
    using that holds_file [of k "''enable''"] q
    by (auto simp: live_backstore_def Let_def wrap_def split: sum.splits if_splits)
  have new: "reaches I (create_backstore M b)"
    unfolding create_backstore_def create_attr_def create_field_def Let_def q [symmetric]
    by (rule reaches_second, rule reaches_first [OF mkdir_reaches]) (intro keeps)
  show ?thesis unfolding ensureBackstore_def
    using live new by (intro reach reaches_seen) (auto intro: keeps)
qed

lemma apply_pass_reaches: "q \<in> set (object_paths cfg) \<Longrightarrow> reaches I (apply_pass M cfg)"
proof -
  assume "q \<in> set (object_paths cfg)"
  then consider b where "b \<in> set (cfg_Backstores cfg)" "q = objPath b"
    | t where "t \<in> set (cfg_Targets cfg)" "q \<in> set (target_paths t)" by (auto simp: object_paths_def)
  then show ?thesis
  proof cases
    case 1
    then show ?thesis unfolding apply_pass_def
      by (intro reaches_first reaches_each [OF 1(1)] ensureBackstore_reaches keeps)
  next
    case 2
    then show ?thesis unfolding apply_pass_def
      by (intro reaches_second reaches_each [OF 2(1)] ensureTarget_reaches keeps)
  qed
qed

end

section \<open>The interface: a kernel in which a directory can be removed\<close>

text \<open>The key by which \<open>prune\<close> compares backstores names their directory.\<close>

lemma validate_type_plain: "backstore_validate b = None \<Longrightarrow> CHR ''/'' \<notin> set (bs_Type b)"
  by (auto simp: backstore_validate_def split: if_splits)

lemma backstoreKey_objPath:
  assumes "backstoreKey b = backstoreKey d" and "CHR ''/'' \<notin> set (bs_Type b)" and "CHR ''/'' \<notin> set (bs_Type d)"
  shows "objPath b = objPath d"
proof -
  have "cut [CHR ''/''] (backstoreKey x) = Some (dirName x, bs_Name x)" if "CHR ''/'' \<notin> set (bs_Type x)" for x
    using that cut_first [of "CHR ''/''" "dirName x" "[]" "bs_Name x"] by (simp add: backstoreKey_def dirName_def)
  then have "dirName b = dirName d \<and> bs_Name b = bs_Name d" using assms by (metis Pair_inject option.inject)
  then show ?thesis by (simp add: objPath_def)
qed

text \<open>
  \<open>gone p\<close> says that nothing is at \<open>p\<close>, nor below it. What was removed or looked for in vain is gone, and
  stays so while the engine only removes.
\<close>

locale clearing_kernel =
  fixes M :: "'k Manager" and gone :: "path \<Rightarrow> 'k \<Rightarrow> bool"
  assumes removed: "Rmdir (m_fs M) p k = (None, k') \<Longrightarrow> gone p k'"
    and missing: "Configfs.Exists (k_view (m_fs M) k) p = Inr False \<Longrightarrow> gone p k"
    and below: "gone p k \<Longrightarrow> gone (p @ q) k"
    and unlink_gone: "gone p k \<Longrightarrow> gone p (snd (k_unlink (m_fs M) l k))"
    and rmdir_gone: "gone p k \<Longrightarrow> gone p (snd (k_rmdir (m_fs M) d k))"

sublocale clearing_kernel \<subseteq> stays: removing_kernel M "gone p" "\<lambda>d. True" for p
  by unfold_locales (simp_all add: unlink_gone rmdir_gone)

context clearing_kernel
begin

lemma rmdir_reaches: "reaches (gone (p @ q)) (rmdir_step M op obj p)"
  unfolding rmdir_step_def by (intro reaches_call below) (rule removed)

lemma removeLUN_reaches: "reaches (gone (lunPath iqn tag n @ q)) (removeLUN M iqn tag n)"
  unfolding removeLUN_def Let_def by (intro reaches_second rmdir_reaches)

lemma removeMappedLUN_reaches: "reaches (gone (mappedLunPath iqn tag i n @ q)) (removeMappedLUN M iqn tag i n)"
  unfolding removeMappedLUN_def Let_def by (intro reaches_second rmdir_reaches)

lemma removeACL_reaches: "reaches (gone (aclPath iqn tag i @ q)) (removeACL M iqn tag i)"
  unfolding removeACL_def Let_def by (intro reaches_read reaches_second rmdir_reaches)

lemma removeTPG_reaches: "reaches (gone (tpgPath iqn tag @ q)) (removeTPG M iqn tag)"
  unfolding removeTPG_def Let_def by (intro reaches_read reaches_second rmdir_reaches)

lemma removeTarget_reaches: "reaches (gone (targetPath iqn @ q)) (removeTarget M iqn)"
proof -
  have "reaches (gone (targetPath iqn @ q)) (read_step M r (\<lambda>tpgs. then_step (f tpgs)
      (then_step (rmdir_step M ''remove'' obj (targetPath iqn)) (add_note s))))" for r f obj s
    by (intro reaches_read reaches_second [OF reaches_first] rmdir_reaches keeps)
  then show ?thesis unfolding removeTarget_def Let_def exists_step_def
    using missing below by (intro reaches_seen) (auto simp: wrap_def split: sum.splits intro: keeps)
qed

lemma removeBackstore_reaches: "reaches (gone (objPath b)) (removeBackstore M b)"
proof -
  have "preserving (gone (objPath b)) (\<lambda>a. (None, a\<lparr>a_kern := snd (Rmdir (m_fs M) (hbaPath b) (a_kern a))\<rparr>))"
    using stays.Rmdir_keeps by (simp add: preserving_def)
  then show ?thesis unfolding removeBackstore_def
    using rmdir_reaches [of "objPath b" "[]"] by (intro reaches_first keeps) simp_all
qed

text \<open>Everything that a pruning pass does keeps what is gone.\<close>

lemma prune_mapped_keeps [keeps]: "preserving (gone q) (prune_mapped M iqn tag acl da)"
  unfolding prune_mapped_def by (intro keeps TrueI)

lemma prune_lists_keep [keeps]:
  "preserving (gone q) (prunePortals M iqn g dg)" "preserving (gone q) (pruneLUNs M iqn g dg)" "preserving (gone q) (pruneACLs M iqn g dg)"
  unfolding prunePortals_def pruneLUNs_def pruneACLs_def Let_def by (intro keeps TrueI)+

lemma prune_tpg_keeps [keeps]: "preserving (gone q) (prune_tpg M dt iqn g)"
  unfolding prune_tpg_def by (intro keeps TrueI)

lemma prune_target_keeps [keeps]: "preserving (gone q) (prune_target M desired t)"
  unfolding prune_target_def by (intro keeps TrueI)

lemma prune_keeps [keeps]: "preserving (gone q) (prune M desired actual)"
  unfolding prune_def by (intro keeps TrueI)

lemma pruneACLs_reaches:
  assumes "acl \<in> set (tpg_ACLs g)" and "q \<in> set (acl_paths iqn (tpg_Tag g) acl)" and "q \<notin> set (tpg_paths iqn dg)" and "tpg_Tag dg = tpg_Tag g"
  shows "reaches (gone q) (pruneACLs M iqn g dg)"
proof -
  let ?i = "acl_InitiatorIQN acl"
  have below: "\<exists>r. q = aclPath iqn (tpg_Tag g) ?i @ r" using assms(2) by (auto simp: acl_paths_def path_defs)
  have "reaches (gone q) (prune_mapped M iqn (tpg_Tag g) acl da)" if da: "index_by acl_InitiatorIQN (tpg_ACLs dg) ?i = Some da" for da
  proof -
    have "acl_paths iqn (tpg_Tag dg) da \<in> acl_paths iqn (tpg_Tag dg) ` set (tpg_ACLs dg)" "acl_InitiatorIQN da = ?i"
      using index_by_Some [OF da] by auto
    then have no: "q \<notin> set (acl_paths iqn (tpg_Tag g) da)" using assms(3,4) by (auto simp: tpg_paths_def)
    then obtain m where m: "m \<in> set (acl_MappedLUNs acl)" "q = mappedLunPath iqn (tpg_Tag g) ?i (ml_Index m)"
      using assms(2) \<open>acl_InitiatorIQN da = ?i\<close> by (auto simp: acl_paths_def)
    then have "ml_Index m \<notin> set (map ml_Index (acl_MappedLUNs da))"
      using no \<open>acl_InitiatorIQN da = ?i\<close> by (auto simp: acl_paths_def)
    then show ?thesis unfolding prune_mapped_def
      using removeMappedLUN_reaches [of iqn "tpg_Tag g" ?i "ml_Index m" "[]"] m(2)
      by (intro reaches_each [OF m(1)]) (auto intro: keeps reaches_first)
  qed
  with below show ?thesis unfolding pruneACLs_def
    by (intro reaches_each [OF assms(1)] reaches_option) (auto intro!: keeps intro: reaches_first removeACL_reaches)
qed

lemma prune_tpg_reaches:
  assumes "q \<in> set (tpg_paths iqn g)" and "q \<notin> set (target_paths dt)" and "tgt_IQN dt = iqn"
  shows "reaches (gone q) (prune_tpg M dt iqn g)"
proof (cases "index_by tpg_Tag (tgt_TPGs dt) (tpg_Tag g)")
  case None
  have "\<exists>r. q = tpgPath iqn (tpg_Tag g) @ r" using assms(1) by (auto simp: tpg_paths_def acl_paths_def path_defs)
  with None show ?thesis using removeTPG_reaches by (auto simp: prune_tpg_def)
next
  case (Some dg)
  then have dg: "dg \<in> set (tgt_TPGs dt)" "tpg_Tag dg = tpg_Tag g" using index_by_Some by fastforce+
  then have no: "q \<notin> set (tpg_paths iqn dg)" using assms(2,3) by (auto simp: target_paths_def)
  then consider l where "l \<in> set (tpg_LUNs g)" "q = lunPath iqn (tpg_Tag g) (lun_Index l)"
    | acl where "acl \<in> set (tpg_ACLs g)" "q \<in> set (acl_paths iqn (tpg_Tag g) acl)"
    using assms(1) dg(2) by (auto simp: tpg_paths_def)
  then show ?thesis
  proof cases
    case 1
    then have "lun_Index l \<notin> set (map lun_Index (tpg_LUNs dg))" using no dg(2) by (auto simp: tpg_paths_def)
    then have "reaches (gone q) (pruneLUNs M iqn g dg)" unfolding pruneLUNs_def
      using removeLUN_reaches [of iqn "tpg_Tag g" "lun_Index l" "[]"] 1(2)
      by (intro reaches_each [OF 1(1)]) (auto intro: keeps reaches_first)
    then show ?thesis using Some by (auto simp: prune_tpg_def intro: reaches_second)
  next
    case 2
    then show ?thesis using Some pruneACLs_reaches [OF 2 no dg(2)]
      by (auto simp: prune_tpg_def intro!: reaches_second [OF reaches_first] keeps)
  qed
qed

lemma prune_reaches:
  assumes q: "q \<in> set (object_paths actual)" "q \<notin> set (object_paths desired)" and v: "valid_config desired"
    and plain: "\<And>b. b \<in> set (cfg_Backstores actual) \<Longrightarrow> CHR ''/'' \<notin> set (bs_Type b)"
  shows "reaches (gone q) (prune M desired actual)"
proof -
  consider b where "b \<in> set (cfg_Backstores actual)" "q = objPath b"
    | t where "t \<in> set (cfg_Targets actual)" "q \<in> set (target_paths t)" using q(1) by (auto simp: object_paths_def)
  then show ?thesis
  proof cases
    case 1
    have "objPath b = objPath d" if "d \<in> set (cfg_Backstores desired)" "backstoreKey b = backstoreKey d" for d
      using backstoreKey_objPath [OF that(2) plain [OF 1(1)]] v that(1) by (auto simp: valid_config_def dest: validate_type_plain)
    then have "backstoreKey b \<notin> set (map backstoreKey (cfg_Backstores desired))" using q(2) 1(2) by (auto simp: object_paths_def)
    then show ?thesis unfolding prune_def
      using removeBackstore_reaches [of b] 1(2) by (intro reaches_second reaches_each [OF 1(1)]) (auto intro: keeps)
  next
    case 2
    have "reaches (gone q) (prune_target M desired t)"
    proof (cases "index_by tgt_IQN (cfg_Targets desired) (tgt_IQN t)")
      case None
      have "\<exists>r. q = targetPath (tgt_IQN t) @ r"
        using 2(2) by (auto simp: target_paths_def tpg_paths_def acl_paths_def path_defs)
      with None show ?thesis using removeTarget_reaches by (auto simp: prune_target_def)
    next
      case (Some dt)
      then have dt: "dt \<in> set (cfg_Targets desired)" "tgt_IQN dt = tgt_IQN t" using index_by_Some by fastforce+
      then have no: "q \<notin> set (target_paths dt)" using q(2) by (auto simp: object_paths_def)
      then obtain g where g: "g \<in> set (tgt_TPGs t)" "q \<in> set (tpg_paths (tgt_IQN t) g)"
        using 2(2) dt(2) by (auto simp: target_paths_def)
      show ?thesis using Some prune_tpg_reaches [OF g(2) no dt(2)]
        by (auto simp: prune_target_def intro!: reaches_each [OF g(1)] keeps)
    qed
    then show ?thesis unfolding prune_def by (intro reaches_first reaches_each [OF 2(1)] keeps TrueI)
  qed
qed

end

section \<open>The directories of objects\<close>

text \<open>Indices as Go's \<open>int\<close> has them, and the names below \<open>iscsi\<close> that are targets.\<close>

definition go_index :: "int \<Rightarrow> bool" where
  "go_index n \<longleftrightarrow> 0 \<le> n \<and> n < 2 ^ 63"

definition target_name :: "string \<Rightarrow> bool" where
  "target_name iqn \<longleftrightarrow> iqn \<noteq> ''discovery_auth'' \<and> iqn \<noteq> ''lio_version''"

inductive fabric_dir :: "path \<Rightarrow> bool" where
  target: "target_name iqn \<Longrightarrow> fabric_dir (targetPath iqn)"
| tpg: "target_name iqn \<Longrightarrow> go_index tag \<Longrightarrow> fabric_dir (tpgPath iqn tag)"
| lun: "target_name iqn \<Longrightarrow> go_index tag \<Longrightarrow> go_index n \<Longrightarrow> fabric_dir (lunPath iqn tag n)"
| acl: "target_name iqn \<Longrightarrow> go_index tag \<Longrightarrow> fabric_dir (aclPath iqn tag i)"
| mapped: "target_name iqn \<Longrightarrow> go_index tag \<Longrightarrow> go_index n \<Longrightarrow> fabric_dir (mappedLunPath iqn tag i n)"

inductive object_dir :: "path \<Rightarrow> bool" where
  backstore: "go_index (bs_HBA b) \<Longrightarrow> object_dir (objPath b)"
| fabric: "fabric_dir p \<Longrightarrow> object_dir p"

section \<open>Discovery finds every object\<close>

text \<open>
  A view of a tree: a directory stands in a directory, a directory is listed by the one that holds it
  and opens as one, a file that can be read stands in a directory, and what stands at the place of an
  object of the fabric is a directory.
\<close>

abbreviation dir_at :: "view \<Rightarrow> path \<Rightarrow> bool" where
  "dir_at v p \<equiv> v_lstat v p = Inr Dir"

definition tree_view :: "view \<Rightarrow> bool" where
  "tree_view v \<longleftrightarrow> (\<forall>p x. dir_at v (p @ [x]) \<longrightarrow> dir_at v p \<and> (\<forall>es. v_dir v p = Inr es \<longrightarrow> x \<in> fst ` set es))
     \<and> (\<forall>p. dir_at v p \<longrightarrow> v_dir v p \<noteq> Inl ENOENT \<and> (v_stat v p = Inr Dir \<or> (\<exists>e. e \<noteq> ENOENT \<and> v_stat v p = Inl e)))
     \<and> (\<forall>p x s. v_file v (p @ [x]) = Inr s \<longrightarrow> dir_at v p)
     \<and> (\<forall>p x. fabric_dir p \<and> v_lstat v p = Inr x \<longrightarrow> x = Dir)"

lemma tree_parent: "tree_view v \<Longrightarrow> dir_at v (p @ [x]) \<Longrightarrow> dir_at v p"
  unfolding tree_view_def by blast

lemma tree_file: "tree_view v \<Longrightarrow> v_file v (p @ [x]) = Inr s \<Longrightarrow> dir_at v p"
  unfolding tree_view_def by blast

lemma tree_fabric: "tree_view v \<Longrightarrow> fabric_dir p \<Longrightarrow> v_lstat v p = Inr x \<Longrightarrow> x = Dir"
  unfolding tree_view_def by blast

lemma tree_prefix: "tree_view v \<Longrightarrow> dir_at v (p @ q) \<Longrightarrow> dir_at v p"
proof (induction q rule: rev_induct)
  case (snoc x q)
  then show ?case using tree_parent [of v "p @ q" x] by simp
qed simp

lemma tree_entry: "tree_view v \<Longrightarrow> dir_at v (p @ [x]) \<Longrightarrow> v_dir v p = Inr es \<Longrightarrow> x \<in> fst ` set es"
  unfolding tree_view_def by blast

lemma tree_opens: "tree_view v \<Longrightarrow> dir_at v p \<Longrightarrow> v_dir v p \<noteq> Inl ENOENT \<and> (v_stat v p = Inr Dir \<or> (\<exists>e. e \<noteq> ENOENT \<and> v_stat v p = Inl e))"
  unfolding tree_view_def by blast

lemma ReadDir_Inr: "ReadDir v p = Inr ns \<Longrightarrow> \<exists>es. v_dir v p = Inr es \<and> ns = map fst es"
  by (auto simp: ReadDir_def read_entries_def split: sum.splits option.splits)

lemma tree_listed: "tree_view v \<Longrightarrow> dir_at v (p @ [x]) \<Longrightarrow> ReadDir v p = Inr ns \<Longrightarrow> x \<in> set ns"
  using tree_entry [of v p x] ReadDir_Inr [of v p ns] by (metis set_map)

lemma tree_readable: "tree_view v \<Longrightarrow> dir_at v p \<Longrightarrow> ReadDir v p = Inl e \<Longrightarrow> \<not> IsNotExist e"
proof -
  assume t: "tree_view v" "dir_at v p" "ReadDir v p = Inl e"
  have "\<not> IsNotExist c" if "checkParts ps = Some c" for ps c
    using that by (induction ps) (auto simp: IsNotExist_def split: if_splits)
  then show ?thesis using t(3) tree_opens [OF t(1,2)]
    by (auto simp: ReadDir_def read_entries_def IsNotExist_def split: sum.splits option.splits)
qed

lemma tree_is_dir: "tree_view v \<Longrightarrow> dir_at v p \<Longrightarrow> is_dir v obj p = Inr d \<Longrightarrow> d"
  using tree_opens [of v p] by (auto simp: is_dir_def IsDir_def split: sum.splits option.splits if_splits)

lemma tree_read_dir: "tree_view v \<Longrightarrow> dir_at v (p @ [x]) \<Longrightarrow> read_dir v obj p = Inr ns \<Longrightarrow> x \<in> set ns"
  using tree_listed [of v p x] by (auto simp: read_dir_def split: sum.splits)

lemma and_then_Inr: "and_then r f = Inr y \<longleftrightarrow> (\<exists>x. r = Inr x \<and> f x = Inr y)"
  by (cases r) auto

lemma parse_own_name: "go_index n \<Longrightarrow> parseLUN (''lun_'' @ itoa n) = Some n" "go_index n \<Longrightarrow> parseTPGT (''tpgt_'' @ itoa n) = Some n"
  unfolding parseLUN_def parseTPGT_def go_index_def by (simp_all only: parseIndexed_itoa)

lemma discover_acl_complete:
  assumes "tree_view v" and "dir_at v (aclPath iqn tag i)" and "discover_acl v iqn tag i = Inr acls"
  shows "\<exists>acl. acls = [acl] \<and> acl_InitiatorIQN acl = i
    \<and> (\<forall>n. go_index n \<and> dir_at v (mappedLunPath iqn tag i n) \<longrightarrow> n \<in> ml_Index ` set (acl_MappedLUNs acl))"
proof -
  obtain obj children mls where ch: "read_dir v obj (aclPath iqn tag i) = Inr children"
    and mls: "collect (discover_mapped v iqn tag i) children = Inr mls" and acls: "acls = [\<lparr>acl_InitiatorIQN = i, acl_MappedLUNs = mls\<rparr>]"
    using assms(3) tree_is_dir [OF assms(1,2)] by (auto simp: discover_acl_def and_then_Inr split: if_splits)
  have "n \<in> ml_Index ` set mls" if n: "go_index n" "dir_at v (mappedLunPath iqn tag i n)" for n
  proof -
    have "''lun_'' @ itoa n \<in> set children" using tree_read_dir [OF assms(1) _ ch, of "''lun_'' @ itoa n"] n(2) by (simp add: mappedLunPath_def)
    then obtain ys where "discover_mapped v iqn tag i (''lun_'' @ itoa n) = Inr ys" "set ys \<subseteq> set mls" using collect_app [OF mls] by blast
    moreover from this have "\<exists>m \<in> set ys. ml_Index m = n"
      unfolding discover_mapped_def parse_own_name(1) [OF n(1)] by (auto simp: and_then_Inr)
    ultimately show ?thesis by blast
  qed
  with acls show ?thesis by simp
qed

lemma discoverTPG_complete:
  assumes t: "tree_view v" and g: "discoverTPG v iqn tag = Inr g" and tag: "go_index tag"
  shows "tpg_Tag g = tag \<and> (go_index n \<and> dir_at v (lunPath iqn tag n) \<longrightarrow> n \<in> lun_Index ` set (tpg_LUNs g))
    \<and> (dir_at v (aclPath iqn tag i) \<longrightarrow> (\<exists>acl \<in> set (tpg_ACLs g). acl_InitiatorIQN acl = i
        \<and> (\<forall>n. go_index n \<and> dir_at v (mappedLunPath iqn tag i n) \<longrightarrow> n \<in> ml_Index ` set (acl_MappedLUNs acl))))"
proof -
  obtain o1 o2 lds as luns acls where lds: "read_dir v o1 (tpgPath iqn tag @ [''lun'']) = Inr lds"
    and luns: "collect (discover_lun v iqn tag) lds = Inr luns" and as: "read_dir v o2 (tpgPath iqn tag @ [''acls'']) = Inr as"
    and acls: "collect (discover_acl v iqn tag) as = Inr acls" and f: "tpg_Tag g = tag" "tpg_LUNs g = luns" "tpg_ACLs g = acls"
    using g by (auto simp: discoverTPG_def Let_def and_then_Inr)
  have "n \<in> lun_Index ` set luns" if n: "go_index n" "dir_at v (lunPath iqn tag n)"
  proof -
    have "''lun_'' @ itoa n \<in> set lds" using tree_read_dir [OF t _ lds, of "''lun_'' @ itoa n"] n(2) by (simp add: lunPath_def)
    then obtain ys where "discover_lun v iqn tag (''lun_'' @ itoa n) = Inr ys" "set ys \<subseteq> set luns" using collect_app [OF luns] by blast
    moreover from this have "\<exists>l \<in> set ys. lun_Index l = n"
      unfolding discover_lun_def parse_own_name(1) [OF n(1)] by (auto simp: and_then_Inr)
    ultimately show ?thesis by blast
  qed
  moreover have "\<exists>acl \<in> set acls. acl_InitiatorIQN acl = i
        \<and> (\<forall>n. go_index n \<and> dir_at v (mappedLunPath iqn tag i n) \<longrightarrow> n \<in> ml_Index ` set (acl_MappedLUNs acl))"
    if i: "dir_at v (aclPath iqn tag i)"
  proof -
    have "i \<in> set as" using tree_read_dir [OF t _ as, of i] i by (simp add: aclPath_def)
    then obtain ys where "discover_acl v iqn tag i = Inr ys" "set ys \<subseteq> set acls" using collect_app [OF acls] by blast
    then show ?thesis using discover_acl_complete [OF t i] by fastforce
  qed
  ultimately show ?thesis using f by simp
qed

lemma discover_target_complete:
  assumes t: "tree_view v" and name: "target_name iqn" and dir: "dir_at v (targetPath iqn)" and d: "discover_target v iqn = Inr ts"
  shows "\<exists>tg. ts = [tg] \<and> tgt_IQN tg = iqn \<and> (\<forall>tag. go_index tag \<and> dir_at v (tpgPath iqn tag) \<longrightarrow>
    (\<exists>g \<in> set (tgt_TPGs tg). discoverTPG v iqn tag = Inr g))"
proof -
  have there: "is_dir v obj [''iscsi'', iqn] = Inr x \<Longrightarrow> x" for obj x using tree_is_dir [OF t] dir by (simp add: targetPath_def)
  obtain obj tds tpgs where tds: "read_dir v obj [''iscsi'', iqn] = Inr tds"
    and tpgs: "collect (\<lambda>td. case parseTPGT td of None \<Rightarrow> Inr []
       | Some tag \<Rightarrow> and_then (discoverTPG v iqn tag) (\<lambda>g. Inr [g])) tds = Inr tpgs" and ts: "ts = [\<lparr>tgt_IQN = iqn, tgt_TPGs = tpgs\<rparr>]"
    using d name there by (auto simp: discover_target_def target_name_def and_then_Inr split: if_splits)
  have "\<exists>g \<in> set tpgs. discoverTPG v iqn tag = Inr g" if tag: "go_index tag" "dir_at v (tpgPath iqn tag)" for tag
  proof -
    have "''tpgt_'' @ itoa tag \<in> set tds" using tree_read_dir [OF t _ tds, of "''tpgt_'' @ itoa tag"] tag(2) by (simp add: tpgPath_def)
    from collect_app [OF tpgs this] obtain ys where "and_then (discoverTPG v iqn tag) (\<lambda>g. Inr [g]) = Inr ys" "set ys \<subseteq> set tpgs"
      unfolding parse_own_name(2) [OF tag(1)] by auto
    then show ?thesis by (auto simp: and_then_Inr)
  qed
  with ts show ?thesis by simp
qed

lemma Discover_target:
  assumes t: "tree_view v" and d: "Discover v = Inr actual" and name: "target_name iqn" and dir: "dir_at v (targetPath iqn)"
  obtains tg where "tg \<in> set (cfg_Targets actual)" "tgt_IQN tg = iqn" "\<And>tag. go_index tag \<Longrightarrow> dir_at v (tpgPath iqn tag) \<Longrightarrow>
    \<exists>g \<in> set (tgt_TPGs tg). discoverTPG v iqn tag = Inr g"
proof -
  have root: "dir_at v [''iscsi'']" using tree_parent [OF t, of "[''iscsi'']" iqn] dir by (simp add: targetPath_def)
  then have "\<not> (ReadDir v [''iscsi''] = Inl e \<and> IsNotExist e)" for e using tree_readable [OF t] by blast
  moreover have "discoverTargets v = Inr (cfg_Targets actual)" using d by (auto simp: Discover_def and_then_Inr split: sum.splits if_splits)
  ultimately obtain iqns where iqns: "ReadDir v [''iscsi''] = Inr iqns" "collect (discover_target v) iqns = Inr (cfg_Targets actual)"
    by (auto simp: discoverTargets_def split: sum.splits if_splits)
  have "iqn \<in> set iqns" using tree_listed [OF t _ iqns(1), of iqn] dir by (simp add: targetPath_def)
  from collect_app [OF iqns(2) this] obtain ts where ts: "discover_target v iqn = Inr ts" "set ts \<subseteq> set (cfg_Targets actual)" by blast
  from discover_target_complete [OF t name dir ts(1)] ts(2) that show thesis by fastforce
qed

lemma discover_object_path: "discover_object v hba plugin idx name = Inr b \<Longrightarrow> bs_Type b = plugin \<and> bs_HBA b = idx \<and> bs_Name b = name"
  unfolding discover_object_def Let_def by (auto simp: and_then_Inr split: prod.splits)

lemma Discover_backstores: "Discover v = Inr actual \<Longrightarrow> discoverBackstores v = Inr (cfg_Backstores actual)"
  by (auto simp: Discover_def and_then_Inr split: sum.splits if_splits)

lemma Discover_plain:
  assumes "Discover v = Inr actual" and "b \<in> set (cfg_Backstores actual)"
  shows "CHR ''/'' \<notin> set (bs_Type b)"
proof -
  have d: "discoverBackstores v = Inr (cfg_Backstores actual)" by (rule Discover_backstores [OF assms(1)])
  obtain hbas where "collect (discover_hba v) hbas = Inr (cfg_Backstores actual)"
    using d assms(2) by (auto simp: discoverBackstores_def split: sum.splits if_splits)
  from collect_from [OF this assms(2)] obtain hba ys where h: "discover_hba v hba = Inr ys" "b \<in> set ys" by blast
  then obtain plugin idx n obj ns where sp: "splitLast hba CHR ''_'' = Some (plugin, idx)" "read_dir v obj [''core'', hba] = Inr ns"
    and ys: "collect (\<lambda>name. and_then (is_dir v (''core/'' @ hba @ ''/'' @ name) [''core'', hba, name]) (\<lambda>d.
          if d then and_then (discover_object v hba plugin n name) (\<lambda>b. Inr [b]) else Inr [])) ns = Inr ys"
    by (auto simp: discover_hba_def and_then_Inr split: option.splits)
  from collect_from [OF ys h(2)] obtain name where "discover_object v hba plugin n name = Inr b"
    by (auto simp: and_then_Inr split: if_splits)
  then have "bs_Type b = plugin" by (simp add: discover_object_path)
  moreover have "validSeg hba" using sp(2) by (auto simp: read_dir_def ReadDir_def read_entries_def split: sum.splits option.splits if_splits)
  ultimately show ?thesis using cutLast_Some sp(1) by (fastforce simp: splitLast_def validSeg_def)
qed

lemma Discover_backstore:
  assumes t: "tree_view v" and d: "Discover v = Inr actual" and dir: "dir_at v (objPath b)" and hba: "go_index (bs_HBA b)"
  shows "objPath b \<in> objPath ` set (cfg_Backstores actual)"
proof -
  have up: "dir_at v [''core'', dirName b]" using tree_parent [OF t, of "[''core'', dirName b]"] dir by (simp add: objPath_def)
  have core: "dir_at v [''core'']" using tree_parent [OF t, of "[''core'']"] up by simp
  then have "\<not> (ReadDir v [''core''] = Inl e \<and> IsNotExist e)" for e using tree_readable [OF t] by blast
  with Discover_backstores [OF d] obtain hbas where hbas: "ReadDir v [''core''] = Inr hbas" "collect (discover_hba v) hbas = Inr (cfg_Backstores actual)"
    by (auto simp: discoverBackstores_def split: sum.splits if_splits)
  have "dirName b \<in> set hbas" using tree_listed [OF t _ hbas(1), of "dirName b"] up by simp
  from collect_app [OF hbas(2) this] obtain ys where ys: "discover_hba v (dirName b) = Inr ys" "set ys \<subseteq> set (cfg_Backstores actual)" by blast
  have "splitLast (dirName b) CHR ''_'' = Some (bs_Type b, itoa (bs_HBA b))" "atoi_go (itoa (bs_HBA b)) = Some (bs_HBA b)"
    using hba by (simp_all add: dirName_def splitLast_def notin_itoa digit_val_def parseInt10_itoa go_index_def)
  with ys(1) obtain obj ns where ns: "read_dir v obj [''core'', dirName b] = Inr ns"
    and c: "collect (\<lambda>name. and_then (is_dir v (''core/'' @ dirName b @ ''/'' @ name) [''core'', dirName b, name]) (\<lambda>d.
          if d then and_then (discover_object v (dirName b) (bs_Type b) (bs_HBA b) name) (\<lambda>b. Inr [b]) else Inr [])) ns = Inr ys"
    by (auto simp: discover_hba_def and_then_Inr)
  have "bs_Name b \<in> set ns" using tree_read_dir [OF t _ ns, of "bs_Name b"] dir by (simp add: objPath_def)
  from collect_app [OF c this] obtain x where "discover_object v (dirName b) (bs_Type b) (bs_HBA b) (bs_Name b) = Inr x" "x \<in> set ys"
    using tree_is_dir [OF t dir] by (auto simp: and_then_Inr objPath_def split: if_splits)
  then have "objPath x = objPath b" "x \<in> set (cfg_Backstores actual)" using ys(2) discover_object_path by (fastforce simp: objPath_def dirName_def)+
  then show ?thesis by (metis imageI)
qed

lemma tpg_objects_found:
  assumes t: "tree_view v" and g: "discoverTPG v iqn tag = Inr g" "go_index tag" and n: "go_index n"
  shows "tpgPath iqn tag \<in> set (tpg_paths iqn g)"
    and "dir_at v (lunPath iqn tag n) \<Longrightarrow> lunPath iqn tag n \<in> set (tpg_paths iqn g)"
    and "dir_at v (aclPath iqn tag i) \<Longrightarrow> aclPath iqn tag i \<in> set (tpg_paths iqn g)"
    and "dir_at v (mappedLunPath iqn tag i n) \<Longrightarrow> mappedLunPath iqn tag i n \<in> set (tpg_paths iqn g)"
proof -
  note c = discoverTPG_complete [OF t g, of n i]
  then have tag: "tpg_Tag g = tag" by blast
  show "tpgPath iqn tag \<in> set (tpg_paths iqn g)" by (simp add: tpg_paths_def tag)
  show "lunPath iqn tag n \<in> set (tpg_paths iqn g)" if l: "dir_at v (lunPath iqn tag n)"
  proof -
    obtain l where "l \<in> set (tpg_LUNs g)" "lun_Index l = n" using c n l by blast
    then show ?thesis by (force simp: tpg_paths_def tag)
  qed
  have acl: "\<exists>acl \<in> set (tpg_ACLs g). acl_InitiatorIQN acl = i
        \<and> (\<forall>n. go_index n \<and> dir_at v (mappedLunPath iqn tag i n) \<longrightarrow> n \<in> ml_Index ` set (acl_MappedLUNs acl))"
    if "dir_at v (aclPath iqn tag i)" using c that by blast
  then show "aclPath iqn tag i \<in> set (tpg_paths iqn g)" if "dir_at v (aclPath iqn tag i)"
    using that by (force simp: tpg_paths_def acl_paths_def tag)
  show "mappedLunPath iqn tag i n \<in> set (tpg_paths iqn g)" if m: "dir_at v (mappedLunPath iqn tag i n)"
  proof -
    have "dir_at v (aclPath iqn tag i)" using tree_parent [OF t] m unfolding mappedLunPath_def by blast
    then obtain acl l where "acl \<in> set (tpg_ACLs g)" "acl_InitiatorIQN acl = i" "l \<in> set (acl_MappedLUNs acl)" "ml_Index l = n"
      using acl n m by blast
    then show ?thesis by (force simp: tpg_paths_def acl_paths_def tag)
  qed
qed

lemma Discover_complete:
  assumes t: "tree_view v" and d: "Discover v = Inr actual" and q: "object_dir q" "dir_at v q"
  shows "q \<in> set (object_paths actual)"
  using q(1)
proof cases
  case (backstore b)
  then show ?thesis using Discover_backstore [OF t d] q(2) by (auto simp: object_paths_def)
next
  case fabric
  have found: "q \<in> set (object_paths actual)"
    if iqn: "target_name iqn" "go_index tag" and s: "q = tpgPath iqn tag @ s" and in_tpg: "\<And>g. discoverTPG v iqn tag = Inr g \<Longrightarrow> q \<in> set (tpg_paths iqn g)" for iqn tag s
  proof -
    have "dir_at v (tpgPath iqn tag)" using tree_prefix [OF t] q(2) s by blast
    moreover from this have "dir_at v (targetPath iqn)" using tree_parent [OF t, of "targetPath iqn"] by (simp add: path_defs)
    ultimately obtain tg g where "tg \<in> set (cfg_Targets actual)" "tgt_IQN tg = iqn" "g \<in> set (tgt_TPGs tg)" "discoverTPG v iqn tag = Inr g"
      using Discover_target [OF t d iqn(1)] iqn(2) by metis
    then show ?thesis using in_tpg by (auto simp: object_paths_def target_paths_def)
  qed
  from fabric show ?thesis
  proof cases
    case (target iqn)
    obtain tg where "tg \<in> set (cfg_Targets actual)" "tgt_IQN tg = iqn"
      using Discover_target [OF t d target(2)] q(2) target(1) by metis
    then show ?thesis using target(1) by (auto simp: object_paths_def target_paths_def)
  next
    case (tpg iqn tag)
    then show ?thesis using tpg_objects_found(1) [OF t _ _ tpg(3)] by (intro found [of iqn tag "[]"]) auto
  next
    case (lun iqn tag n)
    then show ?thesis using tpg_objects_found(2) [OF t _ lun(3,4)] q(2)
      by (intro found [of iqn tag "[''lun'', ''lun_'' @ itoa n]"]) (auto simp: lunPath_def)
  next
    case (acl iqn tag i)
    then show ?thesis using tpg_objects_found(3) [OF t _ acl(3,3)] q(2)
      by (intro found [of iqn tag "[''acls'', i]"]) (auto simp: aclPath_def)
  next
    case (mapped iqn tag n i)
    then show ?thesis using tpg_objects_found(4) [OF t _ mapped(3,4)] q(2)
      by (intro found [of iqn tag "[''acls'', i, ''lun_'' @ itoa n]"]) (auto simp: mappedLunPath_def aclPath_def)
  qed
qed

section \<open>Kernels that behave as configfs\<close>

text \<open>
  The laws, one system call at a time: every state shows a tree; a directory that was made is there; a
  directory that was removed, or was not there to remove, is not there; the directory of an object goes
  away only by its own removal; and removals make no directory.
\<close>

abbreviation stands :: "'k kernel \<Rightarrow> 'k \<Rightarrow> path \<Rightarrow> bool" where
  "stands K k p \<equiv> dir_at (k_view K k) p"

definition lawful :: "'k kernel \<Rightarrow> bool" where
  "lawful K \<longleftrightarrow> (\<forall>k. tree_view (k_view K k))
     \<and> (\<forall>p k k'. k_mkdir K p k = (None, k') \<longrightarrow> stands K k' p)
     \<and> (\<forall>p k r k'. k_rmdir K p k = (r, k') \<and> (r = None \<or> r = Some ENOENT) \<longrightarrow> \<not> stands K k' p)
     \<and> (\<forall>q k. object_dir q \<and> stands K k q \<longrightarrow>
          (\<forall>p. stands K (snd (k_mkdir K p k)) q \<and> stands K (snd (k_unlink K p k)) q \<and> (p \<noteq> q \<longrightarrow> stands K (snd (k_rmdir K p k)) q))
          \<and> (\<forall>s p. stands K (snd (k_write K s p k)) q \<and> stands K (snd (k_symlink K s p k)) q)
          \<and> (\<forall>n. stands K (snd (k_random K n k)) q))
     \<and> (\<forall>p q k. stands K (snd (k_rmdir K p k)) q \<or> stands K (snd (k_unlink K p k)) q \<longrightarrow> stands K k q)"

lemma lawful_tree: "lawful K \<Longrightarrow> tree_view (k_view K k)"
  unfolding lawful_def by blast

lemma lawful_mkdir: "lawful K \<Longrightarrow> k_mkdir K p k = (None, k') \<Longrightarrow> stands K k' p"
  unfolding lawful_def by blast

lemma lawful_rmdir: "lawful K \<Longrightarrow> k_rmdir K p k = (r, k') \<Longrightarrow> r = None \<or> r = Some ENOENT \<Longrightarrow> \<not> stands K k' p"
  unfolding lawful_def by blast

lemma lawful_keeps:
  assumes "lawful K" "object_dir q" "stands K k q"
  shows "stands K (snd (k_mkdir K p k)) q" "stands K (snd (k_unlink K p k)) q" "p \<noteq> q \<Longrightarrow> stands K (snd (k_rmdir K p k)) q"
    "stands K (snd (k_write K s p k)) q" "stands K (snd (k_symlink K s p k)) q" "stands K (snd (k_random K n k)) q"
  using assms unfolding lawful_def by blast+

lemma lawful_removals:
  assumes "lawful K" "\<not> stands K k q"
  shows "\<not> stands K (snd (k_rmdir K p k)) q" "\<not> stands K (snd (k_unlink K p k)) q"
  using assms unfolding lawful_def by blast+

text \<open>The two invariants: a desired object stands, and a directory is gone.\<close>

definition desired_stands :: "'k Manager \<Rightarrow> Config \<Rightarrow> path \<Rightarrow> 'k \<Rightarrow> bool" where
  "desired_stands M desired q k \<longleftrightarrow> (lawful (m_fs M) \<and> object_dir q \<and> q \<in> set (object_paths desired) \<longrightarrow> stands (m_fs M) k q)"

definition dir_gone :: "'k Manager \<Rightarrow> path \<Rightarrow> 'k \<Rightarrow> bool" where
  "dir_gone M p k \<longleftrightarrow> (lawful (m_fs M) \<longrightarrow> \<not> stands (m_fs M) k p)"

interpretation kept: spare_guard M "desired_stands M desired q" "\<lambda>p. p \<notin> set (object_paths desired)" "\<lambda>s p. True" desired
  for M :: "'k Manager" and desired q
proof unfold_locales
  fix p k
  assume "p \<notin> set (object_paths desired)" and "desired_stands M desired q k"
  then show "desired_stands M desired q (snd (k_rmdir (m_fs M) p k))"
    unfolding desired_stands_def using lawful_keeps(3) by metis
qed (simp_all add: desired_stands_def lawful_keeps)

lemma fabric_of_object: "object_dir q \<Longrightarrow> hd q = ''iscsi'' \<Longrightarrow> fabric_dir q"
  by (erule object_dir.cases) (auto simp: objPath_def)

interpretation made: making_kernel M "desired_stands M desired q" "\<lambda>p. p \<notin> set (object_paths desired)" "\<lambda>s p. True" q
  for M :: "'k Manager" and desired q
proof unfold_locales
  fix k k'
  assume "Mkdir (m_fs M) q k = (None, k')"
  then show "desired_stands M desired q k'"
    by (auto simp: desired_stands_def Mkdir_def lawful_mkdir split: option.splits prod.splits if_splits)
next
  fix k
  assume "hd q = ''iscsi''" and "Configfs.Exists (k_view (m_fs M) k) q = Inr True"
  then show "desired_stands M desired q k"
    using tree_fabric [OF lawful_tree fabric_of_object]
    by (auto simp: desired_stands_def Configfs.Exists_def split: option.splits sum.splits if_splits)
next
  fix k x s
  assume "ReadAttr (k_view (m_fs M) k) (q @ [x]) = Inr s"
  then show "desired_stands M desired q k"
    using tree_file [OF lawful_tree]
    by (auto simp: desired_stands_def ReadAttr_def split: option.splits sum.splits)
qed

interpretation cleared: clearing_kernel M "dir_gone M" for M :: "'k Manager"
proof unfold_locales
  fix p k k'
  assume "Rmdir (m_fs M) p k = (None, k')"
  then show "dir_gone M p k'"
    using lawful_rmdir [of "m_fs M" p k] by (auto simp: dir_gone_def Rmdir_def split: option.splits prod.splits if_splits)
next
  fix k p
  assume "Configfs.Exists (k_view (m_fs M) k) p = Inr False"
  then show "dir_gone M p k"
    by (auto simp: dir_gone_def Configfs.Exists_def split: option.splits sum.splits if_splits)
next
  fix p k q
  assume "dir_gone M p k"
  then show "dir_gone M (p @ q) k" unfolding dir_gone_def using tree_prefix lawful_tree by metis
qed (simp_all add: dir_gone_def lawful_removals)

section \<open>The property\<close>

lemma Sync_success:
  assumes "Sync M desired k = ((rep, None), k')"
  obtains k0 a1 actual x y a where "valid_config desired" and "apply_pass M desired (fresh_ctx k0) = (None, a1)"
    and "Discover (k_view (m_fs M) (a_kern a1)) = Inr actual"
    and "prune M desired actual \<lparr>a_kern = a_kern a1, a_changes = x, a_drift = y\<rparr> = (None, a)" and "k' = a_kern a"
  using assms that
  by (auto simp: Sync_def Apply_def Validate_ok_iff report_def split: option.splits prod.splits sum.splits)

lemma Sync_leaves_desired:
  assumes "lawful (m_fs M)" and "Sync M desired k = ((rep, None), k')" and "object_dir q"
  shows "stands (m_fs M) k' q \<longleftrightarrow> q \<in> set (object_paths desired)"
proof -
  obtain k0 a1 actual x y a where v: "valid_config desired" and ap: "apply_pass M desired (fresh_ctx k0) = (None, a1)"
    and d: "Discover (k_view (m_fs M) (a_kern a1)) = Inr actual"
    and pr: "prune M desired actual \<lparr>a_kern = a_kern a1, a_changes = x, a_drift = y\<rparr> = (None, a)" "k' = a_kern a"
    by (rule Sync_success [OF assms(2)])
  show ?thesis
  proof (cases "q \<in> set (object_paths desired)")
    case True
    have "desired_stands M desired q (a_kern a1)" by (rule reachesD [OF made.apply_pass_reaches [OF True] ap])
    then have "desired_stands M desired q k'" using preservingD [OF kept.prune_keeps [OF v] pr(1)] pr(2) by simp
    with True show ?thesis using assms(1,3) by (simp add: desired_stands_def)
  next
    case False
    have "dir_gone M q k'"
    proof (cases "stands (m_fs M) (a_kern a1) q")
      case True
      have "q \<in> set (object_paths actual)" by (rule Discover_complete [OF lawful_tree [OF assms(1)] d assms(3) True])
      from reachesD [OF cleared.prune_reaches [OF this False v Discover_plain [OF d]] pr(1)] pr(2) show ?thesis by simp
    next
      case False
      then show ?thesis using preservingD [OF cleared.prune_keeps pr(1)] pr(2) by (simp add: dir_gone_def)
    qed
    with False show ?thesis using assms(1) by (simp add: dir_gone_def)
  qed
qed

text \<open>C4. A reconcile that reports success has made the kernel's objects exactly the desired ones: for every
  kernel that keeps the laws of configfs, whatever objects were there before, the directory of a
  backstore, target, TPG, LUN, ACL or mapped LUN is present afterwards if and only if that object is in
  the desired configuration.\<close>

theorem sync_exact:
  assumes "lawful (m_fs M)" and "Sync M desired k = ((rep, None), k')" and "object_dir q"
  shows "stands (m_fs M) k' q \<longleftrightarrow> q \<in> set (object_paths desired)"
  using assms by (rule Sync_leaves_desired)

section \<open>A kernel that keeps the laws\<close>

text \<open>
  A kernel whose state is the list of its directories. Making a TPG makes the groups \<open>np\<close>, \<open>lun\<close> and
  \<open>acls\<close> in it; a directory that holds anything but these is not removed. Every file in a directory can
  be read.
\<close>

definition dir_in :: "path list \<Rightarrow> path \<Rightarrow> bool" where
  "dir_in ds p \<longleftrightarrow> list_all (\<lambda>q. q \<in> set ds) (prefixes p)"

lemma dir_in_iff: "dir_in ds p \<longleftrightarrow> (\<forall>q. prefix q p \<longrightarrow> q \<in> set ds)"
  by (auto simp: dir_in_def list_all_iff)

definition dir_list_view :: "path list \<Rightarrow> view" where
  "dir_list_view ds = empty_view\<lparr>
     v_lstat := (\<lambda>p. if dir_in ds p then Inr Dir else Inl ENOENT), v_stat := (\<lambda>p. if dir_in ds p then Inr Dir else Inl ENOENT),
     v_file := (\<lambda>p. if p = [] \<or> \<not> dir_in ds (butlast p) then Inl ENOENT
        else if last p = ''info'' then Inr ''Size: 4096 Mode: O_DSYNC'' else Inr ''0''),
     v_dir := (\<lambda>p. if dir_in ds p then Inr (map (\<lambda>d. (last d, Dir)) (filter (\<lambda>d. d \<noteq> [] \<and> butlast d = p) ds)) else Inl ENOENT)\<rparr>"

definition groups_of :: "path \<Rightarrow> path list" where
  "groups_of p = (if length p = 3 \<and> hd p = ''iscsi'' then [p @ [''np''], p @ [''lun''], p @ [''acls'']] else [])"

definition dir_list_mkdir :: "path \<Rightarrow> path list \<Rightarrow> errno option \<times> path list" where
  "dir_list_mkdir p ds = (if dir_in ds p then (Some EEXIST, ds)
     else if p = [] \<or> \<not> dir_in ds (butlast p) then (Some ENOENT, ds) else (None, p # groups_of p @ ds))"

definition dir_list_rmdir :: "path \<Rightarrow> path list \<Rightarrow> errno option \<times> path list" where
  "dir_list_rmdir p ds = (if \<not> dir_in ds p then (Some ENOENT, ds)
     else if list_ex (\<lambda>d. strict_prefix p d \<and> length d \<noteq> 4) ds then (Some ENOTEMPTY, ds)
     else (None, filter (\<lambda>d. \<not> prefix p d) ds))"

definition dir_list_kernel :: "path list kernel" where
  "dir_list_kernel = \<lparr>k_view = dir_list_view, k_mkdir = dir_list_mkdir, k_rmdir = dir_list_rmdir, k_unlink = (\<lambda>p k. (None, k)),
     k_write = (\<lambda>s p k. (None, k)), k_symlink = (\<lambda>t p k. (None, k)), k_random = (\<lambda>n k. (replicate n 0, k))\<rparr>"

lemma object_not_group: "object_dir q \<Longrightarrow> length q \<noteq> 4"
  by (erule object_dir.cases) (auto simp: path_defs elim!: fabric_dir.cases)

lemma dir_list_tree: "tree_view (dir_list_view ds)"
proof -
  have up: "dir_in ds p" if "dir_in ds (p @ [x])" for p x using that by (auto simp: dir_in_iff)
  have "x \<in> last ` {d \<in> set ds. d \<noteq> [] \<and> butlast d = p}" if "dir_in ds (p @ [x])" for p x
    using that by (intro image_eqI [of _ _ "p @ [x]"]) (auto simp: dir_in_iff)
  then have listed: "x \<in> fst ` set es" if "dir_in ds (p @ [x])" "v_dir (dir_list_view ds) p = Inr es" for p x es
    using that by (auto simp: dir_list_view_def image_image split: if_splits)
  have shown: "dir_at (dir_list_view ds) p \<longleftrightarrow> dir_in ds p" "dir_in ds p \<Longrightarrow> v_stat (dir_list_view ds) p = Inr Dir"
    "dir_in ds p \<Longrightarrow> v_dir (dir_list_view ds) p \<noteq> Inl ENOENT" "v_file (dir_list_view ds) (p @ [x]) = Inr s \<Longrightarrow> dir_in ds p"
    "v_lstat (dir_list_view ds) p = Inr x' \<Longrightarrow> x' = Dir" for p x s x'
    by (auto simp: dir_list_view_def split: if_splits)
  show ?thesis unfolding tree_view_def shown(1) using up listed shown(2-5) by blast
qed

lemma dir_list_rmdir_keeps:
  assumes "dir_in ds q" and "length q \<noteq> 4" and "p \<noteq> q"
  shows "dir_in (snd (dir_list_rmdir p ds)) q"
proof -
  have "q \<in> set ds" using assms(1) by (simp add: dir_in_iff)
  then have "\<not> strict_prefix p q" if "\<not> list_ex (\<lambda>d. strict_prefix p d \<and> length d \<noteq> 4) ds"
    using that assms(2) by (auto simp: list_ex_iff)
  then have "\<not> prefix p q" if "\<not> list_ex (\<lambda>d. strict_prefix p d \<and> length d \<noteq> 4) ds"
    using that assms(3) by (auto simp: strict_prefix_def)
  then show ?thesis using assms(1) by (auto simp: dir_list_rmdir_def dir_in_iff dest: prefix_order.trans)
qed

lemma dir_list_lawful: "lawful dir_list_kernel"
proof -
  have lstat: "dir_at (dir_list_view ds) p \<longleftrightarrow> dir_in ds p" for ds p by (simp add: dir_list_view_def)
  have made: "dir_in ds' p" if "dir_list_mkdir p ds = (None, ds')" for p ds ds'
  proof -
    have "p \<noteq> []" and old: "\<forall>q. prefix q (butlast p) \<longrightarrow> q \<in> set ds" and ds': "ds' = p # groups_of p @ ds"
      using that by (auto simp: dir_list_mkdir_def dir_in_iff split: if_splits)
    moreover have "prefix q p \<Longrightarrow> q = p \<or> prefix q (butlast p)" for q
      using \<open>p \<noteq> []\<close> by (metis append_butlast_last_id prefix_snoc)
    ultimately show ?thesis by (auto simp: dir_in_iff)
  qed
  have "dir_in (snd (dir_list_mkdir p ds)) q" if "dir_in ds q" for p ds q
    using that by (auto simp: dir_list_mkdir_def dir_in_iff)
  moreover have "\<not> dir_in ds' p" if "dir_list_rmdir p ds = (r, ds')" "r = None \<or> r = Some ENOENT" for p ds r ds'
    using that by (auto simp: dir_list_rmdir_def dir_in_iff split: if_splits)
  moreover have "dir_in ds q" if "dir_in (snd (dir_list_rmdir p ds)) q" for p ds q
    using that by (auto simp: dir_list_rmdir_def dir_in_iff split: if_splits)
  moreover have "dir_in (snd (dir_list_rmdir p ds)) q" if "object_dir q" "dir_in ds q" "p \<noteq> q" for p ds q
    using dir_list_rmdir_keeps that object_not_group by blast
  moreover have "k_view dir_list_kernel = dir_list_view" "k_mkdir dir_list_kernel = dir_list_mkdir" "k_rmdir dir_list_kernel = dir_list_rmdir"
    "snd (k_unlink dir_list_kernel p ds) = ds" "snd (k_write dir_list_kernel s p ds) = ds" "snd (k_symlink dir_list_kernel s p ds) = ds"
    "snd (k_random dir_list_kernel n ds) = ds" for p s n ds by (simp_all add: dir_list_kernel_def)
  ultimately show ?thesis unfolding lawful_def lstat
    using dir_list_tree made by (simp only: lstat) blast
qed

text \<open>A tree with a backstore and a target that are not desired.\<close>

definition junk_dirs :: "path list" where
  "junk_dirs = [[], [''core''], [''core'', ''fileio_0''], [''core'', ''fileio_0'', ''old''], [''iscsi''], [''iscsi'', ''gone'']]"

definition dir_list_manager :: "path list Manager" where
  "dir_list_manager = \<lparr>m_fs = dir_list_kernel, m_aptplRecords = None\<rparr>"

lemma junk_synced: "snd (fst (Sync dir_list_manager (example_config 4096 []) junk_dirs)) = None"
  by code_simp

lemma sync_exact_witness:
  "\<exists>rep ds. lawful dir_list_kernel \<and> Sync dir_list_manager (example_config 4096 []) junk_dirs = ((rep, None), ds)
     \<and> stands dir_list_kernel ds (lunPath ''iqn.t'' 1 0) \<and> stands dir_list_kernel junk_dirs (targetPath ''gone'')
     \<and> \<not> stands dir_list_kernel ds (targetPath ''gone'')"
proof -
  obtain rep r ds where run: "Sync dir_list_manager (example_config 4096 []) junk_dirs = ((rep, r), ds)" by (metis prod.exhaust)
  with junk_synced have ok: "Sync dir_list_manager (example_config 4096 []) junk_dirs = ((rep, None), ds)" by simp
  have fs: "m_fs dir_list_manager = dir_list_kernel" by (simp add: dir_list_manager_def)
  note exact = sync_exact [of dir_list_manager, unfolded fs, OF dir_list_lawful ok]
  have obj: "object_dir (lunPath ''iqn.t'' 1 0)" "object_dir (targetPath ''gone'')"
    by (auto simp: target_name_def go_index_def intro!: object_dir.fabric fabric_dir.intros)
  have "lunPath ''iqn.t'' 1 0 \<in> set (object_paths (example_config 4096 []))"
    "targetPath ''gone'' \<notin> set (object_paths (example_config 4096 []))"
    by (simp_all add: object_paths_def target_paths_def tpg_paths_def acl_paths_def example_config_def path_defs)
  then have "stands dir_list_kernel ds (lunPath ''iqn.t'' 1 0)" "\<not> stands dir_list_kernel ds (targetPath ''gone'')"
    using exact [OF obj(1)] exact [OF obj(2)] by simp_all
  moreover have "stands dir_list_kernel junk_dirs (targetPath ''gone'')"
    by (simp add: dir_list_kernel_def dir_list_view_def dir_in_def junk_dirs_def targetPath_def)
  ultimately show ?thesis using dir_list_lawful ok by blast
qed

end
