(* ===== verification/Saveconfig.thy ===== *)
theory Saveconfig
  imports Json Lio_Exact Storage
begin

text \<open>
  Package \<open>saveconfig\<close>: the live configuration written to a file as JSON and read back (saveconfig.go), with the
  encoding that the struct tags of lio/model.go give. A host has a kernel, files, and an operating
  system whose calls may fail.
\<close>

section \<open>The encoding of a configuration (lio/model.go)\<close>

definition put_Backstore :: "Backstore \<Rightarrow> json" where
  "put_Backstore b = JObj (member ''type'' (put_str (bs_Type b)) @ member ''hba'' (put_int (bs_HBA b))
     @ member ''name'' (put_str (bs_Name b)) @ member ''dev'' (put_str (bs_Dev b))
     @ member_unless (\<not> bs_BufferedIO b) ''buffered_io'' (JBool (bs_BufferedIO b))
     @ member_unless (bs_Size b = 0) ''size'' (put_int (bs_Size b)) @ member_unless (bs_WWN b = []) ''wwn'' (put_str (bs_WWN b))
     @ member_unless (bs_VendorID b = []) ''vendor_id'' (put_str (bs_VendorID b))
     @ member_unless (bs_ProductID b = []) ''product_id'' (put_str (bs_ProductID b))
     @ member_unless (bs_Revision b = []) ''revision'' (put_str (bs_Revision b))
     @ member_unless (bs_Attributes b = []) ''attributes'' (put_map (bs_Attributes b)))"

definition put_Portal :: "Portal \<Rightarrow> json" where
  "put_Portal p = JObj (member ''ip'' (put_addr (po_IP p)) @ member_unless (po_Port p = 0) ''port'' (put_int (uint (po_Port p))))"

definition put_LUN :: "LUN \<Rightarrow> json" where
  "put_LUN l = JObj (member ''index'' (put_int (lun_Index l)) @ member ''backstore'' (put_str (lun_Backstore l)))"

definition put_MappedLUN :: "MappedLUN \<Rightarrow> json" where
  "put_MappedLUN m = JObj (member ''index'' (put_int (ml_Index m)) @ member ''tpg_lun'' (put_int (ml_TPGLUN m))
     @ member_unless (\<not> ml_WriteProtect m) ''write_protect'' (JBool (ml_WriteProtect m)))"

definition put_ACL :: "ACL \<Rightarrow> json" where
  "put_ACL a = JObj (member ''initiator_iqn'' (put_str (acl_InitiatorIQN a))
     @ member_unless (acl_MappedLUNs a = []) ''mapped_luns'' (put_list put_MappedLUN (acl_MappedLUNs a)))"

definition put_TPG :: "TPG \<Rightarrow> json" where
  "put_TPG g = JObj (member ''tag'' (put_int (tpg_Tag g)) @ member ''enable'' (JBool (tpg_Enable g))
     @ member_unless (tpg_Portals g = []) ''portals'' (put_list put_Portal (tpg_Portals g))
     @ member_unless (tpg_LUNs g = []) ''luns'' (put_list put_LUN (tpg_LUNs g))
     @ member_unless (tpg_ACLs g = []) ''acls'' (put_list put_ACL (tpg_ACLs g))
     @ member_unless (tpg_Attributes g = []) ''attributes'' (put_map (tpg_Attributes g)))"

definition put_Target :: "Target \<Rightarrow> json" where
  "put_Target t = JObj (member ''iqn'' (put_str (tgt_IQN t)) @ member_unless (tgt_TPGs t = []) ''tpgs'' (put_list put_TPG (tgt_TPGs t)))"

definition put_Config :: "Config \<Rightarrow> json" where
  "put_Config c = JObj (member_unless (cfg_Backstores c = []) ''backstores'' (put_list put_Backstore (cfg_Backstores c))
     @ member_unless (cfg_Targets c = []) ''targets'' (put_list put_Target (cfg_Targets c)))"

text \<open>The zero values, which are what a reader starts from.\<close>

definition zero_Backstore :: Backstore where
  "zero_Backstore = \<lparr>bs_Type = [], bs_HBA = 0, bs_Name = [], bs_Dev = [], bs_BufferedIO = False, bs_Size = 0, bs_WWN = [],
     bs_VendorID = [], bs_ProductID = [], bs_Revision = [], bs_Attributes = []\<rparr>"

definition zero_TPG :: TPG where
  "zero_TPG = \<lparr>tpg_Tag = 0, tpg_Enable = False, tpg_Portals = [], tpg_LUNs = [], tpg_ACLs = [], tpg_Attributes = []\<rparr>"

definition zero_Config :: Config where
  "zero_Config = \<lparr>cfg_Backstores = [], cfg_Targets = []\<rparr>"

definition backstore_fields :: "(string \<times> Backstore reader) list" where
  "backstore_fields =
    [(''type'', field get_str bs_Type (\<lambda>v. bs_Type_update (\<lambda>_. v))), (''hba'', field get_int bs_HBA (\<lambda>v. bs_HBA_update (\<lambda>_. v))),
     (''name'', field get_str bs_Name (\<lambda>v. bs_Name_update (\<lambda>_. v))), (''dev'', field get_str bs_Dev (\<lambda>v. bs_Dev_update (\<lambda>_. v))),
     (''buffered_io'', field get_bool bs_BufferedIO (\<lambda>v. bs_BufferedIO_update (\<lambda>_. v))),
     (''size'', field get_int bs_Size (\<lambda>v. bs_Size_update (\<lambda>_. v))), (''wwn'', field get_str bs_WWN (\<lambda>v. bs_WWN_update (\<lambda>_. v))),
     (''vendor_id'', field get_str bs_VendorID (\<lambda>v. bs_VendorID_update (\<lambda>_. v))),
     (''product_id'', field get_str bs_ProductID (\<lambda>v. bs_ProductID_update (\<lambda>_. v))),
     (''revision'', field get_str bs_Revision (\<lambda>v. bs_Revision_update (\<lambda>_. v))),
     (''attributes'', field get_map bs_Attributes (\<lambda>v. bs_Attributes_update (\<lambda>_. v)))]"

definition get_Backstore :: "bool \<Rightarrow> Backstore reader" where
  "get_Backstore strict = get_obj strict backstore_fields"

definition portal_fields :: "(string \<times> Portal reader) list" where
  "portal_fields =
    [(''ip'', field get_addr po_IP (\<lambda>v. po_IP_update (\<lambda>_. v))),
     (''port'', field get_u16 po_Port (\<lambda>v. po_Port_update (\<lambda>_. v)))]"

definition get_Portal :: "bool \<Rightarrow> Portal reader" where
  "get_Portal strict = get_obj strict portal_fields"

definition lun_fields :: "(string \<times> LUN reader) list" where
  "lun_fields =
    [(''index'', field get_int lun_Index (\<lambda>v. lun_Index_update (\<lambda>_. v))),
     (''backstore'', field get_str lun_Backstore (\<lambda>v. lun_Backstore_update (\<lambda>_. v)))]"

definition get_LUN :: "bool \<Rightarrow> LUN reader" where
  "get_LUN strict = get_obj strict lun_fields"

definition mapped_fields :: "(string \<times> MappedLUN reader) list" where
  "mapped_fields =
    [(''index'', field get_int ml_Index (\<lambda>v. ml_Index_update (\<lambda>_. v))),
     (''tpg_lun'', field get_int ml_TPGLUN (\<lambda>v. ml_TPGLUN_update (\<lambda>_. v))),
     (''write_protect'', field get_bool ml_WriteProtect (\<lambda>v. ml_WriteProtect_update (\<lambda>_. v)))]"

definition get_MappedLUN :: "bool \<Rightarrow> MappedLUN reader" where
  "get_MappedLUN strict = get_obj strict mapped_fields"

definition acl_fields :: "bool \<Rightarrow> (string \<times> ACL reader) list" where
  "acl_fields strict =
    [(''initiator_iqn'', field get_str acl_InitiatorIQN (\<lambda>v. acl_InitiatorIQN_update (\<lambda>_. v))),
     (''mapped_luns'', field (get_list \<lparr>ml_Index = 0, ml_TPGLUN = 0, ml_WriteProtect = False\<rparr> (get_MappedLUN strict)) acl_MappedLUNs
        (\<lambda>v. acl_MappedLUNs_update (\<lambda>_. v)))]"

definition get_ACL :: "bool \<Rightarrow> ACL reader" where
  "get_ACL strict = get_obj strict (acl_fields strict)"

definition tpg_fields :: "bool \<Rightarrow> (string \<times> TPG reader) list" where
  "tpg_fields strict =
    [(''tag'', field get_int tpg_Tag (\<lambda>v. tpg_Tag_update (\<lambda>_. v))),
     (''enable'', field get_bool tpg_Enable (\<lambda>v. tpg_Enable_update (\<lambda>_. v))),
     (''portals'', field (get_list \<lparr>po_IP = NoAddr, po_Port = 0\<rparr> (get_Portal strict)) tpg_Portals (\<lambda>v. tpg_Portals_update (\<lambda>_. v))),
     (''luns'', field (get_list \<lparr>lun_Index = 0, lun_Backstore = []\<rparr> (get_LUN strict)) tpg_LUNs (\<lambda>v. tpg_LUNs_update (\<lambda>_. v))),
     (''acls'', field (get_list \<lparr>acl_InitiatorIQN = [], acl_MappedLUNs = []\<rparr> (get_ACL strict)) tpg_ACLs (\<lambda>v. tpg_ACLs_update (\<lambda>_. v))),
     (''attributes'', field get_map tpg_Attributes (\<lambda>v. tpg_Attributes_update (\<lambda>_. v)))]"

definition get_TPG :: "bool \<Rightarrow> TPG reader" where
  "get_TPG strict = get_obj strict (tpg_fields strict)"

definition target_fields :: "bool \<Rightarrow> (string \<times> Target reader) list" where
  "target_fields strict =
    [(''iqn'', field get_str tgt_IQN (\<lambda>v. tgt_IQN_update (\<lambda>_. v))),
     (''tpgs'', field (get_list zero_TPG (get_TPG strict)) tgt_TPGs (\<lambda>v. tgt_TPGs_update (\<lambda>_. v)))]"

definition get_Target :: "bool \<Rightarrow> Target reader" where
  "get_Target strict = get_obj strict (target_fields strict)"

definition config_fields :: "bool \<Rightarrow> (string \<times> Config reader) list" where
  "config_fields strict =
    [(''backstores'', field (get_list zero_Backstore (get_Backstore strict)) cfg_Backstores (\<lambda>v. cfg_Backstores_update (\<lambda>_. v))),
     (''targets'', field (get_list \<lparr>tgt_IQN = [], tgt_TPGs = []\<rparr> (get_Target strict)) cfg_Targets (\<lambda>v. cfg_Targets_update (\<lambda>_. v)))]"

definition get_Config :: "bool \<Rightarrow> Config reader" where
  "get_Config strict = get_obj strict (config_fields strict)"

section \<open>A configuration is read back\<close>

text \<open>What can be written: valid UTF-8, integers of 64 bits, addresses without a zone that are in their own form.\<close>

definition go_int :: "int \<Rightarrow> bool" where
  "go_int n \<longleftrightarrow> - (2 ^ 63) \<le> n \<and> n < 2 ^ 63"

definition clean_backstore :: "Backstore \<Rightarrow> bool" where
  "clean_backstore b \<longleftrightarrow> clean_text (bs_Type b) \<and> go_int (bs_HBA b) \<and> clean_text (bs_Name b) \<and> clean_text (bs_Dev b) \<and> go_int (bs_Size b)
     \<and> clean_text (bs_WWN b) \<and> clean_text (bs_VendorID b) \<and> clean_text (bs_ProductID b) \<and> clean_text (bs_Revision b)
     \<and> clean_map (bs_Attributes b)"

definition clean_acl :: "ACL \<Rightarrow> bool" where
  "clean_acl a \<longleftrightarrow> clean_text (acl_InitiatorIQN a) \<and> (\<forall>m \<in> set (acl_MappedLUNs a). go_int (ml_Index m) \<and> go_int (ml_TPGLUN m))"

definition clean_tpg :: "TPG \<Rightarrow> bool" where
  "clean_tpg g \<longleftrightarrow> go_int (tpg_Tag g) \<and> (\<forall>p \<in> set (tpg_Portals g). plain_addr (po_IP p) \<and> clean_text (addr_text (po_IP p)))
     \<and> (\<forall>l \<in> set (tpg_LUNs g). go_int (lun_Index l) \<and> clean_text (lun_Backstore l)) \<and> (\<forall>a \<in> set (tpg_ACLs g). clean_acl a)
     \<and> clean_map (tpg_Attributes g)"

definition clean_config :: "Config \<Rightarrow> bool" where
  "clean_config c \<longleftrightarrow> (\<forall>b \<in> set (cfg_Backstores c). clean_backstore b)
     \<and> (\<forall>t \<in> set (cfg_Targets c). clean_text (tgt_IQN t) \<and> (\<forall>g \<in> set (tgt_TPGs t). clean_tpg g))"

text \<open>The configuration that is read back: the same, with the attributes in the order of their keys.\<close>

definition ordered_backstore :: "Backstore \<Rightarrow> Backstore" where
  "ordered_backstore b = b\<lparr>bs_Attributes := in_order (bs_Attributes b)\<rparr>"

definition ordered_tpg :: "TPG \<Rightarrow> TPG" where
  "ordered_tpg g = g\<lparr>tpg_Attributes := in_order (tpg_Attributes g)\<rparr>"

definition ordered_target :: "Target \<Rightarrow> Target" where
  "ordered_target t = t\<lparr>tgt_TPGs := map ordered_tpg (tgt_TPGs t)\<rparr>"

definition ordered :: "Config \<Rightarrow> Config" where
  "ordered c = \<lparr>cfg_Backstores = map ordered_backstore (cfg_Backstores c), cfg_Targets = map ordered_target (cfg_Targets c)\<rparr>"

lemma empty_map [simp]: "in_order [] = []" "clean_map []"
  by (simp_all add: in_order_def sortedKeys_def clean_map_def)

lemma field_names [simp]:
  "fold_name ''type'' = ''type''" "fold_name ''hba'' = ''hba''" "fold_name ''name'' = ''name''" "fold_name ''dev'' = ''dev''"
  "fold_name ''buffered_io'' = ''buffered_io''" "fold_name ''size'' = ''size''" "fold_name ''wwn'' = ''wwn''"
  "fold_name ''vendor_id'' = ''vendor_id''" "fold_name ''product_id'' = ''product_id''" "fold_name ''revision'' = ''revision''"
  "fold_name ''attributes'' = ''attributes''" "fold_name ''ip'' = ''ip''" "fold_name ''port'' = ''port''" "fold_name ''index'' = ''index''"
  "fold_name ''backstore'' = ''backstore''" "fold_name ''tpg_lun'' = ''tpg_lun''" "fold_name ''write_protect'' = ''write_protect''"
  "fold_name ''initiator_iqn'' = ''initiator_iqn''" "fold_name ''mapped_luns'' = ''mapped_luns''" "fold_name ''tag'' = ''tag''"
  "fold_name ''enable'' = ''enable''" "fold_name ''portals'' = ''portals''" "fold_name ''luns'' = ''luns''" "fold_name ''acls'' = ''acls''"
  "fold_name ''iqn'' = ''iqn''" "fold_name ''tpgs'' = ''tpgs''" "fold_name ''backstores'' = ''backstores''" "fold_name ''targets'' = ''targets''"
  by (simp_all add: fold_name.simps lower_char_def)

lemma backstore_fields_at:
  "map_of backstore_fields ''type'' = Some (field get_str bs_Type (\<lambda>v. bs_Type_update (\<lambda>_. v)))"
  "map_of backstore_fields ''hba'' = Some (field get_int bs_HBA (\<lambda>v. bs_HBA_update (\<lambda>_. v)))"
  "map_of backstore_fields ''name'' = Some (field get_str bs_Name (\<lambda>v. bs_Name_update (\<lambda>_. v)))"
  "map_of backstore_fields ''dev'' = Some (field get_str bs_Dev (\<lambda>v. bs_Dev_update (\<lambda>_. v)))"
  "map_of backstore_fields ''buffered_io'' = Some (field get_bool bs_BufferedIO (\<lambda>v. bs_BufferedIO_update (\<lambda>_. v)))"
  "map_of backstore_fields ''size'' = Some (field get_int bs_Size (\<lambda>v. bs_Size_update (\<lambda>_. v)))"
  "map_of backstore_fields ''wwn'' = Some (field get_str bs_WWN (\<lambda>v. bs_WWN_update (\<lambda>_. v)))"
  "map_of backstore_fields ''vendor_id'' = Some (field get_str bs_VendorID (\<lambda>v. bs_VendorID_update (\<lambda>_. v)))"
  "map_of backstore_fields ''product_id'' = Some (field get_str bs_ProductID (\<lambda>v. bs_ProductID_update (\<lambda>_. v)))"
  "map_of backstore_fields ''revision'' = Some (field get_str bs_Revision (\<lambda>v. bs_Revision_update (\<lambda>_. v)))"
  "map_of backstore_fields ''attributes'' = Some (field get_map bs_Attributes (\<lambda>v. bs_Attributes_update (\<lambda>_. v)))"
  by (simp_all add: backstore_fields_def)

lemma portal_fields_at:
  "map_of portal_fields ''ip'' = Some (field get_addr po_IP (\<lambda>v. po_IP_update (\<lambda>_. v)))"
  "map_of portal_fields ''port'' = Some (field get_u16 po_Port (\<lambda>v. po_Port_update (\<lambda>_. v)))"
  by (simp_all add: portal_fields_def)

lemma lun_fields_at:
  "map_of lun_fields ''index'' = Some (field get_int lun_Index (\<lambda>v. lun_Index_update (\<lambda>_. v)))"
  "map_of lun_fields ''backstore'' = Some (field get_str lun_Backstore (\<lambda>v. lun_Backstore_update (\<lambda>_. v)))"
  by (simp_all add: lun_fields_def)

lemma mapped_fields_at:
  "map_of mapped_fields ''index'' = Some (field get_int ml_Index (\<lambda>v. ml_Index_update (\<lambda>_. v)))"
  "map_of mapped_fields ''tpg_lun'' = Some (field get_int ml_TPGLUN (\<lambda>v. ml_TPGLUN_update (\<lambda>_. v)))"
  "map_of mapped_fields ''write_protect'' = Some (field get_bool ml_WriteProtect (\<lambda>v. ml_WriteProtect_update (\<lambda>_. v)))"
  by (simp_all add: mapped_fields_def)

lemma acl_fields_at:
  "map_of (acl_fields strict) ''initiator_iqn'' = Some (field get_str acl_InitiatorIQN (\<lambda>v. acl_InitiatorIQN_update (\<lambda>_. v)))"
  "map_of (acl_fields strict) ''mapped_luns'' = Some (field (get_list \<lparr>ml_Index = 0, ml_TPGLUN = 0, ml_WriteProtect = False\<rparr> (get_MappedLUN strict)) acl_MappedLUNs (\<lambda>v. acl_MappedLUNs_update (\<lambda>_. v)))"
  by (simp_all add: acl_fields_def)

lemma tpg_fields_at:
  "map_of (tpg_fields strict) ''tag'' = Some (field get_int tpg_Tag (\<lambda>v. tpg_Tag_update (\<lambda>_. v)))"
  "map_of (tpg_fields strict) ''enable'' = Some (field get_bool tpg_Enable (\<lambda>v. tpg_Enable_update (\<lambda>_. v)))"
  "map_of (tpg_fields strict) ''portals'' = Some (field (get_list \<lparr>po_IP = NoAddr, po_Port = 0\<rparr> (get_Portal strict)) tpg_Portals (\<lambda>v. tpg_Portals_update (\<lambda>_. v)))"
  "map_of (tpg_fields strict) ''luns'' = Some (field (get_list \<lparr>lun_Index = 0, lun_Backstore = []\<rparr> (get_LUN strict)) tpg_LUNs (\<lambda>v. tpg_LUNs_update (\<lambda>_. v)))"
  "map_of (tpg_fields strict) ''acls'' = Some (field (get_list \<lparr>acl_InitiatorIQN = [], acl_MappedLUNs = []\<rparr> (get_ACL strict)) tpg_ACLs (\<lambda>v. tpg_ACLs_update (\<lambda>_. v)))"
  "map_of (tpg_fields strict) ''attributes'' = Some (field get_map tpg_Attributes (\<lambda>v. tpg_Attributes_update (\<lambda>_. v)))"
  by (simp_all add: tpg_fields_def)

lemma target_fields_at:
  "map_of (target_fields strict) ''iqn'' = Some (field get_str tgt_IQN (\<lambda>v. tgt_IQN_update (\<lambda>_. v)))"
  "map_of (target_fields strict) ''tpgs'' = Some (field (get_list zero_TPG (get_TPG strict)) tgt_TPGs (\<lambda>v. tgt_TPGs_update (\<lambda>_. v)))"
  by (simp_all add: target_fields_def)

lemma config_fields_at:
  "map_of (config_fields strict) ''backstores'' = Some (field (get_list zero_Backstore (get_Backstore strict)) cfg_Backstores (\<lambda>v. cfg_Backstores_update (\<lambda>_. v)))"
  "map_of (config_fields strict) ''targets'' = Some (field (get_list \<lparr>tgt_IQN = [], tgt_TPGs = []\<rparr> (get_Target strict)) cfg_Targets (\<lambda>v. cfg_Targets_update (\<lambda>_. v)))"
  by (simp_all add: config_fields_def)

lemma get_put_go_int: "go_int n \<Longrightarrow> get_int (put_int n) x = Some n"
  by (simp add: go_int_def)

lemmas read_members = get_members_append get_member get_member_unless field_def

lemma get_put_backstore: "clean_backstore b \<Longrightarrow> get_Backstore strict (put_Backstore b) zero_Backstore = Some (ordered_backstore b)"
  by (cases b) (simp add: get_Backstore_def put_Backstore_def read_members backstore_fields_at zero_Backstore_def clean_backstore_def go_int_def
      get_put_map ordered_backstore_def)

lemma get_put_portal:
  "plain_addr (po_IP p) \<Longrightarrow> clean_text (addr_text (po_IP p)) \<Longrightarrow> get_Portal strict (put_Portal p) \<lparr>po_IP = NoAddr, po_Port = 0\<rparr> = Some p"
  by (cases p) (simp add: get_Portal_def put_Portal_def read_members portal_fields_at get_put_addr get_put_u16 [of 0, simplified])

lemma get_put_lun:
  "go_int (lun_Index l) \<Longrightarrow> clean_text (lun_Backstore l) \<Longrightarrow> get_LUN strict (put_LUN l) \<lparr>lun_Index = 0, lun_Backstore = []\<rparr> = Some l"
  by (cases l) (simp add: get_LUN_def put_LUN_def read_members lun_fields_at go_int_def)

lemma get_put_mapped:
  "go_int (ml_Index m) \<Longrightarrow> go_int (ml_TPGLUN m) \<Longrightarrow> get_MappedLUN strict (put_MappedLUN m) \<lparr>ml_Index = 0, ml_TPGLUN = 0, ml_WriteProtect = False\<rparr> = Some m"
  by (cases m) (simp add: get_MappedLUN_def put_MappedLUN_def read_members mapped_fields_at go_int_def)

lemma get_put_list_id: "(\<And>y. y \<in> set xs \<Longrightarrow> d (f y) zero = Some y) \<Longrightarrow> get_list zero d (put_list f xs) [] = Some xs"
  using get_put_list [of xs d f zero id] by simp

lemma put_list_Nil [simp]: "put_list f [] = JArr []"
  by (simp add: put_list_def)

lemma get_put_acl: "clean_acl a \<Longrightarrow> get_ACL strict (put_ACL a) \<lparr>acl_InitiatorIQN = [], acl_MappedLUNs = []\<rparr> = Some a"
  by (cases a) (simp add: get_ACL_def put_ACL_def read_members acl_fields_at clean_acl_def get_put_list_id get_put_mapped)

lemma get_put_tpg: "clean_tpg g \<Longrightarrow> get_TPG strict (put_TPG g) zero_TPG = Some (ordered_tpg g)"
  by (cases g) (simp add: get_TPG_def put_TPG_def read_members tpg_fields_at clean_tpg_def zero_TPG_def get_put_go_int
      get_put_list_id get_put_portal get_put_lun get_put_acl get_put_map ordered_tpg_def)

lemma get_put_target:
  "clean_text (tgt_IQN t) \<Longrightarrow> \<forall>g \<in> set (tgt_TPGs t). clean_tpg g \<Longrightarrow> get_Target strict (put_Target t) \<lparr>tgt_IQN = [], tgt_TPGs = []\<rparr> = Some (ordered_target t)"
  by (cases t) (simp add: get_Target_def put_Target_def read_members target_fields_at get_put_list [where g = ordered_tpg] get_put_tpg ordered_target_def)

lemma get_put_config: "clean_config c \<Longrightarrow> get_Config strict (put_Config c) zero_Config = Some (ordered c)"
  by (cases c) (simp add: get_Config_def put_Config_def read_members config_fields_at clean_config_def zero_Config_def ordered_def
      get_put_list [where g = ordered_backstore] get_put_backstore get_put_list [where g = ordered_target] get_put_target)

section \<open>The file (saveconfig.go)\<close>

text \<open>A host: its kernel, the texts of its files, the temporary files left behind, and the outcomes of its system calls.\<close>

record 'k machine =
  h_kern :: 'k
  h_files :: "string \<Rightarrow> json_text option"
  h_litter :: nat
  h_os :: os

datatype save_error = SaveEngine Error | SaveOS errno

definition DefaultPath :: string where
  "DefaultPath = ''/etc/glitr/lio-config.json''"

definition host_call :: "'k machine \<Rightarrow> errno option \<times> 'k machine" where
  "host_call h = (case syscall (h_os h) of (r, w) \<Rightarrow> (r, h\<lparr>h_os := w\<rparr>))"

definition host_syncDir :: "'k machine \<Rightarrow> errno option \<times> 'k machine" where
  "host_syncDir h = (case syncDir (h_os h) of (r, w) \<Rightarrow> (r, h\<lparr>h_os := w\<rparr>))"

text \<open>The deferred \<open>os.Remove\<close> of the temporary file: its outcome is ignored, and a file that stays is litter.\<close>

definition drop_temp :: "bool \<Rightarrow> 'k machine \<Rightarrow> 'k machine" where
  "drop_temp there h = (case host_call h of (r, h1) \<Rightarrow> if there \<and> r \<noteq> None then h1\<lparr>h_litter := Suc (h_litter h1)\<rparr> else h1)"

text \<open>
  Write, fsync and close the temporary file, rename it, and fsync the directory. After a failed write or
  fsync the file is closed, with the outcome ignored.
\<close>

definition write_temp :: "string \<Rightarrow> json_text \<Rightarrow> 'k machine \<Rightarrow> save_error option \<times> 'k machine" where
  "write_temp path data h = (case host_call h of
     (Some e, h1) \<Rightarrow> (Some (SaveOS e), drop_temp True (snd (host_call h1)))
   | (None, h1) \<Rightarrow> (case host_call h1 of
       (Some e, h2) \<Rightarrow> (Some (SaveOS e), drop_temp True (snd (host_call h2)))
     | (None, h2) \<Rightarrow> (case host_call h2 of
         (Some e, h3) \<Rightarrow> (Some (SaveOS e), drop_temp True h3)
       | (None, h3) \<Rightarrow> (case host_call h3 of
           (Some e, h4) \<Rightarrow> (Some (SaveOS e), drop_temp True h4)
         | (None, h4) \<Rightarrow> (case host_syncDir (h4\<lparr>h_files := (h_files h4)(path \<mapsto> data)\<rparr>) of
             (r, h5) \<Rightarrow> (Option.map_option SaveOS r, drop_temp False h5))))))"

definition Save :: "'k Manager \<Rightarrow> string \<Rightarrow> 'k machine \<Rightarrow> save_error option \<times> 'k machine" where
  "Save M path h = (case Discover (k_view (m_fs M) (h_kern h)) of
     Inl e \<Rightarrow> (Some (SaveEngine e), h)
   | Inr cfg \<Rightarrow> (case host_call h of
       (Some e, h1) \<Rightarrow> (Some (SaveOS e), h1)
     | (None, h1) \<Rightarrow> (case host_call h1 of
         (Some e, h2) \<Rightarrow> (Some (SaveOS e), h2)
       | (None, h2) \<Rightarrow> write_temp path \<lparr>jt_values = [put_Config cfg], jt_broken = False\<rparr> h2)))"

datatype load_error = OpenFailed errno | Undecodable | TrailingContent | InvalidConfig Error

text \<open>The decoder reads the first value; what follows must be the end of the file.\<close>

definition decode_config :: "json_text \<Rightarrow> load_error + Config" where
  "decode_config t = (case jt_values t of
     [] \<Rightarrow> Inl Undecodable
   | v # rest \<Rightarrow> (case get_Config True v zero_Config of
       None \<Rightarrow> Inl Undecodable
     | Some cfg \<Rightarrow> if rest \<noteq> [] \<or> jt_broken t then Inl TrailingContent
        else (case Validate cfg of Some e \<Rightarrow> Inl (InvalidConfig e) | None \<Rightarrow> Inr cfg)))"

definition Load :: "string \<Rightarrow> 'k machine \<Rightarrow> (load_error + Config) \<times> 'k machine" where
  "Load path h = (case host_call h of
     (Some e, h1) \<Rightarrow> (Inl (OpenFailed e), h1)
   | (None, h1) \<Rightarrow> (case h_files h1 path of
       None \<Rightarrow> (Inl (OpenFailed ENOENT), h1)
     | Some t \<Rightarrow> (case host_call h1 of
         (Some e, h2) \<Rightarrow> (Inl Undecodable, h2)
       | (None, h2) \<Rightarrow> (decode_config t, h2))))"

datatype restore_error = LoadFailed load_error | SyncFailed Error

definition Restore :: "'k Manager \<Rightarrow> string \<Rightarrow> 'k machine \<Rightarrow> (Report \<times> restore_error option) \<times> 'k machine" where
  "Restore M path h = (case Load path h of
     (Inl e, h1) \<Rightarrow> if e = OpenFailed ENOENT then ((no_report, None), h1) else ((no_report, Some (LoadFailed e)), h1)
   | (Inr cfg, h1) \<Rightarrow> (case Sync M cfg (h_kern h1) of
       ((rep, r), k) \<Rightarrow> ((rep, Option.map_option SyncFailed r), h1\<lparr>h_kern := k\<rparr>)))"

section \<open>What a file means\<close>

lemma host_call_keeps:
  "host_call h = (r, h') \<Longrightarrow> h_kern h' = h_kern h \<and> h_files h' = h_files h \<and> h_litter h' = h_litter h"
  by (auto simp: host_call_def split: prod.splits)

lemma drop_temp_keeps [simp]: "h_kern (drop_temp there h) = h_kern h" "h_files (drop_temp there h) = h_files h"
  by (auto simp: drop_temp_def split: prod.splits dest: host_call_keeps)

lemma snd_host_call [simp]: "h_kern (snd (host_call h)) = h_kern h" "h_files (snd (host_call h)) = h_files h"
  by (cases "host_call h"; use host_call_keeps in fastforce)+

lemma host_syncDir_keeps: "host_syncDir h = (r, h') \<Longrightarrow> h_kern h' = h_kern h \<and> h_files h' = h_files h"
  by (auto simp: host_syncDir_def split: prod.splits)

lemma write_temp_files:
  assumes "write_temp path data h = (r, h')"
  shows "h_kern h' = h_kern h \<and> (h_files h' = h_files h \<or> h_files h' = (h_files h)(path \<mapsto> data)) \<and> (r = None \<longrightarrow> h_files h' = (h_files h)(path \<mapsto> data))"
  using assms unfolding write_temp_def
  by (auto split: prod.splits option.splits dest!: host_call_keeps host_syncDir_keeps)

text \<open>A save is atomic: whatever fails, the file has its old content or the whole new one, and other files are untouched.\<close>

lemma Save_atomic:
  assumes "Save M path h = (r, h')"
  shows "h_kern h' = h_kern h" and "h_files h' = h_files h \<or> (\<exists>cfg. Discover (k_view (m_fs M) (h_kern h)) = Inr cfg
      \<and> h_files h' = (h_files h)(path \<mapsto> \<lparr>jt_values = [put_Config cfg], jt_broken = False\<rparr>))"
    and "r = None \<Longrightarrow> \<exists>cfg. Discover (k_view (m_fs M) (h_kern h)) = Inr cfg \<and> h_files h' path = Some \<lparr>jt_values = [put_Config cfg], jt_broken = False\<rparr>"
  using assms unfolding Save_def
  by (auto split: sum.splits prod.splits option.splits dest!: host_call_keeps write_temp_files) (metis fun_upd_same)

lemma decode_config_Inr:
  "decode_config t = Inr cfg \<longleftrightarrow> (\<exists>v. jt_values t = [v] \<and> \<not> jt_broken t \<and> get_Config True v zero_Config = Some cfg \<and> Validate cfg = None)"
  by (auto simp: decode_config_def split: list.splits option.splits if_splits)

lemma Load_Inr:
  assumes "Load path h = (Inr cfg, h')"
  shows "h_kern h' = h_kern h \<and> (\<exists>t. h_files h path = Some t \<and> decode_config t = Inr cfg)"
  using assms by (auto simp: Load_def split: prod.splits option.splits dest!: host_call_keeps)

lemma Load_quiet:
  assumes "os_faults (h_os h) = []" and "h_files h path = Some t"
  shows "fst (Load path h) = decode_config t"
  using assms by (simp add: Load_def host_call_def syscall_def)

text \<open>The order of the attributes is not part of a configuration's objects.\<close>

lemma object_paths_ordered [simp]: "object_paths (ordered c) = object_paths c"
proof -
  have "objPath (ordered_backstore b) = objPath b" for b by (simp add: ordered_backstore_def path_defs dirName_def)
  moreover have "tpg_paths iqn (ordered_tpg g) = tpg_paths iqn g" for iqn g by (simp add: ordered_tpg_def tpg_paths_def)
  moreover from this have "target_paths (ordered_target t) = target_paths t" for t
    by (simp add: ordered_target_def target_paths_def comp_def)
  ultimately show ?thesis by (simp add: object_paths_def ordered_def comp_def)
qed

section \<open>The properties\<close>


text \<open>A host with a backstore and a target that are saved, and the same host with other objects, that are replaced.\<close>

definition saved_host :: "path list machine" where
  "saved_host = \<lparr>h_kern = [[], [''core''], [''core'', ''fileio_0''], [''core'', ''fileio_0'', ''v''], [''iscsi''], [''iscsi'', ''iqn.t'']],
     h_files = (\<lambda>p. None), h_litter = 0, h_os = quiet_os\<rparr>"

definition later_host :: "path list machine" where
  "later_host = (snd (Save dir_list_manager DefaultPath saved_host))\<lparr>h_kern := junk_dirs\<rparr>"

lemma saved_host_run:
  "fst (Save dir_list_manager DefaultPath saved_host) = None"
  "(case Discover (k_view dir_list_kernel (h_kern saved_host)) of Inl e \<Rightarrow> True | Inr cfg \<Rightarrow> clean_config cfg)"
  "snd (fst (Restore dir_list_manager DefaultPath later_host)) = None"
  "os_faults (h_os later_host) = []"
  by code_simp+


text \<open>C20. A restore does not act on a file that it does not understand: the kernel changes only when the file held
  exactly one JSON value and nothing after it, every member of which is a field of a configuration and has
  its type, and the static check accepts it; what then happens is the reconcile with that configuration.
  Every other file is refused, and an absent one is nothing to do.\<close>

theorem restore_fails_closed:
  assumes "Restore M path h = ((rep, r), h')"
  shows "h_kern h' = h_kern h \<and> (r \<noteq> None \<or> h_files h path = None \<or> (\<exists>e fs. os_faults (h_os h) = Some e # fs))
    \<or> (\<exists>t v cfg. h_files h path = Some t \<and> jt_values t = [v] \<and> \<not> jt_broken t \<and> get_Config True v zero_Config = Some cfg
        \<and> Validate cfg = None \<and> Sync M cfg (h_kern h) = ((rep, (case r of Some (SyncFailed e) \<Rightarrow> Some e | _ \<Rightarrow> None)), h_kern h'))"
proof -
  obtain l h1 where l: "Load path h = (l, h1)" by fastforce
  show ?thesis
  proof (cases l)
    case (Inl e)
    have "h_kern h1 = h_kern h" using l by (auto simp: Load_def split: prod.splits option.splits dest!: host_call_keeps)
    moreover have "h_files h path = None \<or> (\<exists>x fs. os_faults (h_os h) = Some x # fs)" if "e = OpenFailed ENOENT"
      using l Inl that by (auto simp: Load_def host_call_def syscall_def decode_config_def split: prod.splits option.splits list.splits if_splits)
    ultimately show ?thesis using assms l Inl by (auto simp: Restore_def split: if_splits)
  next
    case (Inr cfg)
    obtain t v where "h_files h path = Some t" "jt_values t = [v]" "\<not> jt_broken t" "get_Config True v zero_Config = Some cfg" "Validate cfg = None"
      and k: "h_kern h1 = h_kern h" using Load_Inr l Inr by (metis decode_config_Inr)
    moreover have "Sync M cfg (h_kern h) = ((rep, (case r of Some (SyncFailed e) \<Rightarrow> Some e | _ \<Rightarrow> None)), h_kern h')"
      using assms l Inr k by (auto simp: Restore_def split: prod.splits option.splits)
    ultimately show ?thesis by blast
  qed
qed

lemma restore_fails_closed_witness:
  "\<exists>rep h'. Restore dir_list_manager DefaultPath (saved_host\<lparr>h_files := (\<lambda>p. Some \<lparr>jt_values = [JObj [(''backstors'', JArr [])]], jt_broken = False\<rparr>)\<rparr>)
     = ((rep, Some (LoadFailed Undecodable)), h') \<and> h_kern h' = h_kern saved_host"
proof -
  let ?h = "saved_host\<lparr>h_files := (\<lambda>p. Some \<lparr>jt_values = [JObj [(''backstors'', JArr [])]], jt_broken = False\<rparr>)\<rparr>"
  have no: "get_Config True (JObj [(''backstors'', JArr [])]) zero_Config = None" by code_simp
  obtain rep r h' where run: "Restore dir_list_manager DefaultPath ?h = ((rep, r), h')" by (metis prod.exhaust)
  have "fst (Load DefaultPath ?h) = decode_config \<lparr>jt_values = [JObj [(''backstors'', JArr [])]], jt_broken = False\<rparr>"
    by (rule Load_quiet) (simp_all add: saved_host_def quiet_os_def)
  then have "fst (Load DefaultPath ?h) = Inl Undecodable" using no by (simp add: decode_config_def)
  then have "r = Some (LoadFailed Undecodable)" using run by (auto simp: Restore_def split: prod.splits)
  moreover have "h_kern h' = h_kern saved_host" using restore_fails_closed [OF run] no by auto
  ultimately show ?thesis using run by blast
qed

text \<open>The exception that the strict reader lets through: the value \<open>null\<close> is read as the empty configuration.\<close>

lemma null_file_clears:
  assumes "h_files h path = Some \<lparr>jt_values = [JNull], jt_broken = False\<rparr>" and "os_faults (h_os h) = []"
  shows "h_kern (snd (Restore M path h)) = snd (Lio_Engine.Clear M (h_kern h))"
proof -
  have "Validate zero_Config = None" by (simp add: Validate_ok_iff valid_config_def zero_Config_def)
  then have "fst (Load path h) = Inr zero_Config" using Load_quiet [OF assms(2,1)] by (simp add: decode_config_def get_Config_def)
  then obtain h1 where l: "Load path h = (Inr zero_Config, h1)" by (metis prod.collapse)
  then have "h_kern h1 = h_kern h" by (simp add: Load_Inr)
  with l show ?thesis by (simp add: Restore_def Clear_def zero_Config_def split: prod.splits)
qed

end
