(* ===== verification/Hostlock.thy ===== *)
theory Hostlock
  imports Saveconfig
begin

text \<open>
  The interlock of the writers of the kernel's tree (hostlock/hostlock.go, lish/lock.go): an exclusive
  advisory lock on a file, taken without waiting. Whether another process holds it is an argument.
\<close>

definition lock_DefaultPath :: string where
  "lock_DefaultPath = ''/run/lock/glitr-lio.lock''"

record lock =
  l_path :: string
  l_held :: bool

definition New :: "string \<Rightarrow> lock" where
  "New path = \<lparr>l_path = (if path = '''' then lock_DefaultPath else path), l_held = False\<rparr>"

abbreviation EWOULDBLOCK :: errno where "EWOULDBLOCK \<equiv> OtherErrno 11"

datatype lock_error = AlreadyHeld | LockDir errno | LockOpen errno | LockFlock errno

text \<open>The outcome of \<open>flock\<close>: refused when another process has the lock, otherwise as the system answers.\<close>

definition flock :: "bool \<Rightarrow> 'k machine \<Rightarrow> errno option \<times> 'k machine" where
  "flock busy h = (if busy then (Some EWOULDBLOCK, h) else host_call h)"

definition TryLock :: "bool \<Rightarrow> lock \<Rightarrow> 'k machine \<Rightarrow> (lock_error + bool) \<times> lock \<times> 'k machine" where
  "TryLock busy l h = (if l_held l then (Inl AlreadyHeld, l, h)
     else (case host_call h of
       (Some e, h1) \<Rightarrow> (Inl (LockDir e), l, h1)
     | (None, h1) \<Rightarrow> (case host_call h1 of
         (Some e, h2) \<Rightarrow> (Inl (LockOpen e), l, h2)
       | (None, h2) \<Rightarrow> (case flock busy h2 of
           (Some e, h3) \<Rightarrow> (if e = EWOULDBLOCK then Inr False else Inl (LockFlock e), l, snd (host_call h3))
         | (None, h3) \<Rightarrow> (Inr True, l\<lparr>l_held := True\<rparr>, h3)))))"

definition Unlock :: "lock \<Rightarrow> 'k machine \<Rightarrow> lock \<times> 'k machine" where
  "Unlock l h = (if \<not> l_held l then (l, h) else (l\<lparr>l_held := False\<rparr>, snd (host_call (snd (host_call h)))))"

lemma flock_keeps: "flock busy h = (r, h') \<Longrightarrow> h_kern h' = h_kern h \<and> h_files h' = h_files h"
  by (auto simp: flock_def split: if_splits dest: host_call_keeps)

lemma TryLock_keeps:
  "TryLock busy l h = (r, l', h') \<Longrightarrow> h_kern h' = h_kern h \<and> h_files h' = h_files h \<and> l_path l' = l_path l \<and> (l_held l' \<longleftrightarrow> l_held l \<or> r = Inr True)"
  by (auto simp: TryLock_def split: if_splits prod.splits option.splits dest!: host_call_keeps flock_keeps)

lemma TryLock_busy: "fst (TryLock True l h) \<noteq> Inr True"
  by (auto simp: TryLock_def flock_def split: prod.splits option.splits)

lemma Unlock_keeps: "Unlock l h = (l', h') \<Longrightarrow> h_kern h' = h_kern h \<and> h_files h' = h_files h \<and> \<not> l_held l'"
  by (auto simp: Unlock_def split: if_splits)

end
