(* ===== verification/Lish_Tree.thy ===== *)
theory Lish_Tree
  imports Hostlock
begin

text \<open>
  The tree that the shell shows (lish/node.go and the navigation of lish/shell.go): nodes are rebuilt from
  the discovered configuration on every look, and a node knows its parent by its own fields.
\<close>

section \<open>Nodes (node.go)\<close>

datatype node_kind = kRoot | kBackstores | kBSType | kBackstore | kISCSI | kTarget | kTPG | kLUNs | kLUN | kACLs | kACL
  | kMappedLUN | kPortals | kPortal

record Node =
  n_kind :: node_kind
  n_name :: string
  n_btype :: BackstoreType
  n_iqn :: string
  n_tag :: int
  n_initiator :: string
  n_index :: int
  n_portal :: Portal

definition node :: "node_kind \<Rightarrow> string \<Rightarrow> Node" where
  "node k name = \<lparr>n_kind = k, n_name = name, n_btype = [], n_iqn = [], n_tag = 0, n_initiator = [], n_index = 0,
     n_portal = \<lparr>po_IP = NoAddr, po_Port = 0\<rparr>\<rparr>"

definition rootNode :: Node where
  "rootNode = node kRoot ''''"

definition tpgOf :: "Config \<Rightarrow> string \<Rightarrow> int \<Rightarrow> TPG list" where
  "tpgOf cfg iqn tag = (case find (\<lambda>g. tpg_Tag g = tag) (concat (map tgt_TPGs (filter (\<lambda>t. tgt_IQN t = iqn) (cfg_Targets cfg)))) of
     None \<Rightarrow> [] | Some g \<Rightarrow> [g])"

definition portalLabel :: "Portal \<Rightarrow> string" where
  "portalLabel p = portal_String p"

definition parsePortalLabel :: "string \<Rightarrow> Portal option" where
  "parsePortalLabel s = (case ParsePortal s of
     None \<Rightarrow> None
   | Some p \<Rightarrow> Some (if po_Port p = 0 then p\<lparr>po_Port := DefaultPortalPort\<rparr> else p))"

definition in_tpg :: "node_kind \<Rightarrow> string \<Rightarrow> Node \<Rightarrow> Node" where
  "in_tpg k name n = (node k name)\<lparr>n_iqn := n_iqn n, n_tag := n_tag n\<rparr>"

definition children_of :: "Node \<Rightarrow> Config \<Rightarrow> Node list" where
  "children_of n cfg = (case n_kind n of
     kRoot \<Rightarrow> [node kBackstores ''backstores'', node kISCSI ''iscsi'']
   | kBackstores \<Rightarrow> [(node kBSType ''fileio'')\<lparr>n_btype := FileIO\<rparr>, (node kBSType ''iblock'')\<lparr>n_btype := IBlock\<rparr>]
   | kBSType \<Rightarrow> map (\<lambda>b. (node kBackstore (bs_Name b))\<lparr>n_btype := bs_Type b\<rparr>) (filter (\<lambda>b. bs_Type b = n_btype n) (cfg_Backstores cfg))
   | kISCSI \<Rightarrow> map (\<lambda>t. (node kTarget (tgt_IQN t))\<lparr>n_iqn := tgt_IQN t\<rparr>) (cfg_Targets cfg)
   | kTarget \<Rightarrow> map (\<lambda>g. (node kTPG (''tpg'' @ itoa (tpg_Tag g)))\<lparr>n_iqn := n_iqn n, n_tag := tpg_Tag g\<rparr>)
       (concat (map tgt_TPGs (filter (\<lambda>t. tgt_IQN t = n_iqn n) (cfg_Targets cfg))))
   | kTPG \<Rightarrow> [in_tpg kLUNs ''luns'' n, in_tpg kACLs ''acls'' n, in_tpg kPortals ''portals'' n]
   | kLUNs \<Rightarrow> map (\<lambda>l. (in_tpg kLUN (''lun'' @ itoa (lun_Index l)) n)\<lparr>n_index := lun_Index l\<rparr>)
       (concat (map tpg_LUNs (tpgOf cfg (n_iqn n) (n_tag n))))
   | kACLs \<Rightarrow> map (\<lambda>a. (in_tpg kACL (acl_InitiatorIQN a) n)\<lparr>n_initiator := acl_InitiatorIQN a\<rparr>)
       (concat (map tpg_ACLs (tpgOf cfg (n_iqn n) (n_tag n))))
   | kACL \<Rightarrow> map (\<lambda>m. (in_tpg kMappedLUN (''mapped_lun'' @ itoa (ml_Index m)) n)\<lparr>n_initiator := n_initiator n, n_index := ml_Index m\<rparr>)
       (concat (map acl_MappedLUNs (filter (\<lambda>a. acl_InitiatorIQN a = n_initiator n) (concat (map tpg_ACLs (tpgOf cfg (n_iqn n) (n_tag n)))))))
   | kPortals \<Rightarrow> map (\<lambda>p. (in_tpg kPortal (portalLabel p) n)\<lparr>n_portal := p\<rparr>) (concat (map tpg_Portals (tpgOf cfg (n_iqn n) (n_tag n))))
   | _ \<Rightarrow> [])"

text \<open>The short status that a listing shows; empty when there is none.\<close>

definition summary_of :: "Node \<Rightarrow> Config \<Rightarrow> string" where
  "summary_of n cfg = (let gs = tpgOf cfg (n_iqn n) (n_tag n); acls = filter (\<lambda>a. acl_InitiatorIQN a = n_initiator n) (concat (map tpg_ACLs gs)) in
     case n_kind n of
     kBackstore \<Rightarrow> (case find (\<lambda>b. bs_Type b = n_btype n \<and> bs_Name b = n_name n) (cfg_Backstores cfg) of
         None \<Rightarrow> '''' | Some b \<Rightarrow> ''['' @ bs_Dev b @ (if bs_WWN b = '''' then '''' else '' wwid='' @ bs_WWN b) @ '']'')
   | kTarget \<Rightarrow> (case find (\<lambda>t. tgt_IQN t = n_iqn n) (cfg_Targets cfg) of
         None \<Rightarrow> '''' | Some t \<Rightarrow> ''[TPGs: '' @ utoa (length (tgt_TPGs t)) @ '']'')
   | kTPG \<Rightarrow> (case gs of [] \<Rightarrow> '''' | g # _ \<Rightarrow> if tpg_Enable g then ''[enabled]'' else ''[disabled]'')
   | kLUN \<Rightarrow> (case find (\<lambda>l. lun_Index l = n_index n) (concat (map tpg_LUNs gs)) of
         None \<Rightarrow> '''' | Some l \<Rightarrow> ''[-> '' @ lun_Backstore l @ '']'')
   | kACL \<Rightarrow> (case acls of [] \<Rightarrow> '''' | a # _ \<Rightarrow> ''[Mapped LUNs: '' @ utoa (length (acl_MappedLUNs a)) @ '']'')
   | kMappedLUN \<Rightarrow> (case find (\<lambda>m. ml_Index m = n_index n) (concat (map acl_MappedLUNs acls)) of
         None \<Rightarrow> '''' | Some m \<Rightarrow> ''[-> lun'' @ itoa (ml_TPGLUN m) @ (if ml_WriteProtect m then '' ro'' else '''') @ '']'')
   | _ \<Rightarrow> '''')"

section \<open>Parents and paths (shell.go)\<close>

definition parentOf :: "Node \<Rightarrow> Node" where
  "parentOf n = (case n_kind n of
     kRoot \<Rightarrow> rootNode | kBackstores \<Rightarrow> rootNode | kISCSI \<Rightarrow> rootNode
   | kBSType \<Rightarrow> node kBackstores ''backstores''
   | kBackstore \<Rightarrow> (node kBSType (n_btype n))\<lparr>n_btype := n_btype n\<rparr>
   | kTarget \<Rightarrow> node kISCSI ''iscsi''
   | kTPG \<Rightarrow> (node kTarget (n_iqn n))\<lparr>n_iqn := n_iqn n\<rparr>
   | kLUNs \<Rightarrow> in_tpg kTPG (''tpg'' @ itoa (n_tag n)) n | kACLs \<Rightarrow> in_tpg kTPG (''tpg'' @ itoa (n_tag n)) n
   | kPortals \<Rightarrow> in_tpg kTPG (''tpg'' @ itoa (n_tag n)) n
   | kLUN \<Rightarrow> in_tpg kLUNs ''luns'' n
   | kACL \<Rightarrow> in_tpg kACLs ''acls'' n
   | kMappedLUN \<Rightarrow> (in_tpg kACL (n_initiator n) n)\<lparr>n_initiator := n_initiator n\<rparr>
   | kPortal \<Rightarrow> in_tpg kPortals ''portals'' n)"

text \<open>How far a kind is from the root: a parent is one nearer, which ends the walk of \<open>pathOf\<close>.\<close>

fun depth :: "node_kind \<Rightarrow> nat" where
  "depth kRoot = 0" | "depth kBackstores = 1" | "depth kISCSI = 1" | "depth kBSType = 2" | "depth kTarget = 2"
| "depth kBackstore = 3" | "depth kTPG = 3" | "depth kLUNs = 4" | "depth kACLs = 4" | "depth kPortals = 4"
| "depth kLUN = 5" | "depth kACL = 5" | "depth kPortal = 5" | "depth kMappedLUN = 6"

lemma node_sel [simp]: "n_kind (node k name) = k" "n_name (node k name) = name" "n_kind (in_tpg k name n) = k" "n_name (in_tpg k name n) = name"
  by (simp_all add: node_def in_tpg_def)

lemma depth_parent: "n_kind n \<noteq> kRoot \<Longrightarrow> depth (n_kind (parentOf n)) < depth (n_kind n)"
  by (cases "n_kind n") (simp_all add: parentOf_def rootNode_def)

lemma depth_child: "k \<in> set (children_of n cfg) \<Longrightarrow> depth (n_kind k) = Suc (depth (n_kind n))"
  by (cases "n_kind n") (auto simp: children_of_def)

lemma depth_bound: "depth k \<le> 6"
  by (cases k) simp_all

function path_segs :: "Node \<Rightarrow> string list" where
  "path_segs n = (if n_kind n = kRoot then [] else path_segs (parentOf n) @ [n_name n])"
  by auto
termination by (relation "measure (depth \<circ> n_kind)") (simp_all add: depth_parent)

declare path_segs.simps [simp del]

definition pathOf :: "Node \<Rightarrow> string" where
  "pathOf n = (if n_kind n = kRoot then ''/'' else ''/'' @ joinStr ''/'' (path_segs n))"

definition summarySuffix :: "string \<Rightarrow> string" where
  "summarySuffix s = (if s = '''' then '''' else CHR '' '' # s)"

definition by_name :: "Node list \<Rightarrow> Node list" where
  "by_name ks = sort_key n_name ks"

text \<open>The branches of a drawn tree, in UTF-8.\<close>

definition branch_mid :: string where "branch_mid = [CHR 0xE2, CHR 0x94, CHR 0x9C, CHR 0xE2, CHR 0x94, CHR 0x80, CHR '' '']"
definition branch_last :: string where "branch_last = [CHR 0xE2, CHR 0x94, CHR 0x94, CHR 0xE2, CHR 0x94, CHR 0x80, CHR '' '']"
definition branch_cont :: string where "branch_cont = [CHR 0xE2, CHR 0x94, CHR 0x82, CHR '' '', CHR '' '']"

function treeChildren :: "Config \<Rightarrow> Node \<Rightarrow> string \<Rightarrow> string list" where
  "treeChildren cfg n indent = (let kids = by_name (children_of n cfg) in
     concat (map (\<lambda>i. let k = kids ! i; end_of_list = (i = length kids - 1) in
        (indent @ (if end_of_list then branch_last else branch_mid) @ n_name k @ summarySuffix (summary_of k cfg) @ [newline])
        # treeChildren cfg k (indent @ (if end_of_list then ''   '' else branch_cont))) [0..<length kids]))"
  by auto
termination
proof (relation "measure (\<lambda>(cfg, n, indent). 7 - depth (n_kind n))")
  fix cfg n indent kids i k e
  assume k: "kids = by_name (children_of n cfg)" "i \<in> set [0..<length kids]" "k = kids ! i"
  then have "k \<in> set kids" by simp
  then have "k \<in> set (children_of n cfg)" by (simp add: k(1) by_name_def)
  then have "depth (n_kind k) = Suc (depth (n_kind n))" by (rule depth_child)
  with depth_bound [of "n_kind k"] show "((cfg, k, indent @ (if e then ''   '' else branch_cont)), cfg, n, indent) \<in> measure (\<lambda>(cfg, n, indent). 7 - depth (n_kind n))"
    by simp
qed simp

declare treeChildren.simps [simp del]

end
