(* ===== verification/Lish.thy ===== *)
theory Lish
  imports Lish_Tree
begin

text \<open>
  The shell (lish/shell.go, lish/commands.go, cmd/lish/main.go): a command is parsed, the lock is taken
  when it changes the kernel, and an edit discovers the live configuration, changes the value, and
  reconciles the kernel with it. What is printed is collected in the order of printing, text in one field and
  JSON values in another. An error is kept as its format and arguments.
\<close>

section \<open>Sessions\<close>

datatype shell_error = ShellMsg string "string list" | ShellEngine Error | ShellLock lock_error | ShellSave save_error
  | ShellRestore restore_error

record 'k Shell =
  s_host :: "'k machine"
  s_out :: "string list"
  s_json :: "json list"
  s_lock :: "lock option"
  s_busy :: bool
  s_cwd :: Node
  s_cached :: "Config option"
  s_done :: bool

type_synonym 'k command = "'k Shell \<Rightarrow> shell_error option \<times> 'k Shell"

definition NewShell :: "lock option \<Rightarrow> bool \<Rightarrow> 'k machine \<Rightarrow> 'k Shell" where
  "NewShell lk busy h = \<lparr>s_host = h, s_out = [], s_json = [], s_lock = lk, s_busy = busy, s_cwd = rootNode, s_cached = None, s_done = False\<rparr>"

definition live_view :: "'k Manager \<Rightarrow> 'k Shell \<Rightarrow> view" where
  "live_view M s = k_view (m_fs M) (h_kern (s_host s))"

definition config :: "'k Manager \<Rightarrow> 'k Shell \<Rightarrow> (shell_error + Config) \<times> 'k Shell" where
  "config M s = (case s_cached s of
     Some c \<Rightarrow> (Inr c, s)
   | None \<Rightarrow> (case Discover (live_view M s) of
       Inl e \<Rightarrow> (Inl (ShellEngine e), s) | Inr c \<Rightarrow> (Inr c, s\<lparr>s_cached := Some c\<rparr>)))"

definition invalidate :: "'k Shell \<Rightarrow> 'k Shell" where
  "invalidate s = s\<lparr>s_cached := None\<rparr>"

definition printf :: "string list \<Rightarrow> 'k Shell \<Rightarrow> 'k Shell" where
  "printf texts s = s\<lparr>s_out := s_out s @ texts\<rparr>"

definition Prompt :: "'k Shell \<Rightarrow> string" where
  "Prompt s = ''lish '' @ pathOf (s_cwd s) @ ''> ''"

definition msg :: "string \<Rightarrow> string list \<Rightarrow> 'k command" where
  "msg fmt args s = (Some (ShellMsg fmt args), s)"

section \<open>Navigation\<close>

definition children :: "'k Manager \<Rightarrow> Node \<Rightarrow> 'k Shell \<Rightarrow> (shell_error + Node list) \<times> 'k Shell" where
  "children M n s = (case config M s of (Inl e, s1) \<Rightarrow> (Inl e, s1) | (Inr cfg, s1) \<Rightarrow> (Inr (children_of n cfg), s1))"

definition summary :: "'k Manager \<Rightarrow> Node \<Rightarrow> 'k Shell \<Rightarrow> string \<times> 'k Shell" where
  "summary M n s = (case config M s of (Inl e, s1) \<Rightarrow> ('''', s1) | (Inr cfg, s1) \<Rightarrow> (summary_of n cfg, s1))"

fun resolve_segs :: "'k Manager \<Rightarrow> string list \<Rightarrow> Node \<Rightarrow> 'k Shell \<Rightarrow> (shell_error + Node) \<times> 'k Shell" where
  "resolve_segs M [] cur s = (Inr cur, s)"
| "resolve_segs M (seg # segs) cur s =
    (if seg = '''' \<or> seg = ''.'' then resolve_segs M segs cur s
     else if seg = ''..'' then resolve_segs M segs (parentOf cur) s
     else (case children M cur s of
       (Inl e, s1) \<Rightarrow> (Inl e, s1)
     | (Inr kids, s1) \<Rightarrow> (case find (\<lambda>k. n_name k = seg) kids of
         None \<Rightarrow> (Inl (ShellMsg ''no such path element: %q'' [seg]), s1)
       | Some k \<Rightarrow> resolve_segs M segs k s1)))"

definition resolve :: "'k Manager \<Rightarrow> string \<Rightarrow> 'k Shell \<Rightarrow> (shell_error + Node) \<times> 'k Shell" where
  "resolve M path s = resolve_segs M (splitChar CHR ''/'' path) (if hasPrefix ''/'' path then rootNode else s_cwd s) s"

text \<open>The node that a command is about: the first argument when there is one, else the current node.\<close>

definition at_node :: "'k Manager \<Rightarrow> string list \<Rightarrow> (Node \<Rightarrow> 'k command) \<Rightarrow> 'k command" where
  "at_node M args f s = (case args of
     [] \<Rightarrow> f (s_cwd s) s
   | p # _ \<Rightarrow> (case resolve M p s of (Inl e, s1) \<Rightarrow> (Some e, s1) | (Inr n, s1) \<Rightarrow> f n s1))"

definition ls_line :: "Config \<Rightarrow> Node \<Rightarrow> string" where
  "ls_line cfg k = n_name k @ summarySuffix (summary_of k cfg) @ [newline]"

definition cmdLs :: "'k Manager \<Rightarrow> string list \<Rightarrow> 'k command" where
  "cmdLs M args = at_node M args (\<lambda>base s. case config M s of
     (Inl e, s1) \<Rightarrow> (Some e, s1)
   | (Inr cfg, s1) \<Rightarrow> (None, printf (map (ls_line cfg) (by_name (children_of base cfg))) s1))"

definition cmdCd :: "'k Manager \<Rightarrow> string list \<Rightarrow> 'k command" where
  "cmdCd M args s = (case args of
     [] \<Rightarrow> (None, s\<lparr>s_cwd := rootNode\<rparr>)
   | p # _ \<Rightarrow> (case resolve M p s of (Inl e, s1) \<Rightarrow> (Some e, s1) | (Inr n, s1) \<Rightarrow> (None, s1\<lparr>s_cwd := n\<rparr>)))"

definition tree_at :: "'k Manager \<Rightarrow> Node \<Rightarrow> 'k command" where
  "tree_at M base s = (case summary M base s of (label, s1) \<Rightarrow>
     (case config M (printf [(if n_kind base = kRoot then ''/'' else n_name base) @ summarySuffix label @ [newline]] s1) of
        (Inl e, s2) \<Rightarrow> (Some e, s2)
      | (Inr cfg, s2) \<Rightarrow> (None, printf (treeChildren cfg base '''') s2)))"

definition cmdTree :: "'k Manager \<Rightarrow> string list \<Rightarrow> 'k command" where
  "cmdTree M args = at_node M args (tree_at M)"

section \<open>Edits\<close>

text \<open>The first element that satisfies a condition: removed, or changed.\<close>

fun remove_first :: "('a \<Rightarrow> bool) \<Rightarrow> 'a list \<Rightarrow> 'a list option" where
  "remove_first P [] = None"
| "remove_first P (x # xs) = (if P x then Some xs else Option.map_option (Cons x) (remove_first P xs))"

fun edit_first :: "('a \<Rightarrow> bool) \<Rightarrow> ('a \<Rightarrow> 'e + 'a) \<Rightarrow> 'e \<Rightarrow> 'a list \<Rightarrow> 'e + 'a list" where
  "edit_first P f missing [] = Inl missing"
| "edit_first P f missing (x # xs) = (if P x then and_then (f x) (\<lambda>y. Inr (y # xs))
     else and_then (edit_first P f missing xs) (\<lambda>ys. Inr (x # ys)))"

definition mutate :: "'k Manager \<Rightarrow> (Config \<Rightarrow> shell_error + Config) \<Rightarrow> 'k command" where
  "mutate M edit s = (case Discover (live_view M s) of
     Inl e \<Rightarrow> (Some (ShellEngine e), s)
   | Inr cfg \<Rightarrow> (case edit cfg of
       Inl e \<Rightarrow> (Some e, s)
     | Inr cfg' \<Rightarrow> (case Sync M cfg' (h_kern (s_host s)) of
         ((rep, r), k) \<Rightarrow> (let s1 = s\<lparr>s_host := (s_host s)\<lparr>h_kern := k\<rparr>\<rparr> in
           case r of Some e \<Rightarrow> (Some (ShellEngine e), s1) | None \<Rightarrow> (None, invalidate s1)))))"

definition edit_tpg :: "string \<Rightarrow> int \<Rightarrow> (TPG \<Rightarrow> shell_error + TPG) \<Rightarrow> Config \<Rightarrow> shell_error + Config" where
  "edit_tpg iqn tag fn cfg = and_then (edit_first (\<lambda>t. tgt_IQN t = iqn)
       (\<lambda>t. and_then (edit_first (\<lambda>g. tpg_Tag g = tag) fn (ShellMsg ''no such tpg%d'' [itoa tag]) (tgt_TPGs t))
          (\<lambda>gs. Inr (t\<lparr>tgt_TPGs := gs\<rparr>))) (ShellMsg ''no such target %q'' [iqn]) (cfg_Targets cfg))
     (\<lambda>ts. Inr (cfg\<lparr>cfg_Targets := ts\<rparr>))"

definition editTPG :: "'k Manager \<Rightarrow> (TPG \<Rightarrow> shell_error + TPG) \<Rightarrow> 'k command" where
  "editTPG M fn s = mutate M (edit_tpg (n_iqn (s_cwd s)) (n_tag (s_cwd s)) fn) s"

definition editACL :: "'k Manager \<Rightarrow> string \<Rightarrow> (ACL \<Rightarrow> shell_error + ACL) \<Rightarrow> 'k command" where
  "editACL M initiator fn = editTPG M (\<lambda>g. and_then
     (edit_first (\<lambda>a. acl_InitiatorIQN a = initiator) fn (ShellMsg ''no such acl %q'' [initiator]) (tpg_ACLs g))
     (\<lambda>as. Inr (g\<lparr>tpg_ACLs := as\<rparr>)))"

text \<open>The lowest index that no backstore uses; the loop has no bound of its own.\<close>

partial_function (option) free_from :: "int list \<Rightarrow> int \<Rightarrow> int option" where
  "free_from used i = (if i \<in> set used then free_from used (i + 1) else Some i)"

declare free_from.simps [code]

definition freeHBA :: "Config \<Rightarrow> int option" where
  "freeHBA cfg = free_from (map bs_HBA (cfg_Backstores cfg)) 0"

definition parsePort :: "string \<Rightarrow> shell_error + u16" where
  "parsePort t = (case parseUint 10 16 t of None \<Rightarrow> Inl (ShellMsg ''bad port %q: must be 0-65535'' [t]) | Some n \<Rightarrow> Inr (of_nat n))"

text \<open>The cwd after its node is gone.\<close>

definition up_after :: "'k command \<Rightarrow> 'k command" where
  "up_after f s = (case f s of (Some e, s1) \<Rightarrow> (Some e, s1) | (None, s1) \<Rightarrow> (None, s1\<lparr>s_cwd := parentOf (s_cwd s1)\<rparr>))"

section \<open>Create (commands.go)\<close>

definition create_backstore_edit :: "BackstoreType \<Rightarrow> string \<Rightarrow> string \<Rightarrow> int \<Rightarrow> Config \<Rightarrow> shell_error + Config" where
  "create_backstore_edit bt name dev sz cfg =
    (if name \<in> set (map bs_Name (cfg_Backstores cfg)) then Inl (ShellMsg ''backstore %q already exists'' [name])
     else (case freeHBA cfg of
        None \<Rightarrow> Inl (ShellMsg ''no index'' [])
      | Some hba \<Rightarrow> Inr (cfg\<lparr>cfg_Backstores := cfg_Backstores cfg @ [zero_Backstore\<lparr>bs_Type := bt, bs_HBA := hba, bs_Name := name,
          bs_Dev := dev, bs_Size := sz\<rparr>]\<rparr>)))"

definition create_target_edit :: "string \<Rightarrow> Config \<Rightarrow> shell_error + Config" where
  "create_target_edit iqn cfg = (if iqn \<in> set (map tgt_IQN (cfg_Targets cfg)) then Inl (ShellMsg ''target %q already exists'' [iqn])
     else Inr (cfg\<lparr>cfg_Targets := cfg_Targets cfg @ [\<lparr>tgt_IQN = iqn, tgt_TPGs = [zero_TPG\<lparr>tpg_Tag := 1, tpg_Enable := True\<rparr>]\<rparr>]\<rparr>))"

definition create_lun_edit :: "int \<Rightarrow> string \<Rightarrow> TPG \<Rightarrow> shell_error + TPG" where
  "create_lun_edit idx bs g = (if idx \<in> set (map lun_Index (tpg_LUNs g)) then Inl (ShellMsg ''lun%d already exists'' [itoa idx])
     else Inr (g\<lparr>tpg_LUNs := tpg_LUNs g @ [\<lparr>lun_Index = idx, lun_Backstore = bs\<rparr>]\<rparr>))"

definition create_acl_edit :: "string \<Rightarrow> TPG \<Rightarrow> shell_error + TPG" where
  "create_acl_edit iqn g = (if iqn \<in> set (map acl_InitiatorIQN (tpg_ACLs g)) then Inl (ShellMsg ''acl %q already exists'' [iqn])
     else Inr (g\<lparr>tpg_ACLs := tpg_ACLs g @ [\<lparr>acl_InitiatorIQN = iqn, acl_MappedLUNs = []\<rparr>]\<rparr>))"

definition create_portal_edit :: "Portal \<Rightarrow> TPG \<Rightarrow> shell_error + TPG" where
  "create_portal_edit np g = (if np \<in> set (tpg_Portals g) then Inl (ShellMsg ''portal %s already exists'' [portal_String np])
     else Inr (g\<lparr>tpg_Portals := tpg_Portals g @ [np]\<rparr>))"

definition cmdCreate :: "'k Manager \<Rightarrow> string list \<Rightarrow> 'k command" where
  "cmdCreate M args s = (let n = s_cwd s in case n_kind n of
     kBSType \<Rightarrow> (case args of
         name # dev # rest \<Rightarrow> (case rest of
             [] \<Rightarrow> mutate M (create_backstore_edit (n_btype n) name dev 0) s
           | sz # _ \<Rightarrow> (case parseInt10 sz of
               None \<Rightarrow> msg ''bad size %q'' [sz] s
             | Some bytes \<Rightarrow> mutate M (create_backstore_edit (n_btype n) name dev bytes) s))
       | _ \<Rightarrow> msg ''usage: create <name> <dev> [size-bytes]'' [] s)
   | kISCSI \<Rightarrow> (case args of
         [iqn] \<Rightarrow> mutate M (create_target_edit iqn) s
       | _ \<Rightarrow> msg ''usage: create <iqn>'' [] s)
   | kLUNs \<Rightarrow> (case args of
         [i, bs] \<Rightarrow> (case atoi_go i of
             None \<Rightarrow> msg ''bad LUN index %q'' [i] s
           | Some idx \<Rightarrow> editTPG M (create_lun_edit idx bs) s)
       | _ \<Rightarrow> msg ''usage: create <index> <backstore>'' [] s)
   | kACLs \<Rightarrow> (case args of
         [iqn] \<Rightarrow> editTPG M (create_acl_edit iqn) s
       | _ \<Rightarrow> msg ''usage: create <initiator-iqn>'' [] s)
   | kPortals \<Rightarrow> (case args of
         [] \<Rightarrow> msg ''usage: create <ip> [port]'' [] s
       | ip # rest \<Rightarrow> (case (case rest of [] \<Rightarrow> Inr DefaultPortalPort | p # _ \<Rightarrow> parsePort p) of
           Inl e \<Rightarrow> (Some e, s)
         | Inr port \<Rightarrow> (case ParsePortal ip of
             None \<Rightarrow> msg ''bad portal address %q'' [ip] s
           | Some np \<Rightarrow> editTPG M (create_portal_edit (np\<lparr>po_Port := port\<rparr>)) s)))
   | _ \<Rightarrow> msg ''cannot create under %s'' [pathOf n] s)"

section \<open>Delete\<close>

definition or_missing :: "string \<Rightarrow> string list \<Rightarrow> 'a option \<Rightarrow> shell_error + 'a" where
  "or_missing fmt args r = (case r of None \<Rightarrow> Inl (ShellMsg fmt args) | Some x \<Rightarrow> Inr x)"

definition deleteBackstore :: "'k Manager \<Rightarrow> BackstoreType \<Rightarrow> string \<Rightarrow> 'k command" where
  "deleteBackstore M bt name = mutate M (\<lambda>cfg.
     and_then (or_missing ''no such %s backstore %q'' [bt, name] (remove_first (\<lambda>b. bs_Type b = bt \<and> bs_Name b = name) (cfg_Backstores cfg)))
       (\<lambda>bs. Inr (cfg\<lparr>cfg_Backstores := bs\<rparr>)))"

definition delete_target_edit :: "string \<Rightarrow> Config \<Rightarrow> shell_error + Config" where
  "delete_target_edit iqn cfg = and_then (or_missing ''no such target %q'' [iqn] (remove_first (\<lambda>t. tgt_IQN t = iqn) (cfg_Targets cfg)))
     (\<lambda>ts. Inr (cfg\<lparr>cfg_Targets := ts\<rparr>))"

definition delete_lun_edit :: "int \<Rightarrow> TPG \<Rightarrow> shell_error + TPG" where
  "delete_lun_edit idx g = and_then (or_missing ''no such lun%d'' [itoa idx] (remove_first (\<lambda>l. lun_Index l = idx) (tpg_LUNs g)))
     (\<lambda>ls. Inr (g\<lparr>tpg_LUNs := ls\<rparr>))"

definition deleteACL :: "'k Manager \<Rightarrow> string \<Rightarrow> 'k command" where
  "deleteACL M iqn = editTPG M (\<lambda>g. and_then (or_missing ''no such acl %q'' [iqn] (remove_first (\<lambda>a. acl_InitiatorIQN a = iqn) (tpg_ACLs g)))
     (\<lambda>as. Inr (g\<lparr>tpg_ACLs := as\<rparr>)))"

definition deletePortal :: "'k Manager \<Rightarrow> Portal \<Rightarrow> 'k command" where
  "deletePortal M p = editTPG M (\<lambda>g. and_then (or_missing ''no such portal %s:%d'' [addr_text (po_IP p), utoa (unat (po_Port p))]
       (remove_first (\<lambda>pt. po_IP pt = po_IP p \<and> (po_Port pt = po_Port p \<or> po_Port pt = 0 \<and> po_Port p = DefaultPortalPort)) (tpg_Portals g)))
     (\<lambda>ps. Inr (g\<lparr>tpg_Portals := ps\<rparr>)))"

definition cmdUnmapIndex :: "'k Manager \<Rightarrow> string \<Rightarrow> int \<Rightarrow> bool \<Rightarrow> 'k command" where
  "cmdUnmapIndex M iqn ml cdUp = (let f = editACL M iqn (\<lambda>a.
       and_then (or_missing ''no such mapped_lun%d'' [itoa ml] (remove_first (\<lambda>m. ml_Index m = ml) (acl_MappedLUNs a)))
         (\<lambda>ms. Inr (a\<lparr>acl_MappedLUNs := ms\<rparr>))) in
     if cdUp then up_after f else f)"

definition portal_arg :: "string list \<Rightarrow> shell_error + Portal" where
  "portal_arg args = (case args of
     ip # port # _ \<Rightarrow> and_then (parsePort port) (\<lambda>pt. or_missing ''bad portal %v'' args (Option.map_option (\<lambda>p. p\<lparr>po_Port := pt\<rparr>) (ParsePortal ip)))
   | _ \<Rightarrow> or_missing ''bad portal %v'' args (parsePortalLabel (joinStr '':'' args)))"

definition cmdDelete :: "'k Manager \<Rightarrow> string list \<Rightarrow> 'k command" where
  "cmdDelete M args s = (let n = s_cwd s in case n_kind n of
     kBSType \<Rightarrow> (case args of [name] \<Rightarrow> deleteBackstore M (n_btype n) name s | _ \<Rightarrow> msg ''usage: delete <name>'' [] s)
   | kBackstore \<Rightarrow> deleteBackstore M (n_btype n) (n_name n) s
   | kTarget \<Rightarrow> up_after (mutate M (delete_target_edit (n_iqn n))) s
   | kLUNs \<Rightarrow> (case args of
         [i] \<Rightarrow> (case atoi_go i of None \<Rightarrow> msg ''bad index %q'' [i] s | Some idx \<Rightarrow> editTPG M (delete_lun_edit idx) s)
       | _ \<Rightarrow> msg ''usage: delete <index>'' [] s)
   | kLUN \<Rightarrow> up_after (editTPG M (delete_lun_edit (n_index n))) s
   | kACLs \<Rightarrow> (case args of [iqn] \<Rightarrow> deleteACL M iqn s | _ \<Rightarrow> msg ''usage: delete <initiator-iqn>'' [] s)
   | kACL \<Rightarrow> up_after (deleteACL M (n_initiator n)) s
   | kMappedLUN \<Rightarrow> cmdUnmapIndex M (n_initiator n) (n_index n) True s
   | kPortals \<Rightarrow> (case args of
         [] \<Rightarrow> msg ''usage: delete <ip> [port]'' [] s
       | _ \<Rightarrow> (case portal_arg args of Inl e \<Rightarrow> (Some e, s) | Inr p \<Rightarrow> deletePortal M p s))
   | kPortal \<Rightarrow> up_after (deletePortal M (n_portal n)) s
   | _ \<Rightarrow> msg ''cannot delete at %s'' [pathOf n] s)"

section \<open>Set, enable, map\<close>

definition findBackstore :: "Config \<Rightarrow> BackstoreType \<Rightarrow> string \<Rightarrow> Backstore option" where
  "findBackstore cfg bt name = find (\<lambda>b. bs_Type b = bt \<and> bs_Name b = name) (cfg_Backstores cfg)"

definition set_backstore_attr :: "string \<Rightarrow> string \<Rightarrow> Backstore \<Rightarrow> shell_error + Backstore" where
  "set_backstore_attr attr val b =
    (if attr = ''wwn'' then Inr (b\<lparr>bs_WWN := val\<rparr>)
     else if attr = ''vendor_id'' then Inr (b\<lparr>bs_VendorID := val\<rparr>)
     else if attr = ''product_id'' then Inr (b\<lparr>bs_ProductID := val\<rparr>)
     else if attr = ''revision'' then Inr (b\<lparr>bs_Revision := val\<rparr>)
     else if attr = ''block_size'' then Inr (b\<lparr>bs_Attributes := map_set attr val (bs_Attributes b)\<rparr>)
     else Inl (ShellMsg ''unknown backstore attr %q (wwn|vendor_id|product_id|revision|block_size)'' [attr]))"

definition set_warning :: "string \<Rightarrow> string" where
  "set_warning attr = ''WARNING: '' @ attr @ '' is not in the set this appliance saves and restores, so it applies now but `save` will omit it and it will be gone at the next boot'' @ [newline]"

definition cmdSet :: "'k Manager \<Rightarrow> string list \<Rightarrow> 'k command" where
  "cmdSet M args s = (case args of
     [attr, val] \<Rightarrow> (let n = s_cwd s in case n_kind n of
         kBackstore \<Rightarrow> mutate M (\<lambda>cfg. and_then (edit_first (\<lambda>b. bs_Type b = n_btype n \<and> bs_Name b = n_name n) (set_backstore_attr attr val)
             (ShellMsg ''no such backstore %q'' [n_name n]) (cfg_Backstores cfg)) (\<lambda>bs. Inr (cfg\<lparr>cfg_Backstores := bs\<rparr>))) s
       | kTPG \<Rightarrow> editTPG M (\<lambda>g. Inr (g\<lparr>tpg_Attributes := map_set attr val (tpg_Attributes g)\<rparr>))
           (if attr \<in> set discoveredTPGAttrs then s else printf [set_warning attr] s)
       | _ \<Rightarrow> msg ''cannot set at %s'' [pathOf n] s)
   | _ \<Rightarrow> msg ''usage: set <attr> <value>'' [] s)"

definition cmdEnable :: "'k Manager \<Rightarrow> bool \<Rightarrow> 'k command" where
  "cmdEnable M on s = (if n_kind (s_cwd s) \<noteq> kTPG then msg ''enable/disable only apply to a tpg'' [] s
     else editTPG M (\<lambda>g. Inr (g\<lparr>tpg_Enable := on\<rparr>)) s)"

definition map_edit :: "int \<Rightarrow> int \<Rightarrow> bool \<Rightarrow> ACL \<Rightarrow> shell_error + ACL" where
  "map_edit ml tpglun ro a = (if ml \<in> set (map ml_Index (acl_MappedLUNs a)) then Inl (ShellMsg ''mapped_lun%d already exists'' [itoa ml])
     else Inr (a\<lparr>acl_MappedLUNs := acl_MappedLUNs a @ [\<lparr>ml_Index = ml, ml_TPGLUN = tpglun, ml_WriteProtect = ro\<rparr>]\<rparr>))"

definition cmdMap :: "'k Manager \<Rightarrow> string list \<Rightarrow> 'k command" where
  "cmdMap M args s = (if n_kind (s_cwd s) \<noteq> kACL then msg ''map only applies to an acl'' [] s
     else (case args of
       m # t # rest \<Rightarrow> (case atoi_go m of
           None \<Rightarrow> msg ''bad mapped-lun %q'' [m] s
         | Some ml \<Rightarrow> (case atoi_go t of
             None \<Rightarrow> msg ''bad tpg-lun %q'' [t] s
           | Some tpglun \<Rightarrow> editACL M (n_initiator (s_cwd s))
               (map_edit ml tpglun (rest \<noteq> [] \<and> hd rest \<in> set [''ro'', ''1'', ''true''])) s))
     | _ \<Rightarrow> msg ''usage: map <mapped-lun> <tpg-lun> [ro]'' [] s))"

definition cmdUnmap :: "'k Manager \<Rightarrow> string list \<Rightarrow> 'k command" where
  "cmdUnmap M args s = (if n_kind (s_cwd s) \<noteq> kACL then msg ''unmap only applies to an acl'' [] s
     else (case args of
       [m] \<Rightarrow> (case atoi_go m of
           None \<Rightarrow> msg ''bad mapped-lun %q'' [m] s
         | Some ml \<Rightarrow> cmdUnmapIndex M (n_initiator (s_cwd s)) ml False s)
     | _ \<Rightarrow> msg ''usage: unmap <mapped-lun>'' [] s))"

section \<open>Info and get\<close>

definition wwidOf :: "string \<Rightarrow> string" where
  "wwidOf wwn = (if length wwn \<noteq> 16 then '''' else ''0x6001405'' @ wwn @ ''000000000'')"

definition line :: "string \<Rightarrow> string \<Rightarrow> string" where
  "line label v = label @ v @ [newline]"

definition attr_lines :: "string_map \<Rightarrow> string list" where
  "attr_lines m = map (\<lambda>k. line (''attr '' @ k @ '': '') (value_or (map_of m k))) (sortedKeys m)"

definition backstore_info :: "Backstore \<Rightarrow> string list" where
  "backstore_info b = [line ''name:       '' (bs_Name b), line ''type:       '' (bs_Type b), line ''dev:        '' (bs_Dev b),
     line ''size:       '' (itoa (bs_Size b)), line ''wwn:        '' (bs_WWN b), line ''wwid:       '' (wwidOf (bs_WWN b))]
   @ (if bs_VendorID b = '''' then [] else [line ''vendor_id:  '' (bs_VendorID b)])
   @ (if bs_ProductID b = '''' then [] else [line ''product_id: '' (bs_ProductID b)])
   @ (if bs_Revision b = '''' then [] else [line ''revision:   '' (bs_Revision b)])
   @ attr_lines (bs_Attributes b)"

definition tpg_info :: "TPG \<Rightarrow> string list" where
  "tpg_info g = [line ''tpg:      '' (itoa (tpg_Tag g)), line ''enabled:  '' (if tpg_Enable g then ''true'' else ''false''),
     line ''portals:  '' (utoa (length (tpg_Portals g))), line ''luns:     '' (utoa (length (tpg_LUNs g))),
     line ''acls:     '' (utoa (length (tpg_ACLs g)))] @ attr_lines (tpg_Attributes g)"

definition cmdInfo :: "'k Manager \<Rightarrow> string list \<Rightarrow> 'k command" where
  "cmdInfo M args = at_node M args (\<lambda>n s. case config M s of
     (Inl e, s1) \<Rightarrow> (Some e, s1)
   | (Inr cfg, s1) \<Rightarrow> (case n_kind n of
       kBackstore \<Rightarrow> (case findBackstore cfg (n_btype n) (n_name n) of
           None \<Rightarrow> msg ''no such backstore %q'' [n_name n] s1
         | Some b \<Rightarrow> (None, printf (backstore_info b) s1))
     | kTPG \<Rightarrow> (None, printf (concat (map tpg_info (tpgOf cfg (n_iqn n) (n_tag n)))) s1)
     | _ \<Rightarrow> (None, printf [n_name n @ summarySuffix (summary_of n cfg) @ [newline]] s1)))"

definition printMap :: "string_map \<Rightarrow> string list \<Rightarrow> 'k command" where
  "printMap m want s = (None, printf (map (\<lambda>k. line (k @ ''='') (value_or (map_of m k))) (if want = [] then sortedKeys m else want)) s)"

definition cmdGet :: "'k Manager \<Rightarrow> string list \<Rightarrow> 'k command" where
  "cmdGet M args s = (case config M s of
     (Inl e, s1) \<Rightarrow> (Some e, s1)
   | (Inr cfg, s1) \<Rightarrow> (let n = s_cwd s1 in case n_kind n of
       kBackstore \<Rightarrow> (case findBackstore cfg (n_btype n) (n_name n) of
           None \<Rightarrow> msg ''no such backstore %q'' [n_name n] s1
         | Some b \<Rightarrow> printMap (foldl (\<lambda>m (k, v). map_set k v m) [(''wwn'', bs_WWN b), (''vendor_id'', bs_VendorID b),
             (''product_id'', bs_ProductID b), (''revision'', bs_Revision b)] (in_order (bs_Attributes b))) args s1)
     | kTPG \<Rightarrow> (case tpgOf cfg (n_iqn n) (n_tag n) of
           [] \<Rightarrow> msg ''cannot get at %s'' [pathOf n] s1
         | g # _ \<Rightarrow> printMap (tpg_Attributes g) args s1)
     | _ \<Rightarrow> msg ''cannot get at %s'' [pathOf n] s1))"

section \<open>Persistence\<close>

definition file_arg :: "string list \<Rightarrow> string" where
  "file_arg args = (case args of [] \<Rightarrow> DefaultPath | p # _ \<Rightarrow> p)"

definition cmdSave :: "'k Manager \<Rightarrow> string list \<Rightarrow> 'k command" where
  "cmdSave M args s = (case Save M (file_arg args) (s_host s) of
     (Some e, h) \<Rightarrow> (Some (ShellSave e), s\<lparr>s_host := h\<rparr>)
   | (None, h) \<Rightarrow> (None, printf [line ''saved to '' (file_arg args)] (s\<lparr>s_host := h\<rparr>)))"

definition changes_text :: "Report \<Rightarrow> string" where
  "changes_text rep = ''('' @ utoa (length (rep_Changes rep)) @ '' changes)'' @ [newline]"

definition cmdRestore :: "'k Manager \<Rightarrow> string list \<Rightarrow> 'k command" where
  "cmdRestore M args s = (case Restore M (file_arg args) (s_host s) of
     ((rep, Some e), h) \<Rightarrow> (Some (ShellRestore e), s\<lparr>s_host := h\<rparr>)
   | ((rep, None), h) \<Rightarrow> (None, invalidate (printf [''restored from '' @ file_arg args @ '' '' @ changes_text rep] (s\<lparr>s_host := h\<rparr>))))"

definition cmdClear :: "'k Manager \<Rightarrow> 'k command" where
  "cmdClear M s = (case Lio_Engine.Clear M (h_kern (s_host s)) of
     ((rep, r), k) \<Rightarrow> (let s1 = s\<lparr>s_host := (s_host s)\<lparr>h_kern := k\<rparr>\<rparr> in
       case r of Some e \<Rightarrow> (Some (ShellEngine e), s1)
       | None \<Rightarrow> (None, invalidate ((printf [''cleared '' @ changes_text rep] s1)\<lparr>s_cwd := rootNode\<rparr>))))"

section \<open>Dispatch (shell.go)\<close>

definition VerbMutates :: "string \<Rightarrow> bool" where
  "VerbMutates verb \<longleftrightarrow> verb \<notin> set [''ls'', ''tree'', ''cd'', ''pwd'', ''help'', ''?'', ''exit'', ''quit'', ''info'', ''get'', ''save'',
     ''saveconfig'', ''discover'', ''validate'']"

definition cmdContextual :: "'k Manager \<Rightarrow> string \<Rightarrow> string list \<Rightarrow> 'k command" where
  "cmdContextual M cmd args =
    (if cmd = ''create'' then cmdCreate M args
     else if cmd = ''delete'' then cmdDelete M args
     else if cmd = ''set'' then cmdSet M args
     else if cmd = ''enable'' \<or> cmd = ''disable'' then cmdEnable M (cmd = ''enable'')
     else if cmd = ''map'' then cmdMap M args
     else if cmd = ''unmap'' then cmdUnmap M args
     else msg ''unknown command %q (try 'help')'' [cmd])"

definition help_text :: string where
  "help_text = concat (map (\<lambda>l. l @ [newline])
    [''navigation: ls [path]  tree [path]  cd [path]  pwd  info [path]  get [attr...]'',
     ''globals:    saveconfig [file]  restoreconfig [file]  clearconfig  help  exit'',
     ''  (tree = recursive dump from here; 'lish discover' dumps the whole config as JSON)'',
     ''contextual verbs by location:'',
     ''  /backstores/<type>   create <name> <dev> [size] | delete <name>'',
     ''  <backstore>          set wwn|vendor_id|product_id|revision|block_size <v> | info'',
     ''  /iscsi               create <iqn> | (cd <iqn>) delete'',
     ''  <tpg>                enable | disable | set <attr> <v> | info'',
     ''  <tpg>/luns           create <index> <backstore> | delete <index>'',
     ''  <tpg>/acls           create <iqn> | delete <iqn>'',
     ''  <acl>                map <mapped-lun> <tpg-lun> [ro] | unmap <mapped-lun>'',
     ''  <tpg>/portals        create <ip> [port] | delete <ip> [port]''])"

definition dispatch :: "'k Manager \<Rightarrow> string \<Rightarrow> string list \<Rightarrow> 'k command" where
  "dispatch M cmd args =
    (if cmd = ''ls'' then cmdLs M args
     else if cmd = ''tree'' then cmdTree M args
     else if cmd = ''cd'' then cmdCd M args
     else if cmd = ''pwd'' then (\<lambda>s. (None, printf [pathOf (s_cwd s) @ [newline]] s))
     else if cmd = ''help'' \<or> cmd = ''?'' then (\<lambda>s. (None, printf [help_text] s))
     else if cmd = ''exit'' \<or> cmd = ''quit'' then (\<lambda>s. (None, s\<lparr>s_done := True\<rparr>))
     else if cmd = ''info'' then cmdInfo M args
     else if cmd = ''get'' then cmdGet M args
     else if cmd = ''saveconfig'' \<or> cmd = ''save'' then cmdSave M args
     else if cmd = ''restoreconfig'' \<or> cmd = ''restore'' then cmdRestore M args
     else if cmd = ''clearconfig'' \<or> cmd = ''clear'' then cmdClear M
     else cmdContextual M cmd args)"

text \<open>\<open>Lock.Acquire\<close> and \<open>Lock.Release\<close> (lock.go), around a command.\<close>

definition Acquire :: "lock \<Rightarrow> 'k command" where
  "Acquire l s = (case TryLock (s_busy s) l (s_host s) of
     (r, l1, h) \<Rightarrow> (case r of
        Inl e \<Rightarrow> Some (ShellLock e)
      | Inr True \<Rightarrow> None
      | Inr False \<Rightarrow> Some (ShellMsg ''another LIO writer holds %s (is applianced running?); refusing to mutate'' [l_path l]),
      s\<lparr>s_lock := Some l1, s_host := h\<rparr>))"

definition lock_Release :: "'k Shell \<Rightarrow> 'k Shell" where
  "lock_Release s = (case s_lock s of
     None \<Rightarrow> s
   | Some l \<Rightarrow> (case Unlock l (s_host s) of (l1, h) \<Rightarrow> s\<lparr>s_lock := Some l1, s_host := h\<rparr>))"

definition withLock :: "'k command \<Rightarrow> 'k command" where
  "withLock f s = (case s_lock s of
     None \<Rightarrow> f s
   | Some l \<Rightarrow> (case Acquire l s of
       (Some e, s1) \<Rightarrow> (Some e, s1)
     | (None, s1) \<Rightarrow> (case f s1 of (r, s2) \<Rightarrow> (r, lock_Release s2))))"

definition Exec :: "'k Manager \<Rightarrow> string \<Rightarrow> 'k command" where
  "Exec M text s = (let s0 = invalidate s in
     case fieldsStr text of
       [] \<Rightarrow> (None, s0)
     | cmd # args \<Rightarrow> if VerbMutates cmd then withLock (dispatch M cmd args) s0 else dispatch M cmd args s0)"

section \<open>The command line (cmd/lish/main.go)\<close>

definition guard :: "string \<Rightarrow> 'k command \<Rightarrow> 'k command" where
  "guard verb f = (if VerbMutates verb then withLock f else f)"

text \<open>
  \<open>applyJSON\<close> and \<open>validate\<close> read one value from the standard input, with the lenient reader: unknown members
  are skipped, and what follows the value is not looked at.
\<close>

definition decode_stdin :: "json_text \<Rightarrow> shell_error + Config" where
  "decode_stdin t = (case jt_values t of
     [] \<Rightarrow> Inl (ShellMsg ''decode stdin'' [])
   | v # _ \<Rightarrow> or_missing ''decode stdin'' [] (get_Config False v zero_Config))"

definition applyJSON :: "'k Manager \<Rightarrow> json_text \<Rightarrow> 'k command" where
  "applyJSON M stdin s = (case decode_stdin stdin of
     Inl e \<Rightarrow> (Some e, s)
   | Inr cfg \<Rightarrow> (case Sync M cfg (h_kern (s_host s)) of
       ((rep, r), k) \<Rightarrow> (let s1 = s\<lparr>s_host := (s_host s)\<lparr>h_kern := k\<rparr>\<rparr> in
         case r of Some e \<Rightarrow> (Some (ShellEngine e), s1) | None \<Rightarrow> (None, printf [''applied '' @ changes_text rep] s1))))"

definition validateJSON :: "json_text \<Rightarrow> 'k command" where
  "validateJSON stdin s = (case decode_stdin stdin of
     Inl e \<Rightarrow> (Some e, s)
   | Inr cfg \<Rightarrow> (case Validate cfg of Some e \<Rightarrow> (Some (ShellEngine e), s) | None \<Rightarrow> (None, printf [''ok'' @ [newline]] s)))"

definition emitJSON :: "json \<Rightarrow> 'k Shell \<Rightarrow> 'k Shell" where
  "emitJSON v s = s\<lparr>s_json := s_json s @ [v]\<rparr>"

definition oneShot :: "'k Manager \<Rightarrow> string list \<Rightarrow> 'k command" where
  "oneShot M args s = (case args of
     [] \<Rightarrow> (None, s)
   | path # rest \<Rightarrow> (case Exec M (''cd '' @ path) s of
       (Some e, s1) \<Rightarrow> (Some e, s1)
     | (None, s1) \<Rightarrow> Exec M (joinStr '' '' (case rest of [] \<Rightarrow> [''ls''] | verb # rest' \<Rightarrow> verb # rest')) s1))"

text \<open>The interactive loop, over the lines that the scanner gives; an error is printed and the loop goes on.\<close>

fun repl :: "'k Manager \<Rightarrow> string list \<Rightarrow> 'k Shell \<Rightarrow> 'k Shell" where
  "repl M [] s = printf [[newline]] s"
| "repl M (text # rest) s =
    (let s1 = (if trimSpace text = '''' then s else snd (Exec M (trimSpace text) s)) in
     if s_done s1 then s1 else repl M rest (printf [Prompt s1] s1))"

definition run :: "'k Manager \<Rightarrow> string list \<Rightarrow> string list \<Rightarrow> json_text \<Rightarrow> 'k command" where
  "run M args lines stdin s = (case args of
     [] \<Rightarrow> (None, repl M lines (printf [Prompt s] s))
   | verb # rest \<Rightarrow>
      if verb = ''save'' then guard verb (cmdSave M rest) s
      else if verb = ''restore'' then guard verb (cmdRestore M rest) s
      else if verb = ''clear'' then guard verb (cmdClear M) s
      else if verb = ''discover'' then (case Discover (live_view M s) of
          Inl e \<Rightarrow> (Some (ShellEngine e), s) | Inr cfg \<Rightarrow> (None, emitJSON (put_Config cfg) s))
      else if verb \<in> set [''tree'', ''ls'', ''info'', ''get''] then Exec M (joinStr '' '' args) s
      else if verb = ''apply'' then guard verb (applyJSON M stdin) s
      else if verb = ''validate'' then validateJSON stdin s
      else oneShot M args s)"

end
