(* ===== verification/Lish_Safe.thy ===== *)
theory Lish_Safe
  imports Lish
begin

text \<open>
  What the shell promises: the interlock is respected, a path that the shell prints leads back to its node,
  the search for a free index ends, and an edit gives the tree that the edited configuration describes.
\<close>

section \<open>Commands that leave the kernel alone\<close>

text \<open>What every command that only reads keeps: the kernel, the lock and its state elsewhere.\<close>

definition same_kernel :: "'k Shell \<Rightarrow> 'k Shell \<Rightarrow> bool" where
  "same_kernel s s' \<longleftrightarrow> h_kern (s_host s') = h_kern (s_host s) \<and> s_lock s' = s_lock s \<and> s_busy s' = s_busy s"

lemma same_kernel_refl [simp]: "same_kernel s s"
  by (simp add: same_kernel_def)

lemma same_kernel_trans [trans]: "same_kernel s s1 \<Longrightarrow> same_kernel s1 s2 \<Longrightarrow> same_kernel s s2"
  by (simp add: same_kernel_def)

lemma same_kernel_upd [simp]:
  "same_kernel s (printf t s') = same_kernel s s'" "same_kernel s (emitJSON v s') = same_kernel s s'"
  "same_kernel s (invalidate s') = same_kernel s s'" "same_kernel s (s'\<lparr>s_cwd := c\<rparr>) = same_kernel s s'"
  "same_kernel s (s'\<lparr>s_done := d\<rparr>) = same_kernel s s'" "same_kernel s (s'\<lparr>s_cached := x\<rparr>) = same_kernel s s'"
  by (simp_all add: same_kernel_def printf_def emitJSON_def invalidate_def)

lemma config_same: "config M s = (r, s') \<Longrightarrow> same_kernel s s'"
  by (auto simp: config_def split: option.splits sum.splits)

lemma children_same: "children M n s = (r, s') \<Longrightarrow> same_kernel s s'"
  by (auto simp: children_def split: prod.splits sum.splits dest: config_same)

lemma summary_same: "summary M n s = (r, s') \<Longrightarrow> same_kernel s s'"
  by (auto simp: summary_def split: prod.splits sum.splits dest: config_same)

lemma resolve_segs_same: "resolve_segs M segs cur s = (r, s') \<Longrightarrow> same_kernel s s'"
proof (induction M segs cur s rule: resolve_segs.induct)
  case (2 M seg segs cur s)
  obtain k s1 where k: "children M cur s = (k, s1)" by fastforce
  with 2 have "same_kernel s1 s'" if "seg \<noteq> ''''" "seg \<noteq> ''.''" "seg \<noteq> ''..''"
    using that by (auto split: sum.splits option.splits)
  with 2 children_same [OF k] show ?case by (auto intro: same_kernel_trans split: if_splits)
qed simp

lemma resolve_same: "resolve M path s = (r, s') \<Longrightarrow> same_kernel s s'"
  by (simp add: resolve_def resolve_segs_same)

lemma at_node_same:
  assumes "at_node M args f s = (r, s')" and "\<And>n s r s'. f n s = (r, s') \<Longrightarrow> same_kernel s s'"
  shows "same_kernel s s'"
proof (cases args)
  case Nil
  then show ?thesis using assms by (auto simp: at_node_def)
next
  case (Cons p ps)
  obtain t s1 where t: "resolve M p s = (t, s1)" by fastforce
  with Cons assms have "same_kernel s1 s'" by (cases t) (auto simp: at_node_def)
  with resolve_same [OF t] show ?thesis by (rule same_kernel_trans)
qed

lemma cmdSave_same: "cmdSave M args s = (r, s') \<Longrightarrow> same_kernel s s'"
  by (auto simp: cmdSave_def same_kernel_def printf_def split: prod.splits option.splits dest: Save_atomic(1))

lemma tree_at_same:
  assumes "tree_at M n s = (r, s')"
  shows "same_kernel s s'"
proof -
  obtain l s1 where l: "summary M n s = (l, s1)" by fastforce
  let ?s1 = "printf [(if n_kind n = kRoot then ''/'' else n_name n) @ summarySuffix l @ [newline]] s1"
  obtain c s2 where c: "config M ?s1 = (c, s2)" by fastforce
  have "same_kernel s ?s1" using summary_same [OF l] by simp
  also have "same_kernel ?s1 s2" by (rule config_same [OF c])
  also have "same_kernel s2 s'" using assms l c by (auto simp: tree_at_def split: sum.splits)
  finally show ?thesis .
qed

lemma reading_verbs_same:
  "cmdLs M args s = (r, s') \<Longrightarrow> same_kernel s s'" "cmdTree M args s = (r, s') \<Longrightarrow> same_kernel s s'"
  "cmdCd M args s = (r, s') \<Longrightarrow> same_kernel s s'" "cmdInfo M args s = (r, s') \<Longrightarrow> same_kernel s s'"
  "cmdGet M args s = (r, s') \<Longrightarrow> same_kernel s s'"
proof -
  show "cmdLs M args s = (r, s') \<Longrightarrow> same_kernel s s'" unfolding cmdLs_def
    by (erule at_node_same) (auto split: prod.splits sum.splits dest: config_same)
  show "cmdTree M args s = (r, s') \<Longrightarrow> same_kernel s s'" unfolding cmdTree_def
    by (erule at_node_same) (rule tree_at_same)
  show "cmdCd M args s = (r, s') \<Longrightarrow> same_kernel s s'"
    by (auto simp: cmdCd_def split: list.splits prod.splits sum.splits dest: resolve_same)
  show "cmdInfo M args s = (r, s') \<Longrightarrow> same_kernel s s'" unfolding cmdInfo_def
    by (erule at_node_same) (auto simp: msg_def split: prod.splits sum.splits node_kind.splits option.splits dest: config_same)
  show "cmdGet M args s = (r, s') \<Longrightarrow> same_kernel s s'"
    by (auto simp: cmdGet_def msg_def printMap_def Let_def split: prod.splits sum.splits node_kind.splits option.splits list.splits dest: config_same)
qed

lemma reading_dispatch_same:
  assumes "\<not> VerbMutates verb" and "dispatch M verb args s = (r, s')"
  shows "same_kernel s s'"
proof -
  have "verb \<in> set [''ls'', ''tree'', ''cd'', ''pwd'', ''help'', ''?'', ''exit'', ''quit'', ''info'', ''get'', ''save'',
     ''saveconfig'', ''discover'', ''validate'']" using assms(1) unfolding VerbMutates_def by blast
  then show ?thesis using assms(2) unfolding list.set
    by (elim insertE emptyE; simp add: dispatch_def cmdContextual_def msg_def reading_verbs_same cmdSave_same)
      (auto)
qed

section \<open>The interlock\<close>

text \<open>A session whose lock is not taken, while another process has it.\<close>

definition locked_out :: "'k Shell \<Rightarrow> bool" where
  "locked_out s \<longleftrightarrow> s_busy s \<and> (case s_lock s of None \<Rightarrow> False | Some l \<Rightarrow> \<not> l_held l)"

lemma locked_out_same: "locked_out s \<Longrightarrow> same_kernel s s' \<Longrightarrow> locked_out s'"
  by (simp add: locked_out_def same_kernel_def)

lemma withLock_refused:
  assumes "locked_out s" and "withLock f s = (r, s')"
  shows "r \<noteq> None \<and> h_kern (s_host s') = h_kern (s_host s) \<and> locked_out s'"
proof -
  obtain l where l: "s_lock s = Some l" "\<not> l_held l" "s_busy s" using assms(1) by (auto simp: locked_out_def split: option.splits)
  obtain t l1 h1 where t: "TryLock True l (s_host s) = (t, l1, h1)" by (metis prod.exhaust)
  with TryLock_busy [of l "s_host s"] have "t \<noteq> Inr True" by simp
  with TryLock_keeps [OF t] l t assms(2) show ?thesis
    by (cases t) (auto simp: withLock_def Acquire_def locked_out_def split: bool.splits)
qed

lemma Exec_locked_out:
  assumes "locked_out s" and "Exec M text s = (r, s')"
  shows "h_kern (s_host s') = h_kern (s_host s) \<and> locked_out s'"
proof -
  have i: "locked_out (invalidate s)" "h_kern (s_host (invalidate s)) = h_kern (s_host s)"
    using assms(1) by (simp_all add: locked_out_def invalidate_def)
  show ?thesis
  proof (cases "fieldsStr text")
    case Nil
    then show ?thesis using assms(2) i by (auto simp: Exec_def)
  next
    case (Cons verb args)
    show ?thesis
    proof (cases "VerbMutates verb")
      case True
      then show ?thesis using assms(2) i Cons withLock_refused [OF i(1)] by (fastforce simp: Exec_def)
    next
      case False
      with assms(2) Cons have "same_kernel (invalidate s) s'" by (auto simp: Exec_def intro: reading_dispatch_same)
      with i show ?thesis using locked_out_same [OF i(1)] by (simp add: same_kernel_def)
    qed
  qed
qed

lemma locked_out_printf [simp]: "locked_out (printf t s) = locked_out s" "h_kern (s_host (printf t s)) = h_kern (s_host s)"
  "h_kern (s_host (emitJSON v s)) = h_kern (s_host s)"
  by (simp_all add: locked_out_def printf_def emitJSON_def)

lemma repl_locked_out: "locked_out s \<Longrightarrow> h_kern (s_host (repl M lines s)) = h_kern (s_host s)"
proof (induction lines arbitrary: s)
  case (Cons l rest)
  let ?s1 = "if trimSpace l = '''' then s else snd (Exec M (trimSpace l) s)"
  have "h_kern (s_host ?s1) = h_kern (s_host s) \<and> locked_out ?s1"
    using Exec_locked_out [OF Cons.prems, of M "trimSpace l"] Cons.prems by (cases "Exec M (trimSpace l) s") simp
  with Cons.IH [of "printf [Prompt ?s1] ?s1"] show ?case by (simp add: Let_def)
qed (simp add: printf_def)

lemma oneShot_locked_out: "locked_out s \<Longrightarrow> oneShot M args s = (r, s') \<Longrightarrow> h_kern (s_host s') = h_kern (s_host s)"
  by (auto simp: oneShot_def split: list.splits prod.splits option.splits dest: Exec_locked_out) (metis Exec_locked_out)+

lemma guard_locked_out:
  assumes "locked_out s" and "guard verb f s = (r, s')" and "\<And>r s'. \<not> VerbMutates verb \<Longrightarrow> f s = (r, s') \<Longrightarrow> same_kernel s s'"
  shows "h_kern (s_host s') = h_kern (s_host s)"
  using assms withLock_refused [OF assms(1)] by (auto simp: guard_def same_kernel_def split: if_splits)



section \<open>Paths\<close>

text \<open>A node as the tree builds it: every field that its kind does not use has its zero value.\<close>

definition canonical :: "Node \<Rightarrow> bool" where
  "canonical n \<longleftrightarrow> (case n_kind n of
     kRoot \<Rightarrow> n = rootNode
   | kBackstores \<Rightarrow> n = node kBackstores ''backstores''
   | kISCSI \<Rightarrow> n = node kISCSI ''iscsi''
   | kBSType \<Rightarrow> n = (node kBSType (n_btype n))\<lparr>n_btype := n_btype n\<rparr>
   | kTarget \<Rightarrow> n = (node kTarget (n_iqn n))\<lparr>n_iqn := n_iqn n\<rparr>
   | kTPG \<Rightarrow> n = in_tpg kTPG (''tpg'' @ itoa (n_tag n)) n
   | kLUNs \<Rightarrow> n = in_tpg kLUNs ''luns'' n
   | kACLs \<Rightarrow> n = in_tpg kACLs ''acls'' n
   | kPortals \<Rightarrow> n = in_tpg kPortals ''portals'' n
   | kACL \<Rightarrow> n = (in_tpg kACL (n_initiator n) n)\<lparr>n_initiator := n_initiator n\<rparr>
   | _ \<Rightarrow> True)"

lemmas node_defs = node_def in_tpg_def rootNode_def

lemma child_canonical: "canonical n \<Longrightarrow> k \<in> set (children_of n cfg) \<Longrightarrow> canonical k"
  by (cases "n_kind n") (auto simp: children_of_def canonical_def node_defs)

lemma parent_of_child: "canonical n \<Longrightarrow> k \<in> set (children_of n cfg) \<Longrightarrow> parentOf k = n"
  by (cases "n_kind n") (auto simp: children_of_def canonical_def parentOf_def node_defs)

text \<open>The nodes that are reached from the root by the names of children.\<close>

definition plain_seg :: "string \<Rightarrow> bool" where
  "plain_seg seg \<longleftrightarrow> seg \<noteq> '''' \<and> seg \<noteq> ''.'' \<and> seg \<noteq> ''..'' \<and> CHR ''/'' \<notin> set seg"

inductive at_path :: "Config \<Rightarrow> string list \<Rightarrow> Node \<Rightarrow> bool" for cfg where
  root: "at_path cfg [] rootNode"
| child: "at_path cfg segs n \<Longrightarrow> plain_seg seg \<Longrightarrow> find (\<lambda>k. n_name k = seg) (children_of n cfg) = Some k \<Longrightarrow> at_path cfg (segs @ [seg]) k"

inductive_cases at_path_snoc: "at_path cfg (segs @ [seg]) k"

lemma find_child: "find (\<lambda>k. n_name k = seg) ks = Some k \<Longrightarrow> k \<in> set ks \<and> n_name k = seg"
  by (auto simp: find_Some_iff)

lemma at_path_canonical: "at_path cfg segs n \<Longrightarrow> canonical n"
proof (induction rule: at_path.induct)
  case root
  then show ?case by (simp add: canonical_def node_defs)
next
  case (child segs n seg k)
  then show ?case using child_canonical find_child by blast
qed

lemma at_path_segs: "at_path cfg segs n \<Longrightarrow> path_segs n = segs"
proof (induction rule: at_path.induct)
  case root
  then show ?case by (simp add: path_segs.simps node_defs)
next
  case (child segs n seg k)
  have k: "k \<in> set (children_of n cfg)" "n_name k = seg" using find_child child.hyps(3) by blast+
  have "parentOf k = n" using parent_of_child at_path_canonical child.hyps(1) k(1) by blast
  moreover have "n_kind k \<noteq> kRoot" using depth_child [OF k(1)] by auto
  ultimately show ?case using child.IH k(2) by (subst path_segs.simps) simp
qed

lemma at_path_parent:
  assumes "at_path cfg segs n"
  shows "at_path cfg (butlast segs) (parentOf n)"
  using assms
proof cases
  case root
  then show ?thesis by (simp add: parentOf_def node_defs at_path.root [unfolded node_defs])
next
  case (child segs' p seg)
  then have "parentOf n = p" using parent_of_child at_path_canonical find_child by blast
  with child show ?thesis by simp
qed

lemma at_path_plain: "at_path cfg segs n \<Longrightarrow> seg \<in> set segs \<Longrightarrow> plain_seg seg"
  by (induction rule: at_path.induct) auto

text \<open>What the session sees of the kernel, which reading does not change.\<close>

lemma config_again: "config M s = (r, s1) \<Longrightarrow> fst (config M s1) = r"
  by (auto simp: config_def live_view_def split: option.splits sum.splits)

lemma children_seen: "children M n s = (r, s1) \<Longrightarrow> fst (config M s1) = fst (config M s)"
  by (auto simp: children_def split: prod.splits sum.splits dest: config_again)

lemma resolve_segs_at:
  assumes "resolve_segs M segs cur s = (Inr n, s1)" and "at_path cfg here cur" and "\<forall>seg \<in> set segs. CHR ''/'' \<notin> set seg"
    and "fst (config M s) = Inr cfg"
  shows "(\<exists>there. at_path cfg there n) \<and> fst (config M s1) = Inr cfg"
  using assms
proof (induction M segs cur s arbitrary: here rule: resolve_segs.induct)
  case (2 M seg segs cur s)
  consider "seg = '''' \<or> seg = ''.''" | "seg = ''..''" | "plain_seg seg" using 2(6) by (auto simp: plain_seg_def)
  then show ?case
  proof cases
    case 1
    then show ?thesis using 2 by auto
  next
    case 2
    then show ?thesis using "2.IH"(2) [OF _ _ _ at_path_parent [OF "2.prems"(2)]] "2.prems" by auto
  next
    case 3
    then obtain s2 k where k: "children M cur s = (Inr (children_of cur cfg), s2)" "find (\<lambda>k. n_name k = seg) (children_of cur cfg) = Some k"
      and r: "resolve_segs M segs k s2 = (Inr n, s1)"
      using "2.prems"(1,4) by (auto simp: plain_seg_def children_def split: prod.splits sum.splits option.splits)
    have "at_path cfg (here @ [seg]) k" by (rule at_path.child [OF "2.prems"(2) 3 k(2)])
    moreover have "fst (config M s2) = Inr cfg" using children_seen [OF k(1)] "2.prems"(4) by simp
    ultimately show ?thesis using "2.IH"(3) [OF _ _ k(1) [symmetric] refl k(2) r] 3 "2.prems"(3) by (auto simp: plain_seg_def)
  qed
qed auto

lemma resolve_segs_path:
  assumes "at_path cfg segs n" and "fst (config M s) = Inr cfg"
  shows "\<exists>s1. resolve_segs M (segs @ rest) rootNode s = resolve_segs M rest n s1 \<and> fst (config M s1) = Inr cfg"
  using assms
proof (induction arbitrary: rest rule: at_path.induct)
  case (child segs n seg k)
  obtain s1 where s1: "resolve_segs M (segs @ seg # rest) rootNode s = resolve_segs M (seg # rest) n s1" "fst (config M s1) = Inr cfg"
    using child.IH [OF child.prems] by blast
  obtain s2 where s2: "config M s1 = (Inr cfg, s2)" using s1(2) by (metis prod.collapse)
  have "resolve_segs M (seg # rest) n s1 = resolve_segs M rest k s2"
    using child.hyps(2,3) s2 by (simp add: plain_seg_def children_def)
  with s1(1) config_again [OF s2] show ?case by auto
qed auto

lemma resolve_segs_blind:
  "resolve_segs M segs rootNode s = (Inr n, s1) \<Longrightarrow> fst (config M s) = Inl e \<Longrightarrow> n = rootNode"
proof (induction segs)
  case (Cons seg segs)
  have "parentOf rootNode = rootNode" by (simp add: parentOf_def node_defs)
  with Cons show ?case by (auto simp: children_def split: if_splits prod.splits)
qed simp

text \<open>C35. The path that the shell prints for a node leads to it: when an absolute path is resolved to a node, then resolving
  the path printed for that node gives the same node.\<close>

theorem path_resolves:
  assumes "hasPrefix ''/'' path" and "resolve M path s = (Inr n, s1)"
  shows "fst (resolve M (pathOf n) s1) = Inr n"
proof (cases "fst (config M s)")
  case (Inl e)
  have "n = rootNode" by (rule resolve_segs_blind [OF _ Inl]) (use assms in \<open>simp add: resolve_def\<close>)
  then show ?thesis by (simp add: resolve_def pathOf_def node_defs hasPrefix_def)
next
  case (Inr cfg)
  have r: "resolve_segs M (splitChar CHR ''/'' path) rootNode s = (Inr n, s1)" using assms by (simp add: resolve_def)
  obtain segs where segs: "at_path cfg segs n" and seen: "fst (config M s1) = Inr cfg"
    using resolve_segs_at [OF r at_path.root _ Inr] splitChar_pieces by blast
  obtain s2 where s2: "resolve_segs M (segs @ []) rootNode s1 = resolve_segs M [] n s2" using resolve_segs_path [OF segs seen] by blast
  show ?thesis
  proof (cases "segs = []")
    case True
    with segs have "n = rootNode" by (cases rule: at_path.cases) auto
    then show ?thesis by (simp add: resolve_def pathOf_def node_defs hasPrefix_def)
  next
    case False
    have "n_kind n \<noteq> kRoot" using False at_path_segs [OF segs] by (subst (asm) path_segs.simps) auto
    then have "pathOf n = CHR ''/'' # joinStr ''/'' segs" using at_path_segs [OF segs] by (simp add: pathOf_def)
    moreover have "splitChar CHR ''/'' (joinStr ''/'' segs) = segs"
      using splitChar_joinStr [OF False] at_path_plain [OF segs] by (simp add: plain_seg_def)
    ultimately show ?thesis using s2 by (simp add: resolve_def hasPrefix_def)
  qed
qed

lemma path_resolves_witness:
  "\<exists>n s1. resolve dir_list_manager ''/iscsi/./iqn.t/..//iqn.t'' (NewShell None False saved_host) = (Inr n, s1)
     \<and> fst (resolve dir_list_manager (pathOf n) s1) = Inr n \<and> pathOf n = ''/iscsi/iqn.t''"
proof -
  let ?run = "resolve dir_list_manager ''/iscsi/./iqn.t/..//iqn.t'' (NewShell None False saved_host)"
  have "(case fst ?run of Inl e \<Rightarrow> False | Inr n \<Rightarrow> pathOf n = ''/iscsi/iqn.t'')" by code_simp
  then obtain n s1 where run: "?run = (Inr n, s1)" and p: "pathOf n = ''/iscsi/iqn.t''" by (cases ?run) (auto split: sum.splits)
  moreover have "fst (resolve dir_list_manager (pathOf n) s1) = Inr n" by (rule path_resolves [OF _ run]) code_simp
  ultimately show ?thesis by blast
qed

section \<open>The search for a free index\<close>

lemma free_from_returns:
  assumes "\<And>j. 0 \<le> j \<Longrightarrow> j < i \<Longrightarrow> j \<in> set used" and "0 \<le> i"
  shows "\<exists>j. free_from used i = Some j \<and> i \<le> j \<and> j \<notin> set used \<and> (\<forall>x. 0 \<le> x \<and> x < j \<longrightarrow> x \<in> set used)"
  using assms
proof (induction "card (set used - {0..<i})" arbitrary: i rule: less_induct)
  case less
  show ?case
  proof (cases "i \<in> set used")
    case True
    then have "set used - {0..<i + 1} \<subset> set used - {0..<i}" using less.prems(2) by auto
    then have "card (set used - {0..<i + 1}) < card (set used - {0..<i})" by (intro psubset_card_mono) simp_all
    moreover have "j \<in> set used" if "0 \<le> j" "j < i + 1" for j using that True less.prems(1) by (cases "j = i") auto
    ultimately obtain j where "free_from used (i + 1) = Some j" "i + 1 \<le> j" "j \<notin> set used" "\<forall>x. 0 \<le> x \<and> x < j \<longrightarrow> x \<in> set used"
      using less.hyps [of "i + 1"] less.prems(2) by auto
    then show ?thesis using True by (subst free_from.simps) auto
  next
    case False
    then show ?thesis using less.prems by (subst free_from.simps) auto
  qed
qed

text \<open>C37. The search for a free index, whose loop has no bound, always returns: the index is one that no backstore has,
  every lower one is taken, and it is at most the number of backstores.\<close>

theorem freeHBA_returns:
  "\<exists>i. freeHBA cfg = Some i \<and> i \<notin> set (map bs_HBA (cfg_Backstores cfg)) \<and> 0 \<le> i \<and> i \<le> int (length (cfg_Backstores cfg))
     \<and> {0..<i} \<subseteq> set (map bs_HBA (cfg_Backstores cfg))"
proof -
  let ?used = "map bs_HBA (cfg_Backstores cfg)"
  obtain i where i: "free_from ?used 0 = Some i" "0 \<le> i" "i \<notin> set ?used" "\<forall>x. 0 \<le> x \<and> x < i \<longrightarrow> x \<in> set ?used"
    using free_from_returns [of 0 ?used] by auto
  then have sub: "{0..<i} \<subseteq> set ?used" by auto
  then have "card {0..<i} \<le> card (set ?used)" by (intro card_mono) simp_all
  also have "\<dots> \<le> length (cfg_Backstores cfg)" using card_length [of ?used] by simp
  finally have "i \<le> int (length (cfg_Backstores cfg))" using i(2) by simp
  with i sub show ?thesis by (auto simp: freeHBA_def)
qed

section \<open>Edits\<close>

lemma mutate_exact:
  assumes "lawful (m_fs M)" and "mutate M edit s = (None, s')" and "object_dir q"
  shows "\<exists>cfg cfg'. Discover (live_view M s) = Inr cfg \<and> edit cfg = Inr cfg'
    \<and> (stands (m_fs M) (h_kern (s_host s')) q \<longleftrightarrow> q \<in> set (object_paths cfg'))"
proof -
  obtain cfg cfg' rep k where "Discover (live_view M s) = Inr cfg" "edit cfg = Inr cfg'"
    and sy: "Sync M cfg' (h_kern (s_host s)) = ((rep, None), k)" and "h_kern (s_host s') = k"
    using assms(2) by (auto simp: mutate_def invalidate_def Let_def split: sum.splits prod.splits option.splits)
  with Sync_leaves_desired [OF assms(1) sy assms(3)] show ?thesis by blast
qed

lemma object_paths_snoc: "object_paths (cfg\<lparr>cfg_Targets := cfg_Targets cfg @ [t]\<rparr>) = object_paths cfg @ target_paths t"
  by (simp add: object_paths_def)

text \<open>C26. Creating a target changes that and nothing else: when the command reports success, every object that stood still
  stands, and what stands is what discovery saw, the target, which is new, and its first portal group.\<close>

theorem create_target_exact:
  assumes "lawful (m_fs M)" and "n_kind (s_cwd s) = kISCSI" and "cmdCreate M [iqn] s = (None, s')" and "object_dir q"
  shows "(stands (m_fs M) (h_kern (s_host s)) q \<longrightarrow> stands (m_fs M) (h_kern (s_host s')) q)
    \<and> (\<exists>cfg. Discover (live_view M s) = Inr cfg \<and> iqn \<notin> set (map tgt_IQN (cfg_Targets cfg))
        \<and> (stands (m_fs M) (h_kern (s_host s')) q \<longleftrightarrow> q \<in> set (object_paths cfg) \<or> q = targetPath iqn \<or> q = tpgPath iqn 1))"
proof -
  have "mutate M (create_target_edit iqn) s = (None, s')" using assms(2,3) by (simp add: cmdCreate_def)
  from mutate_exact [OF assms(1) this assms(4)] obtain cfg cfg' where d: "Discover (live_view M s) = Inr cfg"
    and e: "create_target_edit iqn cfg = Inr cfg'" and st: "stands (m_fs M) (h_kern (s_host s')) q \<longleftrightarrow> q \<in> set (object_paths cfg')" by blast
  have "object_paths cfg' = object_paths cfg @ [targetPath iqn, tpgPath iqn 1]" and "iqn \<notin> set (map tgt_IQN (cfg_Targets cfg))"
    using e by (auto simp: create_target_edit_def object_paths_snoc target_paths_def tpg_paths_def zero_TPG_def split: if_splits)
  moreover have "stands (m_fs M) (h_kern (s_host s)) q \<longrightarrow> q \<in> set (object_paths cfg)"
    using Discover_complete [OF lawful_tree [OF assms(1)] d [unfolded live_view_def] assms(4)] by blast
  ultimately show ?thesis using d st by (intro conjI exI [of _ cfg]) auto
qed

definition iscsi_shell :: "path list Shell" where
  "iscsi_shell = (NewShell None False saved_host)\<lparr>s_cwd := node kISCSI ''iscsi''\<rparr>"

lemma create_target_exact_witness:
  "\<exists>s'. cmdCreate dir_list_manager [''iqn.u''] iscsi_shell = (None, s') \<and> stands dir_list_kernel (h_kern (s_host s')) (targetPath ''iqn.u'')
     \<and> stands dir_list_kernel (h_kern (s_host s')) (targetPath ''iqn.t'')"
proof -
  have "fst (cmdCreate dir_list_manager [''iqn.u''] iscsi_shell) = None" by code_simp
  then obtain s' where run: "cmdCreate dir_list_manager [''iqn.u''] iscsi_shell = (None, s')" by (metis prod.collapse)
  have fs: "m_fs dir_list_manager = dir_list_kernel" by (simp add: dir_list_manager_def)
  note exact = create_target_exact [of dir_list_manager iscsi_shell, unfolded fs, OF dir_list_lawful _ run]
  have obj: "object_dir (targetPath ''iqn.u'')" "object_dir (targetPath ''iqn.t'')" and k: "n_kind (s_cwd iscsi_shell) = kISCSI"
    by (auto simp: target_name_def iscsi_shell_def intro!: object_dir.fabric fabric_dir.intros)
  have "stands dir_list_kernel (h_kern (s_host iscsi_shell)) (targetPath ''iqn.t'')"
    by (simp add: dir_list_kernel_def dir_list_view_def dir_in_def saved_host_def targetPath_def iscsi_shell_def NewShell_def)
  with exact [OF k obj(1)] exact [OF k obj(2)] run show ?thesis by blast
qed

section \<open>A misspelled document\<close>

text \<open>
  A document whose only member is misspelled is refused by a restore, but \<open>apply\<close> reads it with the lenient reader, as
  the empty configuration, and clears the tree.
\<close>

lemma misspelled_apply_clears:
  "h_kern (s_host (snd (applyJSON M \<lparr>jt_values = JObj [(''backstors'', v)] # vs, jt_broken = b\<rparr> s))) = snd (Lio_Engine.Clear M (h_kern (s_host s)))"
proof -
  have "fold_name ''backstors'' \<noteq> fold_name ''backstores''" "fold_name ''backstors'' \<noteq> fold_name ''targets''" by code_simp+
  then have "get_Config False (JObj [(''backstors'', v)]) zero_Config = Some zero_Config"
    by (simp add: get_Config_def config_fields_def)
  then have "decode_stdin \<lparr>jt_values = JObj [(''backstors'', v)] # vs, jt_broken = b\<rparr> = Inr zero_Config"
    by (simp add: decode_stdin_def or_missing_def)
  then show ?thesis by (auto simp: applyJSON_def Clear_def zero_Config_def Let_def printf_def split: prod.splits option.splits)
qed

end
