(* ===== verification/Spec2Isabelle.thy ===== *)
theory Spec2Isabelle
  imports Scsi Appliance_Aptpl Appliance_Engine Appliance_Client Lish_Safe
begin

text \<open>
  A verification development for glitr, a small iSCSI storage appliance written in Go.

  \<^bold>\<open>The program.\<close> Package \<open>storage\<close> keeps the backing files of volumes and snapshots. Package \<open>appliance\<close>
  keeps the records of objects, hosts and connections in one database file, and a coordinator changes
  them one request at a time: it checks, mutates, translates the records to a desired configuration,
  writes the file, and reconciles the kernel with it. Package \<open>lio\<close> is the engine of the reconcile: it reads
  and writes the kernel's configfs tree through package \<open>configfs\<close> until the tree is the desired one, and
  restores, checks and reports the SCSI-3 persistent reservations that fence initiators from each
  other. Package \<open>scsi\<close> sends reservation and capacity commands over SG_IO. The appliance is driven over HTTP
  (rest.go). Without it, the shell \<open>lish\<close> edits the live tree through the same engine, and package \<open>saveconfig\<close>
  saves and restores it; a host-wide lock (\<open>hostlock\<close>) keeps the two writers apart.

  \<^bold>\<open>The theories.\<close>
  \<^item> \<open>Prelude\<close>: machine integers, results of fallible functions, big-endian integers, keyed lists.
    \<open>Go_Text\<close>: the functions of \<open>strings\<close> and \<open>strconv\<close> that the program uses.
  \<^item> \<open>Scsi\<close> (scsi/): CDBs, sense data, sending, the reservation commands, capacity.
  \<^item> \<open>Lio_Model\<close> (lio/model.go, paths.go, util.go, errors.go), \<open>Lio_Validate\<close> (validate.go), \<open>Netip\<close>
    (\<open>ParsePortal\<close> and the address parsers of \<open>net/netip\<close>), \<open>Portals\<close> (portal contention in sync.go and
    iscsi.go, and the portal check of the appliance).
  \<^item> \<open>Lio_Delta\<close>, \<open>Lio_Delta_Refine\<close> (delta.go): the incremental reconcile and what a delta means.
  \<^item> \<open>Configfs\<close> (lio/configfs/): the file layer. \<open>Lio_Reservation\<close> (prstate.go, isid.go, aptplcheck.go),
    \<open>Lio_Saved\<close> (aptplcheck.go, backstore.go), \<open>Lio_Stranded\<close> (stranded.go): the readers of the reservation
    state. \<open>Lio_Report\<close>: what the engine reports.
  \<^item> \<open>Lio_Discover\<close> and \<open>Lio_Engine\<close> (backstore.go, iscsi.go, removal.go, sync.go, config.go, delta.go): the
    engine, every read, decision and system call in the order of the code. \<open>Lio_Guard\<close>, \<open>Lio_Spare\<close>, \<open>Lio_Live\<close>
    and \<open>Lio_Exact\<close>: what it never does and what it achieves.
  \<^item> \<open>Storage\<close> (storage/).
  \<^item> \<open>Appliance_Model\<close> (model.go, name.go, errcode.go, loading), \<open>Appliance_Core\<close> (appliance.go, translate.go,
    backup.go), \<open>Appliance_Export\<close>, \<open>Appliance_Commit\<close>, \<open>Appliance_Hosts\<close> (hosts.go, ops.go),
    \<open>Appliance_Objects\<close> (objects.go), \<open>Appliance_Start\<close> (opening, identity.go, reinit.go, portals),
    \<open>Appliance_Clear\<close> (clearpr.go), \<open>Appliance_Aptpl\<close> (aptpl.go), \<open>Appliance_API\<close> (the operations as one state
    machine), \<open>Appliance_Engine\<close> (the coordinator on the engine).
  \<^item> \<open>Json\<close>: JSON values and the readers and writers of \<open>encoding/json\<close> that struct tags give. \<open>Saveconfig\<close>
    (saveconfig/, the tags of lio/model.go), \<open>Hostlock\<close> (hostlock/), \<open>Lish_Tree\<close> (lish/node.go and the paths of
    shell.go), \<open>Lish\<close> (lish/shell.go, commands.go, lock.go and cmd/lish), \<open>Lish_Safe\<close> (what the shell promises).
  \<^item> \<open>Appliance_Events\<close> (events.go), \<open>Appliance_Rest\<close> (rest.go), \<open>Appliance_Client\<close> (applianceclient/): the log of the
    health, the HTTP interface over the operations of the state machine, and its client.

  \<^bold>\<open>How state and operations correspond.\<close> A Go struct is a record with the same field names behind a short
  prefix; a method is a function from the state to its result and the state afterwards; an early return
  is a branch. A Go map that is only looked up is a function or an association list, and one that is
  iterated is iterated in the order the code sorts it. Errors are values: \<open>Error\<close> of package \<open>lio\<close> has its
  kind, operation, object and cause, and \<open>StatusError\<close> of the appliance its status and code; the wording
  of a message is kept only where code reads it. The coordinator's mutex makes its calls sequential, so
  a request is one step.

  The kernel is an argument (\<open>kernel\<close> of \<open>Configfs\<close>): what its files show is a function of its state, and each
  system call is a function to a result and a new state, so a theorem that quantifies over the kernel
  holds for every answer and every failure. Between two calls of one reconcile the state does not change
  by itself: the engine is the only writer of the tree, which the program ensures by a lock file. The
  operating system under the store and the database file takes the outcome of each call from a list of
  faults, so a theorem over that list covers every combination of failures. A step of the environment in
  \<open>Appliance_API\<close> changes both between requests.

  \<^bold>\<open>Locales.\<close> \<open>fixed_codec\<close> (integers on the wire), \<open>keyed_diff\<close> (one keyed list of a delta),
  \<open>safe_mutation\<close> and \<open>backed_mutation\<close> (what a mutation of the records must keep; every operation is an
  interpretation), \<open>removing_kernel\<close>, \<open>guarded_kernel\<close>, \<open>removal_guard\<close>, \<open>spare_guard\<close> (an invariant that the
  engine's system calls keep), \<open>making_kernel\<close> and \<open>clearing_kernel\<close> (a directory that the engine makes, or
  removes). The last are interpreted on the engine over an arbitrary kernel, with or without a log of
  its calls.

  \<^bold>\<open>What is shown.\<close> The groups are: the invariant of every reachable state of the appliance, and the atomicity of
  commits; the translation to a desired configuration, its validity, and what each initiator sees; that
  the reconcile leaves exactly the desired objects, removes none that is desired, and enables a device
  only with its reservations; that the readers of the kernel's text fail closed; that clearing a reservation
  and losing a fence are reported truthfully; round trips of the names, records and files; the static
  checks against their specifications; the store; that HTTP requests are steps of the appliance's state machine
  and their replies say what happened, and that a call of the client is the call of the coordinator; that the
  shell respects the lock, that its edits, saves and restores
  give the tree they describe, and that its one unbounded loop returns.

  \<^bold>\<open>Hypotheses.\<close> \<open>range_ok\<close>: iterating a Go map visits each key once. \<open>engine_ok\<close>: the engine answers as
  documented when the coordinator takes it as an argument. \<open>bootable\<close>, \<open>fresh_rand\<close>, \<open>room_for\<close>: the files of
  a start can be read, random identifiers are new, export indices are left. \<open>kernel_shows\<close>, \<open>kernel_reg_ok\<close>:
  the text the kernel prints. \<open>reads_state\<close>: the coordinator's reader is that of \<open>Lio_Reservation\<close>.
  \<open>steady_info\<close>: the info line of a device changes only through its control file. \<open>lawful\<close>: the
  directories of configfs, one law for each system call. \<open>clean_config\<close> and \<open>clean_call\<close>: text that JSON can
  carry, which is valid UTF-8. Every property that has one has a witness that
  satisfies it.

  \<^bold>\<open>Bounds.\<close> No definition needs fuel: loops are recursions on a list, or have a measure; the search of
  \<open>freeHBA\<close>, which the code does not bound, is a partial function that is proved to return. Integers are unbounded
  where the code's range is not reached, and the theorems about overflow are stated at the width.

  \<^bold>\<open>Not modelled.\<close> The set-up of the daemon and of the host, and the log handler: they read flags, or call
  the operating system. Timings and the text of
  messages decide nothing. The bytes of a JSON text and of the backing files are not modelled: a text is
  the values that it holds. The cleaning of a path belongs to \<open>net/http\<close>.
\<close>

section \<open>The coordinator on the readers of the library\<close>

text \<open>
  The coordinator takes the engine as an argument. Here the reader of the reservation state is the one
  of lio/prstate.go over the view that a kernel state gives of its files.
\<close>

definition reads_state :: "nat \<Rightarrow> ('k \<Rightarrow> view) \<Rightarrow> 'k env \<Rightarrow> bool" where
  "reads_state page tree env \<longleftrightarrow> (\<forall>b k. e_PRState env b k = read_PRState page (tree k) b)"

lemma unfenced_in_files:
  assumes "reads_state page tree env" and "read_unfenced env c u"
  shows "u \<notin> set (exported c) \<or> (\<exists>bs raw regs. bs_Name bs = backstoreName u
    \<and> ReadAttr (tree (c_kern c)) (pr_attr bs ''res_holder'') = Inr raw \<and> trimSpace (removeChar nul raw) = noHolder
    \<and> ReadAttr (tree (c_kern c)) (pr_attr bs ''res_pr_registered_i_pts'') = Inr regs \<and> parseRegistrations regs = ([], 0)
    \<and> int (length regs) < int page - int prMaxRegLine)"
proof (cases "u \<in> set (exported c)")
  case True
  then obtain bs st where bs: "bs_Name bs = backstoreName u" and st: "read_PRState page (tree (c_kern c)) bs = Inr st"
    "pr_HolderKnown st" "pr_Holder st = ''''" "pr_Registrations st = []" "\<not> pr_Truncated st"
    using assms by (auto simp: read_unfenced_def reads_state_def)
  obtain regs v where "ReadAttr (tree (c_kern c)) (pr_attr bs ''res_pr_registered_i_pts'') = Inr regs"
    "ReadAttr (tree (c_kern c)) (pr_attr bs ''res_holder'') = Inr v"
    "pr_Registrations st = fst (parseRegistrations regs)"
    "pr_Truncated st \<longleftrightarrow> snd (parseRegistrations regs) > 0 \<or> int (length regs) \<ge> int page - int prMaxRegLine"
    "pr_Holder st = fst (parseHolder v)" "pr_HolderKnown st = snd (snd (parseHolder v))"
    by (rule read_PRState_Inr [OF st(1)])
  moreover from calculation st have "trimSpace (removeChar nul v) = noHolder" using parseHolder_free_iff by metis
  moreover have "parseRegistrations regs = ([], 0)" using calculation st by (metis gr0I prod.collapse)
  ultimately show ?thesis using bs st by auto
qed simp

text \<open>C12. From the operator to the kernel's own words: when clearing a reservation reports success, and the object is
  still exported, the kernel's file names no holder, literally, and its list of registrations was read
  whole and is empty; and the saved record, which would bring the reservation back, is gone.\<close>

theorem clear_confirmed_by_kernel:
  assumes "ClearReservation env kind ref confirm c = ((out, None), c')" and "range_ok env" and "reads_state page tree env"
  shows "\<exists>v. resolveObject (c_st c) kind ref = Some v \<and> ob_Name v = confirm
    \<and> (ob_UUID v \<notin> set (exported c') \<or> (\<exists>bs raw regs. bs_Name bs = backstoreName (ob_UUID v)
        \<and> ReadAttr (tree (c_kern c')) (pr_attr bs ''res_holder'') = Inr raw \<and> trimSpace (removeChar nul raw) = noHolder
        \<and> ReadAttr (tree (c_kern c')) (pr_attr bs ''res_pr_registered_i_pts'') = Inr regs \<and> parseRegistrations regs = ([], 0)
        \<and> int (length regs) < int page - int prMaxRegLine))
    \<and> (ac_DBRoot (c_cfg c) \<noteq> '''' \<and> ob_WWN v \<noteq> '''' \<longrightarrow> aptpl_file (ob_WWN v) \<notin> set (c_prfiles c'))"
proof -
  obtain v where v: "resolveObject (c_st c) kind ref = Some v" "ob_Name v = confirm" "read_unfenced env c' (ob_UUID v)"
    "ac_DBRoot (c_cfg c) \<noteq> [] \<and> ob_WWN v \<noteq> [] \<longrightarrow> aptpl_file (ob_WWN v) \<notin> set (c_prfiles c')"
    by (rule ClearReservation_success [OF assms(1,2)])
  from unfenced_in_files [OF assms(3) v(3)] v(1,2,4) show ?thesis by blast
qed

definition reading_env :: "'k env" where
  "reading_env = idle_env\<lparr>e_PRState := (\<lambda>b k. read_PRState 4096 (demo_view (registrations_text 4096 []) noHolder) b)\<rparr>"

lemma reading_env_ok: "range_ok reading_env" "engine_ok reading_env" "reads_state 4096 (\<lambda>k. demo_view (registrations_text 4096 []) noHolder) reading_env"
  using range_ok_idle engine_ok_idle by (simp_all add: reading_env_def range_ok_def engine_ok_def reads_state_def)

lemma reading_env_unfenced: "demo_unfenced reading_env"
  unfolding demo_unfenced_def
proof (intro allI impI)
  fix b :: Backstore and k
  assume b: "bs_Type b = FileIO \<and> bs_Name b = backstoreName (ob_UUID demo_volume)"
  let ?fs = "demo_view (registrations_text 4096 []) noHolder"
  have "CHR ''/'' \<notin> set (itoa (bs_HBA b))" by (rule notin_itoa) (simp_all add: digit_val_def)
  then have v: "checkParts (pr_attr b a) = None" if "validSeg a" for a
    using b that by (auto simp: pr_attr_def objPath_def dirName_def validSeg_def backstoreName_def demo_volume_def removeChar_def)
  have t: "trimSuffix [newline] (registrations_text 4096 []) = reg_heading @ newline # ''None''"
    by (simp add: registrations_text_def reg_heading_def trimSuffix_def)
  have "ReadAttr ?fs (pr_attr b ''res_pr_registered_i_pts'') = Inr (reg_heading @ newline # ''None'')"
    "ReadAttr ?fs (pr_attr b ''res_holder'') = Inr noHolder"
    using v [of "''res_pr_registered_i_pts''"] v [of "''res_holder''"] t
    by (simp_all add: ReadAttr_def demo_view_def pr_attr_def validSeg_def trimSuffix_def)
  moreover have "parseRegistrations (reg_heading @ newline # ''None'') = ([], 0)"
  proof -
    have "splitChar newline (reg_heading @ newline # ''None'') = [reg_heading, ''None'']"
      by (simp add: reg_heading_def)
    then show ?thesis by (simp add: parseRegistrations_def heading_skipped)
  qed
  moreover have "parseHolder noHolder = ([], [], True)"
    using noHolder_plain by (simp add: parseHolder_def removeChar_def trimSpace_graphic graphic_def)
  ultimately have "\<exists>st. read_PRState 4096 ?fs b = Inr st \<and> pr_HolderKnown st \<and> pr_Holder st = [] \<and> pr_Registrations st = [] \<and> \<not> pr_Truncated st"
    by (simp add: read_PRState_def reg_heading_def)
  then show "\<exists>st. e_PRState reading_env b k = Inr st \<and> pr_HolderKnown st \<and> pr_Holder st = [] \<and> pr_Registrations st = [] \<and> \<not> pr_Truncated st"
    by (simp add: reading_env_def)
qed

lemma clear_confirmed_by_kernel_witness:
  "\<exists>out c' v. ClearReservation (reading_env :: unit env) KindVolume ''data'' ''data'' demo = ((out, None), c')
     \<and> resolveObject (c_st demo) KindVolume ''data'' = Some v \<and> ob_Name v = ''data''"
proof -
  obtain out c' where run: "ClearReservation (reading_env :: unit env) KindVolume ''data'' ''data'' demo = ((out, None), c')"
    using demo_clears [OF reading_env_ok(1,2) reading_env_unfenced] by blast
  from clear_confirmed_by_kernel [OF run reading_env_ok(1,3)] run show ?thesis by blast
qed

end
